(* ===== verification/Keydris_Prelude.thy ===== *)
theory Keydris_Prelude
  imports Main "HOL-Library.Char_ord" "HOL-Library.List_Lexorder"
begin

text \<open>
  What every component shares: the result type of the fallible Go functions, and the functions
  of Go's \<open>strings\<close>, \<open>bytes\<close>, \<open>strconv\<close> and \<open>encoding/hex\<close> packages
  that the modelled code calls. A Go string is a sequence of bytes, here \<open>string\<close> (a list of
  8-bit characters); a literal non-ASCII character of the source is written as its UTF-8 bytes.
  Case mapping (\<open>to_lower\<close>, \<open>equal_fold\<close>) is the ASCII part of Go's, plus the two
  non-ASCII letters that fold to ASCII ones; other non-ASCII letters are left alone.
\<close>

named_theorems go_simps \<open>unfolding rules for the Go library functions\<close>
named_theorems result_elims \<open>inversion of a successful fallible operation\<close>

section \<open>Results\<close>

text \<open>A Go pair \<open>(value, error)\<close>: \<open>Inl\<close> the error's text, \<open>Inr\<close> the value.\<close>

type_synonym 'a result = "string + 'a"

fun bind_result :: "'a result \<Rightarrow> ('a \<Rightarrow> 'b result) \<Rightarrow> 'b result" where
  "bind_result (Inl e) f = Inl e"
| "bind_result (Inr x) f = f x"

text \<open>\<open>if cond { return error }\<close>\<close>

definition fail_if :: "bool \<Rightarrow> string \<Rightarrow> unit result" where
  "fail_if c e = (if c then Inl e else Inr ())"

fun is_ok :: "'a result \<Rightarrow> bool" where
  "is_ok (Inl e) = False"
| "is_ok (Inr x) = True"

lemma bind_result_Inr [simp]:
  "bind_result m f = Inr y \<longleftrightarrow> (\<exists>x. m = Inr x \<and> f x = Inr y)"
  by (cases m) auto

lemma bind_result_Inl:
  "bind_result m f = Inl e \<longleftrightarrow> m = Inl e \<or> (\<exists>x. m = Inr x \<and> f x = Inl e)"
  by (cases m) auto

lemma fail_if_Inr [simp]: "fail_if c e = Inr u \<longleftrightarrow> \<not> c"
  by (simp add: fail_if_def)

lemma fail_if_Inl [simp]: "fail_if c e = Inl e' \<longleftrightarrow> c \<and> e' = e"
  by (auto simp: fail_if_def)

lemma is_ok_iff: "is_ok r \<longleftrightarrow> (\<exists>x. r = Inr x)"
  by (cases r) auto

text \<open>\<open>fmt.Errorf("...: %w", err)\<close>\<close>

fun wrap_error :: "string \<Rightarrow> 'a result \<Rightarrow> 'a result" where
  "wrap_error lbl (Inl e) = Inl (lbl @ e)"
| "wrap_error lbl (Inr x) = Inr x"

lemma wrap_error_Inr [simp]: "wrap_error lbl m = Inr x \<longleftrightarrow> m = Inr x"
  by (cases m) auto

lemma wrap_error_Inl: "wrap_error lbl m = Inl e \<longleftrightarrow> (\<exists>e'. m = Inl e' \<and> e = lbl @ e')"
  by (cases m) auto

text \<open>A \<open>for\<close> loop over a list that stops at the first error.\<close>

fun for_each :: "('a \<Rightarrow> 's \<Rightarrow> 's result) \<Rightarrow> 'a list \<Rightarrow> 's \<Rightarrow> 's result" where
  "for_each f [] s = Inr s"
| "for_each f (x # xs) s = bind_result (f x s) (for_each f xs)"

lemma for_each_invariant:
  assumes "for_each f xs s = Inr t" and "P s"
    and "\<And>x s s'. x \<in> set xs \<Longrightarrow> P s \<Longrightarrow> f x s = Inr s' \<Longrightarrow> P s'"
  shows "P t"
  using assms
proof (induction xs arbitrary: s)
  case Nil
  then show ?case by simp
next
  case (Cons x xs)
  from Cons.prems(1) obtain s1 where "f x s = Inr s1" and "for_each f xs s1 = Inr t"
    by auto
  with Cons.prems(2,3) show ?case
    by (intro Cons.IH [of s1]) auto
qed

text \<open>
  Package \<open>sort\<close>, by insertion: the code of the library's \<open>sort_key\<close> recurses on no pattern,
  which the simplifier's evaluation cannot stop on an unknown list.
\<close>

definition sort_on :: "('a \<Rightarrow> 'k :: linorder) \<Rightarrow> 'a list \<Rightarrow> 'a list" where
  "sort_on f xs = foldr (insort_key f) xs []"

lemma sort_on_eq: "sort_on f xs = sort_key f xs"
  by (simp add: sort_on_def sort_key_def)

lemma set_sort_on [simp]: "set (sort_on f xs) = set xs"
  by (simp add: sort_on_eq)

lemma sorted_sort_on [simp]: "sorted (map f (sort_on f xs))"
  by (simp add: sort_on_eq)

lemma sorted_sort_on_id [simp]: "sorted (sort_on id xs)"
  using sorted_sort_on [of id xs] by simp

lemma distinct_sort_on [simp]: "distinct (sort_on f xs) = distinct xs"
  by (simp add: sort_on_eq)

section \<open>Characters\<close>

definition byte :: "char \<Rightarrow> nat" where
  "byte c = of_char c"

definition is_digit :: "char \<Rightarrow> bool" where
  "is_digit c \<longleftrightarrow> 48 \<le> byte c \<and> byte c \<le> 57"

definition is_lower :: "char \<Rightarrow> bool" where
  "is_lower c \<longleftrightarrow> 97 \<le> byte c \<and> byte c \<le> 122"

definition is_upper :: "char \<Rightarrow> bool" where
  "is_upper c \<longleftrightarrow> 65 \<le> byte c \<and> byte c \<le> 90"

definition is_alnum :: "char \<Rightarrow> bool" where
  "is_alnum c \<longleftrightarrow> is_digit c \<or> is_lower c \<or> is_upper c"

definition is_hex :: "char \<Rightarrow> bool" where
  "is_hex c \<longleftrightarrow> is_digit c \<or> (97 \<le> byte c \<and> byte c \<le> 102) \<or> (65 \<le> byte c \<and> byte c \<le> 70)"

definition lower_char :: "char \<Rightarrow> char" where
  "lower_char c = (if is_upper c then char_of (byte c + 32) else c)"

definition upper_char :: "char \<Rightarrow> char" where
  "upper_char c = (if is_lower c then char_of (byte c - 32) else c)"

definition hex_val :: "char \<Rightarrow> nat" where
  "hex_val c = (if is_digit c then byte c - 48
     else if 97 \<le> byte c then byte c - 87 else byte c - 55)"

definition hex_digit :: "nat \<Rightarrow> char" where
  "hex_digit n = char_of (if n < 10 then 48 + n else 87 + n)"

section \<open>Package strings\<close>

definition has_prefix :: "string \<Rightarrow> string \<Rightarrow> bool" where
  "has_prefix s p \<longleftrightarrow> take (length p) s = p"

definition has_suffix :: "string \<Rightarrow> string \<Rightarrow> bool" where
  "has_suffix s p \<longleftrightarrow> has_prefix (rev s) (rev p)"

definition trim_prefix :: "string \<Rightarrow> string \<Rightarrow> string" where
  "trim_prefix s p = (if has_prefix s p then drop (length p) s else s)"

definition trim_suffix :: "string \<Rightarrow> string \<Rightarrow> string" where
  "trim_suffix s p = (if has_suffix s p then take (length s - length p) s else s)"

text \<open>\<open>strings.Contains\<close>\<close>

fun contains :: "string \<Rightarrow> string \<Rightarrow> bool" where
  "contains [] p \<longleftrightarrow> p = []"
| "contains (c # s) p \<longleftrightarrow> has_prefix (c # s) p \<or> contains s p"

text \<open>\<open>strings.ContainsAny\<close> with an ASCII cutset\<close>

definition contains_any :: "string \<Rightarrow> string \<Rightarrow> bool" where
  "contains_any s cs \<longleftrightarrow> (\<exists>c\<in>set s. c \<in> set cs)"

text \<open>\<open>strings.Split\<close> by a one-byte separator: never empty.\<close>

fun split_on :: "char \<Rightarrow> string \<Rightarrow> string list" where
  "split_on d [] = [[]]"
| "split_on d (c # s) =
     (if c = d then [] # split_on d s
      else (case split_on d s of [] \<Rightarrow> [[c]] | p # ps \<Rightarrow> (c # p) # ps))"

text \<open>\<open>strings.Cut\<close> by a one-byte separator: \<open>(before, after, found)\<close>.\<close>

fun cut_at :: "char \<Rightarrow> string \<Rightarrow> string \<times> string \<times> bool" where
  "cut_at d [] = ([], [], False)"
| "cut_at d (c # s) =
     (if c = d then ([], s, True)
      else (case cut_at d s of (b, a, f) \<Rightarrow> (c # b, a, f)))"

definition to_lower :: "string \<Rightarrow> string" where
  "to_lower s = map lower_char s"

definition to_upper :: "string \<Rightarrow> string" where
  "to_upper s = map upper_char s"

text \<open>\<open>strings.Trim\<close> with an ASCII cutset\<close>

definition trim_set :: "string \<Rightarrow> string \<Rightarrow> string" where
  "trim_set cs s = rev (dropWhile (\<lambda>c. c \<in> set cs) (rev (dropWhile (\<lambda>c. c \<in> set cs) s)))"

definition repeat_string :: "string \<Rightarrow> nat \<Rightarrow> string" where
  "repeat_string s n = concat (replicate n s)"

text \<open>
  The white space of \<open>unicode.IsSpace\<close>, in UTF-8: the six ASCII ones, U+0085, U+00A0,
  U+1680, U+2000 to U+200A, U+2028, U+2029, U+202F, U+205F and U+3000.
\<close>

definition go_spaces :: "string list" where
  "go_spaces =
     [[CHR 0x20], [CHR 0x09], [CHR 0x0A], [CHR 0x0B], [CHR 0x0C], [CHR 0x0D],
      [CHR 0xC2, CHR 0x85], [CHR 0xC2, CHR 0xA0], [CHR 0xE1, CHR 0x9A, CHR 0x80]]
     @ map (\<lambda>n. [CHR 0xE2, CHR 0x80, char_of n]) ([128..<139] @ [168, 169, 175])
     @ [[CHR 0xE2, CHR 0x81, CHR 0x9F], [CHR 0xE3, CHR 0x80, CHR 0x80]]"

lemma go_spaces_code [code]:
  "go_spaces =
     [[CHR 0x20], [CHR 0x09], [CHR 0x0A], [CHR 0x0B], [CHR 0x0C], [CHR 0x0D], [CHR 0xC2, CHR 0x85],
      [CHR 0xC2, CHR 0xA0], [CHR 0xE1, CHR 0x9A, CHR 0x80], [CHR 0xE2, CHR 0x80, CHR 0x80],
      [CHR 0xE2, CHR 0x80, CHR 0x81], [CHR 0xE2, CHR 0x80, CHR 0x82], [CHR 0xE2, CHR 0x80, CHR 0x83],
      [CHR 0xE2, CHR 0x80, CHR 0x84], [CHR 0xE2, CHR 0x80, CHR 0x85], [CHR 0xE2, CHR 0x80, CHR 0x86],
      [CHR 0xE2, CHR 0x80, CHR 0x87], [CHR 0xE2, CHR 0x80, CHR 0x88], [CHR 0xE2, CHR 0x80, CHR 0x89],
      [CHR 0xE2, CHR 0x80, CHR 0x8A], [CHR 0xE2, CHR 0x80, CHR 0xA8], [CHR 0xE2, CHR 0x80, CHR 0xA9],
      [CHR 0xE2, CHR 0x80, CHR 0xAF], [CHR 0xE2, CHR 0x81, CHR 0x9F], [CHR 0xE3, CHR 0x80, CHR 0x80]]"
  by code_simp

text \<open>Leading white space, by at most as many steps as there are bytes.\<close>

fun trim_loop :: "nat \<Rightarrow> string list \<Rightarrow> string \<Rightarrow> string" where
  "trim_loop 0 ws s = s"
| "trim_loop (Suc n) ws s =
     (case find (\<lambda>w. w \<noteq> [] \<and> has_prefix s w) ws of
        None \<Rightarrow> s
      | Some w \<Rightarrow> trim_loop n ws (drop (length w) s))"

definition trim_left_of :: "string list \<Rightarrow> string \<Rightarrow> string" where
  "trim_left_of ws s = trim_loop (length s) ws s"

text \<open>\<open>strings.TrimSpace\<close> and \<open>bytes.TrimSpace\<close>\<close>

definition trim_space :: "string \<Rightarrow> string" where
  "trim_space s = rev (trim_left_of (map rev go_spaces) (rev (trim_left_of go_spaces s)))"

text \<open>The first bytes of a slice, by a Go \<open>int\<close> (a negative one takes nothing).\<close>

fun take_int :: "int \<Rightarrow> string \<Rightarrow> string" where
  "take_int n [] = []"
| "take_int n (c # s) = (if n \<le> 0 then [] else c # take_int (n - 1) s)"

section \<open>Folding\<close>

text \<open>
  The two non-ASCII letters whose simple folding is ASCII: U+212A (Kelvin sign, folds to k) and
  U+017F (long s, folds to s). They matter because \<open>encoding/json\<close> matches field names, and
  \<open>strings.EqualFold\<close> routing keys, under this folding.
\<close>

fun fold_name :: "string \<Rightarrow> string" where
  "fold_name [] = []"
| "fold_name [c] = [upper_char c]"
| "fold_name [c, d] =
     (if c = CHR 0xC5 \<and> d = CHR 0xBF then [CHR ''S''] else upper_char c # fold_name [d])"
| "fold_name (c # d # e # s) =
     (if c = CHR 0xC5 \<and> d = CHR 0xBF then CHR ''S'' # fold_name (e # s)
      else if c = CHR 0xE2 \<and> d = CHR 0x84 \<and> e = CHR 0xAA then CHR ''K'' # fold_name s
      else upper_char c # fold_name (d # e # s))"

definition equal_fold :: "string \<Rightarrow> string \<Rightarrow> bool" where
  "equal_fold s t \<longleftrightarrow> fold_name s = fold_name t"

section \<open>Package strconv\<close>

fun nat_to_dec :: "nat \<Rightarrow> string" where
  "nat_to_dec n = (if n < 10 then [char_of (48 + n)]
     else nat_to_dec (n div 10) @ [char_of (48 + n mod 10)])"

declare nat_to_dec.simps [simp del]

text \<open>\<open>strconv.Itoa\<close>\<close>

definition itoa :: "int \<Rightarrow> string" where
  "itoa i = (if i < 0 then CHR ''-'' # nat_to_dec (nat (- i)) else nat_to_dec (nat i))"

text \<open>Decimal digits by the binary length of the number.\<close>

fun dec_loop :: "num \<Rightarrow> int \<Rightarrow> string" where
  "dec_loop num.One n = [char_of (48 + nat n)]"
| "dec_loop (num.Bit0 k) n = (if n < 10 then [char_of (48 + nat n)] else dec_loop k (n div 10) @ [char_of (48 + nat (n mod 10))])"
| "dec_loop (num.Bit1 k) n = (if n < 10 then [char_of (48 + nat n)] else dec_loop k (n div 10) @ [char_of (48 + nat (n mod 10))])"

lemma nat_to_dec_int:
  assumes "0 \<le> n"
  shows "nat_to_dec (nat n) = (if n < 10 then [char_of (48 + nat n)]
    else nat_to_dec (nat (n div 10)) @ [char_of (48 + nat (n mod 10))])"
proof -
  from assms have "nat n div 10 = nat (n div 10)" "nat n mod 10 = nat (n mod 10)"
    by (simp_all add: nat_div_distrib nat_mod_distrib)
  moreover from assms have "nat n < 10 \<longleftrightarrow> n < 10" by linarith
  ultimately show ?thesis by (subst nat_to_dec.simps) metis
qed

lemma tenth_bound:
  fixes n c :: int
  assumes "0 \<le> n" and "n \<le> 4 * c + 1" and "1 \<le> c"
  shows "0 \<le> n div 10" and "n div 10 \<le> 2 * c - 1"
proof -
  from assms have "n < (2 * c) * 10" by linarith
  then have "n div 10 < 2 * c" by (simp add: div_less_iff_less_mult)
  then show "n div 10 \<le> 2 * c - 1" by simp
  from assms show "0 \<le> n div 10" by (simp add: pos_imp_zdiv_nonneg_iff)
qed

lemma dec_loop_nat_to_dec:
  "0 \<le> n \<Longrightarrow> n \<le> 2 * numeral k - 1 \<Longrightarrow> dec_loop k n = nat_to_dec (nat n)"
proof (induction k arbitrary: n)
  case One
  then show ?case by (simp add: nat_to_dec_int)
next
  case (Bit0 k)
  have "(numeral (num.Bit0 k) :: int) = numeral k + numeral k" by (rule numeral_Bit0)
  with Bit0.prems have "n \<le> 4 * numeral k + 1" by linarith
  from tenth_bound [OF Bit0.prems(1) this one_le_numeral] Bit0.prems(1) show ?case
    by (simp only: dec_loop.simps nat_to_dec_int Bit0.IH)
next
  case (Bit1 k)
  have "(numeral (num.Bit1 k) :: int) = numeral k + numeral k + 1" by (rule numeral_Bit1)
  with Bit1.prems have "n \<le> 4 * numeral k + 1" by linarith
  from tenth_bound [OF Bit1.prems(1) this one_le_numeral] Bit1.prems(1) show ?case
    by (simp only: dec_loop.simps nat_to_dec_int Bit1.IH)
qed

lemma itoa_code [code]:
  "itoa 0 = ''0''"
  "itoa (Int.Pos k) = dec_loop k (Int.Pos k)"
  "itoa (Int.Neg k) = CHR ''-'' # dec_loop k (Int.Pos k)"
proof -
  have "nat_to_dec 0 = [char_of (48 :: nat)]" by (subst nat_to_dec.simps) simp
  moreover have "[char_of (48 :: nat)] = ''0''" by code_simp
  ultimately have "nat_to_dec 0 = ''0''" by (rule trans)
  then show "itoa 0 = ''0''" by (simp add: itoa_def)
  have "1 \<le> (numeral k :: int)" by simp
  then have "(numeral k :: int) \<le> 2 * numeral k - 1" by linarith
  from dec_loop_nat_to_dec [OF _ this] have k: "dec_loop k (numeral k) = nat_to_dec (numeral k)" by simp
  show "itoa (Int.Pos k) = dec_loop k (Int.Pos k)" by (simp add: itoa_def k)
  show "itoa (Int.Neg k) = CHR ''-'' # dec_loop k (Int.Pos k)" by (simp add: itoa_def k)
qed
definition digits_val :: "string \<Rightarrow> nat" where
  "digits_val s = foldl (\<lambda>n c. 10 * n + (byte c - 48)) 0 s"

text \<open>\<open>strconv.Atoi\<close> on a 64-bit platform: optional sign, digits, range check.\<close>

definition atoi :: "string \<Rightarrow> int option" where
  "atoi s =
     (let neg = has_prefix s ''-'';
          ds = (if neg \<or> has_prefix s ''+'' then tl s else s);
          v = (if neg then - int (digits_val ds) else int (digits_val ds))
      in if ds = [] \<or> \<not> list_all is_digit ds \<or> v < - (2 ^ 63) \<or> 2 ^ 63 \<le> v
         then None else Some v)"

text \<open>\<open>hex.EncodeToString\<close>\<close>

definition hex_encode :: "string \<Rightarrow> string" where
  "hex_encode s = concat (map (\<lambda>c. [hex_digit (byte c div 16), hex_digit (byte c mod 16)]) s)"

section \<open>Facts about strings\<close>

lemma take_int_eq: "take_int n s = take (nat n) s"
  by (induction s arbitrary: n) (auto simp: take_Cons' nat_diff_distrib')

lemma length_take_int: "length (take_int n s) = min (nat n) (length s)"
  by (simp add: take_int_eq)

lemma take_int_all: "int (length s) \<le> n \<Longrightarrow> take_int n s = s"
  by (simp add: take_int_eq)

lemma has_prefix_Nil [simp]: "has_prefix s []"
  by (simp add: has_prefix_def)

lemma has_prefix_Nil_iff [simp]: "has_prefix [] p \<longleftrightarrow> p = []"
  by (auto simp: has_prefix_def)

lemma has_prefix_Cons [simp]:
  "has_prefix (c # s) (d # p) \<longleftrightarrow> c = d \<and> has_prefix s p"
  by (auto simp: has_prefix_def)

lemma has_prefix_iff: "has_prefix s p \<longleftrightarrow> (\<exists>t. s = p @ t)"
  by (metis append_eq_conv_conj append_take_drop_id has_prefix_def)

lemma has_prefix_append [simp]: "has_prefix (p @ s) p"
  by (auto simp: has_prefix_iff)

lemma has_suffix_iff: "has_suffix s p \<longleftrightarrow> (\<exists>t. s = t @ p)"
  by (metis has_prefix_iff has_suffix_def rev_append rev_rev_ident)

lemma length_trim_loop: "length (trim_loop n ws s) \<le> length s"
proof (induction n ws s rule: trim_loop.induct)
  case (2 n ws s)
  have "length (trim_loop n ws (drop (length w) s)) \<le> length s"
    if "find (\<lambda>w. w \<noteq> [] \<and> has_prefix s w) ws = Some w" for w
    using 2 [OF that] by simp
  then show ?case by (simp split: option.split)
qed simp

lemma trim_loop_done:
  "length s \<le> n \<Longrightarrow> w \<in> set ws \<Longrightarrow> w \<noteq> [] \<Longrightarrow> \<not> has_prefix (trim_loop n ws s) w"
proof (induction n ws s rule: trim_loop.induct)
  case (1 ws s)
  then show ?case by (simp add: has_prefix_def)
next
  case (2 n ws s)
  show ?case
  proof (cases "find (\<lambda>w. w \<noteq> [] \<and> has_prefix s w) ws")
    case None
    with 2(3,4) have "\<not> has_prefix s w" by (auto simp: find_None_iff)
    with None show ?thesis by simp
  next
    case (Some v)
    then have "v \<noteq> []" by (auto simp: find_Some_iff)
    then have "length (drop (length v) s) \<le> n" using 2(2) by (cases v) auto
    from 2(1) [OF Some this 2(3,4)] Some show ?thesis by simp
  qed
qed

lemma length_trim_left_of: "length (trim_left_of ws s) \<le> length s"
  by (simp add: trim_left_of_def length_trim_loop)

lemma trim_left_of_done: "w \<in> set ws \<Longrightarrow> w \<noteq> [] \<Longrightarrow> \<not> has_prefix (trim_left_of ws s) w"
  by (simp add: trim_left_of_def trim_loop_done)

lemma contains_iff: "contains s p \<longleftrightarrow> (\<exists>a b. s = a @ p @ b)"
proof (induction s)
  case Nil
  show ?case by auto
next
  case (Cons c s)
  show ?case
  proof
    assume "contains (c # s) p"
    then consider "has_prefix (c # s) p" | "contains s p" by auto
    then show "\<exists>a b. c # s = a @ p @ b"
    proof cases
      case 1
      then obtain t where "c # s = [] @ p @ t" by (auto simp: has_prefix_iff)
      then show ?thesis by blast
    next
      case 2
      with Cons.IH obtain a b where "c # s = (c # a) @ p @ b" by auto
      then show ?thesis by blast
    qed
  next
    assume "\<exists>a b. c # s = a @ p @ b"
    then obtain a b where ab: "c # s = a @ p @ b" by blast
    show "contains (c # s) p"
    proof (cases a)
      case Nil
      with ab have "has_prefix (c # s) p" by (auto simp: has_prefix_iff)
      then show ?thesis by simp
    next
      case (Cons x a')
      with ab Cons.IH show ?thesis by auto
    qed
  qed
qed

lemma split_on_nonempty [simp]: "split_on d s \<noteq> []"
  by (induction s) (auto split: list.splits)

lemma cut_at_found: "cut_at d s = (b, a, f) \<Longrightarrow> s = (if f then b @ d # a else b) \<and> d \<notin> set b"
  by (induction s arbitrary: b a) (auto split: if_splits prod.splits)

lemma length_fold_name: "length (fold_name s) \<le> length s"
  by (induction s rule: fold_name.induct) auto

lemma equal_fold_refl [simp]: "equal_fold s s"
  by (simp add: equal_fold_def)

lemma equal_fold_sym: "equal_fold s t \<Longrightarrow> equal_fold t s"
  by (simp add: equal_fold_def)

lemma equal_fold_trans: "equal_fold s t \<Longrightarrow> equal_fold t u \<Longrightarrow> equal_fold s u"
  by (simp add: equal_fold_def)

lemma lower_char_idem [simp]: "lower_char (lower_char c) = lower_char c"
  by (cases c) (auto simp: lower_char_def is_upper_def byte_def)

lemma to_lower_idem [simp]: "to_lower (to_lower s) = to_lower s"
  by (simp add: to_lower_def)

lemma length_to_lower [simp]: "length (to_lower s) = length s"
  by (simp add: to_lower_def)

end
