(* ===== verification/Strconv.thy ===== *)
theory Strconv
  imports Keydris_Prelude
begin

text \<open>
  Facts about \<^verbatim>\<open>strconv\<close> and \<^verbatim>\<open>encoding/hex\<close> that several components share: a printed
  number is read back, printing is injective, and neither decimal nor hexadecimal text has a newline.
\<close>

section \<open>Numbers\<close>

lemma digit_char:
  "d < 10 \<Longrightarrow> byte (char_of (48 + d)) = 48 + d \<and> is_digit (char_of (48 + d))"
  by (auto simp: byte_def is_digit_def)

lemma nat_to_dec_digits:
  "list_all is_digit (nat_to_dec n) \<and> digits_val (nat_to_dec n) = n \<and> nat_to_dec n \<noteq> []"
proof (induction n rule: nat_to_dec.induct)
  case (1 n)
  show ?case
  proof (cases "n < 10")
    case True
    then show ?thesis by (subst (1 2 3) nat_to_dec.simps) (simp add: digits_val_def digit_char)
  next
    case False
    with 1 show ?thesis
      by (subst (1 2 3) nat_to_dec.simps) (simp add: digits_val_def digit_char)
  qed
qed

lemma digit_not_sign: "is_digit c \<Longrightarrow> c \<noteq> CHR ''-'' \<and> c \<noteq> CHR ''+'' \<and> c \<noteq> CHR '':'' \<and> c \<noteq> CHR '']''
    \<and> c \<noteq> CHR ''['' \<and> c \<noteq> CHR ''/''"
  by (auto simp: is_digit_def byte_def)

lemma atoi_itoa:
  assumes "0 \<le> n" and "n < 2 ^ 63"
  shows "atoi (itoa n) = Some n"
proof -
  have d: "list_all is_digit (nat_to_dec (nat n))" "digits_val (nat_to_dec (nat n)) = nat n" "nat_to_dec (nat n) \<noteq> []"
    using nat_to_dec_digits by blast+
  then obtain c t where ct: "nat_to_dec (nat n) = c # t" "is_digit c" by (cases "nat_to_dec (nat n)") auto
  with digit_not_sign have "\<not> has_prefix (c # t) ''-''" "\<not> has_prefix (c # t) ''+''" by auto
  with ct d assms show ?thesis by (simp add: atoi_def itoa_def)
qed

lemma itoa_inj:
  assumes "0 \<le> a" and "0 \<le> b" and "itoa a = itoa b"
  shows "a = b"
proof -
  from assms have "nat_to_dec (nat a) = nat_to_dec (nat b)" by (simp add: itoa_def)
  with nat_to_dec_digits [of "nat a"] nat_to_dec_digits [of "nat b"] have "nat a = nat b" by metis
  with assms(1,2) show ?thesis by simp
qed

lemma itoa_no_newline: "0 \<le> n \<Longrightarrow> CHR 0x0A \<notin> set (itoa n)"
proof
  assume "0 \<le> n" and "CHR 0x0A \<in> set (itoa n)"
  with nat_to_dec_digits [of "nat n"] have "is_digit (CHR 0x0A)" by (auto simp: itoa_def list_all_iff)
  then show False by (simp add: is_digit_def byte_def)
qed

lemma hex_digit_no_newline: "n < 16 \<Longrightarrow> hex_digit n \<noteq> CHR 0x0A"
proof
  assume n: "n < 16" and "hex_digit n = CHR 0x0A"
  then have "of_char (hex_digit n) = (10 :: nat)" by simp
  moreover have "of_char (hex_digit n) = (if n < 10 then 48 + n else 87 + n)" using n by (simp add: hex_digit_def)
  ultimately show False by (auto split: if_splits)
qed

lemma hex_encode_digits: "set (hex_encode s) \<subseteq> hex_digit ` {n. n < 16}"
proof -
  have "byte c div 16 < 16" for c by (simp add: byte_def less_mult_imp_div_less)
  then show ?thesis by (auto simp: hex_encode_def)
qed

lemma hex_no_newline: "CHR 0x0A \<notin> set (hex_encode s)"
proof
  assume "CHR 0x0A \<in> set (hex_encode s)"
  with hex_encode_digits [of s] obtain n where n: "n < 16" "CHR 0x0A = hex_digit n" by blast
  from hex_digit_no_newline [OF n(1)] n(2) show False by (rule notE [OF _ sym])
qed

end
