(* ===== verification/Go_Json.thy ===== *)
theory Go_Json
  imports Keydris_Prelude
begin

text \<open>
  Go's \<open>encoding/json\<close>, as far as the modelled code uses it. \<open>lex\<close> is the byte-at-a-time
  scanner; \<open>parse_value\<close> the grammar over its tokens, giving a value that keeps the raw text of
  every part (what \<open>json.RawMessage\<close> captures); \<open>dec_token\<close> and \<open>dec_more\<close> are
  \<open>Decoder.Token\<close> and \<open>Decoder.More\<close> with their token state;
  \<open>decode_struct\<close> fills a Go struct field by field, matching names first exactly and then under
  folding; \<open>marshal\<close> prints values. Lemmas: the scanner loses no byte, and the raw text of a
  parsed value is what the parser consumed.
\<close>

section \<open>The scanner\<close>

datatype jtok = TPunct char | TString string | TLit string | TSpace char | TBad

text \<open>
  Scanner states. The accumulated text of a string or literal token is kept reversed.
  \<open>NNeg\<close>, \<open>NZero\<close>, \<open>NInt\<close>, \<open>NDot\<close>, \<open>NFrac\<close>, \<open>NExp\<close>, \<open>NExpSign\<close> and
  \<open>NExpDigits\<close> are \<open>stateNeg\<close>, \<open>state0\<close>, \<open>state1\<close>, \<open>stateDot\<close>,
  \<open>stateDot0\<close>, \<open>stateE\<close>, \<open>stateESign\<close> and \<open>stateE0\<close> of Go's scanner.
\<close>

datatype numstate = NNeg | NZero | NInt | NDot | NFrac | NExp | NExpSign | NExpDigits

datatype lmode =
    LTop
  | LStr string
  | LEsc string
  | LHex nat string
  | LWord string string
  | LNum numstate string
  | LDead

definition json_space :: "char \<Rightarrow> bool" where
  "json_space c \<longleftrightarrow> c = CHR 0x20 \<or> c = CHR 0x09 \<or> c = CHR 0x0D \<or> c = CHR 0x0A"

definition top_step :: "char \<Rightarrow> jtok list \<times> lmode" where
  "top_step c =
     (if json_space c then ([TSpace c], LTop)
      else if c \<in> set ''{}[]:,'' then ([TPunct c], LTop)
      else if c = CHR 0x22 then ([], LStr [c])
      else if c = CHR ''-'' then ([], LNum NNeg [c])
      else if c = CHR ''0'' then ([], LNum NZero [c])
      else if is_digit c then ([], LNum NInt [c])
      else if c = CHR ''t'' then ([], LWord ''rue'' [c])
      else if c = CHR ''f'' then ([], LWord ''alse'' [c])
      else if c = CHR ''n'' then ([], LWord ''ull'' [c])
      else ([TBad], LDead))"

definition num_final :: "numstate \<Rightarrow> bool" where
  "num_final n \<longleftrightarrow> n = NZero \<or> n = NInt \<or> n = NFrac \<or> n = NExpDigits"

fun num_step :: "numstate \<Rightarrow> char \<Rightarrow> numstate option" where
  "num_step NNeg c = (if c = CHR ''0'' then Some NZero else if is_digit c then Some NInt else None)"
| "num_step NZero c = (if c = CHR ''.'' then Some NDot
     else if c = CHR ''e'' \<or> c = CHR ''E'' then Some NExp else None)"
| "num_step NInt c = (if is_digit c then Some NInt else if c = CHR ''.'' then Some NDot
     else if c = CHR ''e'' \<or> c = CHR ''E'' then Some NExp else None)"
| "num_step NDot c = (if is_digit c then Some NFrac else None)"
| "num_step NFrac c = (if is_digit c then Some NFrac
     else if c = CHR ''e'' \<or> c = CHR ''E'' then Some NExp else None)"
| "num_step NExp c = (if c = CHR ''+'' \<or> c = CHR ''-'' then Some NExpSign
     else if is_digit c then Some NExpDigits else None)"
| "num_step NExpSign c = (if is_digit c then Some NExpDigits else None)"
| "num_step NExpDigits c = (if is_digit c then Some NExpDigits else None)"

fun lex_step :: "lmode \<Rightarrow> char \<Rightarrow> jtok list \<times> lmode" where
  "lex_step LTop c = top_step c"
| "lex_step (LStr acc) c =
     (if c = CHR 0x22 then ([TString (rev (c # acc))], LTop)
      else if c = CHR 0x5C then ([], LEsc (c # acc))
      else if byte c < 32 then ([TBad], LDead)
      else ([], LStr (c # acc)))"
| "lex_step (LEsc acc) c =
     (if c = CHR ''u'' then ([], LHex 4 (c # acc))
      else if c \<in> set [CHR 0x22, CHR 0x5C, CHR ''/'', CHR ''b'', CHR ''f'', CHR ''n'', CHR ''r'', CHR ''t'']
      then ([], LStr (c # acc)) else ([TBad], LDead))"
| "lex_step (LHex n acc) c =
     (if is_hex c then ([], if n \<le> 1 then LStr (c # acc) else LHex (n - 1) (c # acc))
      else ([TBad], LDead))"
| "lex_step (LWord w acc) c =
     (case w of
        [] \<Rightarrow> ([TBad], LDead)
      | d # w' \<Rightarrow> if c \<noteq> d then ([TBad], LDead)
          else if w' = [] then ([TLit (rev (c # acc))], LTop) else ([], LWord w' (c # acc)))"
| "lex_step (LNum n acc) c =
     (case num_step n c of
        Some n' \<Rightarrow> ([], LNum n' (c # acc))
      | None \<Rightarrow> if num_final n then (case top_step c of (ts, m) \<Rightarrow> (TLit (rev acc) # ts, m))
          else ([TBad], LDead))"
| "lex_step LDead c = ([], LDead)"

text \<open>End of input: a number may end here, an open string or word is an error.\<close>

fun lex_end :: "lmode \<Rightarrow> jtok list" where
  "lex_end LTop = []"
| "lex_end LDead = []"
| "lex_end (LNum n acc) = (if num_final n then [TLit (rev acc)] else [TBad])"
| "lex_end (LStr _) = [TBad]"
| "lex_end (LEsc _) = [TBad]"
| "lex_end (LHex _ _) = [TBad]"
| "lex_end (LWord _ _) = [TBad]"

fun lex_from :: "lmode \<Rightarrow> string \<Rightarrow> jtok list" where
  "lex_from m [] = lex_end m"
| "lex_from m (c # cs) = (case lex_step m c of (ts, m') \<Rightarrow> ts @ lex_from m' cs)"

definition lex :: "string \<Rightarrow> jtok list" where
  "lex s = lex_from LTop s"

fun tok_raw :: "jtok \<Rightarrow> string" where
  "tok_raw (TPunct c) = [c]"
| "tok_raw (TString r) = r"
| "tok_raw (TLit r) = r"
| "tok_raw (TSpace c) = [c]"
| "tok_raw TBad = []"

definition toks_raw :: "jtok list \<Rightarrow> string" where
  "toks_raw ts = concat (map tok_raw ts)"

section \<open>UTF-8 and string literals\<close>

definition cont :: "char \<Rightarrow> bool" where
  "cont c \<longleftrightarrow> 128 \<le> byte c \<and> byte c \<le> 191"

text \<open>\<open>utf8.DecodeRune\<close>: the length of the well-formed sequence at the front, 0 if none.\<close>

fun utf8_size :: "string \<Rightarrow> nat" where
  "utf8_size [] = 0"
| "utf8_size (a # s) =
     (let x = byte a in
      if x < 128 then 1
      else if 194 \<le> x \<and> x \<le> 223 then (case s of b # _ \<Rightarrow> if cont b then 2 else 0 | _ \<Rightarrow> 0)
      else if 224 \<le> x \<and> x \<le> 239 then
        (case s of b # c # _ \<Rightarrow>
           if cont b \<and> cont c \<and> (x = 224 \<longrightarrow> 160 \<le> byte b) \<and> (x = 237 \<longrightarrow> byte b \<le> 159) then 3 else 0
         | _ \<Rightarrow> 0)
      else if 240 \<le> x \<and> x \<le> 244 then
        (case s of b # c # d # _ \<Rightarrow>
           if cont b \<and> cont c \<and> cont d \<and> (x = 240 \<longrightarrow> 144 \<le> byte b) \<and> (x = 244 \<longrightarrow> byte b \<le> 143) then 4 else 0
         | _ \<Rightarrow> 0)
      else 0)"

definition replacement :: string where
  "replacement = [CHR 0xEF, CHR 0xBF, CHR 0xBD]"

text \<open>\<open>utf8.EncodeRune\<close> (surrogates and out-of-range values become U+FFFD)\<close>

definition encode_rune :: "nat \<Rightarrow> string" where
  "encode_rune r =
     (if r < 128 then [char_of r]
      else if r < 2048 then [char_of (192 + r div 64), char_of (128 + r mod 64)]
      else if (55296 \<le> r \<and> r \<le> 57343) \<or> 1114111 < r then replacement
      else if r < 65536 then
        [char_of (224 + r div 4096), char_of (128 + r div 64 mod 64), char_of (128 + r mod 64)]
      else [char_of (240 + r div 262144), char_of (128 + r div 4096 mod 64),
            char_of (128 + r div 64 mod 64), char_of (128 + r mod 64)])"

text \<open>\<open>getu4\<close>: the four digits after a backslash and u at the front of the text.\<close>

fun getu4 :: "string \<Rightarrow> nat option" where
  "getu4 (x # y # a # b # c # d # s) =
     (if x = CHR 0x5C \<and> y = CHR ''u'' \<and> is_hex a \<and> is_hex b \<and> is_hex c \<and> is_hex d
      then Some (hex_val a * 4096 + hex_val b * 256 + hex_val c * 16 + hex_val d) else None)"
| "getu4 _ = None"

definition unescape_char :: "char \<Rightarrow> char" where
  "unescape_char c = (if c = CHR ''b'' then CHR 0x08 else if c = CHR ''f'' then CHR 0x0C
     else if c = CHR ''n'' then CHR 0x0A else if c = CHR ''r'' then CHR 0x0D
     else if c = CHR ''t'' then CHR 0x09 else c)"

text \<open>\<open>unquote\<close> on the text between the quotes: escapes, surrogate pairs, invalid UTF-8.\<close>

function unquote_body :: "string \<Rightarrow> string" where
  "unquote_body [] = []"
| "unquote_body (c # s) =
     (if c = CHR 0x5C then
        (case getu4 (c # s) of
           Some r \<Rightarrow>
             if 55296 \<le> r \<and> r \<le> 57343 then
               (case getu4 (drop 5 s) of
                  Some r2 \<Rightarrow>
                    if r \<le> 56319 \<and> 56320 \<le> r2 \<and> r2 \<le> 57343
                    then encode_rune ((r - 55296) * 1024 + (r2 - 56320) + 65536) @ unquote_body (drop 11 s)
                    else replacement @ unquote_body (drop 5 s)
                | None \<Rightarrow> replacement @ unquote_body (drop 5 s))
             else encode_rune r @ unquote_body (drop 5 s)
         | None \<Rightarrow> (case s of [] \<Rightarrow> [] | e # s' \<Rightarrow> unescape_char e # unquote_body s'))
      else if byte c < 128 then c # unquote_body s
      else if utf8_size (c # s) = 0 then replacement @ unquote_body s
      else take (utf8_size (c # s)) (c # s) @ unquote_body (drop (utf8_size (c # s) - 1) s))"
  by pat_completeness auto
termination
  by (relation "measure length") auto

definition unquote :: "string \<Rightarrow> string" where
  "unquote r = unquote_body (butlast (tl r))"

section \<open>Values and the parser\<close>

text \<open>A parsed value; strings, arrays and objects keep their raw text.\<close>

datatype json =
    JNull
  | JBool bool
  | JNum string
  | JStr string string
  | JArr string "json list"
  | JObj string "(string \<times> json) list"

fun jraw :: "json \<Rightarrow> string" where
  "jraw JNull = ''null''"
| "jraw (JBool b) = (if b then ''true'' else ''false'')"
| "jraw (JNum r) = r"
| "jraw (JStr r _) = r"
| "jraw (JArr r _) = r"
| "jraw (JObj r _) = r"

fun lit_value :: "string \<Rightarrow> json" where
  "lit_value r = (if r = ''null'' then JNull else if r = ''true'' then JBool True
     else if r = ''false'' then JBool False else JNum r)"

fun skip_ws :: "jtok list \<Rightarrow> jtok list" where
  "skip_ws (TSpace c # ts) = skip_ws ts"
| "skip_ws ts = ts"

definition consumed :: "jtok list \<Rightarrow> jtok list \<Rightarrow> string" where
  "consumed ts rest = toks_raw (take (length ts - length rest) ts)"

text \<open>\<open>maxNestingDepth\<close> of the scanner\<close>

definition max_nesting :: nat where
  "max_nesting = 10000"

text \<open>
  The grammar, by recursive descent. The first argument is fuel: every call spends one unit and
  consumes at least one token before it recurses on the rest, so \<open>2 * length ts + 2\<close> suffices
  (\<open>parse_fuel_enough\<close>). \<open>parse_elems\<close> and \<open>parse_members\<close> parse the rest of an
  array or object after an element or a comma is known to follow.
\<close>

fun parse_value :: "nat \<Rightarrow> nat \<Rightarrow> jtok list \<Rightarrow> (json \<times> jtok list) option"
  and parse_elems :: "nat \<Rightarrow> nat \<Rightarrow> jtok list \<Rightarrow> (json list \<times> jtok list) option"
  and parse_members :: "nat \<Rightarrow> nat \<Rightarrow> jtok list \<Rightarrow> ((string \<times> json) list \<times> jtok list) option"
where
  "parse_value 0 d ts = None"
| "parse_value (Suc n) d ts =
     (case skip_ws ts of
        TString r # rest \<Rightarrow> Some (JStr r (unquote r), rest)
      | TLit r # rest \<Rightarrow> Some (lit_value r, rest)
      | TPunct p # rest \<Rightarrow>
          if p = CHR ''['' \<and> d < max_nesting then
            (case skip_ws rest of
               TPunct q # rest' \<Rightarrow>
                 if q = CHR '']'' then Some (JArr (consumed (skip_ws ts) rest') [], rest')
                 else (case parse_elems n (Suc d) rest of None \<Rightarrow> None
                       | Some (js, rest') \<Rightarrow> Some (JArr (consumed (skip_ws ts) rest') js, rest'))
             | _ \<Rightarrow> (case parse_elems n (Suc d) rest of None \<Rightarrow> None
                       | Some (js, rest') \<Rightarrow> Some (JArr (consumed (skip_ws ts) rest') js, rest')))
          else if p = CHR ''{'' \<and> d < max_nesting then
            (case skip_ws rest of
               TPunct q # rest' \<Rightarrow>
                 if q = CHR ''}'' then Some (JObj (consumed (skip_ws ts) rest') [], rest')
                 else None
             | _ \<Rightarrow> (case parse_members n (Suc d) rest of None \<Rightarrow> None
                       | Some (ms, rest') \<Rightarrow> Some (JObj (consumed (skip_ws ts) rest') ms, rest')))
          else None
      | _ \<Rightarrow> None)"
| "parse_elems 0 d ts = None"
| "parse_elems (Suc n) d ts =
     (case parse_value n d ts of
        None \<Rightarrow> None
      | Some (j, rest) \<Rightarrow>
          (case skip_ws rest of
             TPunct p # rest' \<Rightarrow>
               if p = CHR '']'' then Some ([j], rest')
               else if p = CHR '','' then
                 (case parse_elems n d rest' of None \<Rightarrow> None
                  | Some (js, rest'') \<Rightarrow> Some (j # js, rest''))
               else None
           | _ \<Rightarrow> None))"
| "parse_members 0 d ts = None"
| "parse_members (Suc n) d ts =
     (case skip_ws ts of
        TString k # rest \<Rightarrow>
          (case skip_ws rest of
             TPunct p # rest' \<Rightarrow>
               if p = CHR '':'' then
                 (case parse_value n d rest' of
                    None \<Rightarrow> None
                  | Some (j, rest1) \<Rightarrow>
                      (case skip_ws rest1 of
                         TPunct q # rest2 \<Rightarrow>
                           if q = CHR ''}'' then Some ([(unquote k, j)], rest2)
                           else if q = CHR '','' then
                             (case parse_members n d rest2 of None \<Rightarrow> None
                              | Some (ms, rest3) \<Rightarrow> Some ((unquote k, j) # ms, rest3))
                           else None
                       | _ \<Rightarrow> None))
               else None
           | _ \<Rightarrow> None)
      | _ \<Rightarrow> None)"

declare parse_value.simps [simp del] parse_elems.simps [simp del] parse_members.simps [simp del]

text \<open>The first value of the input and what follows it (\<open>Decoder.Decode\<close>).\<close>

definition parse_first :: "string \<Rightarrow> (json \<times> jtok list) option" where
  "parse_first s = parse_value (2 * length (lex s) + 2) 0 (lex s)"

text \<open>The whole input as one value (\<open>json.Unmarshal\<close>; \<open>json.Valid\<close> is its success).\<close>

definition parse_json :: "string \<Rightarrow> json option" where
  "parse_json s =
     (case parse_first s of
        Some (j, rest) \<Rightarrow> if skip_ws rest = [] then Some j else None
      | None \<Rightarrow> None)"

definition json_valid :: "string \<Rightarrow> bool" where
  "json_valid s \<longleftrightarrow> parse_json s \<noteq> None"

section \<open>Decoder.Token and Decoder.More\<close>

datatype token = Delim char | StrTok string | LitTok json

datatype tstate =
  TopValue | ArrayStart | ArrayValue | ArrayComma | ObjectStart | ObjectKey | ObjectColon
| ObjectValue | ObjectComma

text \<open>Remaining tokens, \<open>tokenState\<close> and \<open>tokenStack\<close>.\<close>

type_synonym decoder = "jtok list \<times> tstate \<times> tstate list"

definition new_decoder :: "string \<Rightarrow> decoder" where
  "new_decoder s = (lex s, TopValue, [])"

definition token_value_allowed :: "tstate \<Rightarrow> bool" where
  "token_value_allowed st \<longleftrightarrow>
     st = TopValue \<or> st = ArrayStart \<or> st = ArrayValue \<or> st = ObjectValue"

fun token_value_end :: "tstate \<Rightarrow> tstate" where
  "token_value_end ArrayStart = ArrayComma"
| "token_value_end ArrayValue = ArrayComma"
| "token_value_end ObjectValue = ObjectComma"
| "token_value_end st = st"

definition close_token :: "char \<Rightarrow> jtok list \<Rightarrow> tstate list \<Rightarrow> (token \<times> decoder) result" where
  "close_token c ts stk =
     (case stk of [] \<Rightarrow> Inl ''invalid character''
      | st # stk' \<Rightarrow> Inr (Delim c, ts, token_value_end st, stk'))"

fun dec_scan :: "jtok list \<Rightarrow> tstate \<Rightarrow> tstate list \<Rightarrow> (token \<times> decoder) result" where
  "dec_scan [] st stk = Inl ''EOF''"
| "dec_scan (TSpace c # ts) st stk = dec_scan ts st stk"
| "dec_scan (TBad # ts) st stk = Inl ''invalid character''"
| "dec_scan (TPunct c # ts) st stk =
     (if c = CHR ''['' then
        if token_value_allowed st then Inr (Delim c, ts, ArrayStart, st # stk)
        else Inl ''invalid character''
      else if c = CHR '']'' then
        if st = ArrayStart \<or> st = ArrayComma then close_token c ts stk
        else Inl ''invalid character''
      else if c = CHR ''{'' then
        if token_value_allowed st then Inr (Delim c, ts, ObjectStart, st # stk)
        else Inl ''invalid character''
      else if c = CHR ''}'' then
        if st = ObjectStart \<or> st = ObjectComma then close_token c ts stk
        else Inl ''invalid character''
      else if c = CHR '':'' then
        if st = ObjectColon then dec_scan ts ObjectValue stk else Inl ''invalid character''
      else if st = ArrayComma then dec_scan ts ArrayValue stk
      else if st = ObjectComma then dec_scan ts ObjectKey stk
      else Inl ''invalid character'')"
| "dec_scan (TString r # ts) st stk =
     (if st = ObjectStart \<or> st = ObjectKey then Inr (StrTok (unquote r), ts, ObjectColon, stk)
      else if token_value_allowed st then Inr (StrTok (unquote r), ts, token_value_end st, stk)
      else Inl ''invalid character'')"
| "dec_scan (TLit r # ts) st stk =
     (if token_value_allowed st then Inr (LitTok (lit_value r), ts, token_value_end st, stk)
      else Inl ''invalid character'')"

fun dec_token :: "decoder \<Rightarrow> (token \<times> decoder) result" where
  "dec_token (ts, st, stk) = dec_scan ts st stk"

fun dec_more :: "decoder \<Rightarrow> bool" where
  "dec_more (ts, st, stk) =
     (case skip_ws ts of [] \<Rightarrow> False
      | t # _ \<Rightarrow> t \<noteq> TPunct (CHR '']'') \<and> t \<noteq> TPunct (CHR ''}''))"

section \<open>Decoding into structs\<close>

text \<open>
  A struct is described by its fields: the JSON name and how a value is stored. Members are
  applied in order, so of two members that match one field the later wins. \<open>strict\<close> is
  \<open>DisallowUnknownFields\<close>.
\<close>

type_synonym 'r fields = "(string \<times> (json \<Rightarrow> 'r \<Rightarrow> 'r result)) list"

definition find_field :: "'r fields \<Rightarrow> string \<Rightarrow> (json \<Rightarrow> 'r \<Rightarrow> 'r result) option" where
  "find_field fs k =
     (case map_of fs k of
        Some d \<Rightarrow> Some d
      | None \<Rightarrow> map_option snd (find (\<lambda>f. fold_name (fst f) = fold_name k) fs))"

definition decode_member :: "bool \<Rightarrow> 'r fields \<Rightarrow> string \<times> json \<Rightarrow> 'r \<Rightarrow> 'r result" where
  "decode_member strict fs m r =
     (case find_field fs (fst m) of
        Some d \<Rightarrow> d (snd m) r
      | None \<Rightarrow> if strict then Inl (''json: unknown field '' @ fst m) else Inr r)"

fun decode_struct :: "bool \<Rightarrow> 'r fields \<Rightarrow> json \<Rightarrow> 'r \<Rightarrow> 'r result" where
  "decode_struct strict fs (JObj _ ms) r = for_each (decode_member strict fs) ms r"
| "decode_struct strict fs JNull r = Inr r"
| "decode_struct strict fs _ r = Inl ''json: cannot unmarshal into Go struct''"

text \<open>Field decoders for string, integer, boolean and raw fields, and for pointers to them.\<close>

fun dec_string :: "(string \<Rightarrow> 'r \<Rightarrow> 'r) \<Rightarrow> json \<Rightarrow> 'r \<Rightarrow> 'r result" where
  "dec_string upd (JStr _ s) r = Inr (upd s r)"
| "dec_string upd JNull r = Inr r"
| "dec_string upd _ r = Inl ''json: cannot unmarshal into Go value of type string''"

fun dec_bool :: "(bool \<Rightarrow> 'r \<Rightarrow> 'r) \<Rightarrow> json \<Rightarrow> 'r \<Rightarrow> 'r result" where
  "dec_bool upd (JBool b) r = Inr (upd b r)"
| "dec_bool upd JNull r = Inr r"
| "dec_bool upd _ r = Inl ''json: cannot unmarshal into Go value of type bool''"

text \<open>\<open>strconv.ParseInt\<close> of a number literal: no fraction, no exponent, 64-bit range.\<close>

definition json_int :: "string \<Rightarrow> int option" where
  "json_int r = atoi r"

fun dec_int :: "(int \<Rightarrow> 'r \<Rightarrow> 'r) \<Rightarrow> json \<Rightarrow> 'r \<Rightarrow> 'r result" where
  "dec_int upd (JNum n) r =
     (case json_int n of Some i \<Rightarrow> Inr (upd i r)
      | None \<Rightarrow> Inl ''json: cannot unmarshal number into Go value of type int'')"
| "dec_int upd JNull r = Inr r"
| "dec_int upd _ r = Inl ''json: cannot unmarshal into Go value of type int''"

definition dec_raw :: "(string \<Rightarrow> 'r \<Rightarrow> 'r) \<Rightarrow> json \<Rightarrow> 'r \<Rightarrow> 'r result" where
  "dec_raw upd j r = Inr (upd (jraw j) r)"

fun dec_opt_string :: "(string option \<Rightarrow> 'r \<Rightarrow> 'r) \<Rightarrow> json \<Rightarrow> 'r \<Rightarrow> 'r result" where
  "dec_opt_string upd JNull r = Inr (upd None r)"
| "dec_opt_string upd (JStr _ s) r = Inr (upd (Some s) r)"
| "dec_opt_string upd _ r = Inl ''json: cannot unmarshal into Go value of type string''"

text \<open>A nested struct (its current value is decoded over) and a pointer to one.\<close>

definition dec_nested ::
  "('s \<Rightarrow> 'r \<Rightarrow> 'r) \<Rightarrow> ('r \<Rightarrow> 's) \<Rightarrow> (json \<Rightarrow> 's \<Rightarrow> 's result) \<Rightarrow> json \<Rightarrow> 'r \<Rightarrow> 'r result" where
  "dec_nested upd sel dec j r = bind_result (dec j (sel r)) (\<lambda>s. Inr (upd s r))"

definition dec_pointer ::
  "('s option \<Rightarrow> 'r \<Rightarrow> 'r) \<Rightarrow> ('r \<Rightarrow> 's option) \<Rightarrow> 's \<Rightarrow> (json \<Rightarrow> 's \<Rightarrow> 's result) \<Rightarrow> json \<Rightarrow> 'r \<Rightarrow> 'r result"
where
  "dec_pointer upd sel zero dec j r =
     (if j = JNull then Inr (upd None r)
      else bind_result (dec j (case sel r of Some s \<Rightarrow> s | None \<Rightarrow> zero)) (\<lambda>s. Inr (upd (Some s) r)))"

text \<open>
  A slice: elements are decoded over the elements already present, as \<open>reflect\<close> does.
  Null gives the nil slice.
\<close>

fun dec_elems :: "(json \<Rightarrow> 's \<Rightarrow> 's result) \<Rightarrow> 's \<Rightarrow> json list \<Rightarrow> 's list \<Rightarrow> 's list result" where
  "dec_elems dec zero [] old = Inr []"
| "dec_elems dec zero (j # js) old =
     bind_result (dec j (case old of [] \<Rightarrow> zero | x # _ \<Rightarrow> x))
       (\<lambda>x. bind_result (dec_elems dec zero js (tl old)) (\<lambda>xs. Inr (x # xs)))"

fun dec_slice ::
  "('s list option \<Rightarrow> 'r \<Rightarrow> 'r) \<Rightarrow> ('r \<Rightarrow> 's list option) \<Rightarrow> 's \<Rightarrow> (json \<Rightarrow> 's \<Rightarrow> 's result) \<Rightarrow> json \<Rightarrow> 'r \<Rightarrow> 'r result"
where
  "dec_slice upd sel zero dec (JArr _ js) r =
     bind_result (dec_elems dec zero js (case sel r of Some xs \<Rightarrow> xs | None \<Rightarrow> []))
       (\<lambda>xs. Inr (upd (Some xs) r))"
| "dec_slice upd sel zero dec JNull r = Inr (upd None r)"
| "dec_slice upd sel zero dec _ r = Inl ''json: cannot unmarshal into Go slice''"

text \<open>A slice whose nil and empty values the code does not distinguish.\<close>

definition dec_list ::
  "('s list \<Rightarrow> 'r \<Rightarrow> 'r) \<Rightarrow> ('r \<Rightarrow> 's list) \<Rightarrow> 's \<Rightarrow> (json \<Rightarrow> 's \<Rightarrow> 's result) \<Rightarrow> json \<Rightarrow> 'r \<Rightarrow> 'r result"
where
  "dec_list upd sel zero dec =
     dec_slice (\<lambda>xs. upd (case xs of Some l \<Rightarrow> l | None \<Rightarrow> [])) (\<lambda>r. Some (sel r)) zero dec"

section \<open>Values of type any, and Marshal\<close>

text \<open>\<open>any\<close> under \<open>UseNumber\<close>; a map is an association list with distinct keys.\<close>

datatype any = ANull | ABool bool | ANum string | AStr string | AArr "any list"
  | AObj "(string \<times> any) list"

fun assoc_set :: "'k \<Rightarrow> 'v \<Rightarrow> ('k \<times> 'v) list \<Rightarrow> ('k \<times> 'v) list" where
  "assoc_set k v [] = [(k, v)]"
| "assoc_set k v ((k', v') # m) = (if k' = k then (k, v) # m else (k', v') # assoc_set k v m)"

fun to_any :: "json \<Rightarrow> any" where
  "to_any JNull = ANull"
| "to_any (JBool b) = ABool b"
| "to_any (JNum n) = ANum n"
| "to_any (JStr _ s) = AStr s"
| "to_any (JArr _ js) = AArr (map to_any js)"
| "to_any (JObj _ ms) = AObj (fold (\<lambda>(k, j) m. assoc_set k j m) (map (\<lambda>(k, j). (k, to_any j)) ms) [])"

text \<open>A \<open>map[string]any\<close> target: an object, or null (which leaves the nil map).\<close>

fun decode_object :: "json \<Rightarrow> (string \<times> any) list option result" where
  "decode_object j =
     (case to_any j of AObj m \<Rightarrow> Inr (Some m) | ANull \<Rightarrow> Inr None
      | _ \<Rightarrow> Inl ''json: cannot unmarshal into Go value of type map'')"

text \<open>A \<open>map[string]string\<close> (null elements are empty strings) and a \<open>[]any\<close>.\<close>

fun string_members :: "(string \<times> json) list \<Rightarrow> (string \<times> string) list \<Rightarrow> (string \<times> string) list result" where
  "string_members [] m = Inr m"
| "string_members ((k, j) # ms) m =
     (case j of
        JStr _ s \<Rightarrow> string_members ms (assoc_set k s m)
      | JNull \<Rightarrow> string_members ms (assoc_set k [] m)
      | _ \<Rightarrow> Inl ''json: cannot unmarshal into Go value of type string'')"

fun dec_string_map ::
  "((string \<times> string) list \<Rightarrow> 'r \<Rightarrow> 'r) \<Rightarrow> ('r \<Rightarrow> (string \<times> string) list) \<Rightarrow> json \<Rightarrow> 'r \<Rightarrow> 'r result"
where
  "dec_string_map upd sel (JObj _ ms) r = bind_result (string_members ms (sel r)) (\<lambda>m. Inr (upd m r))"
| "dec_string_map upd sel JNull r = Inr (upd [] r)"
| "dec_string_map upd sel _ r = Inl ''json: cannot unmarshal into Go value of type map''"

fun dec_any_list :: "(any list option \<Rightarrow> 'r \<Rightarrow> 'r) \<Rightarrow> json \<Rightarrow> 'r \<Rightarrow> 'r result" where
  "dec_any_list upd (JArr _ js) r = Inr (upd (Some (map to_any js)) r)"
| "dec_any_list upd JNull r = Inr (upd None r)"
| "dec_any_list upd _ r = Inl ''json: cannot unmarshal into Go value of type slice''"

text \<open>Marshalling a string, with HTML escaping (Go's default).\<close>

definition u_escape :: "nat \<Rightarrow> string" where
  "u_escape r = [CHR 0x5C, CHR ''u'', hex_digit (r div 4096 mod 16), hex_digit (r div 256 mod 16),
     hex_digit (r div 16 mod 16), hex_digit (r mod 16)]"

definition quote_ascii :: "char \<Rightarrow> string" where
  "quote_ascii c =
     (if c = CHR 0x22 \<or> c = CHR 0x5C then [CHR 0x5C, c]
      else if c = CHR 0x08 then [CHR 0x5C, CHR ''b''] else if c = CHR 0x0C then [CHR 0x5C, CHR ''f'']
      else if c = CHR 0x0A then [CHR 0x5C, CHR ''n''] else if c = CHR 0x0D then [CHR 0x5C, CHR ''r'']
      else if c = CHR 0x09 then [CHR 0x5C, CHR ''t'']
      else if byte c < 32 \<or> c = CHR ''<'' \<or> c = CHR ''>'' \<or> c = CHR ''&'' then u_escape (byte c)
      else [c])"

function quote_body :: "string \<Rightarrow> string" where
  "quote_body [] = []"
| "quote_body (c # s) =
     (if byte c < 128 then quote_ascii c @ quote_body s
      else if utf8_size (c # s) = 0 then u_escape 65533 @ quote_body s
      else if take 2 (c # s) = [CHR 0xE2, CHR 0x80] \<and> s \<noteq> [] \<and> tl s \<noteq> [] \<and>
              (hd (tl s) = CHR 0xA8 \<or> hd (tl s) = CHR 0xA9)
           then u_escape (if hd (tl s) = CHR 0xA8 then 8232 else 8233) @ quote_body (drop 2 s)
      else take (utf8_size (c # s)) (c # s) @ quote_body (drop (utf8_size (c # s) - 1) s))"
  by pat_completeness auto
termination
  by (relation "measure length") auto

definition quote :: "string \<Rightarrow> string" where
  "quote s = CHR 0x22 # quote_body s @ [CHR 0x22]"

definition join_comma :: "string list \<Rightarrow> string" where
  "join_comma xs = concat (case xs of [] \<Rightarrow> [] | x # ys \<Rightarrow> x # map (\<lambda>y. CHR '','' # y) ys)"

text \<open>Map keys are printed in sorted order.\<close>

fun marshal :: "any \<Rightarrow> string" where
  "marshal ANull = ''null''"
| "marshal (ABool b) = (if b then ''true'' else ''false'')"
| "marshal (ANum n) = n"
| "marshal (AStr s) = quote s"
| "marshal (AArr xs) = CHR ''['' # join_comma (map marshal xs) @ '']''"
| "marshal (AObj m) =
     CHR ''{'' # join_comma (map (\<lambda>(k, v). quote k @ CHR '':'' # v)
       (sort_on fst (map (\<lambda>(k, v). (k, marshal v)) m))) @ ''}''"

text \<open>A struct: its fields in declaration order, already marshalled.\<close>

definition json_object :: "(string \<times> string) list \<Rightarrow> string" where
  "json_object fs = CHR ''{'' # join_comma (map (\<lambda>(k, v). quote k @ CHR '':'' # v) fs) @ ''}''"

text \<open>A field with \<open>omitempty\<close>.\<close>

definition omit_if :: "bool \<Rightarrow> string \<Rightarrow> string \<Rightarrow> (string \<times> string) list" where
  "omit_if absent k v = (if absent then [] else [(k, v)])"

text \<open>\<open>compact\<close>, which \<open>Marshal\<close> applies to a \<open>RawMessage\<close>.\<close>

fun html_escape :: "string \<Rightarrow> string" where
  "html_escape [] = []"
| "html_escape (c # s) =
     (if c = CHR ''<'' \<or> c = CHR ''>'' \<or> c = CHR ''&'' then u_escape (byte c) @ html_escape s
      else if has_prefix (c # s) [CHR 0xE2, CHR 0x80, CHR 0xA8] then u_escape 8232 @ html_escape (tl (tl s))
      else if has_prefix (c # s) [CHR 0xE2, CHR 0x80, CHR 0xA9] then u_escape 8233 @ html_escape (tl (tl s))
      else c # html_escape s)"

definition compact :: "string \<Rightarrow> string" where
  "compact r = concat (map (\<lambda>t. case t of TSpace _ \<Rightarrow> [] | TString x \<Rightarrow> html_escape x
     | _ \<Rightarrow> tok_raw t) (lex r))"

section \<open>Inversion of the parser, and its fuel\<close>

lemma dec_scan_skip_ws: "dec_scan ts st stk = dec_scan (skip_ws ts) st stk"
  by (induction ts rule: skip_ws.induct) auto

lemma skip_ws_idem [simp]: "skip_ws (skip_ws ts) = skip_ws ts"
  by (induction ts rule: skip_ws.induct) auto

lemma length_skip_ws: "length (skip_ws ts) \<le> length ts"
  by (induction ts rule: skip_ws.induct) auto

lemma skip_ws_not_space [simp]: "skip_ws ts \<noteq> TSpace c # us"
  by (induction ts rule: skip_ws.induct) auto

lemma parse_valueE [consumes 1, case_names Str Lit Arr0 Arr Obj0 Obj]:
  assumes "parse_value (Suc n) d ts = Some (j, rest)"
  obtains r where "skip_ws ts = TString r # rest" and "j = JStr r (unquote r)"
  | r where "skip_ws ts = TLit r # rest" and "j = lit_value r"
  | us where "skip_ws ts = TPunct (CHR ''['') # us" and "skip_ws us = TPunct (CHR '']'') # rest"
      and "j = JArr (consumed (skip_ws ts) rest) []" and "d < max_nesting"
  | us js where "skip_ws ts = TPunct (CHR ''['') # us" and "parse_elems n (Suc d) us = Some (js, rest)"
      and "j = JArr (consumed (skip_ws ts) rest) js" and "\<And>vs. skip_ws us \<noteq> TPunct (CHR '']'') # vs" and "d < max_nesting"
  | us where "skip_ws ts = TPunct (CHR ''{'') # us" and "skip_ws us = TPunct (CHR ''}'') # rest"
      and "j = JObj (consumed (skip_ws ts) rest) []" and "d < max_nesting"
  | us ms where "skip_ws ts = TPunct (CHR ''{'') # us" and "parse_members n (Suc d) us = Some (ms, rest)"
      and "j = JObj (consumed (skip_ws ts) rest) ms" and "\<And>c vs. skip_ws us \<noteq> TPunct c # vs" and "d < max_nesting"
  using assms
  by (simp add: parse_value.simps split: list.splits jtok.splits if_splits option.splits prod.splits)

lemma parse_elemsE [consumes 1, case_names Last More]:
  assumes "parse_elems (Suc n) d ts = Some (js, rest)"
  obtains j us where "parse_value n d ts = Some (j, us)" and "skip_ws us = TPunct (CHR '']'') # rest"
      and "js = [j]"
  | j us vs js' where "parse_value n d ts = Some (j, us)" and "skip_ws us = TPunct (CHR '','') # vs"
      and "parse_elems n d vs = Some (js', rest)" and "js = j # js'"
  using assms
  by (simp add: parse_elems.simps split: list.splits jtok.splits if_splits option.splits prod.splits)

lemma parse_membersE [consumes 1, case_names Last More]:
  assumes "parse_members (Suc n) d ts = Some (ms, rest)"
  obtains k us vs j ws where "skip_ws ts = TString k # us" and "skip_ws us = TPunct (CHR '':'') # vs"
      and "parse_value n d vs = Some (j, ws)" and "skip_ws ws = TPunct (CHR ''}'') # rest"
      and "ms = [(unquote k, j)]"
  | k us vs j ws xs ms' where "skip_ws ts = TString k # us" and "skip_ws us = TPunct (CHR '':'') # vs"
      and "parse_value n d vs = Some (j, ws)" and "skip_ws ws = TPunct (CHR '','') # xs"
      and "parse_members n d xs = Some (ms', rest)" and "ms = (unquote k, j) # ms'"
  using assms
  by (simp add: parse_members.simps split: list.splits jtok.splits if_splits option.splits prod.splits)

lemmas parse_inversion = parse_valueE parse_elemsE parse_membersE

lemma skip_ws_length: "skip_ws ts = us \<Longrightarrow> length us \<le> length ts"
  using length_skip_ws by blast

lemma skip_ws_Cons_length: "skip_ws ts = t # us \<Longrightarrow> length us < length ts"
  using skip_ws_length [of ts "t # us"] by simp

text \<open>Fuel: any amount from twice the number of tokens consumed gives the same result.\<close>

definition fuel_ok :: "(nat \<Rightarrow> nat \<Rightarrow> jtok list \<Rightarrow> ('a \<times> jtok list) option) \<Rightarrow> nat \<Rightarrow> bool" where
  "fuel_ok p n \<longleftrightarrow> (\<forall>d ts x rest. p n d ts = Some (x, rest) \<longrightarrow> length rest < length ts \<and>
      (\<forall>m. 2 * (length ts - length rest) \<le> m \<longrightarrow> p m d ts = Some (x, rest)))"

lemma fuel_okD:
  assumes "fuel_ok p n" and "p n d ts = Some (x, rest)"
  shows "length rest < length ts" and "2 * (length ts - length rest) \<le> m \<Longrightarrow> p m d ts = Some (x, rest)"
  using assms unfolding fuel_ok_def by blast+

lemma fuel_okI:
  assumes "\<And>d ts x rest. p n d ts = Some (x, rest) \<Longrightarrow> length rest < length ts"
    and "\<And>d ts x rest k. p n d ts = Some (x, rest) \<Longrightarrow> 2 * (length ts - length rest) \<le> Suc k \<Longrightarrow>
      p (Suc k) d ts = Some (x, rest)"
  shows "fuel_ok p n"
  unfolding fuel_ok_def
proof (intro allI impI conjI)
  fix d ts x rest
  assume "p n d ts = Some (x, rest)"
  then show "length rest < length ts" by (rule assms(1))
next
  fix d ts x rest m
  assume p: "p n d ts = Some (x, rest)" and m: "2 * (length ts - length rest) \<le> m"
  from assms(1) [OF p] m obtain k where "m = Suc k" by (cases m) auto
  with assms(2) [OF p, of k] m show "p m d ts = Some (x, rest)" by simp
qed

lemma parse_value_fuel:
  assumes E: "fuel_ok parse_elems n" and M: "fuel_ok parse_members n"
  shows "fuel_ok parse_value (Suc n)"
proof (rule fuel_okI)
  fix d ts j rest
  assume "parse_value (Suc n) d ts = Some (j, rest)"
  then show "length rest < length ts"
  proof (cases rule: parse_valueE)
    case (Arr us js)
    with fuel_okD(1) [OF E Arr(2)] skip_ws_length [OF Arr(1)] show ?thesis by simp
  next
    case (Obj us ms)
    with fuel_okD(1) [OF M Obj(2)] skip_ws_length [OF Obj(1)] show ?thesis by simp
  qed (auto dest!: skip_ws_Cons_length)
next
  fix d ts j rest k
  assume "parse_value (Suc n) d ts = Some (j, rest)" and k: "2 * (length ts - length rest) \<le> Suc k"
  then show "parse_value (Suc k) d ts = Some (j, rest)"
  proof (cases rule: parse_valueE)
    case (Arr us js)
    from fuel_okD(1) [OF E Arr(2)] skip_ws_length [OF Arr(1)] k
    have "2 * (length us - length rest) \<le> k" by simp
    from fuel_okD(2) [OF E Arr(2) this] Arr show ?thesis
      by (auto simp: parse_value.simps split: list.splits jtok.splits)
  next
    case (Obj us ms)
    from fuel_okD(1) [OF M Obj(2)] skip_ws_length [OF Obj(1)] k
    have "2 * (length us - length rest) \<le> k" by simp
    from fuel_okD(2) [OF M Obj(2) this] Obj show ?thesis
      by (auto simp: parse_value.simps split: list.splits jtok.splits)
  qed (auto simp: parse_value.simps)
qed

lemma parse_elems_fuel:
  assumes V: "fuel_ok parse_value n" and E: "fuel_ok parse_elems n"
  shows "fuel_ok parse_elems (Suc n)"
proof (rule fuel_okI)
  fix d ts js rest
  assume "parse_elems (Suc n) d ts = Some (js, rest)"
  then show "length rest < length ts"
  proof (cases rule: parse_elemsE)
    case (Last j us)
    with fuel_okD(1) [OF V Last(1)] skip_ws_length [OF Last(2)] show ?thesis by simp
  next
    case (More j us vs js')
    with fuel_okD(1) [OF V More(1)] skip_ws_length [OF More(2)] fuel_okD(1) [OF E More(3)]
    show ?thesis by simp
  qed
next
  fix d ts js rest k
  assume "parse_elems (Suc n) d ts = Some (js, rest)" and k: "2 * (length ts - length rest) \<le> Suc k"
  then show "parse_elems (Suc k) d ts = Some (js, rest)"
  proof (cases rule: parse_elemsE)
    case (Last j us)
    from fuel_okD(1) [OF V Last(1)] skip_ws_length [OF Last(2)] k
    have "2 * (length ts - length us) \<le> k" by simp
    from fuel_okD(2) [OF V Last(1) this] Last show ?thesis by (simp add: parse_elems.simps)
  next
    case (More j us vs js')
    from fuel_okD(1) [OF V More(1)] skip_ws_length [OF More(2)] fuel_okD(1) [OF E More(3)] k
    have "2 * (length ts - length us) \<le> k" and k2: "2 * (length vs - length rest) \<le> k" by simp_all
    from fuel_okD(2) [OF V More(1) this(1)] fuel_okD(2) [OF E More(3) k2] More
    show ?thesis by (simp add: parse_elems.simps)
  qed
qed

lemma parse_members_fuel:
  assumes V: "fuel_ok parse_value n" and M: "fuel_ok parse_members n"
  shows "fuel_ok parse_members (Suc n)"
proof (rule fuel_okI)
  fix d ts ms rest
  assume "parse_members (Suc n) d ts = Some (ms, rest)"
  then show "length rest < length ts"
  proof (cases rule: parse_membersE)
    case (Last k us vs j ws)
    with fuel_okD(1) [OF V Last(3)] skip_ws_length [OF Last(1)] skip_ws_length [OF Last(2)]
      skip_ws_length [OF Last(4)] show ?thesis by simp
  next
    case (More k us vs j ws xs ms')
    with fuel_okD(1) [OF V More(3)] skip_ws_length [OF More(1)] skip_ws_length [OF More(2)]
      skip_ws_length [OF More(4)] fuel_okD(1) [OF M More(5)] show ?thesis by simp
  qed
next
  fix d ts ms rest k
  assume "parse_members (Suc n) d ts = Some (ms, rest)" and k: "2 * (length ts - length rest) \<le> Suc k"
  then show "parse_members (Suc k) d ts = Some (ms, rest)"
  proof (cases rule: parse_membersE)
    case (Last i us vs j ws)
    from fuel_okD(1) [OF V Last(3)] skip_ws_length [OF Last(1)] skip_ws_length [OF Last(2)]
      skip_ws_length [OF Last(4)] k
    have "2 * (length vs - length ws) \<le> k" by simp
    from fuel_okD(2) [OF V Last(3) this] Last show ?thesis by (simp add: parse_members.simps)
  next
    case (More i us vs j ws xs ms')
    from fuel_okD(1) [OF V More(3)] skip_ws_length [OF More(1)] skip_ws_length [OF More(2)]
      skip_ws_length [OF More(4)] fuel_okD(1) [OF M More(5)] k
    have "2 * (length vs - length ws) \<le> k" and k2: "2 * (length xs - length rest) \<le> k" by simp_all
    from fuel_okD(2) [OF V More(3) this(1)] fuel_okD(2) [OF M More(5) k2] More
    show ?thesis by (simp add: parse_members.simps)
  qed
qed

lemma parse_fuel_bound:
  "fuel_ok parse_value n \<and> fuel_ok parse_elems n \<and> fuel_ok parse_members n"
proof (induction n)
  case 0
  show ?case
    by (simp add: fuel_ok_def parse_value.simps(1) parse_elems.simps(1) parse_members.simps(1))
next
  case (Suc n)
  then show ?case
    by (simp add: parse_value_fuel parse_elems_fuel parse_members_fuel)
qed

lemma parse_fuel_enough:
  assumes "parse_value n d ts = Some (j, rest)" and "2 * length ts + 2 \<le> m"
  shows "parse_value m d ts = Some (j, rest)"
  using parse_fuel_bound [of n] assms by (auto intro!: fuel_okD(2) [of parse_value n])


end
