(* ===== verification/Wire_Json.thy ===== *)
theory Wire_Json
  imports Go_Json
begin

text \<open>
  \<^verbatim>\<open>internal/runtimecontract/session.go\<close> (duplicate-key rejection) and the decoding half of
  \<^verbatim>\<open>wire.go\<close>: the byte limit, the duplicate-key walk over \<open>Decoder.Token\<close> and the strict
  decoding that every control-plane response passes. The lemmas relate the walk to the parsed
  value: on valid JSON it succeeds exactly when no object, at any depth, repeats a key.
\<close>

section \<open>Limits\<close>

definition schema_version :: int where
  "schema_version = 1"

definition max_response_bytes :: int where
  "max_response_bytes = 1024 * 1024 + 4096"

text \<open>What a reader yields: its bytes, or a read error.\<close>

type_synonym reader = "string result"

text \<open>\<open>io.LimitReader\<close> with \<open>limit + 1\<close>, then the length check.\<close>

definition read_bounded :: "reader \<Rightarrow> int \<Rightarrow> string \<Rightarrow> string result" where
  "read_bounded rd limit lbl =
     bind_result (wrap_error (''read '' @ lbl @ '': '')
        (case rd of Inl e \<Rightarrow> Inl e | Inr b \<Rightarrow> Inr (take_int (limit + 1) b)))
       (\<lambda>raw. if limit < int (length raw) then Inl (lbl @ '' exceeds the v1 size limit'') else Inr raw)"

section \<open>The duplicate-key walk\<close>

text \<open>\<open>ensureJSONEOF\<close> after a complete value: only white space may follow.\<close>

definition ensure_json_eof :: "jtok list \<Rightarrow> unit result" where
  "ensure_json_eof ts =
     (if skip_ws ts = [] then Inr ()
      else case parse_value (2 * length ts + 2) 0 ts of
        None \<Rightarrow> Inl ''decode KIT session response trailer''
      | Some _ \<Rightarrow> Inl ''KIT session response contains multiple JSON values'')"

text \<open>
  \<open>walkJSONValue\<close>; \<open>walk_members\<close> and \<open>walk_elems\<close> are its two \<open>for decoder.More()\<close>
  loops, the keys seen so far in an accumulator. The first argument is fuel, as in the parser.
\<close>

fun walk_value :: "nat \<Rightarrow> decoder \<Rightarrow> decoder result"
  and walk_members :: "nat \<Rightarrow> string list \<Rightarrow> decoder \<Rightarrow> decoder result"
  and walk_elems :: "nat \<Rightarrow> decoder \<Rightarrow> decoder result"
where
  "walk_value 0 d = Inl ''fuel''"
| "walk_value (Suc n) d =
     (case dec_token d of
        Inl e \<Rightarrow> Inl e
      | Inr (t, d1) \<Rightarrow>
          (case t of
             Delim c \<Rightarrow>
               if c = CHR ''{'' then
                 (case walk_members n [] d1 of
                    Inl e \<Rightarrow> Inl e
                  | Inr d2 \<Rightarrow>
                      (case dec_token d2 of
                         Inl e \<Rightarrow> Inl e
                       | Inr (t3, d3) \<Rightarrow> if t3 \<noteq> Delim (CHR ''}'') then Inl ''object is not closed'' else Inr d3))
               else if c = CHR ''['' then
                 (case walk_elems n d1 of
                    Inl e \<Rightarrow> Inl e
                  | Inr d2 \<Rightarrow>
                      (case dec_token d2 of
                         Inl e \<Rightarrow> Inl e
                       | Inr (t3, d3) \<Rightarrow> if t3 \<noteq> Delim (CHR '']'') then Inl ''array is not closed'' else Inr d3))
               else Inl ''unexpected JSON delimiter''
           | _ \<Rightarrow> Inr d1))"
| "walk_members 0 keys d = Inl ''fuel''"
| "walk_members (Suc n) keys d =
     (if \<not> dec_more d then Inr d
      else case dec_token d of
        Inl e \<Rightarrow> Inl e
      | Inr (t, d1) \<Rightarrow>
          (case t of
             StrTok key \<Rightarrow>
               if key \<in> set keys then Inl (''duplicate object key '' @ key)
               else (case walk_value n d1 of
                       Inl e \<Rightarrow> Inl e
                     | Inr d2 \<Rightarrow> walk_members n (key # keys) d2)
           | _ \<Rightarrow> Inl ''object key is not a string''))"
| "walk_elems 0 d = Inl ''fuel''"
| "walk_elems (Suc n) d =
     (if \<not> dec_more d then Inr d
      else case walk_value n d of
        Inl e \<Rightarrow> Inl e
      | Inr d1 \<Rightarrow> walk_elems n d1)"

declare walk_value.simps [simp del] walk_members.simps [simp del] walk_elems.simps [simp del]

definition reject_duplicate_json_keys :: "string \<Rightarrow> unit result" where
  "reject_duplicate_json_keys raw =
     (case walk_value (2 * length (lex raw) + 3) (new_decoder raw) of
        Inl e \<Rightarrow> Inl (''validate JSON: '' @ e)
      | Inr (ts, st, stk) \<Rightarrow> ensure_json_eof ts)"

section \<open>Strict decoding\<close>

text \<open>
  \<open>decodeStrict\<close>: one value, decoded into the zero value of the target type with unknown
  fields refused, and nothing after it.
\<close>

definition decode_strict :: "string \<Rightarrow> (json \<Rightarrow> 'r \<Rightarrow> 'r result) \<Rightarrow> 'r \<Rightarrow> 'r result" where
  "decode_strict raw dec zero =
     (case parse_first raw of
        None \<Rightarrow> Inl ''invalid JSON''
      | Some (j, rest) \<Rightarrow> bind_result (dec j zero) (\<lambda>r. bind_result (ensure_json_eof rest) (\<lambda>_. Inr r)))"

text \<open>The two steps every response goes through, on attacker-influenced bytes.\<close>

definition decode_checked :: "string \<Rightarrow> (json \<Rightarrow> 'r \<Rightarrow> 'r result) \<Rightarrow> 'r \<Rightarrow> 'r result" where
  "decode_checked raw dec zero =
     bind_result (reject_duplicate_json_keys raw) (\<lambda>_. decode_strict raw dec zero)"

section \<open>Specification: no object repeats a key\<close>

fun no_dup_keys :: "json \<Rightarrow> bool" where
  "no_dup_keys (JArr _ js) \<longleftrightarrow> (\<forall>j\<in>set js. no_dup_keys j)"
| "no_dup_keys (JObj _ ms) \<longleftrightarrow> distinct (map fst ms) \<and> (\<forall>m\<in>set ms. no_dup_keys (snd m))"
| "no_dup_keys _ \<longleftrightarrow> True"

section \<open>The walk follows the parser\<close>

lemma lit_value_no_dup [simp]: "no_dup_keys (lit_value r)"
  by auto

text \<open>A decoder inside an array or object, at its start or after a member, whose next tokens are those.\<close>

fun at_next :: "tstate \<Rightarrow> tstate \<Rightarrow> decoder \<Rightarrow> jtok list \<Rightarrow> bool" where
  "at_next start comma (us, st, stk) ts \<longleftrightarrow>
     st = start \<and> us = ts \<or> st = comma \<and> skip_ws us = TPunct (CHR '','') # ts"

definition walk_value_spec :: "nat \<Rightarrow> bool" where
  "walk_value_spec n \<longleftrightarrow> (\<forall>d ts j rest m st stk.
     parse_value n d ts = Some (j, rest) \<longrightarrow> n < m \<longrightarrow> token_value_allowed st \<longrightarrow>
     (if no_dup_keys j then walk_value m (ts, st, stk) = Inr (rest, token_value_end st, stk)
      else \<exists>e. walk_value m (ts, st, stk) = Inl e))"

definition walk_elems_spec :: "nat \<Rightarrow> bool" where
  "walk_elems_spec n \<longleftrightarrow> (\<forall>d ts js rest m us st stk.
     parse_elems n d ts = Some (js, rest) \<longrightarrow> n < m \<longrightarrow> at_next ArrayStart ArrayComma (us, st, stk) ts \<longrightarrow>
     (if \<forall>j\<in>set js. no_dup_keys j
      then \<exists>rs. walk_elems m (us, st, stk) = Inr (rs, ArrayComma, stk) \<and> skip_ws rs = TPunct (CHR '']'') # rest
      else \<exists>e. walk_elems m (us, st, stk) = Inl e))"

definition walk_members_spec :: "nat \<Rightarrow> bool" where
  "walk_members_spec n \<longleftrightarrow> (\<forall>d ts ms rest m us st stk keys.
     parse_members n d ts = Some (ms, rest) \<longrightarrow> n < m \<longrightarrow> at_next ObjectStart ObjectComma (us, st, stk) ts \<longrightarrow>
     (if distinct (map fst ms) \<and> set (map fst ms) \<inter> set keys = {} \<and> (\<forall>x\<in>set ms. no_dup_keys (snd x))
      then \<exists>rs. walk_members m keys (us, st, stk) = Inr (rs, ObjectComma, stk) \<and> skip_ws rs = TPunct (CHR ''}'') # rest
      else \<exists>e. walk_members m keys (us, st, stk) = Inl e))"

lemma parse_value_starts:
  "parse_value n d ts = Some (j, rest) \<Longrightarrow>
     (\<exists>t us. skip_ws ts = t # us \<and> t \<noteq> TPunct (CHR '']'') \<and> t \<noteq> TPunct (CHR ''}'') \<and> t \<noteq> TPunct (CHR '',''))"
  by (cases n) (auto simp: parse_value.simps split: list.splits jtok.splits if_splits)

lemma parse_value_fuel_pos: "parse_value n d ts = Some x \<Longrightarrow> 0 < n"
  by (cases n) (auto simp: parse_value.simps)


text \<open>One token of the decoder, by the first token after white space.\<close>

lemma dec_token_at: "skip_ws us = ws \<Longrightarrow> dec_token (us, st, stk) = dec_scan ws st stk"
  using dec_scan_skip_ws [of us st stk] by simp

lemma dec_token_value:
  "skip_ws us = TString r # vs \<Longrightarrow> token_value_allowed st \<Longrightarrow> st \<noteq> ObjectStart \<Longrightarrow>
     dec_token (us, st, stk) = Inr (StrTok (unquote r), vs, token_value_end st, stk)"
  "skip_ws us = TLit r # vs \<Longrightarrow> token_value_allowed st \<Longrightarrow>
     dec_token (us, st, stk) = Inr (LitTok (lit_value r), vs, token_value_end st, stk)"
  "skip_ws us = TPunct (CHR ''['') # vs \<Longrightarrow> token_value_allowed st \<Longrightarrow>
     dec_token (us, st, stk) = Inr (Delim (CHR ''[''), vs, ArrayStart, st # stk)"
  "skip_ws us = TPunct (CHR ''{'') # vs \<Longrightarrow> token_value_allowed st \<Longrightarrow>
     dec_token (us, st, stk) = Inr (Delim (CHR ''{''), vs, ObjectStart, st # stk)"
  by (auto simp: token_value_allowed_def dec_token_at simp del: dec_token.simps)

lemma dec_token_close:
  "skip_ws us = TPunct (CHR '']'') # vs \<Longrightarrow> st = ArrayStart \<or> st = ArrayComma \<Longrightarrow>
     dec_token (us, st, st' # stk) = Inr (Delim (CHR '']''), vs, token_value_end st', stk)"
  "skip_ws us = TPunct (CHR ''}'') # vs \<Longrightarrow> st = ObjectStart \<or> st = ObjectComma \<Longrightarrow>
     dec_token (us, st, st' # stk) = Inr (Delim (CHR ''}''), vs, token_value_end st', stk)"
  by (auto simp: close_token_def dec_token_at simp del: dec_token.simps)

lemma dec_token_key:
  "skip_ws us = TString r # vs \<Longrightarrow>
     dec_token (us, ObjectStart, stk) = Inr (StrTok (unquote r), vs, ObjectColon, stk)"
  "skip_ws us = TPunct (CHR '','') # ws \<Longrightarrow> skip_ws ws = TString r # vs \<Longrightarrow>
     dec_token (us, ObjectComma, stk) = Inr (StrTok (unquote r), vs, ObjectColon, stk)"
  by (simp_all add: dec_token_at dec_token_at [of ws, unfolded dec_token.simps] del: dec_token.simps)

text \<open>Punctuation the decoder passes over on the way to a value.\<close>

lemma dec_token_past:
  "skip_ws us = TPunct (CHR '':'') # vs \<Longrightarrow> dec_token (us, ObjectColon, stk) = dec_token (vs, ObjectValue, stk)"
  "skip_ws us = TPunct (CHR '','') # vs \<Longrightarrow> dec_token (us, ArrayComma, stk) = dec_token (vs, ArrayValue, stk)"
  by (simp_all add: dec_token_at [of us] del: dec_token.simps) simp_all

lemma walk_value_cong: "dec_token d = dec_token d' \<Longrightarrow> walk_value n d = walk_value n d'"
  by (cases n) (simp_all only: walk_value.simps)

lemma walk_value_past:
  "skip_ws us = TPunct (CHR '':'') # vs \<Longrightarrow> walk_value n (us, ObjectColon, stk) = walk_value n (vs, ObjectValue, stk)"
  "skip_ws us = TPunct (CHR '','') # vs \<Longrightarrow> walk_value n (us, ArrayComma, stk) = walk_value n (vs, ArrayValue, stk)"
  by (auto intro!: walk_value_cong dec_token_past simp del: dec_token.simps)

lemma walk_loops_done:
  "\<not> dec_more d \<Longrightarrow> 0 < n \<Longrightarrow> walk_elems n d = Inr d"
  "\<not> dec_more d \<Longrightarrow> 0 < n \<Longrightarrow> walk_members n keys d = Inr d"
  by (cases n; simp add: walk_elems.simps walk_members.simps)+


lemma walk_value_specD:
  "walk_value_spec n \<Longrightarrow> parse_value n d ts = Some (j, rest) \<Longrightarrow> n < m \<Longrightarrow> token_value_allowed st \<Longrightarrow>
     if no_dup_keys j then walk_value m (ts, st, stk) = Inr (rest, token_value_end st, stk)
     else \<exists>e. walk_value m (ts, st, stk) = Inl e"
  unfolding walk_value_spec_def by blast

lemma walk_elems_specD:
  "walk_elems_spec n \<Longrightarrow> parse_elems n d ts = Some (js, rest) \<Longrightarrow> n < m \<Longrightarrow>
     at_next ArrayStart ArrayComma (us, st, stk) ts \<Longrightarrow>
     if \<forall>j\<in>set js. no_dup_keys j
     then \<exists>rs. walk_elems m (us, st, stk) = Inr (rs, ArrayComma, stk) \<and> skip_ws rs = TPunct (CHR '']'') # rest
     else \<exists>e. walk_elems m (us, st, stk) = Inl e"
  unfolding walk_elems_spec_def by blast

lemma walk_members_specD:
  "walk_members_spec n \<Longrightarrow> parse_members n d ts = Some (ms, rest) \<Longrightarrow> n < m \<Longrightarrow>
     at_next ObjectStart ObjectComma (us, st, stk) ts \<Longrightarrow>
     if distinct (map fst ms) \<and> set (map fst ms) \<inter> set keys = {} \<and> (\<forall>x\<in>set ms. no_dup_keys (snd x))
     then \<exists>rs. walk_members m keys (us, st, stk) = Inr (rs, ObjectComma, stk) \<and> skip_ws rs = TPunct (CHR ''}'') # rest
     else \<exists>e. walk_members m keys (us, st, stk) = Inl e"
  unfolding walk_members_spec_def by blast

lemma walk_value_step:
  assumes E: "walk_elems_spec n" and M: "walk_members_spec n"
  shows "walk_value_spec (Suc n)"
  unfolding walk_value_spec_def
proof (intro allI impI)
  fix d ts j rest m st stk
  assume p: "parse_value (Suc n) d ts = Some (j, rest)" and "Suc n < m" and st: "token_value_allowed st"
  then obtain k where m: "m = Suc k" and nk: "n < k" by (cases m) auto
  from p show "if no_dup_keys j then walk_value m (ts, st, stk) = Inr (rest, token_value_end st, stk)
      else \<exists>e. walk_value m (ts, st, stk) = Inl e"
  proof (cases rule: parse_valueE)
    case (Str r)
    with st show ?thesis
      by (auto simp: m walk_value.simps dec_token_value(1) token_value_allowed_def simp del: dec_token.simps)
  next
    case (Lit r)
    with st show ?thesis by (simp add: m walk_value.simps dec_token_value(2) del: dec_token.simps)
  next
    case (Arr0 us)
    with st nk show ?thesis
      by (simp add: m walk_value.simps dec_token_value(3) dec_token_close(1) walk_loops_done(1) del: dec_token.simps)
  next
    case (Arr us js)
    from walk_elems_specD [OF E Arr(2) nk, of us ArrayStart "st # stk"] Arr st show ?thesis
      by (auto simp: m walk_value.simps dec_token_value(3) dec_token_close(1) simp del: dec_token.simps split: if_splits)
  next
    case (Obj0 us)
    with st nk show ?thesis
      by (simp add: m walk_value.simps dec_token_value(4) dec_token_close(2) walk_loops_done(2) del: dec_token.simps)
  next
    case (Obj us ms)
    from walk_members_specD [OF M Obj(2) nk, of us ObjectStart "st # stk" "[]"] Obj st show ?thesis
      by (auto simp: m walk_value.simps dec_token_value(4) dec_token_close(2) simp del: dec_token.simps split: if_splits)
  qed
qed

lemma walk_elems_step:
  assumes V: "walk_value_spec n" and E: "walk_elems_spec n"
  shows "walk_elems_spec (Suc n)"
  unfolding walk_elems_spec_def
proof (intro allI impI)
  fix d ts js rest m us st stk
  assume p: "parse_elems (Suc n) d ts = Some (js, rest)" and "Suc n < m"
    and at: "at_next ArrayStart ArrayComma (us, st, stk) ts"
  then obtain k where m: "m = Suc k" and nk: "n < k" by (cases m) auto
  from p obtain j vs where j: "parse_value n d ts = Some (j, vs)"
    by (cases rule: parse_elemsE) auto
  obtain t0 ts0 where ts0: "skip_ws ts = t0 # ts0" "t0 \<noteq> TPunct (CHR '']'')" "t0 \<noteq> TPunct (CHR ''}'')"
    using parse_value_starts [OF j] by blast
  have more: "dec_more (us, st, stk)"
    using at ts0 by auto
  have wv: "walk_value k (us, st, stk) = (if st = ArrayStart then walk_value k (ts, ArrayStart, stk)
      else walk_value k (ts, ArrayValue, stk))"
    using at by (auto simp: walk_value_past(2))
  have first: "if no_dup_keys j then walk_value k (us, st, stk) = Inr (vs, ArrayComma, stk)
      else \<exists>e. walk_value k (us, st, stk) = Inl e"
    using walk_value_specD [OF V j nk, of ArrayStart stk] walk_value_specD [OF V j nk, of ArrayValue stk]
    by (simp add: wv token_value_allowed_def)
  from p show "if \<forall>j\<in>set js. no_dup_keys j
      then \<exists>rs. walk_elems m (us, st, stk) = Inr (rs, ArrayComma, stk) \<and> skip_ws rs = TPunct (CHR '']'') # rest
      else \<exists>e. walk_elems m (us, st, stk) = Inl e"
  proof (cases rule: parse_elemsE)
    case (Last j' us')
    with j have "walk_elems k (vs, ArrayComma, stk) = Inr (vs, ArrayComma, stk)"
      using nk by (intro walk_loops_done(1)) auto
    with Last j first more show ?thesis
      by (auto simp: m walk_elems.simps simp del: dec_more.simps)
  next
    case (More j' us' ws js')
    from walk_elems_specD [OF E More(3) nk, of us' ArrayComma stk] More j first more show ?thesis
      by (auto simp: m walk_elems.simps simp del: dec_more.simps split: if_splits)
  qed
qed

lemma walk_members_step:
  assumes V: "walk_value_spec n" and M: "walk_members_spec n"
  shows "walk_members_spec (Suc n)"
  unfolding walk_members_spec_def
proof (intro allI impI)
  fix d ts ms rest m us st stk keys
  assume p: "parse_members (Suc n) d ts = Some (ms, rest)" and "Suc n < m"
    and at: "at_next ObjectStart ObjectComma (us, st, stk) ts"
  then obtain k where m: "m = Suc k" and nk: "n < k" by (cases m) auto
  from p obtain key vs ws j xs where key: "skip_ws ts = TString key # vs"
    and colon: "skip_ws vs = TPunct (CHR '':'') # ws" and j: "parse_value n d ws = Some (j, xs)"
    by (cases rule: parse_membersE) auto
  have more: "dec_more (us, st, stk)" using at key by auto
  have tok: "dec_token (us, st, stk) = Inr (StrTok (unquote key), vs, ObjectColon, stk)"
    using at key dec_token_key by auto
  have first: "if no_dup_keys j then walk_value k (vs, ObjectColon, stk) = Inr (xs, ObjectComma, stk)
      else \<exists>e. walk_value k (vs, ObjectColon, stk) = Inl e"
    using walk_value_specD [OF V j nk, of ObjectValue stk]
    by (simp add: walk_value_past(1) [OF colon] token_value_allowed_def)
  from p show "if distinct (map fst ms) \<and> set (map fst ms) \<inter> set keys = {} \<and> (\<forall>x\<in>set ms. no_dup_keys (snd x))
      then \<exists>rs. walk_members m keys (us, st, stk) = Inr (rs, ObjectComma, stk) \<and> skip_ws rs = TPunct (CHR ''}'') # rest
      else \<exists>e. walk_members m keys (us, st, stk) = Inl e"
  proof (cases rule: parse_membersE)
    case (Last k' us' vs' j' ws')
    with key colon j have "walk_members k (unquote key # keys) (xs, ObjectComma, stk) = Inr (xs, ObjectComma, stk)"
      using nk by (intro walk_loops_done(2)) auto
    with Last key colon j first more tok show ?thesis
      by (auto simp: m walk_members.simps simp del: dec_more.simps dec_token.simps)
  next
    case (More k' us' vs' j' ws' xs' ms')
    then have eqs: "k' = key" "us' = vs" "vs' = ws" "j' = j" "ws' = xs" using key colon j by auto
    from walk_members_specD [OF M More(5) nk, of xs ObjectComma stk "unquote key # keys"] More first more tok
    show ?thesis
      unfolding eqs by (auto simp: m walk_members.simps simp del: dec_more.simps dec_token.simps split: if_splits)
  qed
qed

lemma walk_follows_parse: "walk_value_spec n \<and> walk_elems_spec n \<and> walk_members_spec n"
proof (induction n)
  case 0
  show ?case
    by (simp add: parse_value.simps parse_elems.simps parse_members.simps walk_value_spec_def
        walk_elems_spec_def walk_members_spec_def)
next
  case (Suc n)
  then show ?case
    by (simp add: walk_value_step walk_elems_step walk_members_step)
qed

lemma walk_after_parse:
  assumes "parse_first raw = Some (j, rest)"
  shows "if no_dup_keys j then reject_duplicate_json_keys raw = ensure_json_eof rest
     else \<exists>e. reject_duplicate_json_keys raw = Inl e"
proof -
  from assms have p: "parse_value (2 * length (lex raw) + 2) 0 (lex raw) = Some (j, rest)"
    by (simp add: parse_first_def)
  from walk_follows_parse have "walk_value_spec (2 * length (lex raw) + 2)" by blast
  from walk_value_specD [OF this p, of "2 * length (lex raw) + 3" TopValue "[]"] show ?thesis
    by (auto simp: reject_duplicate_json_keys_def new_decoder_def token_value_allowed_def split: if_splits)
qed

lemma ensure_json_eof_ok [simp]: "ensure_json_eof ts = Inr u \<longleftrightarrow> skip_ws ts = []"
  by (simp add: ensure_json_eof_def split: option.split)

lemma reject_duplicate_json_keys_iff:
  assumes "parse_json raw = Some j"
  shows "reject_duplicate_json_keys raw = Inr () \<longleftrightarrow> no_dup_keys j"
proof -
  from assms obtain rest where p: "parse_first raw = Some (j, rest)" and rest: "skip_ws rest = []"
    by (auto simp: parse_json_def split: option.splits prod.splits if_splits)
  from walk_after_parse [OF p] rest show ?thesis by (auto split: if_splits)
qed

lemma rejected_not_whole:
  assumes "parse_first raw = Some (j, rest)" and "reject_duplicate_json_keys raw = Inr ()"
  shows "parse_json raw = Some j \<and> no_dup_keys j"
  using walk_after_parse [OF assms(1)] assms by (auto simp: parse_json_def split: if_splits)

section \<open>Fuel of the walk\<close>

lemma dec_scan_progress: "dec_scan ts st stk = Inr (t, us, st', stk') \<Longrightarrow> length us < length ts"
  by (induction ts st stk rule: dec_scan.induct)
     (auto simp: close_token_def split: if_splits list.splits)

lemma dec_token_progress: "dec_token d = Inr (t, d') \<Longrightarrow> length (fst d') < length (fst d)"
  by (cases d; cases d') (auto dest: dec_scan_progress)

lemma walk_progress_all:
  "(\<forall>d d'. walk_value n d = Inr d' \<longrightarrow> length (fst d') < length (fst d)) \<and>
   (\<forall>keys d d'. walk_members n keys d = Inr d' \<longrightarrow> length (fst d') \<le> length (fst d)) \<and>
   (\<forall>d d'. walk_elems n d = Inr d' \<longrightarrow> length (fst d') \<le> length (fst d))"
proof (induction n)
  case 0
  show ?case by (simp add: walk_value.simps walk_members.simps walk_elems.simps)
next
  case (Suc n)
  have V: "walk_value n d = Inr d' \<Longrightarrow> length (fst d') < length (fst d)" for d d'
    using Suc.IH by blast
  have M: "walk_members n keys d = Inr d' \<Longrightarrow> length (fst d') \<le> length (fst d)" for keys d d'
    using Suc.IH by blast
  have E: "walk_elems n d = Inr d' \<Longrightarrow> length (fst d') \<le> length (fst d)" for d d'
    using Suc.IH by blast
  have "length (fst d') < length (fst d)" if "walk_value (Suc n) d = Inr d'" for d d'
    using that by (auto simp: walk_value.simps split: sum.splits prod.splits token.splits if_splits
        dest!: dec_token_progress M E)
  moreover have "length (fst d') \<le> length (fst d)" if "walk_members (Suc n) keys d = Inr d'" for keys d d'
    using that by (auto simp: walk_members.simps split: sum.splits prod.splits token.splits if_splits
        dest!: dec_token_progress M V)
  moreover have "length (fst d') \<le> length (fst d)" if "walk_elems (Suc n) d = Inr d'" for d d'
    using that by (auto simp: walk_elems.simps split: sum.splits if_splits dest!: E V)
  ultimately show ?case by blast
qed

lemmas walk_progress = walk_progress_all [THEN conjunct1, rule_format]

text \<open>Fuel of the walk: from twice the number of remaining tokens on, the result does not depend on it.\<close>

lemma walk_fuel_enough:
  "(2 * length (fst d) < n \<longrightarrow> 2 * length (fst d) < m \<longrightarrow> walk_value n d = walk_value m d) \<and>
   (2 * length (fst d) + 1 < n \<longrightarrow> 2 * length (fst d) + 1 < m \<longrightarrow> walk_members n keys d = walk_members m keys d) \<and>
   (2 * length (fst d) + 1 < n \<longrightarrow> 2 * length (fst d) + 1 < m \<longrightarrow> walk_elems n d = walk_elems m d)"
proof (induction "length (fst d)" arbitrary: d n m keys rule: less_induct)
  case less
  have value_eq: "walk_value n d = walk_value m d" if "2 * length (fst d) < n" "2 * length (fst d) < m" for n m
  proof -
    from that obtain n' m' where nm: "n = Suc n'" "m = Suc m'" by (cases n; cases m) auto
    show ?thesis
    proof (cases "dec_token d")
      case (Inr r)
      obtain t d1 where r: "r = (t, d1)" by (cases r)
      with Inr have p: "length (fst d1) < length (fst d)" by (auto dest: dec_token_progress)
      with that have "2 * length (fst d1) + 1 < n'" "2 * length (fst d1) + 1 < m'" by (simp_all add: nm)
      with less(1) [OF p] have "walk_members n' [] d1 = walk_members m' [] d1" "walk_elems n' d1 = walk_elems m' d1"
        by blast+
      with Inr r show ?thesis by (simp add: nm walk_value.simps split: token.split)
    qed (simp add: nm walk_value.simps)
  qed
  have members_eq: "walk_members n keys d = walk_members m keys d"
    if nm2: "2 * length (fst d) + 1 < n" "2 * length (fst d) + 1 < m" for n m keys
  proof -
    from that obtain n' m' where nm: "n = Suc n'" "m = Suc m'" by (cases n; cases m) auto
    show ?thesis
    proof (cases "dec_token d")
      case (Inr r)
      obtain t d1 where r: "r = (t, d1)" by (cases r)
      with Inr have p: "length (fst d1) < length (fst d)" by (auto dest: dec_token_progress)
      with nm2 have v: "walk_value n' d1 = walk_value m' d1"
        using less(1) [OF p, of n' m'] by (simp add: nm)
      have "walk_members n' ks d2 = walk_members m' ks d2" if "walk_value m' d1 = Inr d2" for d2 ks
      proof -
        from walk_progress [OF that] p have p2: "length (fst d2) < length (fst d)" by simp
        from less(1) [OF p2, of n' m' ks] nm2 p2 show ?thesis by (simp add: nm)
      qed
      with Inr r v show ?thesis
        by (auto simp: nm walk_members.simps split: token.splits sum.splits)
    qed (simp add: nm walk_members.simps)
  qed
  have elems_eq: "walk_elems n d = walk_elems m d"
    if nm2: "2 * length (fst d) + 1 < n" "2 * length (fst d) + 1 < m" for n m
  proof -
    from that obtain n' m' where nm: "n = Suc n'" "m = Suc m'" by (cases n; cases m) auto
    have v: "walk_value n' d = walk_value m' d" using nm2 by (intro value_eq) (simp_all add: nm)
    have "walk_elems n' d2 = walk_elems m' d2" if "walk_value m' d = Inr d2" for d2
    proof -
      from walk_progress [OF that] have p2: "length (fst d2) < length (fst d)" .
      from less(1) [OF p2, of n' m'] nm2 p2 show ?thesis by (simp add: nm)
    qed
    with v show ?thesis by (auto simp: nm walk_elems.simps split: sum.splits)
  qed
  from value_eq members_eq elems_eq show ?case by blast
qed

section \<open>Properties\<close>

definition dup_sample :: string where
  "dup_sample = concat [''{'', [CHR 0x22, CHR ''a'', CHR 0x22], '':{'', [CHR 0x22, CHR ''b'', CHR 0x22], '':1,'',
     [CHR 0x22, CHR ''b'', CHR 0x22], '':2}}'']"

text \<open>
  C22. On input that is one JSON value, the token walk of \<open>rejectDuplicateJSONKeys\<close> succeeds
  exactly when no object, at any depth and under any nesting of arrays, has two members with the
  same (unquoted) key. The walk reads a token stream with its own state machine, independently of
  the parser, so this is an agreement of two different readers of the same bytes.
\<close>

theorem duplicate_keys_rejected:
  assumes "parse_json raw = Some j"
  shows "(reject_duplicate_json_keys raw = Inr ()) = no_dup_keys j"
  by (rule reject_duplicate_json_keys_iff [OF assms])

lemma duplicate_keys_rejected_witness:
  "\<not> no_dup_keys (the (parse_json dup_sample)) \<and> reject_duplicate_json_keys dup_sample \<noteq> Inr ()"
proof -
  have ok: "parse_json dup_sample = Some (the (parse_json dup_sample))" by code_simp
  have "\<not> no_dup_keys (the (parse_json dup_sample))" by code_simp
  with duplicate_keys_rejected [OF ok] show ?thesis by blast
qed

end
