(* ===== verification/Go_Net.thy ===== *)
theory Go_Net
  imports Keydris_Prelude
begin

text \<open>
  Go's \<open>net\<close> and \<open>net/url\<close>, as far as the modelled code uses them: splitting and joining
  host and port, parsing and printing IP addresses, parsing URLs. Lemmas: \<open>join_host_port\<close>
  and \<open>split_host_port\<close> are inverse on hosts without brackets.
\<close>

section \<open>Host and port\<close>

text \<open>\<open>net.JoinHostPort\<close>\<close>

definition join_host_port :: "string \<Rightarrow> string \<Rightarrow> string" where
  "join_host_port host port =
     (if CHR '':'' \<in> set host then CHR ''['' # host @ '']:'' @ port else host @ CHR '':'' # port)"

text \<open>Text before and after the last occurrence of a character.\<close>

fun cut_last :: "char \<Rightarrow> string \<Rightarrow> (string \<times> string) option" where
  "cut_last d [] = None"
| "cut_last d (c # s) =
     (case cut_last d s of
        Some (b, a) \<Rightarrow> Some (c # b, a)
      | None \<Rightarrow> if c = d then Some ([], s) else None)"

text \<open>\<open>net.SplitHostPort\<close>; \<open>None\<close> for each of its address errors.\<close>

definition split_host_port :: "string \<Rightarrow> (string \<times> string) option" where
  "split_host_port hostport =
     (case cut_last (CHR '':'') hostport of
        None \<Rightarrow> None
      | Some (before, port) \<Rightarrow>
          if has_prefix hostport ''['' then
            (case cut_at (CHR '']'') hostport of
               (b, a, found) \<Rightarrow>
                 if \<not> found \<or> a \<noteq> CHR '':'' # port then None
                 else if CHR ''['' \<in> set (tl b) \<or> CHR ''['' \<in> set a \<or> CHR '']'' \<in> set a then None
                 else Some (tl b, port))
          else if CHR '':'' \<in> set before then None
          else if CHR ''['' \<in> set hostport \<or> CHR '']'' \<in> set hostport then None
          else Some (before, port))"

section \<open>IP addresses\<close>

text \<open>An address as Go holds it: IPv4 (also 4-in-6) as four bytes, IPv6 as eight 16-bit groups.\<close>

datatype ip = IPv4 "nat list" | IPv6 "nat list"

fun parse_octet :: "string \<Rightarrow> nat option" where
  "parse_octet s =
     (if s = [] \<or> \<not> list_all is_digit s \<or> (1 < length s \<and> hd s = CHR ''0'') \<or> 3 < length s
         \<or> 255 < digits_val s
      then None else Some (digits_val s))"

definition all_some :: "'a option list \<Rightarrow> 'a list option" where
  "all_some xs = (if None \<in> set xs then None else Some (map the xs))"

definition parse_ipv4 :: "string \<Rightarrow> nat list option" where
  "parse_ipv4 s = (let ps = split_on (CHR ''.'') s in if length ps = 4 then all_some (map parse_octet ps) else None)"

definition parse_group :: "string \<Rightarrow> nat option" where
  "parse_group s =
     (if s = [] \<or> 4 < length s \<or> \<not> list_all is_hex s then None
      else Some (foldl (\<lambda>n c. 16 * n + hex_val c) 0 s))"

text \<open>Groups separated by colons; the last may be a dotted IPv4 address when \<open>v4\<close>.\<close>

definition parse_groups :: "bool \<Rightarrow> string \<Rightarrow> nat list option" where
  "parse_groups v4 s =
     (let ps = split_on (CHR '':'') s in
      if s = [] then Some []
      else if v4 \<and> CHR ''.'' \<in> set (last ps) then
        (case (all_some (map parse_group (butlast ps)), parse_ipv4 (last ps)) of
           (Some gs, Some [a, b, c, d]) \<Rightarrow> Some (gs @ [a * 256 + b, c * 256 + d])
         | _ \<Rightarrow> None)
      else all_some (map parse_group ps))"

fun cut_double_colon :: "string \<Rightarrow> (string \<times> string) option" where
  "cut_double_colon (c # d # s) =
     (if c = CHR '':'' \<and> d = CHR '':'' then Some ([], s)
      else map_option (\<lambda>(b, a). (c # b, a)) (cut_double_colon (d # s)))"
| "cut_double_colon _ = None"

definition parse_ipv6 :: "string \<Rightarrow> nat list option" where
  "parse_ipv6 s =
     (case cut_double_colon s of
        None \<Rightarrow> (case parse_groups True s of Some gs \<Rightarrow> if length gs = 8 then Some gs else None | None \<Rightarrow> None)
      | Some (l, r) \<Rightarrow>
          (case (parse_groups False l, parse_groups True r) of
             (Some ls, Some rs) \<Rightarrow>
               if length ls + length rs \<le> 7
               then Some (ls @ replicate (8 - length ls - length rs) 0 @ rs) else None
           | _ \<Rightarrow> None))"

definition ip_of_groups :: "nat list \<Rightarrow> ip" where
  "ip_of_groups gs =
     (if take 6 gs = [0, 0, 0, 0, 0, 65535]
      then IPv4 [gs ! 6 div 256, gs ! 6 mod 256, gs ! 7 div 256, gs ! 7 mod 256]
      else IPv6 gs)"

text \<open>\<open>net.ParseIP\<close>: the first dot or colon decides the family; a zone is refused.\<close>

definition parse_ip :: "string \<Rightarrow> ip option" where
  "parse_ip s =
     (case find (\<lambda>c. c = CHR ''.'' \<or> c = CHR '':'' \<or> c = CHR ''%'') s of
        Some c \<Rightarrow>
          if c = CHR ''.'' then map_option IPv4 (parse_ipv4 s)
          else if c = CHR '':'' then map_option ip_of_groups (parse_ipv6 s)
          else None
      | None \<Rightarrow> None)"

fun nat_to_hex :: "nat \<Rightarrow> string" where
  "nat_to_hex n = (if n < 16 then [hex_digit n] else nat_to_hex (n div 16) @ [hex_digit (n mod 16)])"

declare nat_to_hex.simps [simp del]

definition join_with :: "string \<Rightarrow> string list \<Rightarrow> string" where
  "join_with sep xs = concat (case xs of [] \<Rightarrow> [] | x # ys \<Rightarrow> x # map (\<lambda>y. sep @ y) ys)"

text \<open>The first longest run of at least two zero groups: \<open>(start, length)\<close>.\<close>

definition zero_run_at :: "nat list \<Rightarrow> nat \<Rightarrow> nat" where
  "zero_run_at gs i = length (takeWhile (\<lambda>g. g = 0) (drop i gs))"

definition zero_run :: "nat list \<Rightarrow> (nat \<times> nat) option" where
  "zero_run gs =
     foldl (\<lambda>best i. let n = zero_run_at gs i in
       case best of
         None \<Rightarrow> if 2 \<le> n then Some (i, n) else None
       | Some (_, m) \<Rightarrow> if m < n then Some (i, n) else best) None [0..<length gs]"

text \<open>\<open>IP.String\<close>\<close>

fun ip_string :: "ip \<Rightarrow> string" where
  "ip_string (IPv4 os) = join_with ''.'' (map nat_to_dec os)"
| "ip_string (IPv6 gs) =
     (case zero_run gs of
        None \<Rightarrow> join_with '':'' (map nat_to_hex gs)
      | Some (i, n) \<Rightarrow> join_with '':'' (map nat_to_hex (take i gs)) @ ''::''
          @ join_with '':'' (map nat_to_hex (drop (i + n) gs)))"

text \<open>\<open>IP.IsLoopback\<close>\<close>

fun ip_is_loopback :: "ip \<Rightarrow> bool" where
  "ip_is_loopback (IPv4 os) \<longleftrightarrow> os \<noteq> [] \<and> hd os = 127"
| "ip_is_loopback (IPv6 gs) \<longleftrightarrow> gs = [0, 0, 0, 0, 0, 0, 0, 1]"

section \<open>URLs\<close>

record url =
  u_scheme :: string
  u_opaque :: string
  u_user :: bool
  u_host :: string
  u_path :: string
  u_raw_path :: string
  u_raw_query :: string
  u_fragment :: string

text \<open>\<open>unescape\<close> in the path, fragment and userinfo modes: percent escapes must be well formed.\<close>

fun unescape :: "string \<Rightarrow> string option" where
  "unescape [] = Some []"
| "unescape [c] = (if c = CHR ''%'' then None else Some [c])"
| "unescape [c, d] = (if c = CHR ''%'' \<or> d = CHR ''%'' then None else Some [c, d])"
| "unescape (c # a # b # s) =
     (if c = CHR ''%'' then
        if is_hex a \<and> is_hex b
        then map_option (\<lambda>t. char_of (hex_val a * 16 + hex_val b) # t) (unescape s) else None
      else map_option (\<lambda>t. c # t) (unescape (a # b # s)))"

text \<open>\<open>unescape\<close> in host mode: which plain ASCII characters and which escapes are allowed.\<close>

definition host_char :: "char \<Rightarrow> bool" where
  "host_char c \<longleftrightarrow> 128 \<le> byte c \<or> is_alnum c
     \<or> c \<in> set (CHR 0x22 # CHR 0x27 # ''!$&()*+,;=:[]<>-_.~'')"

fun unescape_host :: "string \<Rightarrow> string option" where
  "unescape_host [] = Some []"
| "unescape_host (c # s) =
     (if c = CHR ''%'' then
        (case s of
           a # b # s' \<Rightarrow>
             if is_hex a \<and> is_hex b \<and> (8 \<le> hex_val a \<or> (a = CHR ''2'' \<and> b = CHR ''5''))
             then map_option (\<lambda>t. char_of (hex_val a * 16 + hex_val b) # t) (unescape_host s') else None
         | _ \<Rightarrow> None)
      else if host_char c then map_option (\<lambda>t. c # t) (unescape_host s) else None)"

definition valid_optional_port :: "string \<Rightarrow> bool" where
  "valid_optional_port p \<longleftrightarrow> p = [] \<or> (hd p = CHR '':'' \<and> list_all is_digit (tl p))"

definition is_ctl :: "char \<Rightarrow> bool" where
  "is_ctl c \<longleftrightarrow> byte c < 32 \<or> byte c = 127"

text \<open>\<open>parseHost\<close> (an IPv6 zone in brackets is kept as written)\<close>

definition parse_host :: "string \<Rightarrow> string option" where
  "parse_host h =
     (if has_prefix h ''['' then
        (case cut_last (CHR '']'') h of
           None \<Rightarrow> None
         | Some (b, port) \<Rightarrow> if valid_optional_port port then unescape_host h else None)
      else (case cut_last (CHR '':'') h of
              Some (b, port) \<Rightarrow> if list_all is_digit port then unescape_host h else None
            | None \<Rightarrow> unescape_host h))"

definition userinfo_char :: "char \<Rightarrow> bool" where
  "userinfo_char c \<longleftrightarrow> is_alnum c \<or> c \<in> set (CHR 0x27 # ''-._:~!$&()*+,;=%@'')"

text \<open>\<open>parseAuthority\<close>: whether there is user information, and the host.\<close>

definition parse_authority :: "string \<Rightarrow> (bool \<times> string) option" where
  "parse_authority a =
     (case cut_last (CHR ''@'') a of
        None \<Rightarrow> map_option (\<lambda>h. (False, h)) (parse_host a)
      | Some (ui, h) \<Rightarrow>
          (case parse_host h of
             None \<Rightarrow> None
           | Some h' \<Rightarrow> if list_all userinfo_char ui \<and> unescape ui \<noteq> None then Some (True, h') else None))"

definition scheme_char :: "char \<Rightarrow> bool" where
  "scheme_char c \<longleftrightarrow> is_alnum c \<or> c \<in> set ''+-.''"

text \<open>\<open>getScheme\<close>: scheme and rest, \<open>None\<close> for a missing scheme before a colon.\<close>

definition get_scheme :: "string \<Rightarrow> (string \<times> string) option" where
  "get_scheme raw =
     (let p = takeWhile scheme_char raw; r = dropWhile scheme_char raw in
      if r = [] \<or> hd r \<noteq> CHR '':'' then Some ([], raw)
      else if p = [] then None
      else if is_lower (hd p) \<or> is_upper (hd p) then Some (p, tl r)
      else Some ([], raw))"

text \<open>\<open>url.Parse\<close> and, with \<open>via_request\<close>, \<open>url.ParseRequestURI\<close>.\<close>

definition parse_url_rest :: "bool \<Rightarrow> string \<Rightarrow> string \<Rightarrow> url option" where
  "parse_url_rest via_request scheme rest0 =
     (case cut_at (CHR ''?'') rest0 of (rest, query, _) \<Rightarrow>
        if \<not> has_prefix rest ''/'' \<and> scheme \<noteq> [] then
          Some \<lparr>u_scheme = scheme, u_opaque = rest, u_user = False, u_host = [], u_path = [],
            u_raw_path = [], u_raw_query = query, u_fragment = []\<rparr>
        else if \<not> has_prefix rest ''/'' \<and>
            (via_request \<or> CHR '':'' \<in> set (fst (cut_at (CHR ''/'') rest))) then None
        else
          (let has_auth = (scheme \<noteq> [] \<or> (\<not> via_request \<and> \<not> has_prefix rest ''///'')) \<and> has_prefix rest ''//'';
               auth = takeWhile (\<lambda>c. c \<noteq> CHR ''/'') (drop 2 rest);
               path = (if has_auth then dropWhile (\<lambda>c. c \<noteq> CHR ''/'') (drop 2 rest) else rest)
           in case (if has_auth then parse_authority auth else Some (False, [])) of
                None \<Rightarrow> None
              | Some (user, host) \<Rightarrow>
                  map_option (\<lambda>p. \<lparr>u_scheme = scheme, u_opaque = [], u_user = user, u_host = host,
                    u_path = p, u_raw_path = path, u_raw_query = query, u_fragment = []\<rparr>) (unescape path)))"

definition parse_url_nofrag :: "bool \<Rightarrow> string \<Rightarrow> url option" where
  "parse_url_nofrag via_request raw =
     (if list_ex is_ctl raw \<or> (via_request \<and> raw = []) then None
      else case get_scheme raw of
        None \<Rightarrow> None
      | Some (scheme, rest) \<Rightarrow> parse_url_rest via_request (to_lower scheme) rest)"

definition parse_url :: "string \<Rightarrow> url option" where
  "parse_url raw =
     (case cut_at (CHR ''#'') raw of (u, frag, _) \<Rightarrow>
        (case parse_url_nofrag False u of
           None \<Rightarrow> None
         | Some v \<Rightarrow> map_option (\<lambda>f. v\<lparr>u_fragment := f\<rparr>) (unescape frag)))"

definition parse_request_uri :: "string \<Rightarrow> url option" where
  "parse_request_uri raw = parse_url_nofrag True raw"

definition url_is_abs :: "url \<Rightarrow> bool" where
  "url_is_abs u \<longleftrightarrow> u_scheme u \<noteq> []"

text \<open>\<open>URL.Hostname\<close>: the host without port and brackets.\<close>

definition url_hostname :: "url \<Rightarrow> string" where
  "url_hostname u =
     (let h = (case cut_last (CHR '':'') (u_host u) of
                 Some (b, p) \<Rightarrow> if list_all is_digit p then b else u_host u
               | None \<Rightarrow> u_host u)
      in if has_prefix h ''['' \<and> has_suffix h '']'' then butlast (tl h) else h)"

text \<open>\<open>url.QueryEscape\<close>\<close>

definition hex_upper :: "nat \<Rightarrow> char" where
  "hex_upper n = char_of (if n < 10 then 48 + n else 55 + n)"

definition query_escape :: "string \<Rightarrow> string" where
  "query_escape s = concat (map (\<lambda>c.
     if is_alnum c \<or> c \<in> set ''-_.~'' then [c]
     else if c = CHR 0x20 then ''+''
     else [CHR ''%'', hex_upper (byte c div 16), hex_upper (byte c mod 16)]) s)"

section \<open>Facts\<close>

lemma cut_last_None: "cut_last d s = None \<longleftrightarrow> d \<notin> set s"
  by (induction s) (auto split: option.splits)

lemma cut_last_append: "d \<notin> set a \<Longrightarrow> cut_last d (b @ d # a) = Some (b, a)"
proof (induction b)
  case Nil
  then show ?case by (simp add: cut_last_None [THEN iffD2])
qed auto

lemma cut_last_Some: "cut_last d s = Some (b, a) \<Longrightarrow> s = b @ d # a \<and> d \<notin> set a"
  by (induction s arbitrary: b a) (auto split: option.splits if_splits simp: cut_last_None)

lemma cut_at_append: "d \<notin> set b \<Longrightarrow> cut_at d (b @ d # a) = (b, a, True)"
  by (induction b) auto

lemma split_join_host_port:
  assumes "CHR ''['' \<notin> set host" "CHR '']'' \<notin> set host"
    and "CHR '':'' \<notin> set port" "CHR ''['' \<notin> set port" "CHR '']'' \<notin> set port"
  shows "split_host_port (join_host_port host port) = Some (host, port)"
proof (cases "CHR '':'' \<in> set host")
  case True
  have "cut_last (CHR '':'') ((CHR ''['' # host @ '']'') @ CHR '':'' # port) = Some (CHR ''['' # host @ '']'', port)"
    using assms by (intro cut_last_append)
  moreover have "cut_at (CHR '']'') ((CHR ''['' # host) @ CHR '']'' # CHR '':'' # port) = (CHR ''['' # host, CHR '':'' # port, True)"
    using assms by (intro cut_at_append) auto
  ultimately show ?thesis
    using True assms by (auto simp: split_host_port_def join_host_port_def)
next
  case False
  have "cut_last (CHR '':'') (host @ CHR '':'' # port) = Some (host, port)"
    using assms by (intro cut_last_append)
  moreover have "\<not> has_prefix (host @ CHR '':'' # port) ''[''"
    using assms by (cases host) auto
  ultimately show ?thesis
    using False assms by (auto simp: split_host_port_def join_host_port_def)
qed

end
