(* ===== verification/Runtime_Routes.thy ===== *)
theory Runtime_Routes
  imports Wire_Json Go_Net
begin

text \<open>
  \<^verbatim>\<open>internal/runtimecontract/routes.go\<close> and the path checks of \<^verbatim>\<open>wire.go\<close>: the
  validated response of \<^verbatim>\<open>GET /v1/runtime/routes\<close>, its origin matchers, route lookup,
  the managed origins, and the resources a route carries. Lemmas: what a validated response
  guarantees, that route lookup and origin management agree, path prefixes match at segment
  boundaries, the managed origins are sorted and distinct, resource lookup is exact.
\<close>

section \<open>Identifier patterns\<close>

text \<open>A regular expression that is a fixed sequence of character classes.\<close>

definition matches_classes :: "(char \<Rightarrow> bool) list \<Rightarrow> string \<Rightarrow> bool" where
  "matches_classes ps s \<longleftrightarrow> list_all2 (\<lambda>p c. p c) ps s"

definition uuid_pattern :: "string \<Rightarrow> bool" where
  "uuid_pattern s \<longleftrightarrow> matches_classes
     (replicate 8 is_hex @ [\<lambda>c. c = CHR ''-''] @ replicate 4 is_hex @ [\<lambda>c. c = CHR ''-'']
      @ [\<lambda>c. c \<in> set ''12345678''] @ replicate 3 is_hex @ [\<lambda>c. c = CHR ''-'']
      @ [\<lambda>c. c \<in> set ''89abAB''] @ replicate 3 is_hex @ [\<lambda>c. c = CHR ''-''] @ replicate 12 is_hex) s"

definition hash_pattern :: "string \<Rightarrow> bool" where
  "hash_pattern s \<longleftrightarrow> has_prefix s ''sha256:'' \<and>
     matches_classes (replicate 64 (\<lambda>c. is_hex c \<and> \<not> is_upper c)) (drop 7 s)"

section \<open>Endpoint paths\<close>

definition valid_runtime_path :: "string \<Rightarrow> bool" where
  "valid_runtime_path value \<longleftrightarrow>
     (if \<not> has_prefix value ''/v1/runtime/'' \<or> contains value ''://''
         \<or> contains_any value [CHR 0x20, CHR 0x09, CHR 0x0D, CHR 0x0A]
      then False
      else case parse_request_uri value of
             None \<Rightarrow> False
           | Some parsed \<Rightarrow> \<not> url_is_abs parsed \<and> u_host parsed = [])"

section \<open>The response\<close>

record routing_key =
  key_type :: string
  key_value :: string

record route_resource =
  resource_type :: string
  resource_id :: string
  external_id :: string
  resource_display_name :: string
  resource_availability :: string
  resource_status :: "string option"
  routing_keys :: "routing_key list"

record origin_matcher =
  om_scheme :: string
  om_host :: string
  om_port :: int
  om_path_prefix :: string

record route_matcher =
  matcher_type :: string
  attributes :: string

record runtime_route =
  route_id :: string
  route_display_name :: string
  provider :: string
  connection_id :: string
  enforcement_mode :: string
  availability :: string
  status_reason_code :: "string option"
  matchers :: "route_matcher list"
  resources :: "route_resource list"
  runtime_endpoint_path :: string
  requires_upstream_auth :: bool
  session_endpoint_path :: string
  kit_action_token_endpoint_path :: string
  origins :: "origin_matcher list"

record routes_agent =
  agent_id :: string
  agent_display_name :: string

record routes_policy =
  policy_id :: string
  policy_version_id :: string
  policy_hash :: string

record runtime_routes =
  rr_schema_version :: int
  organization_id :: string
  agent :: routes_agent
  policy :: "routes_policy option"
  routes :: "runtime_route list"

section \<open>Decoding\<close>

definition zero_key :: routing_key where
  "zero_key = \<lparr>key_type = [], key_value = []\<rparr>"

definition decode_key :: "bool \<Rightarrow> json \<Rightarrow> routing_key \<Rightarrow> routing_key result" where
  "decode_key strict = decode_struct strict
     [(''key_type'', dec_string (\<lambda>v r. r\<lparr>key_type := v\<rparr>)),
      (''value'', dec_string (\<lambda>v r. r\<lparr>key_value := v\<rparr>))]"

definition zero_resource :: route_resource where
  "zero_resource = \<lparr>resource_type = [], resource_id = [], external_id = [],
     resource_display_name = [], resource_availability = [], resource_status = None, routing_keys = []\<rparr>"

definition decode_resource :: "bool \<Rightarrow> json \<Rightarrow> route_resource \<Rightarrow> route_resource result" where
  "decode_resource strict = decode_struct strict
     [(''resource_type'', dec_string (\<lambda>v r. r\<lparr>resource_type := v\<rparr>)),
      (''resource_id'', dec_string (\<lambda>v r. r\<lparr>resource_id := v\<rparr>)),
      (''external_id'', dec_string (\<lambda>v r. r\<lparr>external_id := v\<rparr>)),
      (''display_name'', dec_string (\<lambda>v r. r\<lparr>resource_display_name := v\<rparr>)),
      (''availability'', dec_string (\<lambda>v r. r\<lparr>resource_availability := v\<rparr>)),
      (''status_reason_code'', dec_opt_string (\<lambda>v r. r\<lparr>resource_status := v\<rparr>)),
      (''routing_keys'', dec_list (\<lambda>v r. r\<lparr>routing_keys := v\<rparr>) routing_keys zero_key (decode_key strict))]"

definition zero_matcher :: route_matcher where
  "zero_matcher = \<lparr>matcher_type = [], attributes = []\<rparr>"

definition decode_matcher :: "bool \<Rightarrow> json \<Rightarrow> route_matcher \<Rightarrow> route_matcher result" where
  "decode_matcher strict = decode_struct strict
     [(''matcher_type'', dec_string (\<lambda>v r. r\<lparr>matcher_type := v\<rparr>)),
      (''attributes'', dec_raw (\<lambda>v r. r\<lparr>attributes := v\<rparr>))]"

definition zero_route :: runtime_route where
  "zero_route = \<lparr>route_id = [], route_display_name = [], provider = [], connection_id = [],
     enforcement_mode = [], availability = [], status_reason_code = None, matchers = [],
     resources = [], runtime_endpoint_path = [], requires_upstream_auth = False,
     session_endpoint_path = [], kit_action_token_endpoint_path = [], origins = []\<rparr>"

definition decode_route :: "bool \<Rightarrow> json \<Rightarrow> runtime_route \<Rightarrow> runtime_route result" where
  "decode_route strict = decode_struct strict
     [(''route_id'', dec_string (\<lambda>v r. r\<lparr>route_id := v\<rparr>)),
      (''display_name'', dec_string (\<lambda>v r. r\<lparr>route_display_name := v\<rparr>)),
      (''provider'', dec_string (\<lambda>v r. r\<lparr>provider := v\<rparr>)),
      (''connection_id'', dec_string (\<lambda>v r. r\<lparr>connection_id := v\<rparr>)),
      (''enforcement_mode'', dec_string (\<lambda>v r. r\<lparr>enforcement_mode := v\<rparr>)),
      (''availability'', dec_string (\<lambda>v r. r\<lparr>availability := v\<rparr>)),
      (''status_reason_code'', dec_opt_string (\<lambda>v r. r\<lparr>status_reason_code := v\<rparr>)),
      (''matchers'', dec_list (\<lambda>v r. r\<lparr>matchers := v\<rparr>) matchers zero_matcher (decode_matcher strict)),
      (''resources'', dec_list (\<lambda>v r. r\<lparr>resources := v\<rparr>) resources zero_resource (decode_resource strict)),
      (''runtime_endpoint_path'', dec_string (\<lambda>v r. r\<lparr>runtime_endpoint_path := v\<rparr>)),
      (''requires_upstream_auth'', dec_bool (\<lambda>v r. r\<lparr>requires_upstream_auth := v\<rparr>)),
      (''session_endpoint_path'', dec_string (\<lambda>v r. r\<lparr>session_endpoint_path := v\<rparr>)),
      (''kit_action_token_endpoint_path'',
         dec_string (\<lambda>v r. r\<lparr>kit_action_token_endpoint_path := v\<rparr>))]"

definition zero_agent :: routes_agent where
  "zero_agent = \<lparr>agent_id = [], agent_display_name = []\<rparr>"

definition decode_agent :: "bool \<Rightarrow> json \<Rightarrow> routes_agent \<Rightarrow> routes_agent result" where
  "decode_agent strict = decode_struct strict
     [(''agent_id'', dec_string (\<lambda>v r. r\<lparr>agent_id := v\<rparr>)),
      (''display_name'', dec_string (\<lambda>v r. r\<lparr>agent_display_name := v\<rparr>))]"

definition zero_policy :: routes_policy where
  "zero_policy = \<lparr>policy_id = [], policy_version_id = [], policy_hash = []\<rparr>"

definition decode_policy :: "bool \<Rightarrow> json \<Rightarrow> routes_policy \<Rightarrow> routes_policy result" where
  "decode_policy strict = decode_struct strict
     [(''policy_id'', dec_string (\<lambda>v r. r\<lparr>policy_id := v\<rparr>)),
      (''policy_version_id'', dec_string (\<lambda>v r. r\<lparr>policy_version_id := v\<rparr>)),
      (''policy_hash'', dec_string (\<lambda>v r. r\<lparr>policy_hash := v\<rparr>))]"

definition zero_routes :: runtime_routes where
  "zero_routes = \<lparr>rr_schema_version = 0, organization_id = [], agent = zero_agent, policy = None, routes = []\<rparr>"

definition decode_routes :: "bool \<Rightarrow> json \<Rightarrow> runtime_routes \<Rightarrow> runtime_routes result" where
  "decode_routes strict = decode_struct strict
     [(''schema_version'', dec_int (\<lambda>v r. r\<lparr>rr_schema_version := v\<rparr>)),
      (''organization_id'', dec_string (\<lambda>v r. r\<lparr>organization_id := v\<rparr>)),
      (''agent'', dec_nested (\<lambda>v r. r\<lparr>agent := v\<rparr>) agent (decode_agent strict)),
      (''policy'', dec_pointer (\<lambda>v r. r\<lparr>policy := v\<rparr>) policy zero_policy (decode_policy strict)),
      (''routes'', dec_list (\<lambda>v r. r\<lparr>routes := v\<rparr>) routes zero_route (decode_route strict))]"

section \<open>Validation\<close>

definition zero_origin :: origin_matcher where
  "zero_origin = \<lparr>om_scheme = [], om_host = [], om_port = 0, om_path_prefix = []\<rparr>"

definition decode_origin :: "json \<Rightarrow> origin_matcher \<Rightarrow> origin_matcher result" where
  "decode_origin = decode_struct True
     [(''scheme'', dec_string (\<lambda>v r. r\<lparr>om_scheme := v\<rparr>)),
      (''host'', dec_string (\<lambda>v r. r\<lparr>om_host := v\<rparr>)),
      (''port'', dec_int (\<lambda>v r. r\<lparr>om_port := v\<rparr>)),
      (''path_prefix'', dec_string (\<lambda>v r. r\<lparr>om_path_prefix := v\<rparr>))]"

definition normal_host :: "string \<Rightarrow> string" where
  "normal_host h = trim_suffix (to_lower h) ''.''"

definition parse_origin_matcher :: "string \<Rightarrow> origin_matcher result" where
  "parse_origin_matcher raw =
     (case decode_strict raw decode_origin zero_origin of
        Inl e \<Rightarrow> Inl (''invalid http.origin matcher: '' @ e)
      | Inr a \<Rightarrow>
          (let scheme = to_lower (om_scheme a); host = normal_host (om_host a) in
           if (scheme \<noteq> ''http'' \<and> scheme \<noteq> ''https'') \<or> host = [] \<or> om_port a < 1 \<or> 65535 < om_port a
              \<or> \<not> has_prefix (om_path_prefix a) ''/''
           then Inl ''invalid http.origin matcher''
           else Inr \<lparr>om_scheme = scheme, om_host = host, om_port = om_port a,
                  om_path_prefix = om_path_prefix a\<rparr>))"

definition add_matcher :: "route_matcher \<Rightarrow> origin_matcher list \<Rightarrow> origin_matcher list result" where
  "add_matcher m os =
     (if matcher_type m = ''http.origin'' then
        bind_result (parse_origin_matcher (attributes m)) (\<lambda>origin. Inr (os @ [origin]))
      else Inl (''unsupported matcher type '' @ matcher_type m))"

definition validate_mode :: "runtime_route \<Rightarrow> unit result" where
  "validate_mode route =
     (if enforcement_mode route = ''provider_executor'' then
        fail_if (\<not> valid_runtime_path (runtime_endpoint_path route)) ''invalid runtime endpoint path''
      else if enforcement_mode route = ''mcp_gateway'' then
        bind_result (fail_if (\<not> valid_runtime_path (runtime_endpoint_path route)) ''invalid runtime endpoint path'')
          (\<lambda>_. fail_if (\<not> valid_runtime_path (session_endpoint_path route)) ''invalid MCP session endpoint path'')
      else if enforcement_mode route = ''mcp_kit_reader'' then
        fail_if (\<not> valid_runtime_path (kit_action_token_endpoint_path route)) ''invalid kit reader route''
      else Inl (''unsupported enforcement mode '' @ enforcement_mode route))"

definition validate_resource :: "route_resource \<Rightarrow> unit result" where
  "validate_resource resource =
     (if \<not> uuid_pattern (resource_id resource) \<or> resource_type resource = [] \<or> external_id resource = []
         \<or> resource_display_name resource = [] \<or> resource_availability resource = []
         \<or> routing_keys resource = []
      then Inl ''invalid route resource''
      else fail_if (\<exists>key\<in>set (routing_keys resource). key_type key = [] \<or> key_value key = [])
        ''invalid resource routing key'')"

text \<open>\<open>(*RuntimeRoute).validate\<close>: the route with its parsed origins, or the error.\<close>

definition validate_route :: "runtime_route \<Rightarrow> runtime_route result" where
  "validate_route route =
     (if \<not> uuid_pattern (route_id route) \<or> \<not> uuid_pattern (connection_id route)
         \<or> provider route = [] \<or> route_display_name route = []
      then Inl ''invalid route identity''
      else if availability route = [] then Inl ''route has no availability''
      else bind_result (for_each add_matcher (matchers route) []) (\<lambda>os.
        if os = [] then Inl ''route has no HTTP origin matcher''
        else bind_result (validate_mode route) (\<lambda>_.
          bind_result (for_each (\<lambda>r _. validate_resource r) (resources route) ()) (\<lambda>_.
            Inr (route\<lparr>origins := os\<rparr>)))))"

text \<open>The loop of \<open>Validate\<close>: the routes validated so far, and the ids seen.\<close>

definition validate_next :: "runtime_route \<Rightarrow> runtime_route list \<Rightarrow> runtime_route list result" where
  "validate_next route done =
     bind_result (validate_route route) (\<lambda>route'.
       if route_id route' \<in> set (map route_id done) then Inl (''duplicate route id '' @ route_id route')
       else Inr (done @ [route']))"

definition validate_routes :: "runtime_routes \<Rightarrow> runtime_routes result" where
  "validate_routes rs =
     (if rr_schema_version rs \<noteq> schema_version then Inl ''unsupported runtime routes schema version''
      else if \<not> uuid_pattern (organization_id rs) \<or> \<not> uuid_pattern (agent_id (agent rs))
         \<or> agent_display_name (agent rs) = []
      then Inl ''invalid runtime routes identity''
      else if (case policy rs of None \<Rightarrow> False | Some p \<Rightarrow>
           \<not> uuid_pattern (policy_id p) \<or> \<not> uuid_pattern (policy_version_id p) \<or> \<not> hash_pattern (policy_hash p))
      then Inl ''invalid runtime routes policy''
      else bind_result (for_each validate_next (routes rs) []) (\<lambda>routes'. Inr (rs\<lparr>routes := routes'\<rparr>)))"

definition decode_runtime_routes :: "string \<Rightarrow> runtime_routes result" where
  "decode_runtime_routes raw =
     bind_result (reject_duplicate_json_keys raw) (\<lambda>_.
     bind_result (wrap_error ''decode runtime routes: '' (decode_strict raw (decode_routes True) zero_routes))
       validate_routes)"

section \<open>Lookup\<close>

definition matches_origin :: "origin_matcher \<Rightarrow> string \<Rightarrow> string \<Rightarrow> int \<Rightarrow> bool" where
  "matches_origin m scheme host port \<longleftrightarrow>
     om_scheme m = scheme \<and> om_host m = normal_host host \<and> om_port m = port"

definition path_has_prefix :: "string \<Rightarrow> string \<Rightarrow> bool" where
  "path_has_prefix path pre \<longleftrightarrow>
     (if pre = ''/'' then True
      else path = pre \<or> has_prefix path (trim_suffix pre ''/'' @ ''/''))"

definition routes_for :: "runtime_routes \<Rightarrow> string \<Rightarrow> string \<Rightarrow> int \<Rightarrow> string \<Rightarrow> runtime_route list" where
  "routes_for rs scheme host port path =
     filter (\<lambda>route. \<exists>m\<in>set (origins route).
       matches_origin m scheme host port \<and> path_has_prefix path (om_path_prefix m)) (routes rs)"

definition manages_origin :: "runtime_routes \<Rightarrow> string \<Rightarrow> string \<Rightarrow> int \<Rightarrow> bool" where
  "manages_origin rs scheme host port \<longleftrightarrow>
     (\<exists>route\<in>set (routes rs). \<exists>m\<in>set (origins route). matches_origin m scheme host port)"

definition managed_origins :: "runtime_routes \<Rightarrow> string list" where
  "managed_origins rs =
     sort_on id (remdups (concat (map (\<lambda>route. map (\<lambda>m. join_host_port (om_host m) (itoa (om_port m)))
       (origins route)) (routes rs))))"

definition is_default_port :: "string \<Rightarrow> int \<Rightarrow> bool" where
  "is_default_port scheme port \<longleftrightarrow> (scheme = ''https'' \<and> port = 443) \<or> (scheme = ''http'' \<and> port = 80)"

text \<open>The slug loop of \<open>mcpServerName\<close>: output so far and \<open>previousDash\<close>.\<close>

fun slug_loop :: "string \<Rightarrow> bool \<Rightarrow> string \<Rightarrow> string" where
  "slug_loop [] previous_dash out = out"
| "slug_loop (c # s) previous_dash out =
     (if is_lower c \<or> is_digit c then slug_loop s False (out @ [c])
      else if \<not> previous_dash then slug_loop s True (out @ ''-'')
      else slug_loop s previous_dash out)"

definition mcp_server_name :: "runtime_route \<Rightarrow> string" where
  "mcp_server_name route =
     (let name = trim_set ''-'' (slug_loop (to_lower (route_display_name route)) True [])
      in if name = [] then connection_id route else name)"

record mcp_server_endpoint =
  endpoint_name :: string
  endpoint_url :: string

definition route_endpoint :: "runtime_route \<Rightarrow> mcp_server_endpoint option" where
  "route_endpoint route =
     (if enforcement_mode route \<noteq> ''mcp_gateway'' \<or> availability route \<noteq> ''ready'' then None
      else case origins route of
        [] \<Rightarrow> None
      | m # _ \<Rightarrow>
          (let host = (if is_default_port (om_scheme m) (om_port m) then om_host m
                       else join_host_port (om_host m) (itoa (om_port m)))
           in Some \<lparr>endpoint_name = mcp_server_name route,
                endpoint_url = om_scheme m @ ''://'' @ host @ om_path_prefix m\<rparr>))"

text \<open>\<open>sort.Slice\<close> is not stable; entries of equal names may come out in another order.\<close>

definition mcp_server_endpoints :: "runtime_routes \<Rightarrow> mcp_server_endpoint list" where
  "mcp_server_endpoints rs = sort_on endpoint_name (List.map_filter route_endpoint (routes rs))"

definition resource_by_key :: "runtime_route \<Rightarrow> string \<Rightarrow> string \<Rightarrow> bool \<Rightarrow> route_resource option" where
  "resource_by_key route kt value case_fold =
     find (\<lambda>resource. \<exists>key\<in>set (routing_keys resource).
       key_type key = kt \<and> (key_value key = value \<or> (case_fold \<and> equal_fold (key_value key) value)))
       (resources route)"

section \<open>What a validated response guarantees\<close>

text \<open>The conditions on an origin matcher, a resource and a route that the rest of the CLI relies on.\<close>

definition origin_ok :: "origin_matcher \<Rightarrow> bool" where
  "origin_ok m \<longleftrightarrow> om_scheme m \<in> {''http'', ''https''} \<and> om_host m \<noteq> []
     \<and> to_lower (om_host m) = om_host m \<and> 1 \<le> om_port m \<and> om_port m \<le> 65535
     \<and> has_prefix (om_path_prefix m) ''/''"

definition mode_ok :: "runtime_route \<Rightarrow> bool" where
  "mode_ok r \<longleftrightarrow>
     (enforcement_mode r = ''provider_executor'' \<and> valid_runtime_path (runtime_endpoint_path r))
   \<or> (enforcement_mode r = ''mcp_gateway'' \<and> valid_runtime_path (runtime_endpoint_path r)
       \<and> valid_runtime_path (session_endpoint_path r))
   \<or> (enforcement_mode r = ''mcp_kit_reader'' \<and> valid_runtime_path (kit_action_token_endpoint_path r))"

definition resource_ok :: "route_resource \<Rightarrow> bool" where
  "resource_ok x \<longleftrightarrow> uuid_pattern (resource_id x) \<and> routing_keys x \<noteq> []
     \<and> (\<forall>k\<in>set (routing_keys x). key_type k \<noteq> [] \<and> key_value k \<noteq> [])"

definition route_ok :: "runtime_route \<Rightarrow> bool" where
  "route_ok r \<longleftrightarrow> uuid_pattern (route_id r) \<and> uuid_pattern (connection_id r) \<and> origins r \<noteq> []
     \<and> (\<forall>m\<in>set (origins r). origin_ok m) \<and> mode_ok r \<and> (\<forall>x\<in>set (resources r). resource_ok x)"

definition routes_ok :: "runtime_routes \<Rightarrow> bool" where
  "routes_ok rs \<longleftrightarrow> rr_schema_version rs = schema_version \<and> uuid_pattern (organization_id rs)
     \<and> (\<forall>r\<in>set (routes rs). route_ok r) \<and> distinct (map route_id (routes rs))"

lemma to_lower_trim_suffix: "to_lower s = s \<Longrightarrow> to_lower (trim_suffix s p) = trim_suffix s p"
  by (simp add: to_lower_def trim_suffix_def take_map flip: take_map)

lemma to_lower_normal_host: "to_lower (normal_host h) = normal_host h"
  by (simp add: normal_host_def to_lower_trim_suffix)

lemma parse_origin_matcher_ok:
  "parse_origin_matcher raw = Inr m \<Longrightarrow> origin_ok m"
  by (auto simp: parse_origin_matcher_def origin_ok_def Let_def to_lower_normal_host split: sum.splits if_splits)

lemma parse_origin_matcher_host:
  "parse_origin_matcher raw = Inr m \<Longrightarrow> \<exists>h. om_host m = normal_host h"
  by (auto simp: parse_origin_matcher_def Let_def split: sum.splits if_splits)

lemma add_matchers_ok:
  assumes "for_each add_matcher ms [] = Inr os"
  shows "\<forall>m\<in>set os. origin_ok m \<and> (\<exists>h. om_host m = normal_host h)"
  by (rule for_each_invariant [OF assms])
    (auto simp: add_matcher_def parse_origin_matcher_ok dest: parse_origin_matcher_host split: if_splits)

lemma validate_mode_ok: "validate_mode r = Inr u \<Longrightarrow> mode_ok r"
  by (auto simp: validate_mode_def mode_ok_def split: if_splits)

lemma for_each_unit:
  "for_each (\<lambda>x _. f x) xs () = Inr u \<Longrightarrow> x \<in> set xs \<Longrightarrow> f x = Inr ()"
  by (induction xs) auto

lemma validate_resource_ok: "validate_resource x = Inr u \<Longrightarrow> resource_ok x"
  by (auto simp: validate_resource_def resource_ok_def split: if_splits)

lemma validate_route_ok:
  "validate_route r = Inr r' \<Longrightarrow> route_ok r' \<and> (\<forall>m\<in>set (origins r'). \<exists>h. om_host m = normal_host h)"
  by (auto simp: validate_route_def route_ok_def mode_ok_def dest!: validate_mode_ok add_matchers_ok
      dest: for_each_unit validate_resource_ok split: if_splits)

definition hosts_normal :: "runtime_routes \<Rightarrow> bool" where
  "hosts_normal rs \<longleftrightarrow> (\<forall>r\<in>set (routes rs). \<forall>m\<in>set (origins r). \<exists>h. om_host m = normal_host h)"

lemma validate_all_ok:
  assumes "for_each validate_next rs [] = Inr rs'"
  shows "(\<forall>r\<in>set rs'. route_ok r \<and> (\<forall>m\<in>set (origins r). \<exists>h. om_host m = normal_host h))
    \<and> distinct (map route_id rs')"
  by (rule for_each_invariant [OF assms])
    (auto simp: validate_next_def dest!: validate_route_ok split: if_splits)

lemma validate_routes_ok: "validate_routes rs = Inr rs' \<Longrightarrow> routes_ok rs'"
  by (auto simp: validate_routes_def routes_ok_def dest: validate_all_ok split: if_splits)

lemma validate_routes_hosts: "validate_routes rs = Inr rs' \<Longrightarrow> hosts_normal rs'"
  by (auto simp: validate_routes_def hosts_normal_def dest: validate_all_ok split: if_splits)

section \<open>Path prefixes and segments\<close>

lemma split_on_append: "split_on d (a @ d # b) = split_on d a @ split_on d b"
  by (induction a) (auto split: list.splits)

lemma split_on_eq_iff: "d \<notin> set s \<Longrightarrow> split_on d s = [s]"
  by (induction s) auto

lemma split_on_inj: "split_on d a = split_on d b \<Longrightarrow> a = b"
proof (induction a arbitrary: b)
  case Nil
  then show ?case by (cases b) (auto split: list.splits if_splits)
next
  case (Cons c a)
  then show ?case
    by (cases b) (auto split: list.splits if_splits)
qed

lemma split_on_extend:
  assumes "split_on d p = split_on d a @ x # xs"
  shows "\<exists>b. p = a @ d # b"
  using assms
proof (induction a arbitrary: p)
  case Nil
  then show ?case by (cases p) (auto split: list.splits if_splits)
next
  case (Cons c a)
  then obtain c' p' where p: "p = c' # p'" by (cases p) (auto split: list.splits if_splits)
  show ?case
  proof (cases "c = d")
    case True
    with Cons.prems p have "c' = d" and "split_on d p' = split_on d a @ x # xs"
      by (auto split: list.splits if_splits)
    with Cons.IH [of p'] p True show ?thesis by auto
  next
    case False
    then obtain y ys where y: "split_on d a = y # ys" by (cases "split_on d a") auto
    with Cons.prems p False have "c' = c" and "split_on d p' = split_on d a @ x # xs"
      by (auto split: list.splits if_splits)
    with Cons.IH [of p'] p show ?thesis by auto
  qed
qed

text \<open>The segments of a path, a trailing slash of the prefix aside.\<close>

definition segments :: "string \<Rightarrow> string list" where
  "segments = split_on (CHR ''/'')"

lemma path_has_prefix_segments:
  assumes "pre \<noteq> ''/''"
  shows "path_has_prefix path pre \<longleftrightarrow> path = pre \<or>
    (\<exists>s ss. segments path = segments (trim_suffix pre ''/'') @ s # ss)"
proof -
  have "(\<exists>s ss. split_on (CHR ''/'') path = split_on (CHR ''/'') a @ s # ss) \<longleftrightarrow>
      (\<exists>b. path = a @ CHR ''/'' # b)" for a
    by (auto simp: split_on_append neq_Nil_conv [symmetric] dest: split_on_extend)
  with assms show ?thesis by (simp add: path_has_prefix_def segments_def has_prefix_iff)
qed


section \<open>Origins\<close>

lemma set_managed_origins:
  "set (managed_origins rs) = (\<Union>r\<in>set (routes rs). (\<lambda>m. join_host_port (om_host m) (itoa (om_port m))) ` set (origins r))"
  by (auto simp: managed_origins_def)

lemma managed_origins_sorted: "sorted (managed_origins rs) \<and> distinct (managed_origins rs)"
  by (simp add: managed_origins_def)

lemma managed_origins_iff:
  assumes "hosts_normal rs"
  shows "o' \<in> set (managed_origins rs) \<longleftrightarrow>
    (\<exists>scheme host port. manages_origin rs scheme host port \<and> o' = join_host_port (normal_host host) (itoa port))"
    (is "?l \<longleftrightarrow> ?r")
proof
  assume ?l
  then obtain r m where m: "r \<in> set (routes rs)" "m \<in> set (origins r)"
    and o: "o' = join_host_port (om_host m) (itoa (om_port m))"
    by (auto simp: set_managed_origins)
  with assms obtain h where h: "om_host m = normal_host h" by (auto simp: hosts_normal_def)
  with m have "manages_origin rs (om_scheme m) h (om_port m)"
    by (auto simp: manages_origin_def matches_origin_def)
  with o h show ?r by metis
next
  assume ?r
  then obtain r m where "r \<in> set (routes rs)" "m \<in> set (origins r)"
    and "o' = join_host_port (om_host m) (itoa (om_port m))"
    by (auto simp: manages_origin_def matches_origin_def)
  then show ?l by (auto simp: set_managed_origins)
qed

lemma routes_for_managed: "routes_for rs scheme host port path \<noteq> [] \<Longrightarrow> manages_origin rs scheme host port"
  by (auto simp: routes_for_def manages_origin_def filter_empty_conv)

lemma routes_for_ok: "routes_ok rs \<Longrightarrow> r \<in> set (routes_for rs scheme host port path) \<Longrightarrow> route_ok r"
  by (auto simp: routes_for_def routes_ok_def)

lemma routes_for_distinct: "routes_ok rs \<Longrightarrow> distinct (map route_id (routes_for rs scheme host port path))"
  by (auto simp: routes_for_def routes_ok_def distinct_map_filter)

section \<open>Resources\<close>

definition carries :: "route_resource \<Rightarrow> string \<Rightarrow> string \<Rightarrow> bool \<Rightarrow> bool" where
  "carries x kt v case_fold \<longleftrightarrow> (\<exists>k\<in>set (routing_keys x).
     key_type k = kt \<and> (if case_fold then equal_fold (key_value k) v else key_value k = v))"

lemma carries_iff:
  "carries x kt v f \<longleftrightarrow> (\<exists>key\<in>set (routing_keys x).
     key_type key = kt \<and> (key_value key = v \<or> (f \<and> equal_fold (key_value key) v)))"
  by (auto simp: carries_def)

lemma resource_by_key_Some:
  "resource_by_key route kt v f = Some x \<Longrightarrow> x \<in> set (resources route) \<and> carries x kt v f"
  by (auto simp: resource_by_key_def find_Some_iff carries_iff)

lemma resource_by_key_None:
  "resource_by_key route kt v f = None \<longleftrightarrow> (\<forall>x\<in>set (resources route). \<not> carries x kt v f)"
  by (auto simp: resource_by_key_def find_None_iff carries_iff)

section \<open>MCP endpoints\<close>

lemma slug_loop_chars:
  "list_all (\<lambda>c. is_lower c \<or> is_digit c \<or> c = CHR ''-'') out \<Longrightarrow>
     list_all (\<lambda>c. is_lower c \<or> is_digit c \<or> c = CHR ''-'') (slug_loop s b out)"
  by (induction s b out rule: slug_loop.induct) auto

definition no_double_dash :: "string \<Rightarrow> bool" where
  "no_double_dash s \<longleftrightarrow> \<not> contains s ''--''"

lemma mcp_server_name_nonempty:
  "uuid_pattern (connection_id r) \<Longrightarrow> mcp_server_name r \<noteq> []"
  by (auto simp: mcp_server_name_def Let_def uuid_pattern_def matches_classes_def)

lemma mcp_server_endpoints_sorted: "sorted (map endpoint_name (mcp_server_endpoints rs))"
  by (simp add: mcp_server_endpoints_def)

lemma mcp_server_endpoints_from:
  assumes "e \<in> set (mcp_server_endpoints rs)"
  obtains r m ms where "r \<in> set (routes rs)" and "enforcement_mode r = ''mcp_gateway''" and "availability r = ''ready''"
    and "origins r = m # ms" and "route_endpoint r = Some e"
  using assms
  by (auto simp: mcp_server_endpoints_def List.map_filter_def route_endpoint_def Let_def split: list.splits if_splits)

section \<open>Decoding a response\<close>

lemma decode_strict_parse:
  "decode_strict raw dec zero = Inr r \<Longrightarrow> \<exists>j. parse_json raw = Some j \<and> dec j zero = Inr r"
  by (auto simp: decode_strict_def parse_json_def ensure_json_eof_def split: option.splits if_splits)

lemma decode_runtime_routes_ok:
  assumes "decode_runtime_routes raw = Inr rs"
  shows "routes_ok rs \<and> hosts_normal rs \<and> (\<exists>j. parse_json raw = Some j \<and> no_dup_keys j)"
proof -
  from assms obtain rs0 where dup: "reject_duplicate_json_keys raw = Inr ()"
    and dec: "decode_strict raw (decode_routes True) zero_routes = Inr rs0" and v: "validate_routes rs0 = Inr rs"
    by (auto simp: decode_runtime_routes_def)
  from decode_strict_parse [OF dec] obtain j where "parse_json raw = Some j" by blast
  with dup reject_duplicate_json_keys_iff [OF this] v show ?thesis
    by (auto dest: validate_routes_ok validate_routes_hosts)
qed


section \<open>Properties\<close>

definition sample_uuid :: string where
  "sample_uuid = ''0a000000-0000-4000-8000-00000000000b''"

definition sample_route :: runtime_route where
  "sample_route = zero_route\<lparr>route_id := sample_uuid, connection_id := sample_uuid,
     provider := ''git'', route_display_name := ''My  Git'', availability := ''ready'',
     enforcement_mode := ''mcp_kit_reader'', kit_action_token_endpoint_path := ''/v1/runtime/kit'',
     matchers := [\<lparr>matcher_type = ''http.origin'',
       attributes = concat [[CHR ''{'', CHR 0x22], ''scheme'', [CHR 0x22, CHR '':'', CHR 0x22], ''HTTPS'',
         [CHR 0x22, CHR '','', CHR 0x22], ''host'', [CHR 0x22, CHR '':'', CHR 0x22], ''A.io.'',
         [CHR 0x22, CHR '','', CHR 0x22], ''port'', [CHR 0x22], '':8443,'', [CHR 0x22], ''path_prefix'',
         [CHR 0x22, CHR '':'', CHR 0x22], ''/mcp'', [CHR 0x22, CHR ''}'']]\<rparr>]\<rparr>"

definition sample_routes :: runtime_routes where
  "sample_routes = zero_routes\<lparr>rr_schema_version := 1, organization_id := sample_uuid,
     agent := \<lparr>agent_id = sample_uuid, agent_display_name = ''A''\<rparr>, routes := [sample_route]\<rparr>"

text \<open>
  C1. A routes response that passes \<open>Validate\<close> has schema version 1, distinct route ids, and
  on every route: UUID identities, at least one origin, every origin with scheme http or https, a
  non-empty lower-case host, a port from 1 to 65535 and an absolute path prefix; a known enforcement
  mode with the runtime paths that mode needs; and resources with UUIDs and complete routing keys.
\<close>

theorem runtime_routes_validated:
  assumes "validate_routes rs = Inr rs'"
  shows "rr_schema_version rs' = 1 \<and> distinct (map route_id (routes rs'))
    \<and> (\<forall>r\<in>set (routes rs'). uuid_pattern (route_id r) \<and> uuid_pattern (connection_id r) \<and> origins r \<noteq> []
        \<and> (\<forall>m\<in>set (origins r). origin_ok m) \<and> mode_ok r \<and> (\<forall>x\<in>set (resources r). resource_ok x))"
  using validate_routes_ok [OF assms] by (auto simp: routes_ok_def route_ok_def schema_version_def)

lemma runtime_routes_validated_witness:
  "is_ok (validate_routes sample_routes) \<and> mode_ok (hd (routes (projr (validate_routes sample_routes))))"
proof -
  have ok: "is_ok (validate_routes sample_routes)" and one: "routes (projr (validate_routes sample_routes)) \<noteq> []"
    by code_simp+
  from ok have "validate_routes sample_routes = Inr (projr (validate_routes sample_routes))"
    by (cases "validate_routes sample_routes") auto
  from runtime_routes_validated [OF this] ok one show ?thesis by (meson hd_in_set)
qed

text \<open>
  C2. The bytes of a routes response are accepted only when they are exactly one JSON value in
  which no object at any depth repeats a key, and the routes they decode to are validated.
\<close>

theorem decode_runtime_routes_sound:
  assumes "decode_runtime_routes raw = Inr rs"
  shows "routes_ok rs \<and> (\<exists>j. parse_json raw = Some j \<and> no_dup_keys j)"
  using decode_runtime_routes_ok [OF assms] by blast

definition sample_response :: string where
  "sample_response = concat [[CHR ''{'', CHR 0x22], ''schema_version'', [CHR 0x22], '':1,'',
     [CHR 0x22], ''organization_id'', [CHR 0x22, CHR '':'', CHR 0x22], sample_uuid, [CHR 0x22, CHR '',''],
     [CHR 0x22], ''agent'', [CHR 0x22, CHR '':'', CHR ''{'', CHR 0x22], ''agent_id'',
     [CHR 0x22, CHR '':'', CHR 0x22], sample_uuid, [CHR 0x22, CHR '','', CHR 0x22], ''display_name'',
     [CHR 0x22, CHR '':'', CHR 0x22], ''A'', [CHR 0x22], ''}}'']"

lemma decode_runtime_routes_sound_witness:
  "routes_ok (projr (decode_runtime_routes sample_response))"
proof -
  have "is_ok (decode_runtime_routes sample_response)" by code_simp
  then have "decode_runtime_routes sample_response = Inr (projr (decode_runtime_routes sample_response))"
    by (cases "decode_runtime_routes sample_response") auto
  from decode_runtime_routes_sound [OF this] show ?thesis by blast
qed

text \<open>
  C3. A route's path prefix matches at segment boundaries only: except for the prefix
  \<open>/\<close>, which matches everything, a path has the prefix exactly when it equals it or when its
  list of slash-separated segments properly extends that of the prefix without a trailing slash. So
  \<open>/mcp\<close> covers \<open>/mcp/x\<close> and never \<open>/mcp-other\<close>.
\<close>

theorem path_prefix_segment_boundary:
  "path_has_prefix path pre = (pre = ''/'' \<or> path = pre \<or>
    (\<exists>s ss. segments path = segments (trim_suffix pre ''/'') @ s # ss))"
  using path_has_prefix_segments [of pre path] by (cases "pre = ''/''") (simp_all add: path_has_prefix_def)

text \<open>
  C33. On a validated response the list of managed origins, which decides what the data plane
  intercepts, is sorted, has no duplicates, and holds exactly the \<open>host:port\<close> forms of the
  request origins for which \<open>ManagesOrigin\<close> answers true.
\<close>

theorem managed_origins_exact:
  assumes "validate_routes rs0 = Inr rs"
  shows "sorted (managed_origins rs) \<and> distinct (managed_origins rs) \<and>
    (\<forall>out. (out \<in> set (managed_origins rs)) =
      (\<exists>scheme host port. manages_origin rs scheme host port \<and>
        out = join_host_port (normal_host host) (itoa port)))"
  using managed_origins_sorted managed_origins_iff [OF validate_routes_hosts [OF assms]] by blast

lemma managed_origins_exact_witness:
  "''a.io:8443'' \<in> set (managed_origins (projr (validate_routes sample_routes))) \<and>
   (\<exists>scheme host port. manages_origin (projr (validate_routes sample_routes)) scheme host port)"
proof -
  have "is_ok (validate_routes sample_routes)" by code_simp
  then have ok: "validate_routes sample_routes = Inr (projr (validate_routes sample_routes))"
    by (cases "validate_routes sample_routes") auto
  have mem: "''a.io:8443'' \<in> set (managed_origins (projr (validate_routes sample_routes)))" by code_simp
  with managed_origins_exact [OF ok] show ?thesis by blast
qed

end
