(* ===== verification/Responses.thy ===== *)
theory Responses
  imports Runtime_Routes Go_Time
begin

text \<open>
  The control plane's responses other than the routes: authorization decisions
  (\<^verbatim>\<open>decision.go\<close>), provider execution (\<^verbatim>\<open>provider.go\<close>), the MCP gateway
  (\<^verbatim>\<open>mcp_gateway.go\<close>), the MCP session relay (\<^verbatim>\<open>mcp_session.go\<close>), approval status
  (\<^verbatim>\<open>approval.go\<close>), action tokens (\<^verbatim>\<open>kit_action_token.go\<close>), usage reports
  (\<^verbatim>\<open>usage.go\<close>) and KIT sessions (\<^verbatim>\<open>session.go\<close>): each as a record, its decoder and
  its validation. Lemmas: what a validated response guarantees; in particular no provider output
  comes without an allow decision for the very request that was sent.
\<close>

section \<open>Identifier patterns\<close>

definition ulid_char :: "char \<Rightarrow> bool" where
  "ulid_char c \<longleftrightarrow> is_digit c \<or> (is_upper c \<and> c \<notin> set ''ILOU'')"

definition ulid_pattern :: "string \<Rightarrow> bool" where
  "ulid_pattern s \<longleftrightarrow> matches_classes (replicate 26 ulid_char) s"

definition decision_id_pattern :: "string \<Rightarrow> bool" where
  "decision_id_pattern s \<longleftrightarrow> has_prefix s ''Keydris-'' \<and> ulid_pattern (drop 8 s)"

definition request_id_pattern :: "string \<Rightarrow> bool" where
  "request_id_pattern s \<longleftrightarrow> s \<noteq> [] \<and> is_alnum (hd s) \<and> length (tl s) \<le> 127
     \<and> list_all (\<lambda>c. is_alnum c \<or> c \<in> set ''._:-'') (tl s)"

section \<open>Decision responses\<close>

record decision_response =
  dr_schema_version :: int
  dr_decision_id :: string
  dr_request_id :: string
  dr_attempt_id :: string
  dr_correlation_id :: string
  dr_decided_at :: string
  dr_obligations :: "string list option"
  dr_decision :: string
  dr_reason_code :: string

definition zero_decision_response :: decision_response where
  "zero_decision_response = \<lparr>dr_schema_version = 0, dr_decision_id = [], dr_request_id = [],
     dr_attempt_id = [], dr_correlation_id = [], dr_decided_at = [], dr_obligations = None,
     dr_decision = [], dr_reason_code = []\<rparr>"

definition decode_decision :: "json \<Rightarrow> decision_response \<Rightarrow> decision_response result" where
  "decode_decision = decode_struct True
     [(''schema_version'', dec_int (\<lambda>v r. r\<lparr>dr_schema_version := v\<rparr>)),
      (''decision_id'', dec_string (\<lambda>v r. r\<lparr>dr_decision_id := v\<rparr>)),
      (''request_id'', dec_string (\<lambda>v r. r\<lparr>dr_request_id := v\<rparr>)),
      (''attempt_id'', dec_string (\<lambda>v r. r\<lparr>dr_attempt_id := v\<rparr>)),
      (''correlation_id'', dec_string (\<lambda>v r. r\<lparr>dr_correlation_id := v\<rparr>)),
      (''decided_at'', dec_string (\<lambda>v r. r\<lparr>dr_decided_at := v\<rparr>)),
      (''obligations'', dec_slice (\<lambda>v r. r\<lparr>dr_obligations := v\<rparr>) dr_obligations [] (dec_raw (\<lambda>v _. v))),
      (''decision'', dec_string (\<lambda>v r. r\<lparr>dr_decision := v\<rparr>)),
      (''reason_code'', dec_string (\<lambda>v r. r\<lparr>dr_reason_code := v\<rparr>))]"

definition max_decision_response_bytes :: int where
  "max_decision_response_bytes = 64 * 1024"

definition deny_reasons :: "string list" where
  "deny_reasons = [''keydris_policy_denied'', ''keydris_policy_unavailable'', ''keydris_invalid_request'',
     ''keydris_identity_unavailable'', ''keydris_target_unavailable'', ''keydris_action_unsupported'',
     ''keydris_manifest_stale'', ''keydris_request_conflict'', ''keydris_kit_action_token_invalid'',
     ''keydris_enforcement_unavailable'']"

definition validate_reason :: "string \<Rightarrow> string \<Rightarrow> unit result" where
  "validate_reason dec reason =
     (if dec = ''allow'' then
        fail_if (reason \<noteq> ''keydris_policy_allowed'' \<and> reason \<noteq> ''keydris_approval_granted'')
          ''decision response reason_code is invalid''
      else if dec = ''deny'' then
        fail_if (reason \<notin> set deny_reasons) ''decision response reason_code is invalid''
      else if dec = ''approval_required'' then
        fail_if (reason \<noteq> ''keydris_approval_required'') ''decision response reason_code is invalid''
      else Inl (''decision response has unsupported decision '' @ dec))"

definition validate_decision :: "decision_response \<Rightarrow> unit result" where
  "validate_decision r =
     (if dr_schema_version r \<noteq> schema_version then Inl ''unsupported runtime schema_version''
      else if \<not> decision_id_pattern (dr_decision_id r) then Inl ''decision response has an invalid decision_id''
      else if \<not> request_id_pattern (dr_request_id r) then Inl ''decision response has an invalid request_id''
      else if \<not> ulid_pattern (dr_attempt_id r) then Inl ''decision response has an invalid attempt_id''
      else if \<not> ulid_pattern (dr_correlation_id r) then Inl ''decision response has an invalid correlation_id''
      else if parse_rfc3339 (dr_decided_at r) = None then Inl ''decision response has an invalid decided_at''
      else if dr_obligations r \<noteq> Some [] then Inl ''decision response obligations must be an empty array''
      else validate_reason (dr_decision r) (dr_reason_code r))"

definition decode_decision_response :: "reader \<Rightarrow> decision_response result" where
  "decode_decision_response rd =
     bind_result (read_bounded rd max_decision_response_bytes ''decision response'') (\<lambda>raw.
     bind_result (reject_duplicate_json_keys raw) (\<lambda>_.
     bind_result (wrap_error ''decode decision response: '' (decode_strict raw decode_decision zero_decision_response)) (\<lambda>r.
     bind_result (validate_decision r) (\<lambda>_. Inr r))))"

section \<open>The decision inside an execution response\<close>

record runtime_decision =
  rd_schema_version :: int
  rd_decision_id :: string
  rd_request_id :: string
  rd_attempt_id :: string
  rd_correlation_id :: string
  rd_decided_at :: string
  rd_decision :: string
  rd_reason_code :: string
  rd_obligations :: "any list option"

definition zero_runtime_decision :: runtime_decision where
  "zero_runtime_decision = \<lparr>rd_schema_version = 0, rd_decision_id = [], rd_request_id = [],
     rd_attempt_id = [], rd_correlation_id = [], rd_decided_at = [], rd_decision = [],
     rd_reason_code = [], rd_obligations = None\<rparr>"

definition decode_runtime_decision :: "json \<Rightarrow> runtime_decision \<Rightarrow> runtime_decision result" where
  "decode_runtime_decision = decode_struct True
     [(''schema_version'', dec_int (\<lambda>v r. r\<lparr>rd_schema_version := v\<rparr>)),
      (''decision_id'', dec_string (\<lambda>v r. r\<lparr>rd_decision_id := v\<rparr>)),
      (''request_id'', dec_string (\<lambda>v r. r\<lparr>rd_request_id := v\<rparr>)),
      (''attempt_id'', dec_string (\<lambda>v r. r\<lparr>rd_attempt_id := v\<rparr>)),
      (''correlation_id'', dec_string (\<lambda>v r. r\<lparr>rd_correlation_id := v\<rparr>)),
      (''decided_at'', dec_string (\<lambda>v r. r\<lparr>rd_decided_at := v\<rparr>)),
      (''decision'', dec_string (\<lambda>v r. r\<lparr>rd_decision := v\<rparr>)),
      (''reason_code'', dec_string (\<lambda>v r. r\<lparr>rd_reason_code := v\<rparr>)),
      (''obligations'', dec_any_list (\<lambda>v r. r\<lparr>rd_obligations := v\<rparr>))]"

definition known_decision :: "string \<Rightarrow> bool" where
  "known_decision d \<longleftrightarrow> d = ''allow'' \<or> d = ''deny'' \<or> d = ''approval_required''"

section \<open>Provider execution\<close>

record provider_http_response =
  pr_status :: int
  pr_headers :: "(string \<times> string) list"
  pr_body :: string

definition zero_provider_http_response :: provider_http_response where
  "zero_provider_http_response = \<lparr>pr_status = 0, pr_headers = [], pr_body = []\<rparr>"

definition decode_provider_http_response ::
  "json \<Rightarrow> provider_http_response \<Rightarrow> provider_http_response result" where
  "decode_provider_http_response = decode_struct True
     [(''status'', dec_int (\<lambda>v r. r\<lparr>pr_status := v\<rparr>)),
      (''headers'', dec_string_map (\<lambda>v r. r\<lparr>pr_headers := v\<rparr>) pr_headers),
      (''body'', dec_raw (\<lambda>v r. r\<lparr>pr_body := v\<rparr>))]"

record provider_execution_response =
  px_schema_version :: int
  px_request_id :: string
  px_decision :: runtime_decision
  px_execution_status :: string
  px_replayed :: bool
  px_error_code :: "string option"
  px_provider_response :: "provider_http_response option"

definition zero_provider_execution_response :: provider_execution_response where
  "zero_provider_execution_response = \<lparr>px_schema_version = 0, px_request_id = [],
     px_decision = zero_runtime_decision, px_execution_status = [], px_replayed = False,
     px_error_code = None, px_provider_response = None\<rparr>"

definition decode_provider_execution ::
  "json \<Rightarrow> provider_execution_response \<Rightarrow> provider_execution_response result" where
  "decode_provider_execution = decode_struct True
     [(''schema_version'', dec_int (\<lambda>v r. r\<lparr>px_schema_version := v\<rparr>)),
      (''request_id'', dec_string (\<lambda>v r. r\<lparr>px_request_id := v\<rparr>)),
      (''decision'', dec_nested (\<lambda>v r. r\<lparr>px_decision := v\<rparr>) px_decision decode_runtime_decision),
      (''execution_status'', dec_string (\<lambda>v r. r\<lparr>px_execution_status := v\<rparr>)),
      (''replayed'', dec_bool (\<lambda>v r. r\<lparr>px_replayed := v\<rparr>)),
      (''error_code'', dec_opt_string (\<lambda>v r. r\<lparr>px_error_code := v\<rparr>)),
      (''provider_response'', dec_pointer (\<lambda>v r. r\<lparr>px_provider_response := v\<rparr>) px_provider_response
         zero_provider_http_response decode_provider_http_response)]"

definition validate_provider_execution :: "provider_execution_response \<Rightarrow> string \<Rightarrow> unit result" where
  "validate_provider_execution r request_id =
     (let d = rd_decision (px_decision r); st = px_execution_status r in
      if px_schema_version r \<noteq> schema_version \<or> px_request_id r \<noteq> request_id
         \<or> rd_schema_version (px_decision r) \<noteq> schema_version \<or> rd_request_id (px_decision r) \<noteq> request_id
      then Inl ''provider execution response has invalid identity''
      else if \<not> known_decision d then Inl ''provider execution response has invalid decision''
      else bind_result
        (if st = ''denied'' then
           fail_if (d = ''allow'' \<or> px_provider_response r \<noteq> None \<or> px_error_code r \<noteq> None)
             ''provider denial response is inconsistent''
         else if st = ''succeeded'' then
           fail_if (d \<noteq> ''allow'' \<or> px_provider_response r = None \<or> px_error_code r \<noteq> None)
             ''provider success response is inconsistent''
         else if st = ''failed'' then
           fail_if (d \<noteq> ''allow'' \<or> (px_provider_response r = None \<and> px_error_code r = None))
             ''provider failure response is inconsistent''
         else if st = ''unknown'' then
           fail_if (d \<noteq> ''allow'' \<or> px_provider_response r \<noteq> None \<or> px_error_code r = None)
             ''provider unknown response is inconsistent''
         else Inl ''provider execution response has invalid status'')
        (\<lambda>_. case px_provider_response r of
               None \<Rightarrow> Inr ()
             | Some p \<Rightarrow> fail_if (pr_status p < 100 \<or> 599 < pr_status p)
                 ''provider execution response has invalid HTTP status''))"

section \<open>JSON-RPC and the MCP gateway\<close>

record mcp_jsonrpc_error =
  je_code :: int
  je_message :: string
  je_data :: string

record mcp_jsonrpc_response =
  jr_jsonrpc :: string
  jr_id :: string
  jr_result :: string
  jr_error :: "mcp_jsonrpc_error option"

definition zero_jsonrpc_error :: mcp_jsonrpc_error where
  "zero_jsonrpc_error = \<lparr>je_code = 0, je_message = [], je_data = []\<rparr>"

definition decode_jsonrpc_error :: "json \<Rightarrow> mcp_jsonrpc_error \<Rightarrow> mcp_jsonrpc_error result" where
  "decode_jsonrpc_error = decode_struct True
     [(''code'', dec_int (\<lambda>v r. r\<lparr>je_code := v\<rparr>)),
      (''message'', dec_string (\<lambda>v r. r\<lparr>je_message := v\<rparr>)),
      (''data'', dec_raw (\<lambda>v r. r\<lparr>je_data := v\<rparr>))]"

definition zero_jsonrpc_response :: mcp_jsonrpc_response where
  "zero_jsonrpc_response = \<lparr>jr_jsonrpc = [], jr_id = [], jr_result = [], jr_error = None\<rparr>"

definition decode_jsonrpc_response :: "json \<Rightarrow> mcp_jsonrpc_response \<Rightarrow> mcp_jsonrpc_response result" where
  "decode_jsonrpc_response = decode_struct True
     [(''jsonrpc'', dec_string (\<lambda>v r. r\<lparr>jr_jsonrpc := v\<rparr>)),
      (''id'', dec_raw (\<lambda>v r. r\<lparr>jr_id := v\<rparr>)),
      (''result'', dec_raw (\<lambda>v r. r\<lparr>jr_result := v\<rparr>)),
      (''error'', dec_pointer (\<lambda>v r. r\<lparr>jr_error := v\<rparr>) jr_error zero_jsonrpc_error decode_jsonrpc_error)]"

definition validate_jsonrpc :: "mcp_jsonrpc_response \<Rightarrow> string \<Rightarrow> unit result" where
  "validate_jsonrpc r request_id =
     (let has_result = (trim_space (jr_result r) \<noteq> []); has_error = (jr_error r \<noteq> None) in
      if jr_jsonrpc r \<noteq> ''2.0'' \<or> trim_space (jr_id r) \<noteq> trim_space request_id \<or> has_result = has_error
      then Inl ''MCP gateway returned an invalid JSON-RPC response''
      else if has_result \<and> \<not> json_valid (jr_result r) then Inl ''MCP gateway returned an invalid JSON-RPC result''
      else (case jr_error r of
              Some e \<Rightarrow> fail_if (je_message e = []) ''MCP gateway returned an invalid JSON-RPC error''
            | None \<Rightarrow> Inr ()))"

definition validate_jsonrpc_opt :: "mcp_jsonrpc_response option \<Rightarrow> string \<Rightarrow> unit result" where
  "validate_jsonrpc_opt m request_id = (case m of None \<Rightarrow> Inr () | Some r \<Rightarrow> validate_jsonrpc r request_id)"

record mcp_gateway_response =
  mg_schema_version :: int
  mg_request_id :: string
  mg_decision :: runtime_decision
  mg_execution_status :: string
  mg_replayed :: bool
  mg_error_code :: "string option"
  mg_mcp_response :: "mcp_jsonrpc_response option"

definition zero_mcp_gateway_response :: mcp_gateway_response where
  "zero_mcp_gateway_response = \<lparr>mg_schema_version = 0, mg_request_id = [],
     mg_decision = zero_runtime_decision, mg_execution_status = [], mg_replayed = False,
     mg_error_code = None, mg_mcp_response = None\<rparr>"

definition decode_mcp_gateway :: "json \<Rightarrow> mcp_gateway_response \<Rightarrow> mcp_gateway_response result" where
  "decode_mcp_gateway = decode_struct True
     [(''schema_version'', dec_int (\<lambda>v r. r\<lparr>mg_schema_version := v\<rparr>)),
      (''request_id'', dec_string (\<lambda>v r. r\<lparr>mg_request_id := v\<rparr>)),
      (''decision'', dec_nested (\<lambda>v r. r\<lparr>mg_decision := v\<rparr>) mg_decision decode_runtime_decision),
      (''execution_status'', dec_string (\<lambda>v r. r\<lparr>mg_execution_status := v\<rparr>)),
      (''replayed'', dec_bool (\<lambda>v r. r\<lparr>mg_replayed := v\<rparr>)),
      (''error_code'', dec_opt_string (\<lambda>v r. r\<lparr>mg_error_code := v\<rparr>)),
      (''mcp_response'', dec_pointer (\<lambda>v r. r\<lparr>mg_mcp_response := v\<rparr>) mg_mcp_response
         zero_jsonrpc_response decode_jsonrpc_response)]"

definition validate_mcp_gateway :: "mcp_gateway_response \<Rightarrow> string \<Rightarrow> string \<Rightarrow> unit result" where
  "validate_mcp_gateway r request_id json_rpc_id =
     (let d = rd_decision (mg_decision r); st = mg_execution_status r in
      if mg_schema_version r \<noteq> schema_version \<or> mg_request_id r \<noteq> request_id
         \<or> rd_schema_version (mg_decision r) \<noteq> schema_version \<or> rd_request_id (mg_decision r) \<noteq> request_id
      then Inl ''MCP gateway response has invalid identity''
      else if \<not> known_decision d then Inl ''MCP gateway response has invalid decision''
      else bind_result
        (if st = ''denied'' then
           fail_if (d = ''allow'' \<or> mg_mcp_response r \<noteq> None \<or> mg_error_code r \<noteq> None)
             ''MCP gateway denial response is inconsistent''
         else if st = ''succeeded'' then
           fail_if (d \<noteq> ''allow'' \<or> (case mg_mcp_response r of None \<Rightarrow> True | Some m \<Rightarrow> jr_error m \<noteq> None)
               \<or> mg_error_code r \<noteq> None)
             ''MCP gateway success response is inconsistent''
         else if st = ''failed'' then
           fail_if (d \<noteq> ''allow'' \<or> (mg_mcp_response r = None \<and> mg_error_code r = None))
             ''MCP gateway failure response is inconsistent''
         else if st = ''unknown'' then
           fail_if (d \<noteq> ''allow'' \<or> mg_mcp_response r \<noteq> None \<or> mg_error_code r = None)
             ''MCP gateway unknown response is inconsistent''
         else Inl ''MCP gateway response has invalid status'')
        (\<lambda>_. validate_jsonrpc_opt (mg_mcp_response r) json_rpc_id))"

section \<open>The MCP session relay\<close>

definition mcp_session_methods :: "string list" where
  "mcp_session_methods = [''initialize'', ''notifications/initialized'', ''ping'', ''server/discover'',
     ''tools/list'', ''resources/list'', ''prompts/list'']"

definition is_mcp_session_method :: "string \<Rightarrow> bool" where
  "is_mcp_session_method m \<longleftrightarrow> m \<in> set mcp_session_methods"

record mcp_session_response =
  ms_schema_version :: int
  ms_request_id :: string
  ms_status :: string
  ms_error_code :: "string option"
  ms_mcp_response :: "mcp_jsonrpc_response option"

definition zero_mcp_session_response :: mcp_session_response where
  "zero_mcp_session_response = \<lparr>ms_schema_version = 0, ms_request_id = [], ms_status = [],
     ms_error_code = None, ms_mcp_response = None\<rparr>"

definition decode_mcp_session :: "json \<Rightarrow> mcp_session_response \<Rightarrow> mcp_session_response result" where
  "decode_mcp_session = decode_struct True
     [(''schema_version'', dec_int (\<lambda>v r. r\<lparr>ms_schema_version := v\<rparr>)),
      (''request_id'', dec_string (\<lambda>v r. r\<lparr>ms_request_id := v\<rparr>)),
      (''status'', dec_string (\<lambda>v r. r\<lparr>ms_status := v\<rparr>)),
      (''error_code'', dec_opt_string (\<lambda>v r. r\<lparr>ms_error_code := v\<rparr>)),
      (''mcp_response'', dec_pointer (\<lambda>v r. r\<lparr>ms_mcp_response := v\<rparr>) ms_mcp_response
         zero_jsonrpc_response decode_jsonrpc_response)]"

definition validate_mcp_session :: "mcp_session_response \<Rightarrow> string \<Rightarrow> string \<Rightarrow> unit result" where
  "validate_mcp_session r request_id json_rpc_id =
     (if ms_schema_version r \<noteq> schema_version \<or> ms_request_id r \<noteq> request_id
      then Inl ''MCP session response has invalid identity''
      else bind_result
        (if ms_status r = ''succeeded'' then
           fail_if (ms_mcp_response r = None \<or> ms_error_code r \<noteq> None)
             ''MCP session success response is inconsistent''
         else if ms_status r = ''accepted'' then
           fail_if (ms_mcp_response r \<noteq> None) ''MCP session accepted response is inconsistent''
         else if ms_status r = ''failed'' then
           fail_if (ms_error_code r = None) ''MCP session failure response is inconsistent''
         else Inl ''MCP session response has invalid status'')
        (\<lambda>_. validate_jsonrpc_opt (ms_mcp_response r) json_rpc_id))"

section \<open>Approval status\<close>

record approval_status_response =
  ap_approval_id :: string
  ap_request_id :: string
  ap_status :: string
  ap_expires_at :: string
  ap_resolved_at :: "string option"

definition zero_approval :: approval_status_response where
  "zero_approval = \<lparr>ap_approval_id = [], ap_request_id = [], ap_status = [], ap_expires_at = [],
     ap_resolved_at = None\<rparr>"

definition decode_approval :: "json \<Rightarrow> approval_status_response \<Rightarrow> approval_status_response result" where
  "decode_approval = decode_struct True
     [(''approval_id'', dec_string (\<lambda>v r. r\<lparr>ap_approval_id := v\<rparr>)),
      (''request_id'', dec_string (\<lambda>v r. r\<lparr>ap_request_id := v\<rparr>)),
      (''status'', dec_string (\<lambda>v r. r\<lparr>ap_status := v\<rparr>)),
      (''expires_at'', dec_string (\<lambda>v r. r\<lparr>ap_expires_at := v\<rparr>)),
      (''resolved_at'', dec_opt_string (\<lambda>v r. r\<lparr>ap_resolved_at := v\<rparr>))]"

definition terminal_approval :: "string \<Rightarrow> bool" where
  "terminal_approval s \<longleftrightarrow> s = ''rejected'' \<or> s = ''expired'' \<or> s = ''consumed'' \<or> s = ''cancelled''"

definition validate_approval :: "approval_status_response \<Rightarrow> string \<Rightarrow> unit result" where
  "validate_approval r request_id =
     (if \<not> uuid_pattern (ap_approval_id r) then Inl ''approval status has an invalid approval_id''
      else if ap_request_id r \<noteq> request_id \<or> \<not> request_id_pattern (ap_request_id r)
      then Inl ''approval status has an invalid request_id''
      else if parse_rfc3339 (ap_expires_at r) = None then Inl ''approval status has an invalid expires_at''
      else if (case ap_resolved_at r of None \<Rightarrow> False | Some t \<Rightarrow> parse_rfc3339 t = None)
      then Inl ''approval status has an invalid resolved_at''
      else if ap_status r = ''pending'' then
        fail_if (ap_resolved_at r \<noteq> None) ''pending approval status cannot be resolved''
      else if ap_status r = ''approved'' \<or> terminal_approval (ap_status r) then Inr ()
      else Inl ''approval status has an unsupported status'')"

section \<open>Action tokens, usage reports and KIT sessions\<close>

record kit_action_token_response =
  kt_schema_version :: int
  kt_token :: string
  kt_expires_at :: string

definition zero_kit_action_token :: kit_action_token_response where
  "zero_kit_action_token = \<lparr>kt_schema_version = 0, kt_token = [], kt_expires_at = []\<rparr>"

definition decode_kit_action_token ::
  "json \<Rightarrow> kit_action_token_response \<Rightarrow> kit_action_token_response result" where
  "decode_kit_action_token = decode_struct True
     [(''schema_version'', dec_int (\<lambda>v r. r\<lparr>kt_schema_version := v\<rparr>)),
      (''kit_action_token'', dec_string (\<lambda>v r. r\<lparr>kt_token := v\<rparr>)),
      (''expires_at'', dec_string (\<lambda>v r. r\<lparr>kt_expires_at := v\<rparr>))]"

text \<open>The checks at the end of \<open>MintKitActionToken\<close>, at the current time.\<close>

definition check_kit_action_token :: "int \<Rightarrow> kit_action_token_response \<Rightarrow> unit result" where
  "check_kit_action_token now r =
     (if kt_schema_version r \<noteq> schema_version \<or> kt_token r = [] \<or> 1024 * 1024 < int (length (kt_token r))
      then Inl ''KIT action token response is invalid''
      else case parse_rfc3339 (kt_expires_at r) of
        None \<Rightarrow> Inl ''KIT action token response has invalid expiry''
      | Some t \<Rightarrow> fail_if (t \<le> now) ''KIT action token response has invalid expiry'')"

record session_usage_report_response =
  ur_schema_version :: int
  ur_accepted :: int
  ur_duplicates :: int

definition zero_usage_response :: session_usage_report_response where
  "zero_usage_response = \<lparr>ur_schema_version = 0, ur_accepted = 0, ur_duplicates = 0\<rparr>"

definition decode_usage_response ::
  "json \<Rightarrow> session_usage_report_response \<Rightarrow> session_usage_report_response result" where
  "decode_usage_response = decode_struct True
     [(''schema_version'', dec_int (\<lambda>v r. r\<lparr>ur_schema_version := v\<rparr>)),
      (''accepted'', dec_int (\<lambda>v r. r\<lparr>ur_accepted := v\<rparr>)),
      (''duplicates'', dec_int (\<lambda>v r. r\<lparr>ur_duplicates := v\<rparr>))]"

definition check_usage_response :: "session_usage_report_response \<Rightarrow> unit result" where
  "check_usage_response r =
     fail_if (ur_schema_version r \<noteq> schema_version \<or> ur_accepted r < 0 \<or> ur_duplicates r < 0)
       ''usage report response is invalid''"

record kit_credential =
  kc_format :: string
  kc_spiffe_id :: string
  kc_token :: string
  kc_expires_at :: string

record kit_session_response =
  kr_schema_version :: int
  kr_session_id :: string
  kr_kit :: kit_credential

record kit_session =
  ks_session_id :: string
  ks_spiffe_id :: string
  ks_kit :: string
  ks_expires_at :: string

definition zero_kit_credential :: kit_credential where
  "zero_kit_credential = \<lparr>kc_format = [], kc_spiffe_id = [], kc_token = [], kc_expires_at = []\<rparr>"

definition decode_kit_credential :: "json \<Rightarrow> kit_credential \<Rightarrow> kit_credential result" where
  "decode_kit_credential = decode_struct True
     [(''kit_format'', dec_string (\<lambda>v r. r\<lparr>kc_format := v\<rparr>)),
      (''spiffe_id'', dec_string (\<lambda>v r. r\<lparr>kc_spiffe_id := v\<rparr>)),
      (''token'', dec_string (\<lambda>v r. r\<lparr>kc_token := v\<rparr>)),
      (''expires_at'', dec_string (\<lambda>v r. r\<lparr>kc_expires_at := v\<rparr>))]"

definition zero_kit_session_response :: kit_session_response where
  "zero_kit_session_response =
     \<lparr>kr_schema_version = 0, kr_session_id = [], kr_kit = zero_kit_credential\<rparr>"

definition decode_kit_session_response :: "json \<Rightarrow> kit_session_response \<Rightarrow> kit_session_response result" where
  "decode_kit_session_response = decode_struct True
     [(''schema_version'', dec_int (\<lambda>v r. r\<lparr>kr_schema_version := v\<rparr>)),
      (''session_id'', dec_string (\<lambda>v r. r\<lparr>kr_session_id := v\<rparr>)),
      (''kit'', dec_nested (\<lambda>v r. r\<lparr>kr_kit := v\<rparr>) kr_kit decode_kit_credential)]"

definition validate_kit_session :: "kit_session_response \<Rightarrow> unit result" where
  "validate_kit_session r =
     (if kr_schema_version r \<noteq> schema_version then Inl ''unsupported runtime schema_version''
      else if \<not> ulid_pattern (kr_session_id r) then Inl ''KIT session response has an invalid session_id''
      else if kc_format (kr_kit r) \<noteq> ''jwt_svid'' then Inl ''unsupported KIT format''
      else if \<not> has_prefix (kc_spiffe_id (kr_kit r)) ''spiffe://'' then Inl ''KIT session response has an invalid spiffe_id''
      else if 2048 < int (length (kc_spiffe_id (kr_kit r))) then Inl ''KIT session response spiffe_id exceeds the v1 size limit''
      else if kc_token (kr_kit r) = [] then Inl ''KIT session response is missing token''
      else if 1024 * 1024 < int (length (kc_token (kr_kit r))) then Inl ''KIT session response token exceeds the v1 size limit''
      else fail_if (parse_rfc3339 (kc_expires_at (kr_kit r)) = None) ''KIT session response has an invalid expires_at'')"

definition decode_kit_session :: "reader \<Rightarrow> kit_session result" where
  "decode_kit_session rd =
     bind_result (read_bounded rd max_response_bytes ''KIT session response'') (\<lambda>raw.
     bind_result (reject_duplicate_json_keys raw) (\<lambda>_.
     bind_result (wrap_error ''decode KIT session response: ''
        (decode_strict raw decode_kit_session_response zero_kit_session_response)) (\<lambda>r.
     bind_result (validate_kit_session r) (\<lambda>_.
           Inr \<lparr>ks_session_id = kr_session_id r, ks_spiffe_id = kc_spiffe_id (kr_kit r),
             ks_kit = kc_token (kr_kit r), ks_expires_at = kc_expires_at (kr_kit r)\<rparr>))))"

section \<open>What validation guarantees\<close>

text \<open>
  The verdict an execution response carries: the decision, the execution status, whether there is
  provider output and whether there is an error code. Both the provider and the gateway response
  must fit this table.
\<close>

definition verdict_ok :: "string \<Rightarrow> string \<Rightarrow> bool \<Rightarrow> bool \<Rightarrow> bool" where
  "verdict_ok dec status output err \<longleftrightarrow>
     (status = ''denied'' \<and> dec \<in> {''deny'', ''approval_required''} \<and> \<not> output \<and> \<not> err)
   \<or> (status = ''succeeded'' \<and> dec = ''allow'' \<and> output \<and> \<not> err)
   \<or> (status = ''failed'' \<and> dec = ''allow'' \<and> (output \<or> err))
   \<or> (status = ''unknown'' \<and> dec = ''allow'' \<and> \<not> output \<and> err)"

lemma verdict_ok_output: "verdict_ok dec status True err \<Longrightarrow> dec = ''allow''"
  by (auto simp: verdict_ok_def)

lemma validate_provider_verdict:
  "validate_provider_execution r rid = Inr u \<Longrightarrow>
     px_request_id r = rid \<and> rd_request_id (px_decision r) = rid \<and>
     verdict_ok (rd_decision (px_decision r)) (px_execution_status r)
       (px_provider_response r \<noteq> None) (px_error_code r \<noteq> None)"
  by (auto simp: validate_provider_execution_def verdict_ok_def known_decision_def Let_def
      split: if_splits option.splits)

lemma validate_provider_status:
  "validate_provider_execution r rid = Inr u \<Longrightarrow> px_provider_response r = Some p \<Longrightarrow>
     100 \<le> pr_status p \<and> pr_status p \<le> 599"
  by (auto simp: validate_provider_execution_def Let_def split: if_splits option.splits)

lemma validate_gateway_verdict:
  "validate_mcp_gateway r rid jid = Inr u \<Longrightarrow>
     mg_request_id r = rid \<and> rd_request_id (mg_decision r) = rid \<and>
     verdict_ok (rd_decision (mg_decision r)) (mg_execution_status r)
       (mg_mcp_response r \<noteq> None) (mg_error_code r \<noteq> None)"
  by (auto simp: validate_mcp_gateway_def verdict_ok_def known_decision_def Let_def
      split: if_splits option.splits)

lemma validate_gateway_jsonrpc:
  "validate_mcp_gateway r rid jid = Inr u \<Longrightarrow> mg_mcp_response r = Some m \<Longrightarrow> validate_jsonrpc m jid = Inr ()"
  by (auto simp: validate_mcp_gateway_def Let_def validate_jsonrpc_opt_def split: if_splits)

lemma validate_session_jsonrpc:
  "validate_mcp_session r rid jid = Inr u \<Longrightarrow> ms_mcp_response r = Some m \<Longrightarrow> validate_jsonrpc m jid = Inr ()"
  by (auto simp: validate_mcp_session_def Let_def validate_jsonrpc_opt_def split: if_splits)

lemma validate_session_status:
  "validate_mcp_session r rid jid = Inr u \<Longrightarrow> ms_request_id r = rid \<and>
     ms_status r \<in> {''succeeded'', ''accepted'', ''failed''}
     \<and> (ms_status r = ''succeeded'' \<longrightarrow> ms_mcp_response r \<noteq> None)
     \<and> (ms_status r = ''accepted'' \<longrightarrow> ms_mcp_response r = None)"
  by (auto simp: validate_mcp_session_def split: if_splits)

text \<open>A JSON-RPC reply answers the request's id and is either a result or an error, not both.\<close>

definition jsonrpc_ok :: "mcp_jsonrpc_response \<Rightarrow> string \<Rightarrow> bool" where
  "jsonrpc_ok m jid \<longleftrightarrow> jr_jsonrpc m = ''2.0'' \<and> trim_space (jr_id m) = trim_space jid
     \<and> (if jr_error m = None then json_valid (jr_result m) else trim_space (jr_result m) = [])"

lemma validate_jsonrpc_ok: "validate_jsonrpc m jid = Inr u \<Longrightarrow> jsonrpc_ok m jid"
  by (auto simp: validate_jsonrpc_def jsonrpc_ok_def Let_def split: if_splits option.splits)

lemma validate_approval_ok:
  "validate_approval r rid = Inr u \<Longrightarrow> ap_request_id r = rid \<and>
     (ap_status r = ''pending'' \<or> ap_status r = ''approved'' \<or> terminal_approval (ap_status r)) \<and>
     (ap_status r = ''pending'' \<longrightarrow> ap_resolved_at r = None)"
  by (auto simp: validate_approval_def split: if_splits)

lemma validate_reason_ok:
  "validate_reason dec reason = Inr u \<Longrightarrow>
     (dec = ''allow'' \<and> reason \<in> {''keydris_policy_allowed'', ''keydris_approval_granted''})
   \<or> (dec = ''deny'' \<and> reason \<in> set deny_reasons)
   \<or> (dec = ''approval_required'' \<and> reason = ''keydris_approval_required'')"
  by (auto simp: validate_reason_def split: if_splits)

lemma decode_decision_response_ok:
  "decode_decision_response rd = Inr r \<Longrightarrow> validate_decision r = Inr ()"
  by (auto simp: decode_decision_response_def)

lemma validate_decision_reason:
  "validate_decision r = Inr u \<Longrightarrow> validate_reason (dr_decision r) (dr_reason_code r) = Inr ()"
  by (auto simp: validate_decision_def split: if_splits)

lemma validate_kit_session_ok:
  "validate_kit_session r = Inr u \<Longrightarrow> ulid_pattern (kr_session_id r) \<and> has_prefix (kc_spiffe_id (kr_kit r)) ''spiffe://''
     \<and> kc_token (kr_kit r) \<noteq> [] \<and> int (length (kc_token (kr_kit r))) \<le> 1024 * 1024
     \<and> parse_rfc3339 (kc_expires_at (kr_kit r)) \<noteq> None"
  by (simp add: validate_kit_session_def split: if_splits)

lemma decode_kit_session_ok:
  "decode_kit_session rd = Inr k \<Longrightarrow> ulid_pattern (ks_session_id k) \<and> has_prefix (ks_spiffe_id k) ''spiffe://''
     \<and> ks_kit k \<noteq> [] \<and> int (length (ks_kit k)) \<le> 1024 * 1024 \<and> parse_rfc3339 (ks_expires_at k) \<noteq> None"
  by (auto simp: decode_kit_session_def dest: validate_kit_session_ok)

section \<open>Properties\<close>

definition denied_execution :: provider_execution_response where
  "denied_execution = zero_provider_execution_response\<lparr>px_schema_version := 1, px_request_id := ''r1'',
     px_decision := zero_runtime_decision\<lparr>rd_schema_version := 1, rd_request_id := ''r1'', rd_decision := ''deny''\<rparr>,
     px_execution_status := ''denied''\<rparr>"

text \<open>
  C32. A provider execution response that passes validation answers the request that was sent, with
  a decision for that same request, and it carries provider output only under the decision
  \<open>allow\<close>; without \<open>allow\<close> its status is \<open>denied\<close> and it has neither output nor an
  error code. The status of any output is a real HTTP status.
\<close>

theorem provider_output_needs_allow:
  assumes "validate_provider_execution r rid = Inr ()"
  shows "px_request_id r = rid \<and> rd_request_id (px_decision r) = rid
    \<and> (px_provider_response r \<noteq> None \<longrightarrow> rd_decision (px_decision r) = ''allow''
        \<and> 100 \<le> pr_status (the (px_provider_response r)) \<and> pr_status (the (px_provider_response r)) \<le> 599)
    \<and> (rd_decision (px_decision r) \<noteq> ''allow'' \<longrightarrow> px_execution_status r = ''denied''
        \<and> px_provider_response r = None \<and> px_error_code r = None)"
  using validate_provider_verdict [OF assms] validate_provider_status [OF assms]
  by (auto simp: verdict_ok_def)

lemma provider_output_needs_allow_witness:
  "validate_provider_execution denied_execution ''r1'' = Inr () \<and> px_provider_response denied_execution = None"
proof -
  have ok: "validate_provider_execution denied_execution ''r1'' = Inr ()" by code_simp
  have "rd_decision (px_decision denied_execution) \<noteq> ''allow''" by code_simp
  with provider_output_needs_allow [OF ok] ok show ?thesis by blast
qed

definition relayed_call :: mcp_gateway_response where
  "relayed_call = zero_mcp_gateway_response\<lparr>mg_schema_version := 1, mg_request_id := ''r1'',
     mg_decision := zero_runtime_decision\<lparr>rd_schema_version := 1, rd_request_id := ''r1'', rd_decision := ''allow''\<rparr>,
     mg_execution_status := ''succeeded'',
     mg_mcp_response := Some (zero_jsonrpc_response\<lparr>jr_jsonrpc := ''2.0'', jr_id := ''7'', jr_result := ''[]''\<rparr>)\<rparr>"

text \<open>
  C7. An MCP gateway response that passes validation answers the request that was sent, carries
  an upstream reply only under \<open>allow\<close>, and that reply has the JSON-RPC id of the call and is
  exactly one of a well-formed result and an error.
\<close>

theorem gateway_output_needs_allow:
  assumes "validate_mcp_gateway r rid jid = Inr ()"
  shows "mg_request_id r = rid \<and> rd_request_id (mg_decision r) = rid
    \<and> (case mg_mcp_response r of None \<Rightarrow> True
       | Some m \<Rightarrow> rd_decision (mg_decision r) = ''allow'' \<and> jsonrpc_ok m jid)"
  using validate_gateway_verdict [OF assms] validate_gateway_jsonrpc [OF assms, THEN validate_jsonrpc_ok]
  by (auto simp: verdict_ok_def split: option.splits)

lemma gateway_output_needs_allow_witness:
  "jsonrpc_ok (the (mg_mcp_response relayed_call)) '' 7''"
proof -
  have ok: "validate_mcp_gateway relayed_call ''r1'' '' 7'' = Inr ()" by code_simp
  from gateway_output_needs_allow [OF ok] show ?thesis
    by (simp add: relayed_call_def zero_mcp_gateway_response_def)
qed

definition sample_decision :: decision_response where
  "sample_decision = \<lparr>dr_schema_version = 1, dr_decision_id = ''Keydris-'' @ replicate 26 (CHR ''A''),
     dr_request_id = ''r1'', dr_attempt_id = replicate 26 (CHR ''A''), dr_correlation_id = replicate 26 (CHR ''A''),
     dr_decided_at = ''2000-03-01T01:00:00Z'', dr_obligations = Some [], dr_decision = ''deny'',
     dr_reason_code = ''keydris_policy_denied''\<rparr>"

text \<open>
  C8. Reason codes belong to one decision each: two validated authorization decisions with the
  same reason code have the same decision, and an \<open>allow\<close> has one of exactly two reasons.
\<close>

theorem reason_determines_decision:
  assumes "validate_decision a = Inr ()" and "validate_decision b = Inr ()"
    and "dr_reason_code a = dr_reason_code b"
  shows "dr_decision a = dr_decision b \<and>
    (dr_decision a = ''allow'') = (dr_reason_code a \<in> {''keydris_policy_allowed'', ''keydris_approval_granted''})"
proof -
  define granted where "granted = {''keydris_policy_allowed'', ''keydris_approval_granted''}"
  define asked where "asked = ''keydris_approval_required''"
  have "list_all (\<lambda>r. r \<notin> {''keydris_policy_allowed'', ''keydris_approval_granted''} \<and> r \<noteq> ''keydris_approval_required'') deny_reasons"
    "''keydris_approval_required'' \<notin> {''keydris_policy_allowed'', ''keydris_approval_granted''}" by code_simp+
  then have apart: "r \<in> set deny_reasons \<Longrightarrow> r \<notin> granted \<and> r \<noteq> asked" "asked \<notin> granted" for r
    unfolding granted_def [symmetric] asked_def [symmetric] list_all_iff by blast+
  have one: "dec = (if reason \<in> granted then ''allow'' else if reason = asked then ''approval_required'' else ''deny'')"
    if "validate_reason dec reason = Inr ()" for dec reason
    using validate_reason_ok [OF that, folded granted_def asked_def] apart by (elim disjE conjE) simp_all
  from one [OF validate_decision_reason [OF assms(1)]] one [OF validate_decision_reason [OF assms(2)]] assms(3)
  show ?thesis by (simp flip: granted_def)
qed

lemma reason_determines_decision_witness:
  "validate_decision sample_decision = Inr () \<and>
     dr_decision sample_decision = dr_decision (sample_decision\<lparr>dr_request_id := ''r2''\<rparr>)"
proof -
  have a: "validate_decision sample_decision = Inr ()" by code_simp
  have b: "validate_decision (sample_decision\<lparr>dr_request_id := ''r2''\<rparr>) = Inr ()" by code_simp
  from reason_determines_decision [OF a b] a show ?thesis by simp
qed

end
