(* ===== verification/Runtime_Client.thy ===== *)
theory Runtime_Client
  imports Responses
begin

text \<open>
  The control-plane client: \<^verbatim>\<open>secureurl.go\<close>, \<open>trustedRuntimeURL\<close> and
  \<open>runtimeSessionURL\<close>, and every call of \<^verbatim>\<open>internal/runtimecontract\<close> that sends a
  request. \<open>http.Client.Do\<close> is outside the repository's logic: a world holds what it answers to
  the n-th call (a status with a body, or an error, after a latency), the clock, the random bytes,
  and the trace of requests sent. Lemmas: requests go only to the configured host, over https or to
  loopback, on runtime paths; waiting for an approval returns by its deadline, and returns success
  only after a validated \<open>approved\<close> status.
\<close>

section \<open>Package secureurl\<close>

definition is_loopback_host :: "string \<Rightarrow> bool" where
  "is_loopback_host hostname \<longleftrightarrow>
     equal_fold hostname ''localhost'' \<or>
     (case parse_ip hostname of None \<Rightarrow> False | Some ip \<Rightarrow> ip_is_loopback ip)"

text \<open>\<open>Assert\<close>; the flag is \<open>KEYDRIS_ALLOW_INSECURE_CONTROL == "1"\<close>.\<close>

definition secure_assert :: "bool \<Rightarrow> string \<Rightarrow> string \<Rightarrow> unit result" where
  "secure_assert allow_insecure name raw =
     (case parse_url (trim_space raw) of
        None \<Rightarrow> Inl (name @ '' is not a valid URL'')
      | Some parsed \<Rightarrow>
          if u_scheme parsed = [] \<or> u_host parsed = [] then Inl (name @ '' is not a valid URL'')
          else if u_scheme parsed = ''https'' then Inr ()
          else if u_scheme parsed = ''http'' then
            if is_loopback_host (url_hostname parsed) then Inr ()
            else fail_if (\<not> allow_insecure) (name @ '' is plaintext http to a non-loopback host'')
          else Inl (name @ '' must be an http(s) URL''))"

section \<open>Request URLs\<close>

text \<open>
  Both functions parse the configured base URL, check it, and replace its path, query and fragment.
  The source prints the URL and \<open>http.NewRequest\<close> parses it again; here the parsed form is kept.
\<close>

definition base_url :: "bool \<Rightarrow> string \<Rightarrow> url result" where
  "base_url allow_insecure raw =
     (case parse_url (trim_space raw) of
        None \<Rightarrow> Inl ''invalid Keydris runtime URL''
      | Some base \<Rightarrow>
          if u_scheme base = [] \<or> u_host base = [] \<or> (u_scheme base \<noteq> ''https'' \<and> u_scheme base \<noteq> ''http'')
          then Inl ''invalid Keydris runtime URL''
          else bind_result (secure_assert allow_insecure ''Keydris runtime URL'' raw) (\<lambda>_. Inr base))"

definition trusted_runtime_url :: "bool \<Rightarrow> string \<Rightarrow> string \<Rightarrow> url result" where
  "trusted_runtime_url allow_insecure raw endpoint_path =
     (if \<not> valid_runtime_path endpoint_path then Inl (''untrusted runtime endpoint path '' @ endpoint_path)
      else bind_result (base_url allow_insecure raw) (\<lambda>base.
        case parse_url endpoint_path of
          None \<Rightarrow> Inl ''invalid runtime endpoint path''
        | Some endpoint \<Rightarrow>
            if url_is_abs endpoint \<or> u_host endpoint \<noteq> [] then Inl ''invalid runtime endpoint path''
            else Inr (base\<lparr>u_path := u_path endpoint, u_raw_path := u_raw_path endpoint,
                   u_raw_query := u_raw_query endpoint, u_fragment := []\<rparr>)))"

definition runtime_session_url :: "bool \<Rightarrow> string \<Rightarrow> string \<Rightarrow> url result" where
  "runtime_session_url allow_insecure raw path =
     bind_result (base_url allow_insecure raw) (\<lambda>base.
       Inr (base\<lparr>u_path := path, u_raw_path := path, u_raw_query := [], u_fragment := []\<rparr>))"

section \<open>The world\<close>

record http_request =
  hq_method :: string
  hq_url :: url
  hq_headers :: "(string \<times> string) list"
  hq_body :: string

text \<open>An answer to a request: after how many nanoseconds, and a transport error or a response.\<close>

datatype reply = Net_Error int string | Reply int int reader

record world =
  wd_now :: int
  wd_calls :: nat
  wd_reply :: "nat \<Rightarrow> reply"
  wd_sent :: "http_request list"
  wd_allow_insecure :: bool
  wd_draws :: nat
  wd_random :: "nat \<Rightarrow> string option"

text \<open>A context: the instant it is done (deadline or cancellation), if any.\<close>

type_synonym ctx = "int option"

definition ctx_done :: "ctx \<Rightarrow> int \<Rightarrow> bool" where
  "ctx_done c t \<longleftrightarrow> (case c of None \<Rightarrow> False | Some d \<Rightarrow> d \<le> t)"

definition with_timeout :: "ctx \<Rightarrow> int \<Rightarrow> world \<Rightarrow> ctx" where
  "with_timeout parent d w =
     Some (case parent of None \<Rightarrow> wd_now w + d | Some p \<Rightarrow> min p (wd_now w + d))"

text \<open>Fallible computations over the world.\<close>

type_synonym 'a io = "world \<Rightarrow> 'a result \<times> world"

definition io_lift :: "(world \<Rightarrow> 'a result) \<Rightarrow> 'a io" where
  "io_lift f w = (f w, w)"

definition io_bind :: "'a io \<Rightarrow> ('a \<Rightarrow> 'b io) \<Rightarrow> 'b io" where
  "io_bind m f w = (case m w of (Inl e, w') \<Rightarrow> (Inl e, w') | (Inr x, w') \<Rightarrow> f x w')"

definition io_wrap :: "string \<Rightarrow> 'a io \<Rightarrow> 'a io" where
  "io_wrap lbl m w = (case m w of (r, w') \<Rightarrow> (wrap_error lbl r, w'))"

definition deadline_exceeded :: string where
  "deadline_exceeded = ''context deadline exceeded''"

text \<open>\<open>client.Do\<close>: the request is sent unless the context is done; the answer may come too late.\<close>

definition client_do :: "ctx \<Rightarrow> http_request \<Rightarrow> (int \<times> reader) io" where
  "client_do c rq w =
     (if ctx_done c (wd_now w) then (Inl deadline_exceeded, w)
      else
        (let w1 = w\<lparr>wd_calls := Suc (wd_calls w), wd_sent := wd_sent w @ [rq]\<rparr>;
             arrive = (\<lambda>lat. wd_now w + max 0 lat);
             late = (\<lambda>lat. ctx_done c (arrive lat))
         in case wd_reply w (wd_calls w) of
              Net_Error lat e \<Rightarrow>
                if late lat then (Inl deadline_exceeded, w1\<lparr>wd_now := the c\<rparr>)
                else (Inl e, w1\<lparr>wd_now := arrive lat\<rparr>)
            | Reply lat st body \<Rightarrow>
                if late lat then (Inl deadline_exceeded, w1\<lparr>wd_now := the c\<rparr>)
                else (Inr (st, body), w1\<lparr>wd_now := arrive lat\<rparr>)))"

definition body_text :: "reader \<Rightarrow> string" where
  "body_text rd = (case rd of Inl e \<Rightarrow> [] | Inr b \<Rightarrow> b)"

section \<open>JSON requests\<close>

definition json_headers :: "string \<Rightarrow> (string \<times> string) list" where
  "json_headers token = [(''Authorization'', ''Bearer '' @ token), (''Content-Type'', ''application/json'')]"

text \<open>\<open>executeRuntimeJSON\<close>; the input is its marshalled body, which may fail.\<close>

definition execute_runtime_json ::
  "ctx \<Rightarrow> string \<Rightarrow> string \<Rightarrow> string \<Rightarrow> string result \<Rightarrow> string \<Rightarrow> string io" where
  "execute_runtime_json c base token endpoint_path input lbl =
     io_bind (io_lift (\<lambda>w. trusted_runtime_url (wd_allow_insecure w) base endpoint_path)) (\<lambda>endpoint.
     io_bind (io_lift (\<lambda>_. wrap_error (''encode '' @ lbl @ '' request: '') input)) (\<lambda>body.
     io_bind (io_wrap (''execute '' @ lbl @ '' request: '') (client_do c
        \<lparr>hq_method = ''POST'', hq_url = endpoint, hq_headers = json_headers token, hq_body = body\<rparr>))
       (\<lambda>(st, rd). io_lift (\<lambda>_.
          if st < 200 \<or> 300 \<le> st
          then Inl (lbl @ '' returned '' @ itoa st @ '': '' @ trim_space (take_int 512 (body_text rd)))
          else read_bounded rd max_response_bytes (lbl @ '' response'')))))"

text \<open>What every call does with the raw bytes: refuse duplicate keys, decode strictly, check.\<close>

definition decode_response ::
  "string \<Rightarrow> (json \<Rightarrow> 'r \<Rightarrow> 'r result) \<Rightarrow> 'r \<Rightarrow> ('r \<Rightarrow> unit result) \<Rightarrow> string \<Rightarrow> 'r result" where
  "decode_response lbl dec zero check raw =
     bind_result (reject_duplicate_json_keys raw) (\<lambda>_.
     bind_result (wrap_error lbl (decode_strict raw dec zero)) (\<lambda>r.
     bind_result (check r) (\<lambda>_. Inr r)))"

text \<open>A \<open>json.RawMessage\<close>: nil is \<open>null\<close>, anything else must be valid and is compacted.\<close>

definition marshal_raw :: "string \<Rightarrow> string result" where
  "marshal_raw r =
     (if r = [] then Inr ''null'' else if json_valid r then Inr (compact r)
      else Inl ''json: error calling MarshalJSON for type json.RawMessage'')"

definition marshal_string_list :: "string list \<Rightarrow> string" where
  "marshal_string_list xs = CHR ''['' # join_comma (map quote xs) @ '']''"

text \<open>Maps are printed with their keys sorted.\<close>

definition marshal_map :: "('v \<Rightarrow> string) \<Rightarrow> (string \<times> 'v) list \<Rightarrow> string" where
  "marshal_map f m = json_object (map (\<lambda>(k, v). (k, f v)) (sort_on fst m))"

definition marshal_any_map :: "(string \<times> any) list option \<Rightarrow> string" where
  "marshal_any_map m = (case m of None \<Rightarrow> ''null'' | Some kvs \<Rightarrow> marshal (AObj kvs))"

definition any_map_empty :: "(string \<times> any) list option \<Rightarrow> bool" where
  "any_map_empty m \<longleftrightarrow> m = None \<or> m = Some []"

section \<open>Provider execution\<close>

record provider_request_headers =
  ph_accept :: string
  ph_if_match :: string
  ph_if_none_match :: string
  ph_github_api_version :: string

record provider_http_request =
  hp_method :: string
  hp_path :: string
  hp_query :: "(string \<times> string list) list"
  hp_headers :: provider_request_headers
  hp_body :: "(string \<times> any) list option"

record provider_execution_request =
  pe_schema_version :: int
  pe_request_id :: string
  pe_connection_id :: string
  pe_resource_id :: string
  pe_request :: provider_http_request

definition marshal_provider_headers :: "provider_request_headers \<Rightarrow> string" where
  "marshal_provider_headers h = json_object
     (omit_if (ph_accept h = []) ''accept'' (quote (ph_accept h))
      @ omit_if (ph_if_match h = []) ''if_match'' (quote (ph_if_match h))
      @ omit_if (ph_if_none_match h = []) ''if_none_match'' (quote (ph_if_none_match h))
      @ omit_if (ph_github_api_version h = []) ''github_api_version'' (quote (ph_github_api_version h)))"

definition marshal_provider_http :: "provider_http_request \<Rightarrow> string" where
  "marshal_provider_http r = json_object
     ([(''method'', quote (hp_method r)), (''path'', quote (hp_path r)),
       (''query'', marshal_map marshal_string_list (hp_query r)),
       (''headers'', marshal_provider_headers (hp_headers r))]
      @ omit_if (any_map_empty (hp_body r)) ''body'' (marshal_any_map (hp_body r)))"

definition marshal_provider_request :: "provider_execution_request \<Rightarrow> string result" where
  "marshal_provider_request r = Inr (json_object
     [(''schema_version'', itoa (pe_schema_version r)), (''request_id'', quote (pe_request_id r)),
      (''connection_id'', quote (pe_connection_id r)), (''resource_id'', quote (pe_resource_id r)),
      (''request'', marshal_provider_http (pe_request r))])"

definition execute_provider ::
  "ctx \<Rightarrow> string \<Rightarrow> string \<Rightarrow> string \<Rightarrow> provider_execution_request \<Rightarrow> provider_execution_response io" where
  "execute_provider c base token endpoint_path input =
     (if token = [] then io_lift (\<lambda>_. Inl ''provider execution requires a session token'')
      else io_bind (execute_runtime_json c base token endpoint_path (marshal_provider_request input)
           ''provider execution'')
        (\<lambda>raw. io_lift (\<lambda>_. decode_response [] decode_provider_execution zero_provider_execution_response
           (\<lambda>r. validate_provider_execution r (pe_request_id input)) raw)))"

section \<open>MCP gateway and session relay\<close>

record mcp_gateway_params =
  gp_name :: string
  gp_arguments :: "(string \<times> any) list option"
  gp_uri :: string

record mcp_gateway_message =
  gm_jsonrpc :: string
  gm_id :: string
  gm_method :: string
  gm_params :: mcp_gateway_params

record mcp_gateway_request =
  gq_schema_version :: int
  gq_request_id :: string
  gq_connection_id :: string
  gq_resource_id :: string
  gq_message :: mcp_gateway_message

definition marshal_gateway_params :: "mcp_gateway_params \<Rightarrow> string" where
  "marshal_gateway_params p = json_object
     (omit_if (gp_name p = []) ''name'' (quote (gp_name p))
      @ omit_if (any_map_empty (gp_arguments p)) ''arguments'' (marshal_any_map (gp_arguments p))
      @ omit_if (gp_uri p = []) ''uri'' (quote (gp_uri p)))"

definition marshal_gateway_message :: "mcp_gateway_message \<Rightarrow> string result" where
  "marshal_gateway_message m = bind_result (marshal_raw (gm_id m)) (\<lambda>i. Inr (json_object
     [(''jsonrpc'', quote (gm_jsonrpc m)), (''id'', i), (''method'', quote (gm_method m)),
      (''params'', marshal_gateway_params (gm_params m))]))"

definition marshal_gateway_request :: "mcp_gateway_request \<Rightarrow> string result" where
  "marshal_gateway_request r = bind_result (marshal_gateway_message (gq_message r)) (\<lambda>m. Inr (json_object
     [(''schema_version'', itoa (gq_schema_version r)), (''request_id'', quote (gq_request_id r)),
      (''connection_id'', quote (gq_connection_id r)), (''resource_id'', quote (gq_resource_id r)),
      (''message'', m)]))"

definition execute_mcp_gateway ::
  "ctx \<Rightarrow> string \<Rightarrow> string \<Rightarrow> string \<Rightarrow> mcp_gateway_request \<Rightarrow> mcp_gateway_response io" where
  "execute_mcp_gateway c base token endpoint_path input =
     (if token = [] then io_lift (\<lambda>_. Inl ''MCP gateway requires a session token'')
      else io_bind (execute_runtime_json c base token endpoint_path (marshal_gateway_request input) ''MCP gateway'')
        (\<lambda>raw. io_lift (\<lambda>_. decode_response [] decode_mcp_gateway zero_mcp_gateway_response
           (\<lambda>r. validate_mcp_gateway r (gq_request_id input) (gm_id (gq_message input))) raw)))"

record mcp_session_message =
  sm_jsonrpc :: string
  sm_id :: string
  sm_method :: string
  sm_params :: string

record mcp_session_request =
  sq_schema_version :: int
  sq_request_id :: string
  sq_connection_id :: string
  sq_message :: mcp_session_message

definition marshal_session_message :: "mcp_session_message \<Rightarrow> string result" where
  "marshal_session_message m =
     bind_result (marshal_raw (sm_id m)) (\<lambda>i. bind_result (marshal_raw (sm_params m)) (\<lambda>ps. Inr (json_object
       ([(''jsonrpc'', quote (sm_jsonrpc m))] @ omit_if (sm_id m = []) ''id'' i
        @ [(''method'', quote (sm_method m)), (''params'', ps)]))))"

definition marshal_session_request :: "mcp_session_request \<Rightarrow> string result" where
  "marshal_session_request r = bind_result (marshal_session_message (sq_message r)) (\<lambda>m. Inr (json_object
     [(''schema_version'', itoa (sq_schema_version r)), (''request_id'', quote (sq_request_id r)),
      (''connection_id'', quote (sq_connection_id r)), (''message'', m)]))"

definition relay_mcp_session ::
  "ctx \<Rightarrow> string \<Rightarrow> string \<Rightarrow> string \<Rightarrow> mcp_session_request \<Rightarrow> mcp_session_response io" where
  "relay_mcp_session c base token endpoint_path input =
     (if token = [] then io_lift (\<lambda>_. Inl ''MCP session relay requires a session token'')
      else io_bind (execute_runtime_json c base token endpoint_path (marshal_session_request input) ''MCP session relay'')
        (\<lambda>raw. io_lift (\<lambda>_. decode_response [] decode_mcp_session zero_mcp_session_response
           (\<lambda>r. validate_mcp_session r (sq_request_id input) (sm_id (sq_message input))) raw)))"

text \<open>What the router marshals back to the client.\<close>

definition marshal_jsonrpc_error :: "mcp_jsonrpc_error \<Rightarrow> string result" where
  "marshal_jsonrpc_error e = bind_result (marshal_raw (je_data e)) (\<lambda>d. Inr (json_object
     ([(''code'', itoa (je_code e)), (''message'', quote (je_message e))] @ omit_if (je_data e = []) ''data'' d)))"

definition marshal_jsonrpc_response :: "mcp_jsonrpc_response \<Rightarrow> string result" where
  "marshal_jsonrpc_response r =
     bind_result (marshal_raw (jr_id r)) (\<lambda>i. bind_result (marshal_raw (jr_result r)) (\<lambda>res.
     bind_result (case jr_error r of None \<Rightarrow> Inr [] | Some e \<Rightarrow> marshal_jsonrpc_error e) (\<lambda>err.
       Inr (json_object ([(''jsonrpc'', quote (jr_jsonrpc r)), (''id'', i)]
         @ omit_if (jr_result r = []) ''result'' res @ omit_if (jr_error r = None) ''error'' err)))))"

section \<open>Approvals\<close>

definition approval_status_path :: string where
  "approval_status_path = ''/v1/runtime/approvals/status''"

definition decode_approval_status :: "string \<Rightarrow> reader \<Rightarrow> approval_status_response result" where
  "decode_approval_status request_id rd =
     bind_result (read_bounded rd max_response_bytes ''approval status'')
       (decode_response ''decode approval status: '' decode_approval zero_approval
          (\<lambda>r. validate_approval r request_id))"

definition get_approval_status ::
  "ctx \<Rightarrow> string \<Rightarrow> string \<Rightarrow> string \<Rightarrow> approval_status_response io" where
  "get_approval_status c base token request_id =
     (if token = [] then io_lift (\<lambda>_. Inl ''approval status requires a session token'')
      else if \<not> request_id_pattern request_id then io_lift (\<lambda>_. Inl ''approval status requires a valid request id'')
      else
        io_bind (io_lift (\<lambda>w. trusted_runtime_url (wd_allow_insecure w) base approval_status_path)) (\<lambda>endpoint.
        io_bind (io_wrap ''fetch approval status: '' (client_do c
            \<lparr>hq_method = ''GET'',
             hq_url = endpoint\<lparr>u_raw_query := ''request_id='' @ query_escape request_id\<rparr>,
             hq_headers = [(''Authorization'', ''Bearer '' @ token), (''Accept'', ''application/json'')],
             hq_body = []\<rparr>))
          (\<lambda>(st, rd). io_lift (\<lambda>_.
             if st \<noteq> 200 then Inl (''approval status returned '' @ itoa st)
             else decode_approval_status request_id rd))))"

definition approval_poll_interval :: int where
  "approval_poll_interval = second"

text \<open>
  \<open>WaitForApproval\<close>. The timer and the context race in the source's \<open>select\<close>; at a tie the
  context wins here. Without a deadline the loop may run forever, hence \<open>option\<close>.
\<close>

definition wait_timer :: "ctx \<Rightarrow> world \<Rightarrow> unit result \<times> world" where
  "wait_timer c w =
     (if ctx_done c (wd_now w + approval_poll_interval)
      then (Inl (''wait for approval: '' @ deadline_exceeded), w\<lparr>wd_now := max (wd_now w) (the c)\<rparr>)
      else (Inr (), w\<lparr>wd_now := wd_now w + approval_poll_interval\<rparr>))"

partial_function (option) wait_for_approval ::
  "ctx \<Rightarrow> string \<Rightarrow> string \<Rightarrow> string \<Rightarrow> world \<Rightarrow> (unit result \<times> world) option" where
  "wait_for_approval c base token request_id w =
     (case get_approval_status c base token request_id w of
        (Inl e, w1) \<Rightarrow> Some (Inl e, w1)
      | (Inr st, w1) \<Rightarrow>
          if ap_status st = ''approved'' then Some (Inr (), w1)
          else if ap_status st = ''pending'' then
            (case wait_timer c w1 of
               (Inl e, w2) \<Rightarrow> Some (Inl e, w2)
             | (Inr _, w2) \<Rightarrow> wait_for_approval c base token request_id w2)
          else if terminal_approval (ap_status st) then Some (Inl (''approval '' @ ap_status st), w1)
          else Some (Inl (''approval returned unsupported status '' @ ap_status st), w1))"

section \<open>Action tokens\<close>

record mcp_action_resource =
  ar_resource_type :: string
  ar_resource_id :: string
  ar_external_id :: string

record mcp_action_intent =
  ai_provider :: string
  ai_connection_id :: string
  ai_action_type :: string
  ai_action_name :: string
  ai_resource :: mcp_action_resource
  ai_parameters :: "(string \<times> any) list option"

record mint_kit_action_token_request =
  mk_schema_version :: int
  mk_request_id :: string
  mk_request_hash :: string
  mk_intent :: mcp_action_intent

definition marshal_action_resource :: "mcp_action_resource \<Rightarrow> string" where
  "marshal_action_resource r = json_object
     [(''resource_type'', quote (ar_resource_type r)), (''resource_id'', quote (ar_resource_id r)),
      (''external_id'', quote (ar_external_id r))]"

definition marshal_intent :: "mcp_action_intent \<Rightarrow> string" where
  "marshal_intent i = json_object
     ([(''provider'', quote (ai_provider i)), (''connection_id'', quote (ai_connection_id i)),
       (''action_type'', quote (ai_action_type i))]
      @ omit_if (ai_action_name i = []) ''action_name'' (quote (ai_action_name i))
      @ [(''resource'', marshal_action_resource (ai_resource i)),
         (''parameters'', marshal_any_map (ai_parameters i))])"

definition marshal_mint_request :: "mint_kit_action_token_request \<Rightarrow> string result" where
  "marshal_mint_request r = Inr (json_object
     [(''schema_version'', itoa (mk_schema_version r)), (''request_id'', quote (mk_request_id r)),
      (''request_hash'', quote (mk_request_hash r)), (''intent'', marshal_intent (mk_intent r))])"

text \<open>
  \<open>NewMintKitActionTokenRequest\<close>. The JSON canonicalization is a third-party package, and the
  digest is SHA-256: both are parameters, the digest returning the raw bytes.
\<close>

definition new_mint_request ::
  "(string \<Rightarrow> string result) \<Rightarrow> (string \<Rightarrow> string) \<Rightarrow> string \<Rightarrow> mcp_action_intent
     \<Rightarrow> mint_kit_action_token_request result" where
  "new_mint_request canonicalize sha256 request_id intent =
     bind_result (wrap_error ''canonicalize MCP action intent: '' (canonicalize (marshal_intent intent)))
       (\<lambda>canonical. Inr \<lparr>mk_schema_version = schema_version, mk_request_id = request_id,
          mk_request_hash = ''sha256:'' @ hex_encode (sha256 canonical), mk_intent = intent\<rparr>)"

definition mint_kit_action_token ::
  "ctx \<Rightarrow> string \<Rightarrow> string \<Rightarrow> string \<Rightarrow> mint_kit_action_token_request \<Rightarrow> kit_action_token_response io" where
  "mint_kit_action_token c base token endpoint_path input =
     (if token = [] then io_lift (\<lambda>_. Inl ''KIT action token mint requires a session token'')
      else io_bind (execute_runtime_json c base token endpoint_path (marshal_mint_request input) ''KIT action token mint'')
        (\<lambda>raw. io_lift (\<lambda>w. decode_response [] decode_kit_action_token zero_kit_action_token
           (check_kit_action_token (wd_now w)) raw)))"

section \<open>Routes and usage\<close>

definition routes_endpoint_path :: string where
  "routes_endpoint_path = ''/v1/runtime/routes''"

definition fetch_runtime_routes :: "ctx \<Rightarrow> string \<Rightarrow> string \<Rightarrow> runtime_routes io" where
  "fetch_runtime_routes c base token =
     io_bind (io_lift (\<lambda>w. trusted_runtime_url (wd_allow_insecure w) base routes_endpoint_path)) (\<lambda>endpoint.
     io_bind (io_wrap ''fetch runtime routes: '' (client_do c
        \<lparr>hq_method = ''GET'', hq_url = endpoint,
         hq_headers = [(''Authorization'', ''Bearer '' @ token), (''Accept'', ''application/json'')], hq_body = []\<rparr>))
       (\<lambda>(st, rd). io_lift (\<lambda>_.
          if st \<noteq> 200 then Inl (''runtime routes returned '' @ itoa st)
          else bind_result (read_bounded rd max_response_bytes ''runtime routes'') decode_runtime_routes)))"

record session_usage_event =
  ue_request_id :: string
  ue_provider :: string
  ue_model :: string
  ue_service_tier :: string
  ue_input_tokens :: int
  ue_output_tokens :: "int option"
  ue_cache_creation_tokens :: int
  ue_cache_read_tokens :: int
  ue_stop_reason :: string
  ue_latency_ms :: int
  ue_occurred_at :: string

definition marshal_usage_event :: "session_usage_event \<Rightarrow> string" where
  "marshal_usage_event e = json_object
     ([(''request_id'', quote (ue_request_id e)), (''provider'', quote (ue_provider e)),
       (''model'', quote (ue_model e))]
      @ omit_if (ue_service_tier e = []) ''service_tier'' (quote (ue_service_tier e))
      @ [(''input_tokens'', itoa (ue_input_tokens e)),
         (''output_tokens'', case ue_output_tokens e of None \<Rightarrow> ''null'' | Some n \<Rightarrow> itoa n),
         (''cache_creation_tokens'', itoa (ue_cache_creation_tokens e)),
         (''cache_read_tokens'', itoa (ue_cache_read_tokens e))]
      @ omit_if (ue_stop_reason e = []) ''stop_reason'' (quote (ue_stop_reason e))
      @ omit_if (ue_latency_ms e = 0) ''latency_ms'' (itoa (ue_latency_ms e))
      @ [(''occurred_at'', quote (ue_occurred_at e))])"

definition marshal_usage_report :: "session_usage_event list \<Rightarrow> string result" where
  "marshal_usage_report es = Inr (json_object
     [(''schema_version'', itoa schema_version),
      (''events'', CHR ''['' # join_comma (map marshal_usage_event es) @ '']'')])"

definition session_usage_path :: string where
  "session_usage_path = ''/v1/runtime/sessions/usage''"

definition max_usage_events_per_report :: nat where
  "max_usage_events_per_report = 100"

definition report_session_usage ::
  "ctx \<Rightarrow> string \<Rightarrow> string \<Rightarrow> session_usage_event list \<Rightarrow> session_usage_report_response io" where
  "report_session_usage c base token events =
     (if token = [] then io_lift (\<lambda>_. Inl ''usage reporting requires a session token'')
      else if events = [] \<or> max_usage_events_per_report < length events
      then io_lift (\<lambda>_. Inl ''usage report must carry 1-100 events'')
      else io_bind (execute_runtime_json c base token session_usage_path (marshal_usage_report events) ''usage report'')
        (\<lambda>raw. io_lift (\<lambda>_. decode_response [] decode_usage_response zero_usage_response check_usage_response raw)))"

section \<open>KIT sessions and the device inventory\<close>

record create_kit_session_input =
  ci_agent_id :: string
  ci_session_handle :: string
  ci_idempotency_key :: string
  ci_agent_runtime :: string
  ci_replaces_session_id :: string

text \<open>The payload is a Go map, printed with sorted keys.\<close>

definition session_payload :: "create_kit_session_input \<Rightarrow> string" where
  "session_payload i = marshal_map quote
     ([(''agent_id'', ci_agent_id i), (''session_handle'', ci_session_handle i)]
      @ (if ci_agent_runtime i = [] then [] else [(''agent_runtime'', ci_agent_runtime i)]))"

definition create_kit_session :: "ctx \<Rightarrow> string \<Rightarrow> create_kit_session_input \<Rightarrow> kit_session io" where
  "create_kit_session c base i =
     (if ci_agent_id i = [] \<or> ci_session_handle i = []
      then io_lift (\<lambda>_. Inl ''runtime session requires agent and handle'')
      else if \<not> request_id_pattern (ci_idempotency_key i) \<or> length (ci_idempotency_key i) < 8
      then io_lift (\<lambda>_. Inl ''invalid runtime session idempotency key'')
      else if ci_replaces_session_id i \<noteq> [] \<and> \<not> ulid_pattern (ci_replaces_session_id i)
      then io_lift (\<lambda>_. Inl ''invalid replacement session id'')
      else
        io_bind (io_lift (\<lambda>w. runtime_session_url (wd_allow_insecure w) base ''/runtime/sessions'')) (\<lambda>endpoint.
        io_bind (client_do c
          \<lparr>hq_method = ''POST'', hq_url = endpoint,
           hq_headers = [(''Content-Type'', ''application/json''), (''Idempotency-Key'', ci_idempotency_key i)]
             @ (if ci_replaces_session_id i = [] then []
                else [(''X-Keydris-Replaces-Kit'', ci_replaces_session_id i)]),
           hq_body = session_payload i\<rparr>)
          (\<lambda>(st, rd). io_lift (\<lambda>_.
             if st < 200 \<or> 300 \<le> st
             then Inl (''runtime session endpoint '' @ itoa st @ '': '' @ trim_space (take_int 1024 (body_text rd)))
             else decode_kit_session rd))))"

definition revoke_kit_session :: "ctx \<Rightarrow> string \<Rightarrow> string \<Rightarrow> unit io" where
  "revoke_kit_session c base session_id =
     (if \<not> ulid_pattern session_id then io_lift (\<lambda>_. Inl ''invalid runtime session id'')
      else
        io_bind (io_lift (\<lambda>w. runtime_session_url (wd_allow_insecure w) base
            (''/runtime/sessions/'' @ session_id @ ''/revoke''))) (\<lambda>endpoint.
        io_bind (client_do c \<lparr>hq_method = ''POST'', hq_url = endpoint, hq_headers = [], hq_body = []\<rparr>)
          (\<lambda>(st, rd). io_lift (\<lambda>_. fail_if (st < 200 \<or> 300 \<le> st) (''revoke returned '' @ itoa st)))))"

record mcp_inventory_entry =
  ie_name :: string
  ie_transport :: string
  ie_endpoint :: "string option"
  ie_endpoint_redacted :: bool
  ie_managed :: bool
  ie_enabled :: bool

record mcp_inventory_report =
  ir_schema_version :: int
  ir_runtime :: string
  ir_observed_at :: string
  ir_entries :: "mcp_inventory_entry list"

definition marshal_bool :: "bool \<Rightarrow> string" where
  "marshal_bool b = (if b then ''true'' else ''false'')"

definition marshal_inventory_entry :: "mcp_inventory_entry \<Rightarrow> string" where
  "marshal_inventory_entry e = json_object
     [(''name'', quote (ie_name e)), (''transport'', quote (ie_transport e)),
      (''endpoint'', case ie_endpoint e of None \<Rightarrow> ''null'' | Some s \<Rightarrow> quote s),
      (''endpoint_redacted'', marshal_bool (ie_endpoint_redacted e)),
      (''managed'', marshal_bool (ie_managed e)), (''enabled'', marshal_bool (ie_enabled e))]"

definition marshal_inventory :: "mcp_inventory_report \<Rightarrow> string" where
  "marshal_inventory r = json_object
     [(''schema_version'', itoa (ir_schema_version r)), (''runtime'', quote (ir_runtime r)),
      (''observed_at'', quote (ir_observed_at r)),
      (''entries'', CHR ''['' # join_comma (map marshal_inventory_entry (ir_entries r)) @ '']'')]"

definition report_mcp_inventory :: "ctx \<Rightarrow> string \<Rightarrow> mcp_inventory_report \<Rightarrow> unit io" where
  "report_mcp_inventory c base report =
     io_bind (io_lift (\<lambda>w. runtime_session_url (wd_allow_insecure w) base ''/runtime/devices/mcp-inventory'')) (\<lambda>endpoint.
     io_bind (\<lambda>w. case client_do c
          \<lparr>hq_method = ''POST'', hq_url = endpoint, hq_headers = [(''Content-Type'', ''application/json'')],
           hq_body = marshal_inventory report\<rparr> w of
          (Inl _, w') \<Rightarrow> (Inl ''inventory delivery failed'', w') | (Inr a, w') \<Rightarrow> (Inr a, w'))
       (\<lambda>(st, rd). io_lift (\<lambda>_. fail_if (st \<noteq> 200) (''inventory returned HTTP '' @ itoa st))))"

section \<open>What a call does to the world\<close>

text \<open>
  From \<open>w\<close> to \<open>w'\<close> only requests that satisfy \<open>P\<close> were sent, one per call counted, the
  clock did not run back, and the environment is the same.
\<close>

definition evolves :: "(http_request \<Rightarrow> bool) \<Rightarrow> world \<Rightarrow> world \<Rightarrow> bool" where
  "evolves P w w' \<longleftrightarrow> (\<exists>rqs. wd_sent w' = wd_sent w @ rqs \<and> list_all P rqs \<and> wd_calls w' = wd_calls w + length rqs)
     \<and> wd_now w \<le> wd_now w' \<and> wd_reply w' = wd_reply w \<and> wd_allow_insecure w' = wd_allow_insecure w
     \<and> wd_draws w \<le> wd_draws w' \<and> wd_random w' = wd_random w"

lemma evolves_refl [simp, intro]: "evolves P w w"
  by (simp add: evolves_def)

lemma evolves_trans: "evolves P w w1 \<Longrightarrow> evolves P w1 w2 \<Longrightarrow> evolves P w w2"
  unfolding evolves_def by fastforce

lemma evolves_env:
  "evolves P w w' \<Longrightarrow> wd_now w \<le> wd_now w' \<and> wd_calls w \<le> wd_calls w' \<and> wd_reply w' = wd_reply w
     \<and> wd_allow_insecure w' = wd_allow_insecure w"
  by (auto simp: evolves_def)

lemma evolves_client_do: "P rq \<Longrightarrow> evolves P w (snd (client_do c rq w))"
  by (auto simp: client_do_def evolves_def Let_def ctx_done_def split: reply.split option.splits)

text \<open>A computation is safe from \<open>w\<close> when every step of it is.\<close>

definition safe_io :: "(http_request \<Rightarrow> bool) \<Rightarrow> world \<Rightarrow> 'a io \<Rightarrow> bool" where
  "safe_io P w m \<longleftrightarrow> evolves P w (snd (m w))"

lemma safe_io_lift [simp]: "safe_io P w (io_lift f)"
  by (simp add: safe_io_def io_lift_def)

lemma safe_io_do: "P rq \<Longrightarrow> safe_io P w (client_do c rq)"
  by (simp add: safe_io_def evolves_client_do)

lemma safe_io_wrap: "safe_io P w m \<Longrightarrow> safe_io P w (io_wrap lbl m)"
  by (cases "m w") (simp add: safe_io_def io_wrap_def)

lemma safe_io_bind:
  assumes "safe_io P w m" and "\<And>x w1. m w = (Inr x, w1) \<Longrightarrow> safe_io P w1 (f x)"
  shows "safe_io P w (io_bind m f)"
  using assms by (auto simp: safe_io_def io_bind_def split: prod.splits sum.splits intro: evolves_trans)

lemma safe_io_bind_lift:
  assumes "\<And>x. g w = Inr x \<Longrightarrow> safe_io P w (f x)"
  shows "safe_io P w (io_bind (io_lift g) f)"
  by (rule safe_io_bind) (auto simp: io_lift_def assms)

lemmas safe_rules = safe_io_bind_lift safe_io_bind safe_io_wrap safe_io_do safe_io_lift

section \<open>Where requests go\<close>

definition trusted_request :: "bool \<Rightarrow> string \<Rightarrow> string \<Rightarrow> http_request \<Rightarrow> bool" where
  "trusted_request allow_insecure base root rq \<longleftrightarrow>
     (case parse_url (trim_space base) of None \<Rightarrow> False
      | Some b \<Rightarrow> u_scheme (hq_url rq) = u_scheme b \<and> u_host (hq_url rq) = u_host b \<and> u_host b \<noteq> []
          \<and> (u_scheme b = ''https'' \<or> u_scheme b = ''http'' \<and> (is_loopback_host (url_hostname b) \<or> allow_insecure))
          \<and> has_prefix (u_path (hq_url rq)) root)"

lemma base_url_ok:
  "base_url ai base = Inr b \<Longrightarrow> parse_url (trim_space base) = Some b \<and> u_host b \<noteq> []
     \<and> (u_scheme b = ''https'' \<or> u_scheme b = ''http'' \<and> (is_loopback_host (url_hostname b) \<or> ai))"
  by (auto simp: base_url_def secure_assert_def split: option.splits if_splits)

lemma unescape_plain: "c \<noteq> CHR ''%'' \<Longrightarrow> unescape (c # s) = map_option (Cons c) (unescape s)"
  by (cases s rule: unescape.cases) (auto simp: option.map_comp comp_def)

lemma unescape_runtime_prefix:
  assumes "unescape (''/v1/runtime/'' @ t) = Some p"
  shows "has_prefix p ''/v1/runtime/''"
  using assms by (auto simp: unescape_plain has_prefix_iff simp del: unescape.simps)

lemma runtime_path_parsed:
  assumes "valid_runtime_path p" and "parse_url p = Some e"
  shows "has_prefix (u_path e) ''/v1/runtime/''"
proof -
  from assms(1) obtain t where p: "p = ''/v1/runtime/'' @ t"
    by (auto simp: valid_runtime_path_def has_prefix_iff split: if_splits)
  obtain t1 f1 b1 where t1: "cut_at (CHR ''#'') t = (t1, f1, b1)" by (cases "cut_at (CHR ''#'') t")
  obtain t2 f2 b2 where t2: "cut_at (CHR ''?'') t1 = (t2, f2, b2)" by (cases "cut_at (CHR ''?'') t1")
  from assms(2) obtain e' where "parse_url_nofrag False (''/v1/runtime/'' @ t1) = Some e'" and e: "u_path e = u_path e'"
    by (auto simp: parse_url_def p t1 split: option.splits)
  then have "parse_url_rest False [] (''/v1/runtime/'' @ t1) = Some e'"
    by (auto simp: parse_url_nofrag_def get_scheme_def scheme_char_def is_alnum_def is_digit_def is_lower_def
        is_upper_def byte_def to_lower_def Let_def split: if_splits)
  then obtain q where "unescape (''/v1/runtime/'' @ t2) = Some q" and "u_path e' = q"
    by (auto simp: parse_url_rest_def t2 Let_def simp del: unescape.simps)
  with e unescape_runtime_prefix show ?thesis by simp
qed

lemma trusted_runtime_url_ok:
  assumes "trusted_runtime_url ai base p = Inr u"
  shows "trusted_request ai base ''/v1/runtime/''
    \<lparr>hq_method = m, hq_url = u\<lparr>u_raw_query := q\<rparr>, hq_headers = hs, hq_body = body\<rparr>"
    "trusted_request ai base ''/v1/runtime/'' \<lparr>hq_method = m, hq_url = u, hq_headers = hs, hq_body = body\<rparr>"
  using assms runtime_path_parsed [of p]
  by (auto simp: trusted_runtime_url_def trusted_request_def dest!: base_url_ok split: option.splits if_splits)

lemma runtime_session_url_ok:
  "runtime_session_url ai base p = Inr u \<Longrightarrow> has_prefix p ''/runtime/'' \<Longrightarrow>
     trusted_request ai base ''/runtime/'' \<lparr>hq_method = m, hq_url = u, hq_headers = hs, hq_body = body\<rparr>"
  by (auto simp: runtime_session_url_def trusted_request_def dest!: base_url_ok)

lemma safe_execute_runtime_json:
  "safe_io (trusted_request (wd_allow_insecure w) base ''/v1/runtime/'') w (execute_runtime_json c base token p input lbl)"
  unfolding execute_runtime_json_def
  by (intro safe_rules) (auto simp: case_prod_unfold intro: trusted_runtime_url_ok)


lemma safe_execute_json_call:
  "safe_io (trusted_request (wd_allow_insecure w) base ''/v1/runtime/'') w
     (if b then io_lift f else io_bind (execute_runtime_json c base token p input lbl) (\<lambda>raw. io_lift (g raw)))"
  by (simp add: safe_io_bind safe_execute_runtime_json)

lemma safe_runtime_calls:
  "safe_io (trusted_request (wd_allow_insecure w) base ''/v1/runtime/'') w (execute_provider c base token p pe)"
  "safe_io (trusted_request (wd_allow_insecure w) base ''/v1/runtime/'') w (execute_mcp_gateway c base token p gq)"
  "safe_io (trusted_request (wd_allow_insecure w) base ''/v1/runtime/'') w (relay_mcp_session c base token p sq)"
  "safe_io (trusted_request (wd_allow_insecure w) base ''/v1/runtime/'') w (mint_kit_action_token c base token p mk)"
  unfolding execute_provider_def execute_mcp_gateway_def relay_mcp_session_def mint_kit_action_token_def
  by (rule safe_execute_json_call)+

lemma safe_report_usage:
  "safe_io (trusted_request (wd_allow_insecure w) base ''/v1/runtime/'') w (report_session_usage c base token es)"
  by (auto simp: report_session_usage_def intro!: safe_io_bind safe_execute_runtime_json)

lemma safe_get_approval:
  "safe_io (trusted_request (wd_allow_insecure w) base ''/v1/runtime/'') w (get_approval_status c base token rid)"
  unfolding get_approval_status_def
  by (auto simp: case_prod_unfold intro!: safe_rules trusted_runtime_url_ok(1))

lemma safe_fetch_routes:
  "safe_io (trusted_request (wd_allow_insecure w) base ''/v1/runtime/'') w (fetch_runtime_routes c base token)"
  unfolding fetch_runtime_routes_def
  by (intro safe_rules) (auto simp: case_prod_unfold intro: trusted_runtime_url_ok)

lemma safe_create_session:
  "safe_io (trusted_request (wd_allow_insecure w) base ''/runtime/'') w (create_kit_session c base ci)"
  unfolding create_kit_session_def
  by (auto simp: case_prod_unfold intro!: safe_rules runtime_session_url_ok)

lemma safe_revoke_session:
  "safe_io (trusted_request (wd_allow_insecure w) base ''/runtime/'') w (revoke_kit_session c base sid)"
  unfolding revoke_kit_session_def
  by (auto simp: case_prod_unfold intro!: safe_rules runtime_session_url_ok)

section \<open>Waiting for an approval\<close>

lemma evolves_get_approval:
  "get_approval_status c base token rid w = (r, w1) \<Longrightarrow>
     evolves (trusted_request (wd_allow_insecure w) base ''/v1/runtime/'') w w1"
  using safe_get_approval [of w base c token rid] by (simp add: safe_io_def)

text \<open>One poll makes at most one call, never runs past the deadline, and \<open>approved\<close> comes from a reply.\<close>

lemma client_do_bounds:
  assumes "client_do c rq w = (r, w1)"
  shows "wd_calls w1 \<le> Suc (wd_calls w)" and "c = Some d \<Longrightarrow> wd_now w1 \<le> max (wd_now w) d"
  using assms by (auto simp: client_do_def Let_def ctx_done_def split: if_splits reply.splits option.splits)

lemma client_do_reply:
  "client_do c rq w = (Inr (st, rd), w1) \<Longrightarrow> wd_calls w1 = Suc (wd_calls w) \<and> (\<exists>lat. wd_reply w (wd_calls w) = Reply lat st rd)"
  by (auto simp: client_do_def Let_def split: if_splits reply.splits)

lemma io_bind_cases:
  assumes "io_bind m f w = (r, w')"
  obtains e where "m w = (Inl e, w')" and "r = Inl e"
  | x w1 where "m w = (Inr x, w1)" and "f x w1 = (r, w')"
  using assms by (auto simp: io_bind_def split: prod.splits sum.splits)

lemma io_lift_eq [simp]: "io_lift f w = (r, w') \<longleftrightarrow> r = f w \<and> w' = w"
  by (auto simp: io_lift_def)

lemma io_wrap_Inr [simp]: "io_wrap lbl m w = (Inr x, w') \<longleftrightarrow> m w = (Inr x, w')"
  by (cases "m w") (auto simp: io_wrap_def)

lemma io_wrap_world: "io_wrap lbl m w = (r, w') \<Longrightarrow> \<exists>r0. m w = (r0, w')"
  by (cases "m w") (auto simp: io_wrap_def)

lemma get_approval_bounds:
  assumes "get_approval_status c base token rid w = (r, w1)"
  shows "wd_calls w1 \<le> Suc (wd_calls w)" and "c = Some d \<Longrightarrow> wd_now w1 \<le> max (wd_now w) d"
  using assms
  by (auto simp: get_approval_status_def case_prod_unfold split: if_splits elim!: io_bind_cases
      dest!: io_wrap_world dest: client_do_bounds)

lemma get_approval_reply:
  assumes "get_approval_status c base token rid w = (Inr ap, w1)"
  shows "wd_calls w1 = Suc (wd_calls w) \<and>
    (\<exists>lat rd. wd_reply w (wd_calls w) = Reply lat 200 rd \<and> decode_approval_status rid rd = Inr ap)"
  using assms
  by (auto simp: get_approval_status_def case_prod_unfold split: if_splits elim!: io_bind_cases
      dest!: client_do_reply)


lemma wait_timer_cases:
  assumes "wait_timer c w = (r, w2)"
  obtains e d where "r = Inl e" and "c = Some d" and "w2 = w\<lparr>wd_now := max (wd_now w) d\<rparr>"
  | "r = Inr ()" and "w2 = w\<lparr>wd_now := wd_now w + approval_poll_interval\<rparr>" and "\<not> ctx_done c (wd_now w + approval_poll_interval)"
  using assms by (auto simp: wait_timer_def ctx_done_def split: if_splits option.splits)

lemma evolves_tick: "0 \<le> n \<Longrightarrow> evolves P w (w\<lparr>wd_now := wd_now w + n\<rparr>)" "evolves P w (w\<lparr>wd_now := max (wd_now w) d\<rparr>)"
  by (auto simp: evolves_def)

lemma evolves_wait_timer: "wait_timer c w = (r, w2) \<Longrightarrow> evolves P w w2"
  by (erule wait_timer_cases) (auto simp: evolves_tick approval_poll_interval_def second_def)

text \<open>The three ways a round of the loop ends.\<close>

lemma wait_round:
  assumes "wait_for_approval c base token rid w = Some (r, w')"
  obtains (Stop) ap r1 where "get_approval_status c base token rid w = (r1, w')" and
      "r = Inr () \<Longrightarrow> r1 = Inr ap \<and> ap_status ap = ''approved''"
  | (Timeout) ap w1 e where "get_approval_status c base token rid w = (Inr ap, w1)" and
      "wait_timer c w1 = (Inl e, w')" and "r = Inl e"
  | (Again) ap w1 w2 where "get_approval_status c base token rid w = (Inr ap, w1)" and
      "wait_timer c w1 = (Inr (), w2)" and "wait_for_approval c base token rid w2 = Some (r, w')"
  using assms
  by (subst (asm) wait_for_approval.simps) (auto split: prod.splits sum.splits if_splits)


lemma wait_for_approval_returns:
  "\<exists>r w'. wait_for_approval (Some d) base token rid w = Some (r, w')"
proof (induction "nat (d - wd_now w)" arbitrary: w rule: less_induct)
  case less
  obtain r1 w1 where g: "get_approval_status (Some d) base token rid w = (r1, w1)"
    by (cases "get_approval_status (Some d) base token rid w")
  obtain r2 w2 where t: "wait_timer (Some d) w1 = (r2, w2)" by (cases "wait_timer (Some d) w1")
  have "\<exists>r w'. wait_for_approval (Some d) base token rid w2 = Some (r, w')" if "r2 = Inr ()"
  proof -
    from evolves_env [OF evolves_get_approval [OF g]] have "wd_now w \<le> wd_now w1" by blast
    moreover from t that have "wd_now w2 = wd_now w1 + second" "wd_now w2 < d"
      by (auto simp: wait_timer_def ctx_done_def approval_poll_interval_def split: if_splits)
    ultimately show ?thesis by (intro less) (auto simp: second_def)
  qed
  then show ?case
    by (subst wait_for_approval.simps) (auto simp: g t split: sum.splits)
qed

lemma wait_for_approval_time:
  "wait_for_approval (Some d) base token rid w = Some (r, w') \<Longrightarrow>
     wd_now w' \<le> max (wd_now w) d \<and> second * (int (wd_calls w' - wd_calls w) - 1) \<le> max 0 (d - wd_now w)"
proof (induction "nat (d - wd_now w)" arbitrary: w rule: less_induct)
  case less
  from less.prems show ?case
  proof (cases rule: wait_round)
    case (Stop ap r1)
    with get_approval_bounds [OF Stop(1)] show ?thesis by (auto simp: second_def)
  next
    case (Timeout ap w1 e)
    with get_approval_bounds [OF Timeout(1)] show ?thesis
      by (auto simp: second_def elim!: wait_timer_cases)
  next
    case (Again ap w1 w2)
    from Again(2) have w2: "wd_now w2 = wd_now w1 + second" "wd_now w2 < d" "wd_calls w2 = wd_calls w1"
      by (auto simp: wait_timer_def ctx_done_def approval_poll_interval_def split: if_splits)
    from evolves_env [OF evolves_get_approval [OF Again(1)]] get_approval_bounds [OF Again(1)]
    have g: "wd_now w \<le> wd_now w1" "wd_calls w1 \<le> Suc (wd_calls w)" "wd_calls w \<le> wd_calls w1" by auto
    have "nat (d - wd_now w2) < nat (d - wd_now w)" using w2 g by (auto simp: second_def)
    from less.hyps [OF this Again(3)] w2 g show ?thesis by (auto simp: second_def max_def)
  qed
qed

text \<open>What a finished wait has seen: only trusted requests, and behind success an approved reply.\<close>

definition granted :: "string \<Rightarrow> world \<Rightarrow> world \<Rightarrow> bool" where
  "granted rid w w' \<longleftrightarrow> (\<exists>i lat rd ap. wd_calls w \<le> i \<and> wd_calls w' = Suc i \<and> wd_reply w i = Reply lat 200 rd
    \<and> decode_approval_status rid rd = Inr ap \<and> ap_status ap = ''approved'')"

definition wait_seen :: "string \<Rightarrow> string \<Rightarrow> world \<Rightarrow> unit result \<times> world \<Rightarrow> bool" where
  "wait_seen base rid w rw \<longleftrightarrow> evolves (trusted_request (wd_allow_insecure w) base ''/v1/runtime/'') w (snd rw)
     \<and> (fst rw = Inr () \<longrightarrow> granted rid w (snd rw))"

lemma wait_seen_stop:
  assumes "get_approval_status c base token rid w = (r, w1)"
    and "r' = Inr () \<Longrightarrow> \<exists>ap. r = Inr ap \<and> ap_status ap = ''approved''"
  shows "wait_seen base rid w (r', w1)"
  using assms(2) evolves_get_approval [OF assms(1)] get_approval_reply [of c base token rid w _ w1] assms(1)
  by (auto simp: wait_seen_def granted_def)

lemma wait_seen_timer:
  assumes "get_approval_status c base token rid w = (r, w1)" and "wait_timer c w1 = (rt, w2)"
  shows "evolves (trusted_request (wd_allow_insecure w) base ''/v1/runtime/'') w w2"
  using evolves_trans [OF evolves_get_approval [OF assms(1)] evolves_wait_timer [OF assms(2)]] .

lemma wait_seen_again:
  assumes "get_approval_status c base token rid w = (r, w1)" and "wait_timer c w1 = (rt, w2)"
    and "wait_seen base rid w2 rw"
  shows "wait_seen base rid w rw"
proof -
  note e = wait_seen_timer [OF assms(1,2)]
  from evolves_env [OF e] assms(3) show ?thesis
    by (auto simp: wait_seen_def granted_def intro: evolves_trans [OF e] order_trans)
qed

lemma wait_for_approval_seen:
  "wait_for_approval c base token rid w = Some rw \<Longrightarrow> wait_seen base rid w rw"
proof (rule wait_for_approval.raw_induct [where P = "\<lambda>c base token rid w rw. wait_seen base rid w rw"], goal_cases)
  case (1 rec c base token rid w rw)
  note IH = 1(2) and eq = 1(3)
  obtain r w1 where g: "get_approval_status c base token rid w = (r, w1)" by (cases "get_approval_status c base token rid w")
  obtain rt w2 where t: "wait_timer c w1 = (rt, w2)" by (cases "wait_timer c w1")
  show ?case
  proof (cases "\<exists>ap. r = Inr ap \<and> ap_status ap = ''pending'' \<and> rt = Inr ()")
    case True
    with eq g t have "rec c base token rid w2 = Some rw" by auto
    from wait_seen_again [OF g t IH [OF this]] show ?thesis .
  next
    case False
    show ?thesis
    proof (cases "\<exists>ap. r = Inr ap \<and> ap_status ap = ''pending''")
      case True
      with False eq g t have "\<exists>e. rw = (Inl e, w2)" by (cases rt) auto
      then show ?thesis by (auto simp: wait_seen_def wait_seen_timer [OF g t])
    next
      case False
      with eq g show ?thesis
        by (auto intro!: wait_seen_stop [OF g] split: sum.splits if_splits)
    qed
  qed
qed

lemma wait_for_approval_granted:
  "wait_for_approval c base token rid w = Some (Inr (), w') \<Longrightarrow> granted rid w w'"
  using wait_for_approval_seen [of c base token rid w "(Inr (), w')"] by (simp add: wait_seen_def)

lemma evolves_wait_for_approval:
  "wait_for_approval c base token rid w = Some (r, w') \<Longrightarrow>
     evolves (trusted_request (wd_allow_insecure w) base ''/v1/runtime/'') w w'"
  using wait_for_approval_seen [of c base token rid w "(r, w')"] by (simp add: wait_seen_def)

section \<open>Properties\<close>


text \<open>
  C18. Waiting for an approval under a context with a deadline always returns, never later than the
  deadline (or the start, if that is later), and polls at most once per second: the number of
  requests is at most one more than the seconds left.
\<close>

theorem approval_wait_bounded:
  "\<exists>r w'. wait_for_approval (Some d) base token rid w = Some (r, w') \<and> wd_now w' \<le> max (wd_now w) d
     \<and> second * (int (wd_calls w' - wd_calls w) - 1) \<le> max 0 (d - wd_now w)"
  using wait_for_approval_returns [of d base token rid w] wait_for_approval_time by blast

definition approved_body :: string where
  "approved_body = concat [[CHR ''{'', CHR 0x22], ''approval_id'', [CHR 0x22, CHR '':'', CHR 0x22], sample_uuid,
     [CHR 0x22, CHR '','', CHR 0x22], ''request_id'', [CHR 0x22, CHR '':'', CHR 0x22], ''r1'',
     [CHR 0x22, CHR '','', CHR 0x22], ''status'', [CHR 0x22, CHR '':'', CHR 0x22], ''approved'',
     [CHR 0x22, CHR '','', CHR 0x22], ''expires_at'', [CHR 0x22, CHR '':'', CHR 0x22], ''2000-03-01T01:00:00Z'',
     [CHR 0x22], ''}'']"

definition approving_world :: world where
  "approving_world = \<lparr>wd_now = 0, wd_calls = 0, wd_reply = (\<lambda>_. Reply 5 200 (Inr approved_body)), wd_sent = [],
     wd_allow_insecure = False, wd_draws = 0, wd_random = (\<lambda>_. None)\<rparr>"

text \<open>
  C19. Only an approval permits the retry: \<open>WaitForApproval\<close> succeeds only if the last answer it
  read was a 200 whose body decodes strictly, without duplicate keys, to a validated status for this
  very request id, with status \<open>approved\<close>.
\<close>

theorem wait_succeeds_only_approved:
  assumes "wait_for_approval c base token rid w = Some (Inr (), w')"
  shows "\<exists>i lat rd ap. wd_calls w \<le> i \<and> wd_calls w' = Suc i \<and> wd_reply w i = Reply lat 200 rd
    \<and> decode_approval_status rid rd = Inr ap \<and> ap_request_id ap = rid \<and> ap_status ap = ''approved''"
proof -
  have "ap_request_id ap = rid" if "decode_approval_status rid rd = Inr ap" for rd ap
    using that by (auto simp: decode_approval_status_def decode_response_def dest: validate_approval_ok)
  with wait_for_approval_granted [OF assms] show ?thesis unfolding granted_def by blast
qed

lemma wait_succeeds_only_approved_witness:
  "\<exists>w'. wait_for_approval (Some 100) ''https://x.io'' ''t'' ''r1'' approving_world = Some (Inr (), w')
     \<and> wd_calls w' = 1"
proof -
  define res where "res = wait_for_approval (Some 100) ''https://x.io'' ''t'' ''r1'' approving_world"
  have "map_option (\<lambda>(r, w'). (r, wd_calls w')) res = Some (Inr (), 1)"
    unfolding res_def by (subst wait_for_approval.simps) code_simp
  then obtain w' where w': "res = Some (Inr (), w')" "wd_calls w' = 1" by auto
  from wait_succeeds_only_approved [OF w'(1) [unfolded res_def]] w' show ?thesis by (auto simp: res_def)
qed

end
