(* ===== verification/Go_Http.thy ===== *)
theory Go_Http
  imports Go_Net Go_Json
begin

text \<open>
  What the modelled code uses of \<open>net/http\<close>, \<open>mime\<close> and \<open>encoding/base64\<close>: header maps with
  canonical names, media types, escaped paths, query strings, standard base64. Lemmas: reading a
  header after setting or deleting one.
\<close>

section \<open>Headers\<close>

definition token_char :: "char \<Rightarrow> bool" where
  "token_char c \<longleftrightarrow> is_alnum c \<or> c \<in> set (CHR 0x27 # ''!#$%&*+-.^_`|~'')"

fun canonical_loop :: "bool \<Rightarrow> string \<Rightarrow> string" where
  "canonical_loop up [] = []"
| "canonical_loop up (c # s) =
     (if up then upper_char c else lower_char c) # canonical_loop (c = CHR ''-'') s"

text \<open>\<open>http.CanonicalHeaderKey\<close>: names with a character outside RFC 7230 tokens are left alone.\<close>

definition canonical_header :: "string \<Rightarrow> string" where
  "canonical_header k = (if list_all token_char k then canonical_loop True k else k)"

text \<open>A header: canonical names with their list of values.\<close>

type_synonym header = "(string \<times> string list) list"

definition header_get :: "header \<Rightarrow> string \<Rightarrow> string" where
  "header_get h k = (case map_of h (canonical_header k) of Some (v # _) \<Rightarrow> v | _ \<Rightarrow> [])"

definition header_set :: "string \<Rightarrow> string \<Rightarrow> header \<Rightarrow> header" where
  "header_set k v h = assoc_set (canonical_header k) [v] h"

definition header_del :: "string \<Rightarrow> header \<Rightarrow> header" where
  "header_del k h = filter (\<lambda>(k', _). k' \<noteq> canonical_header k) h"

lemma map_of_assoc_set: "map_of (assoc_set k v m) k' = (if k' = k then Some v else map_of m k')"
  by (induction k v m rule: assoc_set.induct) auto

lemma map_of_header_del:
  "map_of (header_del k h) k' = (if k' = canonical_header k then None else map_of h k')"
  by (induction h) (auto simp: header_del_def)

lemma header_get_set [simp]:
  "header_get (header_set k v h) k' = (if canonical_header k' = canonical_header k then v else header_get h k')"
  by (simp add: header_get_def header_set_def map_of_assoc_set)

lemma header_get_del [simp]:
  "header_get (header_del k h) k' = (if canonical_header k' = canonical_header k then [] else header_get h k')"
  by (simp add: header_get_def map_of_header_del)

section \<open>Media types\<close>

text \<open>The token characters of \<open>mime\<close>: printable ASCII but for its tspecials.\<close>

definition mime_token_char :: "char \<Rightarrow> bool" where
  "mime_token_char c \<longleftrightarrow> 32 < byte c \<and> byte c < 127 \<and> c \<notin> set (CHR 0x22 # CHR 0x5C # ''()<>@,;:/[]?='')"

definition is_tspecial :: "char \<Rightarrow> bool" where
  "is_tspecial c \<longleftrightarrow> c \<in> set (CHR 0x22 # CHR 0x5C # ''()<>@,;:/[]?='')"

definition consume_token :: "string \<Rightarrow> string \<times> string" where
  "consume_token s = (takeWhile mime_token_char s, dropWhile mime_token_char s)"

fun quoted_value :: "string \<Rightarrow> string \<Rightarrow> (string \<times> string) option" where
  "quoted_value acc [] = None"
| "quoted_value acc (c # s) =
     (if c = CHR 0x22 then Some (acc, s)
      else if c = CHR 0x5C \<and> s \<noteq> [] \<and> is_tspecial (hd s) then
        (case s of [] \<Rightarrow> None | e # s' \<Rightarrow> quoted_value (acc @ [e]) s')
      else if c = CHR 0x0D \<or> c = CHR 0x0A then None
      else quoted_value (acc @ [c]) s)"

text \<open>\<open>consumeValue\<close>: value and rest; an error is the empty value with the whole input as rest.\<close>

definition consume_value :: "string \<Rightarrow> string \<times> string" where
  "consume_value v =
     (case v of [] \<Rightarrow> ([], [])
      | c # s \<Rightarrow> if c \<noteq> CHR 0x22 then consume_token v
          else (case quoted_value [] s of Some r \<Rightarrow> r | None \<Rightarrow> ([], v)))"

definition trim_left :: "string \<Rightarrow> string" where
  "trim_left s = trim_left_of go_spaces s"

text \<open>\<open>consumeMediaParam\<close>: \<open>None\<close> where the source returns an empty name.\<close>

definition media_param :: "string \<Rightarrow> (string \<times> string \<times> string) option" where
  "media_param v =
     (case trim_left v of
        c # r0 \<Rightarrow>
          if c \<noteq> CHR '';'' then None
          else (case consume_token (trim_left r0) of (name, r1) \<Rightarrow>
            if name = [] then None
            else (case trim_left r1 of
                    e # r2 \<Rightarrow>
                      if e \<noteq> CHR ''='' then None
                      else (let r3 = trim_left r2 in
                            case consume_value r3 of (value, r4) \<Rightarrow>
                              if value = [] \<and> r4 = r3 then None else Some (to_lower name, value, r4))
                  | [] \<Rightarrow> None))
      | [] \<Rightarrow> None)"

lemma length_trim_left: "length (trim_left s) \<le> length s"
  by (simp add: trim_left_def length_trim_left_of)

lemma length_quoted_value: "quoted_value acc s = Some (x, r) \<Longrightarrow> length r < length s"
  by (induction acc s rule: quoted_value.induct) (auto split: if_splits list.splits intro: less_SucI)

lemma length_consume_value: "consume_value s = (x, r) \<Longrightarrow> length r \<le> length s"
  by (auto simp: consume_value_def consume_token_def length_dropWhile_le le_SucI
      dest: length_quoted_value split: list.splits if_splits option.splits)

lemma media_param_length: "media_param v = Some (k, x, r) \<Longrightarrow> length r < length v"
proof -
  assume "media_param v = Some (k, x, r)"
  then obtain r0 e r2 where v: "trim_left v = CHR '';'' # r0"
    and r2: "trim_left (dropWhile mime_token_char (trim_left r0)) = e # r2"
    and r: "consume_value (trim_left r2) = (x, r)"
    by (auto simp: media_param_def consume_token_def Let_def split: list.splits if_splits prod.splits)
  have "length r \<le> length (trim_left r2)" by (rule length_consume_value [OF r])
  also have "\<dots> \<le> length (trim_left (dropWhile mime_token_char (trim_left r0)))"
    using length_trim_left [of r2] by (simp add: r2)
  also have "\<dots> \<le> length (trim_left r0)"
    by (rule le_trans [OF length_trim_left length_dropWhile_le])
  also have "\<dots> \<le> length r0" by (rule length_trim_left)
  also have "\<dots> < length (trim_left v)" by (simp add: v)
  also have "\<dots> \<le> length v" by (rule length_trim_left)
  finally show ?thesis .
qed

text \<open>
  The parameter loop of \<open>mime.ParseMediaType\<close>: a name may repeat only with the same value. The
  first argument is fuel; a parameter consumes a byte, so one more than the length is enough.
\<close>

fun media_params :: "nat \<Rightarrow> (string \<times> string) list \<Rightarrow> string \<Rightarrow> bool" where
  "media_params 0 seen v = False"
| "media_params (Suc n) seen v =
     (if trim_left v = [] then True
      else case media_param (trim_left v) of
        None \<Rightarrow> trim_space (trim_left v) = '';''
      | Some (k, x, r) \<Rightarrow>
          (case map_of seen k of
             Some x' \<Rightarrow> x' = x \<and> media_params n seen r
           | None \<Rightarrow> media_params n ((k, x) # seen) r))"

lemma media_params_fuel:
  "length v < n \<Longrightarrow> length v < m \<Longrightarrow> media_params n seen v = media_params m seen v"
proof (induction n arbitrary: m seen v)
  case (Suc n)
  then obtain m' where m: "m = Suc m'" by (cases m) auto
  have rest: "media_params n seen' r = media_params m' seen' r"
    if "media_param (trim_left v) = Some (k, x, r)" for k x r seen'
    using media_param_length [OF that] length_trim_left [of v] Suc.prems m by (intro Suc.IH) auto
  show ?case
  proof (cases "media_param (trim_left v)")
    case None
    then show ?thesis by (simp add: m)
  next
    case (Some p)
    obtain k x r where p: "p = (k, x, r)" by (cases p)
    from Some rest [of k x r] show ?thesis by (simp add: m p split: option.split)
  qed
qed simp

text \<open>\<open>mime.ParseMediaType\<close>: the type in lower case, \<open>None\<close> for its errors.\<close>

definition parse_media_type :: "string \<Rightarrow> string option" where
  "parse_media_type v =
     (case cut_at (CHR '';'') v of (base, _, _) \<Rightarrow>
        let media = trim_space (to_lower base) in
        case consume_token media of (typ, rest) \<Rightarrow>
          if typ = [] then None
          else if rest \<noteq> [] \<and> (hd rest \<noteq> CHR ''/'' \<or> tl rest = [] \<or> \<not> list_all mime_token_char (tl rest)) then None
          else if media_params (Suc (length v)) [] (drop (length base) v) then Some media else None)"

section \<open>Escaped paths and query strings\<close>

definition path_plain :: "char \<Rightarrow> bool" where
  "path_plain c \<longleftrightarrow> is_alnum c \<or> c \<in> set ''-_.~$&+,/:;=@''"

definition path_valid_char :: "char \<Rightarrow> bool" where
  "path_valid_char c \<longleftrightarrow> path_plain c \<or> c \<in> set (CHR 0x27 # ''!()*[]%'')"

definition escape_path :: "string \<Rightarrow> string" where
  "escape_path s = concat (map (\<lambda>c. if path_plain c then [c]
     else [CHR ''%'', hex_upper (byte c div 16), hex_upper (byte c mod 16)]) s)"

text \<open>\<open>URL.EscapedPath\<close>\<close>

definition escaped_path :: "url \<Rightarrow> string" where
  "escaped_path u =
     (if u_raw_path u \<noteq> [] \<and> list_all path_valid_char (u_raw_path u) \<and> unescape (u_raw_path u) = Some (u_path u)
      then u_raw_path u
      else if u_path u = ''*'' then ''*'' else escape_path (u_path u))"

definition query_unescape :: "string \<Rightarrow> string option" where
  "query_unescape s = unescape (map (\<lambda>c. if c = CHR ''+'' then CHR 0x20 else c) s)"

text \<open>\<open>URL.Query\<close>: malformed pairs are dropped, values of one key are collected in order.\<close>

definition add_pair :: "(string \<times> string list) list \<Rightarrow> string \<Rightarrow> (string \<times> string list) list" where
  "add_pair m part =
     (if part = [] \<or> CHR '';'' \<in> set part then m
      else case cut_at (CHR ''='') part of (k, v, _) \<Rightarrow>
        (case (query_unescape k, query_unescape v) of
           (Some k', Some v') \<Rightarrow> assoc_set k' ((case map_of m k' of Some vs \<Rightarrow> vs | None \<Rightarrow> []) @ [v']) m
         | _ \<Rightarrow> m))"

definition parse_query :: "string \<Rightarrow> (string \<times> string list) list" where
  "parse_query q = foldl add_pair [] (split_on (CHR ''&'') q)"

section \<open>Base64\<close>

definition b64_val :: "char \<Rightarrow> nat option" where
  "b64_val c = (if is_upper c then Some (byte c - 65) else if is_lower c then Some (byte c - 71)
     else if is_digit c then Some (byte c + 4) else if c = CHR ''+'' then Some 62
     else if c = CHR ''/'' then Some 63 else None)"

fun b64_groups :: "nat list \<Rightarrow> string" where
  "b64_groups (a # b # c # d # r) =
     char_of (a * 4 + b div 16) # char_of (b mod 16 * 16 + c div 4) # char_of (c mod 4 * 64 + d) # b64_groups r"
| "b64_groups [a, b, c] = [char_of (a * 4 + b div 16), char_of (b mod 16 * 16 + c div 4)]"
| "b64_groups [a, b] = [char_of (a * 4 + b div 16)]"
| "b64_groups _ = []"

text \<open>\<open>base64.StdEncoding.DecodeString\<close>: line breaks are skipped, padding is required.\<close>

definition b64_decode :: "string \<Rightarrow> string option" where
  "b64_decode s0 =
     (let s = filter (\<lambda>c. c \<noteq> CHR 0x0A \<and> c \<noteq> CHR 0x0D) s0;
          ds = takeWhile (\<lambda>c. c \<noteq> CHR ''='') s; pad = dropWhile (\<lambda>c. c \<noteq> CHR ''='') s
      in if length s mod 4 = 0 \<and> list_all (\<lambda>c. b64_val c \<noteq> None) ds
            \<and> (pad = [] \<or> pad = ''='' \<or> pad = ''=='')
         then Some (b64_groups (map (\<lambda>c. the (b64_val c)) ds)) else None)"

end
