(* ===== verification/Flow.thy ===== *)
theory Flow
  imports Go_Http Runtime_Client
begin

text \<open>
  \<^verbatim>\<open>internal/node/dataplane\<close>: the intercepted request as a flow (\<^verbatim>\<open>dataplane.go\<close>), the
  metadata promoted from its JSON body and the token injected into it (\<^verbatim>\<open>toolmeta.go\<close>), the
  response written back to the client (\<^verbatim>\<open>http.go\<close>), and what forwarding does to the
  request (\<^verbatim>\<open>internal/node/proxy/proxy.go\<close>). Lemmas: metadata is only taken from one valid JSON
  value without repeated keys and the body still goes upstream byte for byte; an MCP action names
  what it routes on; a token is injected at its place and nothing else of the message changes; only
  the listed provider headers reach the client; proxy credentials never go upstream.
\<close>

section \<open>The request and the flow\<close>

record http_in =
  hi_method :: string
  hi_url :: url
  hi_host :: string
  hi_header :: header
  hi_body :: "reader option"
  hi_content_length :: int
  hi_transfer_encoding :: "string list"
  hi_close :: bool

record mcp_action =
  ma_action_type :: string
  ma_action_name :: string
  ma_resource_type :: string
  ma_routing_key_type :: string
  ma_routing_value :: string
  ma_parameters :: "(string \<times> any) list option"

record flow =
  fl_orig_dst :: string
  fl_src_pid :: int
  fl_session_id :: string
  fl_svid :: string
  fl_tool_call :: string
  fl_tool_params :: string
  fl_metadata_error :: string
  fl_mcp_method :: string
  fl_mcp_request_id :: string
  fl_mcp_params :: string
  fl_mcp_action :: "mcp_action option"
  fl_routes :: "runtime_routes option"
  fl_req :: "http_in option"
  fl_dst :: string
  fl_upstream_tls :: bool
  fl_dst_host :: string

definition zero_flow :: flow where
  "zero_flow = \<lparr>fl_orig_dst = ''invalid AddrPort'', fl_src_pid = 0, fl_session_id = [], fl_svid = [],
     fl_tool_call = [], fl_tool_params = [], fl_metadata_error = [], fl_mcp_method = [],
     fl_mcp_request_id = [], fl_mcp_params = [], fl_mcp_action = None, fl_routes = None,
     fl_req = None, fl_dst = [], fl_upstream_tls = False, fl_dst_host = []\<rparr>"

definition dst_string :: "flow \<Rightarrow> string" where
  "dst_string f = (if fl_dst f \<noteq> [] then fl_dst f else fl_orig_dst f)"

definition dst_host :: "flow \<Rightarrow> string" where
  "dst_host f =
     (if fl_dst_host f \<noteq> [] then fl_dst_host f
      else case split_host_port (dst_string f) of Some (host, _) \<Rightarrow> host | None \<Rightarrow> dst_string f)"

text \<open>\<open>fmt.Sscanf(s, "%d")\<close>: blanks, a sign, and the digits that follow; the rest is ignored.\<close>

definition scan_int :: "string \<Rightarrow> int option" where
  "scan_int s0 =
     (let s = dropWhile (\<lambda>c. c = CHR 0x20 \<or> c = CHR 0x09) s0;
          sg = (if s \<noteq> [] \<and> (hd s = CHR ''-'' \<or> hd s = CHR ''+'') then [hd s] else []);
          ds = takeWhile is_digit (drop (length sg) s)
      in atoi (sg @ ds))"

definition dst_port :: "flow \<Rightarrow> int" where
  "dst_port f =
     (let fallback = (if fl_upstream_tls f then 443 else 80) in
      case split_host_port (dst_string f) of
        Some (_, port_text) \<Rightarrow> (case scan_int port_text of Some port \<Rightarrow> port | None \<Rightarrow> fallback)
      | None \<Rightarrow> fallback)"

definition flow_scheme :: "flow \<Rightarrow> string" where
  "flow_scheme f = (if fl_upstream_tls f then ''https'' else ''http'')"

definition request_method :: "flow \<Rightarrow> string" where
  "request_method f = (case fl_req f of None \<Rightarrow> [] | Some r \<Rightarrow> hi_method r)"

definition url_request_path :: "url \<Rightarrow> string" where
  "url_request_path u = (if escaped_path u = [] then ''/'' else escaped_path u)"

definition request_path :: "flow \<Rightarrow> string" where
  "request_path f = (case fl_req f of None \<Rightarrow> ''/'' | Some r \<Rightarrow> url_request_path (hi_url r))"

definition request_query :: "flow \<Rightarrow> (string \<times> string list) list" where
  "request_query f = (case fl_req f of None \<Rightarrow> [] | Some r \<Rightarrow> parse_query (u_raw_query (hi_url r)))"

section \<open>Request metadata\<close>

definition max_tool_params_bytes :: int where
  "max_tool_params_bytes = 1048576"

definition is_json_content_type :: "string \<Rightarrow> bool" where
  "is_json_content_type value \<longleftrightarrow>
     (value \<noteq> [] \<and> (case parse_media_type value of None \<Rightarrow> False
        | Some m \<Rightarrow> m = ''application/json'' \<or> has_suffix m ''+json''))"

text \<open>The JSON-RPC envelope of \<open>applyMCPToolMetadata\<close>.\<close>

record rpc_envelope =
  re_jsonrpc :: string
  re_id :: string
  re_method :: string
  re_params :: string

definition zero_rpc :: rpc_envelope where
  "zero_rpc = \<lparr>re_jsonrpc = [], re_id = [], re_method = [], re_params = []\<rparr>"

definition decode_rpc :: "json \<Rightarrow> rpc_envelope \<Rightarrow> rpc_envelope result" where
  "decode_rpc = decode_struct False
     [(''jsonrpc'', dec_string (\<lambda>v r. r\<lparr>re_jsonrpc := v\<rparr>)),
      (''id'', dec_raw (\<lambda>v r. r\<lparr>re_id := v\<rparr>)),
      (''method'', dec_string (\<lambda>v r. r\<lparr>re_method := v\<rparr>)),
      (''params'', dec_raw (\<lambda>v r. r\<lparr>re_params := v\<rparr>))]"

text \<open>\<open>json.Decoder.Decode\<close>: the first value of the input.\<close>

definition decode_first :: "(json \<Rightarrow> 'r \<Rightarrow> 'r result) \<Rightarrow> 'r \<Rightarrow> string \<Rightarrow> 'r option" where
  "decode_first dec zero raw =
     (case parse_first raw of None \<Rightarrow> None
      | Some (j, _) \<Rightarrow> (case dec j zero of Inl _ \<Rightarrow> None | Inr r \<Rightarrow> Some r))"

record call_params =
  cp_name :: string
  cp_arguments :: "(string \<times> any) list option"

text \<open>A \<open>map[string]any\<close> field: members of the object are put over those already there.\<close>

fun dec_any_map ::
  "((string \<times> any) list option \<Rightarrow> 'r \<Rightarrow> 'r) \<Rightarrow> ('r \<Rightarrow> (string \<times> any) list option) \<Rightarrow> json \<Rightarrow> 'r \<Rightarrow> 'r result"
where
  "dec_any_map upd sel (JObj _ ms) r =
     Inr (upd (Some (fold (\<lambda>(k, j) m. assoc_set k (to_any j) m) ms
       (case sel r of None \<Rightarrow> [] | Some m \<Rightarrow> m))) r)"
| "dec_any_map upd sel JNull r = Inr (upd None r)"
| "dec_any_map upd sel _ r = Inl ''json: cannot unmarshal into Go value of type map''"

definition decode_call_params :: "json \<Rightarrow> call_params \<Rightarrow> call_params result" where
  "decode_call_params = decode_struct False
     [(''name'', dec_string (\<lambda>v r. r\<lparr>cp_name := v\<rparr>)),
      (''arguments'', dec_any_map (\<lambda>v r. r\<lparr>cp_arguments := v\<rparr>) cp_arguments)]"

definition apply_mcp_tool_call :: "flow \<Rightarrow> string \<Rightarrow> flow \<times> bool" where
  "apply_mcp_tool_call f raw =
     (case decode_first decode_call_params \<lparr>cp_name = [], cp_arguments = None\<rparr> raw of
        None \<Rightarrow> (f, False)
      | Some params \<Rightarrow>
          if cp_name params = [] then (f, False)
          else
            (let name = cp_name params;
                 arguments = (case cp_arguments params of None \<Rightarrow> [] | Some m \<Rightarrow> m)
             in (f\<lparr>fl_tool_call := name, fl_tool_params := marshal (AObj arguments),
                   fl_mcp_action := Some
                     \<lparr>ma_action_type = ''mcp.tool.call'', ma_action_name = name,
                      ma_resource_type = ''mcp.tool'', ma_routing_key_type = ''mcp.tool_name'',
                      ma_routing_value = name, ma_parameters = Some arguments\<rparr>\<rparr>, True)))"

definition decode_uri_param :: "json \<Rightarrow> string \<Rightarrow> string result" where
  "decode_uri_param = decode_struct False [(''uri'', dec_string (\<lambda>v _. v))]"

definition apply_mcp_resource_read :: "flow \<Rightarrow> string \<Rightarrow> flow \<times> bool" where
  "apply_mcp_resource_read f raw =
     (case parse_json raw of
        None \<Rightarrow> (f, False)
      | Some j \<Rightarrow>
          (case decode_uri_param j [] of
             Inl _ \<Rightarrow> (f, False)
           | Inr uri \<Rightarrow>
               if uri = [] then (f, False)
               else
                 (let parameters = [(''uri'', AStr uri)] in
                  (f\<lparr>fl_tool_call := uri, fl_tool_params := marshal (AObj parameters),
                     fl_mcp_action := Some
                       \<lparr>ma_action_type = ''mcp.resource.read'', ma_action_name = uri,
                        ma_resource_type = ''mcp.resource'', ma_routing_key_type = ''mcp.resource_uri'',
                        ma_routing_value = uri, ma_parameters = Some parameters\<rparr>\<rparr>, True))))"

definition apply_mcp_tool_metadata :: "flow \<Rightarrow> string \<Rightarrow> flow" where
  "apply_mcp_tool_metadata f body =
     (case decode_first decode_rpc zero_rpc body of
        None \<Rightarrow> f
      | Some rpc \<Rightarrow>
          if re_jsonrpc rpc \<noteq> ''2.0'' \<or> re_method rpc = [] then f
          else
            (let f1 = f\<lparr>fl_mcp_method := re_method rpc\<rparr> in
             if re_method rpc = ''tools/call'' then
               (case apply_mcp_tool_call f1 (re_params rpc) of
                  (f2, ok) \<Rightarrow> if ok then f2\<lparr>fl_mcp_request_id := re_id rpc\<rparr> else f2)
             else if re_method rpc = ''resources/read'' then
               (case apply_mcp_resource_read f1 (re_params rpc) of
                  (f2, ok) \<Rightarrow> if ok then f2\<lparr>fl_mcp_request_id := re_id rpc\<rparr> else f2)
             else if is_mcp_session_method (re_method rpc) then
               f1\<lparr>fl_mcp_request_id := re_id rpc, fl_mcp_params := re_params rpc\<rparr>
             else f1))"

text \<open>
  \<open>applyRequestMetadata\<close>: the flow, the request with its body restored, and the error text
  (\<open>[]\<close> for nil). A body that cannot be read leaves the bytes read before the error, here none.
\<close>

definition apply_request_metadata :: "flow \<Rightarrow> http_in \<Rightarrow> flow \<times> http_in \<times> string" where
  "apply_request_metadata f0 req =
     (let f = f0\<lparr>fl_tool_call := hi_method req @ '' '' @ url_request_path (hi_url req)\<rparr> in
      case hi_body req of
        None \<Rightarrow> (f, req, [])
      | Some rd \<Rightarrow>
          if \<not> is_json_content_type (header_get (hi_header req) ''Content-Type'') then (f, req, [])
          else
            (case rd of
               Inl e \<Rightarrow> (f, req\<lparr>hi_body := Some (Inr [])\<rparr>, ''read tool params: '' @ e)
             | Inr body \<Rightarrow>
                 if max_tool_params_bytes < int (length body)
                 then (f, req\<lparr>hi_body := Some (Inr (take_int (max_tool_params_bytes + 1) body))\<rparr>,
                       ''tool params exceed 1048576 bytes'')
                 else
                   (let req1 = req\<lparr>hi_body := Some (Inr body)\<rparr> in
                    if trim_space body = [] then (f, req1, [])
                    else if \<not> json_valid body then (f, req1, ''tool params are not valid JSON'')
                    else (case reject_duplicate_json_keys body of
                            Inl e \<Rightarrow> (f, req1, ''tool params contain ambiguous JSON: '' @ e)
                          | Inr _ \<Rightarrow> (apply_mcp_tool_metadata (f\<lparr>fl_tool_params := body\<rparr>) body, req1, [])))))"

section \<open>Token injection\<close>

definition token_key :: string where
  "token_key = ''keydris/kit_action_token''"

text \<open>The envelope with the token at \<open>params._meta\<close>.\<close>

definition with_token :: "string \<Rightarrow> any \<Rightarrow> any result" where
  "with_token token envelope =
     (case envelope of
        AObj ms \<Rightarrow>
          (case map_of ms ''params'' of
             Some (AObj ps) \<Rightarrow>
               (case (case map_of ps ''_meta'' of None \<Rightarrow> AObj [] | Some m \<Rightarrow> m) of
                  AObj meta \<Rightarrow>
                    Inr (AObj (assoc_set ''params''
                      (AObj (assoc_set ''_meta'' (AObj (assoc_set token_key (AStr token) meta)) ps)) ms))
                | _ \<Rightarrow> Inl ''MCP request _meta must be an object'')
           | _ \<Rightarrow> Inl ''MCP request params must be an object'')
      | ANull \<Rightarrow> Inl ''MCP request params must be an object''
      | _ \<Rightarrow> Inl ''decode MCP request for token injection'')"

definition inject_mcp_action_token :: "http_in \<Rightarrow> string \<Rightarrow> http_in result" where
  "inject_mcp_action_token req token =
     (if token = [] then Inl ''cannot inject KIT action token into this request''
      else case hi_body req of
        None \<Rightarrow> Inl ''cannot inject KIT action token into this request''
      | Some (Inl e) \<Rightarrow> Inl (''read MCP request for token injection: '' @ e)
      | Some (Inr body) \<Rightarrow>
          if max_tool_params_bytes < int (length body) then Inl ''MCP request exceeds 1048576 bytes''
          else
            bind_result (wrap_error ''MCP request contains ambiguous JSON: '' (reject_duplicate_json_keys body)) (\<lambda>_.
            bind_result (case parse_first body of None \<Rightarrow> Inl ''decode MCP request for token injection''
                         | Some (j, _) \<Rightarrow> Inr (to_any j)) (\<lambda>envelope.
            bind_result (with_token token envelope) (\<lambda>updated.
              let out = marshal updated in
              Inr (req\<lparr>hi_body := Some (Inr out), hi_content_length := int (length out),
                hi_transfer_encoding := [],
                hi_header := header_del ''Transfer-Encoding''
                  (header_set ''Content-Length'' (itoa (int (length out))) (hi_header req))\<rparr>)))))"

section \<open>Forwarding and answering\<close>

text \<open>
  What is written to the client and to the upstream. \<open>Forwarded\<close> carries the request as sent and
  the dial target; whether the upstream answers is outside the model.
\<close>

record credential =
  cr_type :: string
  cr_name :: string
  cr_value :: string

record provider_answer =
  pa_status :: int
  pa_header :: header
  pa_body :: string

definition prepare_origin_request :: "http_in \<Rightarrow> http_in" where
  "prepare_origin_request r =
     r\<lparr>hi_header := header_del ''Proxy-Connection'' (header_del ''Proxy-Authorization'' (hi_header r))\<rparr>"

text \<open>\<open>InjectAndForwardOne\<close> and its TLS twin, up to the write of the request.\<close>

definition outgoing_request :: "http_in \<Rightarrow> credential \<Rightarrow> http_in" where
  "outgoing_request r c =
     (let r1 = prepare_origin_request r;
          r2 = (if cr_type c = ''header'' \<and> cr_name c \<noteq> []
                then r1\<lparr>hi_header := header_set (cr_name c) (cr_value c) (hi_header r1)\<rparr> else r1)
      in r2\<lparr>hi_close := True, hi_header := header_set ''Connection'' ''close'' (hi_header r2)\<rparr>)"

definition no_credential :: credential where
  "no_credential = \<lparr>cr_type = [], cr_name = [], cr_value = []\<rparr>"

definition header_token :: "string \<Rightarrow> string \<Rightarrow> bool" where
  "header_token value tok \<longleftrightarrow> (\<exists>part\<in>set (split_on (CHR '','') value). equal_fold (trim_space part) tok)"

text \<open>The metered twin keeps the connection headers of a WebSocket upgrade.\<close>

definition tapped_request :: "http_in \<Rightarrow> http_in" where
  "tapped_request r0 =
     (let r = prepare_origin_request r0;
          upgrade = equal_fold (header_get (hi_header r) ''Upgrade'') ''websocket''
            \<and> header_token (header_get (hi_header r) ''Connection'') ''upgrade''
      in if upgrade then r
         else r\<lparr>hi_close := True, hi_header := header_set ''Connection'' ''close'' (hi_header r)\<rparr>)"

definition relayed_headers :: "string list" where
  "relayed_headers = [''Content-Type'', ''Etag'', ''Last-Modified'', ''Link'', ''Location'', ''Retry-After'',
     ''X-Github-Api-Version-Selected'', ''X-Github-Request-Id'', ''X-Ratelimit-Limit'',
     ''X-Ratelimit-Remaining'', ''X-Ratelimit-Reset'', ''X-Ratelimit-Resource'', ''X-Ratelimit-Used'',
     ''X-Slack-Req-Id'']"

definition keep_header :: "string \<times> string \<Rightarrow> header \<Rightarrow> header" where
  "keep_header nv h =
     (if canonical_header (fst nv) \<in> set relayed_headers then header_set (fst nv) (snd nv) h else h)"

text \<open>\<open>writeProviderResponse\<close>; the header map is walked in the order it is held.\<close>

definition write_provider_response :: "provider_http_response \<Rightarrow> provider_answer" where
  "write_provider_response p =
     \<lparr>pa_status = pr_status p, pa_header = fold keep_header (pr_headers p) [],
      pa_body = (if pr_body p = [] then ''null'' else pr_body p)\<rparr>"

text \<open>\<open>WriteReject\<close>: the bytes of the synthetic 403.\<close>

definition crlf :: string where
  "crlf = [CHR 0x0D, CHR 0x0A]"

definition reject_body :: "string \<Rightarrow> string" where
  "reject_body reason =
     ''keydris: '' @ (if reason = [] then ''denied by keydris policy'' else reason) @ [CHR 0x0A]"

definition write_reject :: "string \<Rightarrow> string" where
  "write_reject reason =
     ''HTTP/1.1 403 Forbidden'' @ crlf @ ''Content-Type: text/plain'' @ crlf @ ''Content-Length: ''
     @ itoa (int (length (reject_body reason))) @ crlf @ ''Connection: close'' @ crlf @ crlf @ reject_body reason"

section \<open>Where metadata comes from\<close>

lemma tool_call_frame:
  "apply_mcp_tool_call f raw = (f', ok) \<Longrightarrow> fl_mcp_method f' = fl_mcp_method f \<and> fl_metadata_error f' = fl_metadata_error f
     \<and> fl_req f' = fl_req f \<and> fl_routes f' = fl_routes f \<and> fl_mcp_request_id f' = fl_mcp_request_id f"
  by (auto simp: apply_mcp_tool_call_def Let_def split: option.splits if_splits)

lemma resource_read_frame:
  "apply_mcp_resource_read f raw = (f', ok) \<Longrightarrow> fl_mcp_method f' = fl_mcp_method f \<and> fl_metadata_error f' = fl_metadata_error f
     \<and> fl_req f' = fl_req f \<and> fl_routes f' = fl_routes f \<and> fl_mcp_request_id f' = fl_mcp_request_id f"
  by (auto simp: apply_mcp_resource_read_def Let_def split: option.splits sum.splits if_splits)

text \<open>An action names what it is routed on, and the tool parameters are the marshalled parameters.\<close>

definition action_ok :: "string \<Rightarrow> flow \<Rightarrow> mcp_action \<Rightarrow> bool" where
  "action_ok m f a \<longleftrightarrow> ma_action_name a \<noteq> [] \<and> ma_routing_value a = ma_action_name a
     \<and> fl_tool_call f = ma_action_name a \<and> fl_tool_params f = marshal_any_map (ma_parameters a)
     \<and> (m = ''tools/call'' \<and> ma_action_type a = ''mcp.tool.call'' \<and> ma_resource_type a = ''mcp.tool''
          \<and> ma_routing_key_type a = ''mcp.tool_name''
      \<or> m = ''resources/read'' \<and> ma_action_type a = ''mcp.resource.read'' \<and> ma_resource_type a = ''mcp.resource''
          \<and> ma_routing_key_type a = ''mcp.resource_uri'' \<and> ma_parameters a = Some [(''uri'', AStr (ma_action_name a))])"

lemma tool_call_action:
  "apply_mcp_tool_call f raw = (f', ok) \<Longrightarrow> fl_mcp_method f = ''tools/call'' \<Longrightarrow>
     (if ok then fl_mcp_action f' \<noteq> None \<and> action_ok ''tools/call'' f' (the (fl_mcp_action f')) else f' = f)"
  by (auto simp: apply_mcp_tool_call_def action_ok_def marshal_any_map_def Let_def split: option.splits if_splits)

lemma resource_read_action:
  "apply_mcp_resource_read f raw = (f', ok) \<Longrightarrow> fl_mcp_method f = ''resources/read'' \<Longrightarrow>
     (if ok then fl_mcp_action f' \<noteq> None \<and> action_ok ''resources/read'' f' (the (fl_mcp_action f')) else f' = f)"
  by (auto simp: apply_mcp_resource_read_def action_ok_def marshal_any_map_def Let_def
      split: option.splits sum.splits if_splits simp del: marshal.simps)

lemma action_ok_request_id [simp]: "action_ok m (f\<lparr>fl_mcp_request_id := i\<rparr>) a = action_ok m f a"
  by (simp add: action_ok_def)

lemma tool_metadata_action:
  assumes none: "fl_mcp_action f = None" and some: "fl_mcp_action (apply_mcp_tool_metadata f body) = Some a"
  shows "action_ok (fl_mcp_method (apply_mcp_tool_metadata f body)) (apply_mcp_tool_metadata f body) a"
proof -
  from assms obtain rpc where rpc: "decode_first decode_rpc zero_rpc body = Some rpc"
    and ok: "re_jsonrpc rpc = ''2.0''" "re_method rpc \<noteq> []"
    by (auto simp: apply_mcp_tool_metadata_def Let_def split: option.splits if_splits)
  let ?f1 = "f\<lparr>fl_mcp_method := re_method rpc\<rparr>"
  obtain f2 b2 where t: "apply_mcp_tool_call ?f1 (re_params rpc) = (f2, b2)" by (cases "apply_mcp_tool_call ?f1 (re_params rpc)")
  obtain f3 b3 where r: "apply_mcp_resource_read ?f1 (re_params rpc) = (f3, b3)" by (cases "apply_mcp_resource_read ?f1 (re_params rpc)")
  consider "re_method rpc = ''tools/call''" | "re_method rpc = ''resources/read''"
    | "re_method rpc \<noteq> ''tools/call''" "re_method rpc \<noteq> ''resources/read''" by blast
  then show ?thesis
  proof cases
    case 1
    then have "apply_mcp_tool_metadata f body = (if b2 then f2\<lparr>fl_mcp_request_id := re_id rpc\<rparr> else f2)"
      using rpc ok t by (simp add: apply_mcp_tool_metadata_def)
    with tool_call_action [OF t] tool_call_frame [OF t] 1 assms show ?thesis by (auto split: if_splits)
  next
    case 2
    then have "apply_mcp_tool_metadata f body = (if b3 then f3\<lparr>fl_mcp_request_id := re_id rpc\<rparr> else f3)"
      using rpc ok r by (simp add: apply_mcp_tool_metadata_def)
    with resource_read_action [OF r] resource_read_frame [OF r] 2 assms show ?thesis by (auto split: if_splits)
  next
    case 3
    with some none rpc ok show ?thesis by (simp add: apply_mcp_tool_metadata_def Let_def split: if_splits)
  qed
qed

lemma tool_metadata_frame:
  "fl_metadata_error (apply_mcp_tool_metadata f body) = fl_metadata_error f
   \<and> fl_req (apply_mcp_tool_metadata f body) = fl_req f \<and> fl_routes (apply_mcp_tool_metadata f body) = fl_routes f"
  by (auto simp: apply_mcp_tool_metadata_def Let_def split: option.splits prod.splits
      dest: tool_call_frame resource_read_frame)

text \<open>The outcomes of \<open>applyRequestMetadata\<close>.\<close>

lemma request_metadata_cases:
  assumes "apply_request_metadata f req = (f', req', e)"
  obtains (Plain) "f' = f\<lparr>fl_tool_call := hi_method req @ '' '' @ url_request_path (hi_url req)\<rparr>"
  | (Promoted) body j where "hi_body req = Some (Inr body)" and "req' = req" and "e = []"
      and "int (length body) \<le> max_tool_params_bytes" and "parse_json body = Some j" and "no_dup_keys j"
      and "f' = apply_mcp_tool_metadata
        (f\<lparr>fl_tool_call := hi_method req @ '' '' @ url_request_path (hi_url req), fl_tool_params := body\<rparr>) body"
proof -
  have req_same: "hi_body req = Some (Inr body) \<Longrightarrow> req\<lparr>hi_body := Some (Inr body)\<rparr> = req" for body
    by (cases req) simp
  from assms consider "f' = f\<lparr>fl_tool_call := hi_method req @ '' '' @ url_request_path (hi_url req)\<rparr>"
    | body where "hi_body req = Some (Inr body)" "int (length body) \<le> max_tool_params_bytes" "json_valid body"
        "reject_duplicate_json_keys body = Inr ()" "req' = req\<lparr>hi_body := Some (Inr body)\<rparr>" "e = []"
        "f' = apply_mcp_tool_metadata
          (f\<lparr>fl_tool_call := hi_method req @ '' '' @ url_request_path (hi_url req), fl_tool_params := body\<rparr>) body"
    by (fastforce simp: apply_request_metadata_def Let_def split: option.splits sum.splits if_splits)
  then show thesis
  proof cases
    case 1
    then show ?thesis by (rule Plain)
  next
    case (2 body)
    then obtain j where j: "parse_json body = Some j" by (auto simp: json_valid_def)
    with 2 reject_duplicate_json_keys_iff [OF j] req_same show ?thesis by (intro Promoted) auto
  qed
qed

lemma request_metadata_body:
  "apply_request_metadata f req = (f', req', []) \<Longrightarrow> req' = req"
  by (cases req)
    (auto simp: apply_request_metadata_def Let_def split: option.splits sum.splits if_splits)

section \<open>Injection\<close>

fun any_at :: "string list \<Rightarrow> any \<Rightarrow> any option" where
  "any_at [] a = Some a"
| "any_at (k # ks) (AObj m) = (case map_of m k of None \<Rightarrow> None | Some b \<Rightarrow> any_at ks b)"
| "any_at (k # ks) _ = None"

text \<open>\<open>b\<close> is \<open>a\<close> but for what lies at or under the path \<open>p\<close>.\<close>

fun same_beside :: "string list \<Rightarrow> any \<Rightarrow> any \<Rightarrow> bool" where
  "same_beside [] a b \<longleftrightarrow> True"
| "same_beside (k # ks) a b \<longleftrightarrow>
     (\<forall>k' q. k' \<noteq> k \<longrightarrow> any_at (k' # q) b = any_at (k' # q) a) \<and>
     (\<forall>a' b'. any_at [k] a = Some a' \<longrightarrow> any_at [k] b = Some b' \<longrightarrow> same_beside ks a' b')"

lemma with_token_obtain:
  assumes "with_token token env = Inr env'"
  obtains ms ps meta where "env = AObj ms" and "map_of ms ''params'' = Some (AObj ps)"
    and "map_of ps ''_meta'' = None \<and> meta = [] \<or> map_of ps ''_meta'' = Some (AObj meta)"
    and "env' = AObj (assoc_set ''params''
       (AObj (assoc_set ''_meta'' (AObj (assoc_set token_key (AStr token) meta)) ps)) ms)"
  using assms by (auto simp: with_token_def split: any.splits option.splits)

lemma with_token_at: "with_token token env = Inr env' \<Longrightarrow> any_at [''params'', ''_meta'', token_key] env' = Some (AStr token)"
  by (erule with_token_obtain) (auto simp: map_of_assoc_set)

lemma with_token_beside:
  "with_token token env = Inr env' \<Longrightarrow> same_beside [''params'', ''_meta'', token_key] env env'"
  by (erule with_token_obtain) (auto simp: map_of_assoc_set)

lemma inject_obtain:
  assumes "inject_mcp_action_token req token = Inr req'"
  obtains body j env' where "hi_body req = Some (Inr body)" and "parse_json body = Some j" and "no_dup_keys j"
    and "with_token token (to_any j) = Inr env'" and "hi_body req' = Some (Inr (marshal env'))"
    and "hi_content_length req' = int (length (marshal env'))" and "hi_transfer_encoding req' = []"
    and "hi_url req' = hi_url req" and "hi_method req' = hi_method req"
proof -
  from assms obtain body j rest env' where b: "hi_body req = Some (Inr body)"
    and d: "reject_duplicate_json_keys body = Inr ()" and p: "parse_first body = Some (j, rest)"
    and w: "with_token token (to_any j) = Inr env'"
    and r: "req' = req\<lparr>hi_body := Some (Inr (marshal env')), hi_content_length := int (length (marshal env')),
                hi_transfer_encoding := [],
                hi_header := header_del ''Transfer-Encoding''
                  (header_set ''Content-Length'' (itoa (int (length (marshal env')))) (hi_header req))\<rparr>"
    by (auto simp: inject_mcp_action_token_def Let_def split: if_splits option.splits sum.splits)
  from rejected_not_whole [OF p d] b w r show thesis by (intro that [of body j env']) auto
qed

section \<open>Headers on the wire\<close>

lemma set_assoc_set: "fst ` set (assoc_set k v m) = insert k (fst ` set m)"
  by (induction k v m rule: assoc_set.induct) auto

lemma fold_keep_header:
  "fst ` set h \<subseteq> set relayed_headers \<Longrightarrow> fst ` set (fold keep_header hs h) \<subseteq> set relayed_headers"
  by (induction hs arbitrary: h) (auto simp: keep_header_def header_set_def set_assoc_set)

lemma outgoing_header:
  "header_get (hi_header (outgoing_request r c)) k =
     (if canonical_header k = ''Connection'' then ''close''
      else if cr_type c = ''header'' \<and> cr_name c \<noteq> [] \<and> canonical_header k = canonical_header (cr_name c) then cr_value c
      else if canonical_header k = ''Proxy-Connection'' \<or> canonical_header k = ''Proxy-Authorization'' then []
      else header_get (hi_header r) k)"
proof -
  have "canonical_header ''Connection'' = ''Connection''"
    "canonical_header ''Proxy-Connection'' = ''Proxy-Connection''"
    "canonical_header ''Proxy-Authorization'' = ''Proxy-Authorization''" by code_simp+
  then show ?thesis by (simp add: outgoing_request_def prepare_origin_request_def Let_def)
qed

section \<open>Properties\<close>

definition json_q :: "string \<Rightarrow> string" where
  "json_q s = CHR 0x22 # s @ [CHR 0x22]"

definition sample_call :: string where
  "sample_call = ''{'' @ json_q ''jsonrpc'' @ '':'' @ json_q ''2.0'' @ '','' @ json_q ''id'' @ '':1,''
     @ json_q ''method'' @ '':'' @ json_q ''tools/call'' @ '','' @ json_q ''params'' @ '':{''
     @ json_q ''name'' @ '':'' @ json_q ''t'' @ ''}}''"

definition sample_url :: url where
  "sample_url = \<lparr>u_scheme = [], u_opaque = [], u_user = False, u_host = [], u_path = ''/mcp'',
     u_raw_path = ''/mcp'', u_raw_query = [], u_fragment = []\<rparr>"

definition post_json :: "string \<Rightarrow> http_in" where
  "post_json body = \<lparr>hi_method = ''POST'', hi_url = sample_url, hi_host = ''a.io'',
     hi_header = [(''Content-Type'', [''application/json'']), (''Proxy-Authorization'', [''Basic eDp5''])],
     hi_body = Some (Inr body), hi_content_length = int (length body), hi_transfer_encoding = [],
     hi_close = False\<rparr>"

text \<open>
  C23. Reading the metadata of an intercepted request never alters what goes upstream: without an
  error the request, body included, is the one that came in. And an MCP method is only ever taken
  from a body of at most 1 MiB that is a single JSON value in which no object repeats a key;
  anything else leaves the flow without a method or with an error that the router refuses on.
\<close>

theorem request_metadata_sound:
  assumes "apply_request_metadata f req = (f', req', e)" and "fl_mcp_method f' \<noteq> fl_mcp_method f"
  shows "e = [] \<and> req' = req \<and> (\<exists>body j. hi_body req = Some (Inr body) \<and>
      int (length body) \<le> max_tool_params_bytes \<and> parse_json body = Some j \<and> no_dup_keys j)"
  using assms(1)
proof (cases rule: request_metadata_cases)
  case Plain
  with assms(2) show ?thesis by simp
next
  case (Promoted body j)
  then show ?thesis by blast
qed

lemma sample_metadata:
  "(\<lambda>(f, _, _). (fl_mcp_method f, map_option ma_routing_value (fl_mcp_action f))) (apply_request_metadata zero_flow (post_json sample_call))
     = (''tools/call'', Some ''t'')"
  by code_simp

lemma request_metadata_sound_witness:
  "fl_mcp_method (fst (apply_request_metadata zero_flow (post_json sample_call))) = ''tools/call''
   \<and> fst (snd (apply_request_metadata zero_flow (post_json sample_call))) = post_json sample_call"
proof -
  obtain f' req' e where r: "apply_request_metadata zero_flow (post_json sample_call) = (f', req', e)"
    by (cases "apply_request_metadata zero_flow (post_json sample_call)")
  have m: "fl_mcp_method (fst (apply_request_metadata zero_flow (post_json sample_call))) = ''tools/call''"
    using sample_metadata by (simp add: r)
  with r have "fl_mcp_method f' \<noteq> fl_mcp_method zero_flow" by (simp add: zero_flow_def)
  from request_metadata_sound [OF r this] m r show ?thesis by simp
qed

text \<open>
  C22. The governed action read from a request is consistent in itself: it only exists for
  \<open>tools/call\<close> and \<open>resources/read\<close>, with the action type, resource type and routing key of that
  method; it is routed on the very name it reports, which is not empty; and the parameters shown to
  the policy are the marshalled parameters of that action.
\<close>

theorem mcp_action_consistent:
  assumes "apply_request_metadata f req = (f', req', e)" and "fl_mcp_action f = None"
    and "fl_mcp_action f' = Some a"
  shows "action_ok (fl_mcp_method f') f' a"
  using assms(1)
proof (cases rule: request_metadata_cases)
  case Plain
  with assms show ?thesis by simp
next
  case (Promoted body j)
  with assms(2,3) show ?thesis by (simp add: tool_metadata_action)
qed

lemma mcp_action_consistent_witness:
  "ma_routing_value (the (fl_mcp_action (fst (apply_request_metadata zero_flow (post_json sample_call))))) = ''t''
   \<and> action_ok ''tools/call'' (fst (apply_request_metadata zero_flow (post_json sample_call)))
       (the (fl_mcp_action (fst (apply_request_metadata zero_flow (post_json sample_call)))))"
proof -
  let ?r = "apply_request_metadata zero_flow (post_json sample_call)"
  obtain f' req' e where r: "?r = (f', req', e)" by (cases ?r)
  from sample_metadata r obtain a where a: "fl_mcp_action f' = Some a" "ma_routing_value a = ''t''" "fl_mcp_method f' = ''tools/call''"
    by auto
  have "fl_mcp_action zero_flow = None" by (simp add: zero_flow_def)
  from mcp_action_consistent [OF r this a(1)] a r show ?thesis by simp
qed

text \<open>
  C14. Injecting an action token puts it at \<open>params._meta["keydris/kit_action_token"]\<close> of the one
  JSON object the body is, and changes nothing else: every other member, at the top, in
  \<open>params\<close> and in \<open>_meta\<close>, keeps its value. The new body is what is sent, with its length.
\<close>

theorem token_injected_in_place:
  assumes "inject_mcp_action_token req token = Inr req'"
  shows "\<exists>body j env'. hi_body req = Some (Inr body) \<and> parse_json body = Some j \<and> no_dup_keys j
    \<and> hi_body req' = Some (Inr (marshal env')) \<and> hi_content_length req' = int (length (marshal env'))
    \<and> any_at [''params'', ''_meta'', token_key] env' = Some (AStr token)
    \<and> same_beside [''params'', ''_meta'', token_key] (to_any j) env'"
  using assms by (rule inject_obtain) (blast intro: with_token_at with_token_beside)

lemma token_injected_in_place_witness:
  "\<exists>req' env'. inject_mcp_action_token (post_json sample_call) ''k'' = Inr req'
     \<and> hi_body req' = Some (Inr (marshal env')) \<and> any_at [''params'', ''_meta'', token_key] env' = Some (AStr ''k'')"
proof -
  have ok: "is_ok (inject_mcp_action_token (post_json sample_call) ''k'')" by code_simp
  then obtain req' where r: "inject_mcp_action_token (post_json sample_call) ''k'' = Inr req'"
    unfolding is_ok_iff by blast
  from token_injected_in_place [OF r] r show ?thesis by blast
qed

text \<open>
  C15. Of a provider response only the fourteen listed headers can reach the client, the status is
  unchanged and the body is never empty.
\<close>

theorem provider_headers_filtered:
  "fst ` set (pa_header (write_provider_response p)) \<subseteq> set relayed_headers
   \<and> pa_status (write_provider_response p) = pr_status p \<and> pa_body (write_provider_response p) \<noteq> []"
  using fold_keep_header [of "[]" "pr_headers p"] by (simp add: write_provider_response_def)

text \<open>
  C16. What is forwarded to an origin carries neither \<open>Proxy-Authorization\<close> (the session handle)
  nor \<open>Proxy-Connection\<close>, always announces the close of the connection, and keeps every other
  header the agent sent.
\<close>

theorem proxy_credentials_stripped:
  "header_get (hi_header (outgoing_request r no_credential)) ''Proxy-Authorization'' = []
   \<and> header_get (hi_header (outgoing_request r no_credential)) ''Proxy-Connection'' = []
   \<and> header_get (hi_header (outgoing_request r no_credential)) ''Connection'' = ''close''
   \<and> (canonical_header k \<in> {''Connection'', ''Proxy-Connection'', ''Proxy-Authorization''}
      \<or> header_get (hi_header (outgoing_request r no_credential)) k = header_get (hi_header r) k)"
proof -
  have "canonical_header ''Connection'' = ''Connection''"
    "canonical_header ''Proxy-Connection'' = ''Proxy-Connection''"
    "canonical_header ''Proxy-Authorization'' = ''Proxy-Authorization''" by code_simp+
  then show ?thesis by (auto simp: outgoing_header no_credential_def)
qed

end
