(* ===== verification/Router.thy ===== *)
theory Router
  imports Flow
begin

text \<open>
  \<^verbatim>\<open>internal/node/daemon/runtime_router.go\<close>: what the daemon does with an intercepted request
  of a session that has governed routes. Every handler is a function from the flow and the world to
  the data-plane actions it takes and the world after it (\<open>None\<close> would be a handler that never
  returns). Lemmas: exactly one action is taken, and always; which requests pass through; upstream
  output is relayed only under an allow decision for this request, after an approval where one was
  required; everything the router sends is a trusted request; how long a flow can be held.
\<close>

section \<open>Actions and the router\<close>

datatype dp_action =
    Pass_Through
  | Reject string
  | Respond provider_http_response
  | Inject_MCP_Action_Token string
  | Inject credential

text \<open>
  \<open>runtimeRouter\<close>: whether there is a client, the base URL, and the two functions outside the
  repository that building an action-token request needs.
\<close>

record router =
  rt_client :: bool
  rt_base :: string
  rt_canonicalize :: "string \<Rightarrow> string result"
  rt_sha256 :: "string \<Rightarrow> string"

definition runtime_call_timeout :: int where
  "runtime_call_timeout = 15 * second"

definition runtime_approval_wait_timeout :: int where
  "runtime_approval_wait_timeout = 10 * minute"

type_synonym handling = "(dp_action list \<times> world) option"

definition reject_runtime :: "string \<Rightarrow> world \<Rightarrow> handling" where
  "reject_runtime reason w = Some ([Reject reason], w)"

section \<open>Local answers\<close>

definition is_oauth_discovery_path :: "string \<Rightarrow> bool" where
  "is_oauth_discovery_path path \<longleftrightarrow>
     has_prefix path ''/.well-known/oauth-'' \<or> has_prefix path ''/.well-known/openid-configuration''
     \<or> ''register'' \<in> set (split_on (CHR ''/'') path)"

definition json_content :: "(string \<times> string) list" where
  "json_content = [(''content-type'', ''application/json'')]"

definition error_body :: "string \<Rightarrow> string" where
  "error_body e = ''{'' @ [CHR 0x22] @ ''error'' @ [CHR 0x22, CHR '':'', CHR 0x22] @ e @ [CHR 0x22] @ ''}''"

definition answer_no_oauth :: provider_http_response where
  "answer_no_oauth = \<lparr>pr_status = 404, pr_headers = json_content, pr_body = error_body ''not_found''\<rparr>"

definition answer_no_mcp_stream :: provider_http_response where
  "answer_no_mcp_stream =
     \<lparr>pr_status = 405, pr_headers = json_content, pr_body = error_body ''method_not_allowed''\<rparr>"

definition answer_accepted :: provider_http_response where
  "answer_accepted = \<lparr>pr_status = 202, pr_headers = json_content, pr_body = ''{}''\<rparr>"

definition answer_json :: "string \<Rightarrow> provider_http_response" where
  "answer_json body = \<lparr>pr_status = 200, pr_headers = json_content, pr_body = body\<rparr>"

definition lifecycle_methods :: "string list" where
  "lifecycle_methods = [''initialize'', ''server/discover'', ''tools/list'', ''notifications/initialized'',
     ''ping'', ''prompts/list'', ''prompts/get'', ''resources/list'', ''resources/templates/list'',
     ''resources/subscribe'', ''resources/unsubscribe'', ''completion/complete'', ''logging/setLevel'',
     ''notifications/cancelled'', ''notifications/progress'', ''notifications/roots/list_changed'']"

definition mcp_passthrough_reason :: "flow \<Rightarrow> runtime_route \<Rightarrow> string option" where
  "mcp_passthrough_reason f route =
     (if requires_upstream_auth route then None
      else if request_method f \<in> {''GET'', ''HEAD'', ''DELETE''} \<and> fl_mcp_method f = [] then Some ''mcp_transport''
      else if fl_mcp_method f \<in> set lifecycle_methods then Some ''mcp_lifecycle''
      else None)"

definition new_runtime_request_id :: "world \<Rightarrow> string \<times> world" where
  "new_runtime_request_id w =
     (case wd_random w (wd_draws w) of
        Some value \<Rightarrow> (''cli-'' @ hex_encode value, w\<lparr>wd_draws := Suc (wd_draws w)\<rparr>)
      | None \<Rightarrow> (''cli-'' @ itoa (wd_now w), w\<lparr>wd_draws := Suc (wd_draws w)\<rparr>))"

section \<open>Governed execution\<close>

text \<open>
  What the provider and the gateway handlers share: execute, and when the decision asks for an
  approval, wait for it and execute the same request once more; then answer from the result.
\<close>

definition governed_call ::
  "(world \<Rightarrow> 'r result \<times> world) \<Rightarrow> ('r \<Rightarrow> runtime_decision) \<Rightarrow> (world \<Rightarrow> (unit result \<times> world) option)
     \<Rightarrow> string \<Rightarrow> string \<Rightarrow> string \<Rightarrow> ('r \<Rightarrow> dp_action list) \<Rightarrow> world \<Rightarrow> handling"
where
  "governed_call execute decision wait unavailable not_granted retry_failed answer w =
     (case execute w of
        (Inl _, w1) \<Rightarrow> reject_runtime unavailable w1
      | (Inr result, w1) \<Rightarrow>
          if rd_decision (decision result) = ''approval_required'' then
            (case wait w1 of
               None \<Rightarrow> None
             | Some (Inl _, w2) \<Rightarrow> reject_runtime not_granted w2
             | Some (Inr _, w2) \<Rightarrow>
                 (case execute w2 of
                    (Inl _, w3) \<Rightarrow> reject_runtime retry_failed w3
                  | (Inr result2, w3) \<Rightarrow> Some (answer result2, w3)))
          else Some (answer result, w1))"

definition router_wait_for_approval ::
  "router \<Rightarrow> ctx \<Rightarrow> string \<Rightarrow> string \<Rightarrow> world \<Rightarrow> (unit result \<times> world) option" where
  "router_wait_for_approval r parent token request_id w =
     wait_for_approval (with_timeout parent runtime_approval_wait_timeout w) (rt_base r) token request_id w"

section \<open>Provider executor\<close>

record provider_target =
  pt_label :: string
  pt_resource_type :: string
  pt_key_type :: string
  pt_value :: string
  pt_fold :: bool

definition provider_display_name :: "string \<Rightarrow> string" where
  "provider_display_name p =
     (if p = ''github'' then ''GitHub'' else if p = ''slack'' then ''Slack'' else ''Provider'')"

definition decode_provider_request_body :: "string \<Rightarrow> (string \<times> any) list option result" where
  "decode_provider_request_body raw =
     (if raw = [] then Inr None
      else case parse_first raw of
        None \<Rightarrow> Inl ''request body is not an object''
      | Some (j, _) \<Rightarrow> (case to_any j of AObj m \<Rightarrow> Inr (Some m) | _ \<Rightarrow> Inl ''request body is not an object''))"

definition slack_channel_id :: "string \<Rightarrow> bool" where
  "slack_channel_id s \<longleftrightarrow>
     s \<noteq> [] \<and> hd s = CHR ''C'' \<and> 8 \<le> length (tl s) \<and> list_all (\<lambda>c. is_upper c \<or> is_digit c) (tl s)"

definition github_repository_from_path :: "string \<Rightarrow> string result" where
  "github_repository_from_path path =
     (if \<not> has_prefix path ''/'' \<or> contains_any path [CHR 0x5C, CHR ''?'', CHR ''#''] then Inl ''invalid GitHub path''
      else (case split_on (CHR ''/'') (tl path) of
              p0 # p1 # p2 # _ \<Rightarrow>
                if p0 \<noteq> ''repos'' then Inl ''GitHub path does not identify a repository''
                else (case (unescape p1, unescape p2) of
                  (Some owner, Some repository) \<Rightarrow>
                    if owner = [] \<or> repository = [] \<or> contains_any owner [CHR ''/'', CHR 0x5C]
                       \<or> contains_any repository [CHR ''/'', CHR 0x5C]
                    then Inl ''invalid GitHub repository''
                    else Inr (owner @ ''/'' @ repository)
                | _ \<Rightarrow> Inl ''invalid URL escape'')
            | _ \<Rightarrow> Inl ''GitHub path does not identify a repository''))"

definition resolve_provider_execution_target ::
  "string \<Rightarrow> flow \<Rightarrow> (provider_target \<times> (string \<times> any) list option) result" where
  "resolve_provider_execution_target prov f =
     (case decode_provider_request_body (fl_tool_params f) of
        Inl _ \<Rightarrow> Inl (provider_display_name prov @ '' request body must be a JSON object'')
      | Inr body \<Rightarrow>
          if prov = ''github'' then
            (case github_repository_from_path (request_path f) of
               Inl _ \<Rightarrow> Inl ''unsupported GitHub request path''
             | Inr full_name \<Rightarrow>
                 Inr (\<lparr>pt_label = ''GitHub'', pt_resource_type = ''github.repository'',
                    pt_key_type = ''github.full_name'', pt_value = full_name, pt_fold = True\<rparr>, body))
          else if prov = ''slack'' then
            (case (case body of None \<Rightarrow> None | Some m \<Rightarrow> map_of m ''channel'') of
               Some (AStr channel) \<Rightarrow>
                 if slack_channel_id channel
                 then Inr (\<lparr>pt_label = ''Slack'', pt_resource_type = ''slack.channel'',
                    pt_key_type = ''slack.channel_id'', pt_value = channel, pt_fold = False\<rparr>, body)
                 else Inl ''Slack request must identify a public channel''
             | _ \<Rightarrow> Inl ''Slack request must identify a public channel'')
          else Inl ''provider executor is not supported by this CLI'')"

definition runtime_resource_for_target :: "runtime_route \<Rightarrow> provider_target \<Rightarrow> route_resource option" where
  "runtime_resource_for_target route t = resource_by_key route (pt_key_type t) (pt_value t) (pt_fold t)"

definition flow_provider_headers :: "flow \<Rightarrow> provider_request_headers" where
  "flow_provider_headers f =
     (case fl_req f of
        None \<Rightarrow> \<lparr>ph_accept = [], ph_if_match = [], ph_if_none_match = [], ph_github_api_version = []\<rparr>
      | Some r \<Rightarrow> \<lparr>ph_accept = header_get (hi_header r) ''Accept'', ph_if_match = header_get (hi_header r) ''If-Match'',
          ph_if_none_match = header_get (hi_header r) ''If-None-Match'',
          ph_github_api_version = header_get (hi_header r) ''X-GitHub-Api-Version''\<rparr>)"

definition failure_reason :: "string \<Rightarrow> string option \<Rightarrow> string" where
  "failure_reason base code = base @ (case code of None \<Rightarrow> [] | Some c \<Rightarrow> '': '' @ c)"

definition answer_provider :: "string \<Rightarrow> provider_execution_response \<Rightarrow> dp_action list" where
  "answer_provider lbl result =
     (if px_execution_status result = ''denied''
      then [Reject (lbl @ '' request denied: '' @ rd_reason_code (px_decision result))]
      else case px_provider_response result of
        None \<Rightarrow> [Reject (failure_reason (lbl @ '' execution failed'') (px_error_code result))]
      | Some p \<Rightarrow> [Respond p])"

definition provider_request ::
  "flow \<Rightarrow> runtime_route \<Rightarrow> route_resource \<Rightarrow> (string \<times> any) list option \<Rightarrow> string \<Rightarrow> provider_execution_request"
where
  "provider_request f route resource body request_id =
     \<lparr>pe_schema_version = schema_version, pe_request_id = request_id, pe_connection_id = connection_id route,
      pe_resource_id = resource_id resource,
      pe_request = \<lparr>hp_method = request_method f, hp_path = request_path f, hp_query = request_query f,
        hp_headers = flow_provider_headers f, hp_body = body\<rparr>\<rparr>"

definition execute_provider_request ::
  "router \<Rightarrow> ctx \<Rightarrow> flow \<Rightarrow> runtime_route \<Rightarrow> provider_execution_request \<Rightarrow> provider_execution_response io" where
  "execute_provider_request r parent f route request w =
     execute_provider (with_timeout parent runtime_call_timeout w) (rt_base r) (fl_svid f)
       (runtime_endpoint_path route) request w"

definition handle_provider_executor :: "router \<Rightarrow> ctx \<Rightarrow> flow \<Rightarrow> runtime_route \<Rightarrow> world \<Rightarrow> handling" where
  "handle_provider_executor r parent f route w =
     (if fl_metadata_error f \<noteq> [] then reject_runtime ''invalid provider request metadata'' w
      else case resolve_provider_execution_target (provider route) f of
        Inl e \<Rightarrow> reject_runtime e w
      | Inr (target, body) \<Rightarrow>
          (case runtime_resource_for_target route target of
             None \<Rightarrow> reject_runtime (pt_label target @ '' resource is not selected for this session'') w
           | Some resource \<Rightarrow>
               if resource_type resource \<noteq> pt_resource_type target
               then reject_runtime (pt_label target @ '' resource is not selected for this session'') w
               else if resource_availability resource \<noteq> ''ready''
               then reject_runtime (pt_label target @ '' resource is unavailable'') w
               else
                 (case new_runtime_request_id w of
                    (request_id, w1) \<Rightarrow>
                      governed_call
                        (execute_provider_request r parent f route (provider_request f route resource body request_id))
                        px_decision
                        (router_wait_for_approval r parent (fl_svid f) request_id)
                        (pt_label target @ '' execution unavailable'')
                        (pt_label target @ '' approval was not granted'')
                        (pt_label target @ '' execution unavailable after approval'')
                        (answer_provider (pt_label target)) w1)))"

section \<open>MCP Kit Reader\<close>

text \<open>The resource an action names: selected, of the action's type, and ready.\<close>

definition action_resource :: "runtime_route \<Rightarrow> mcp_action \<Rightarrow> route_resource result" where
  "action_resource route a =
     (case resource_by_key route (ma_routing_key_type a) (ma_routing_value a) False of
        None \<Rightarrow> Inl ''MCP resource is not selected for this session''
      | Some resource \<Rightarrow>
          if resource_type resource \<noteq> ma_resource_type a \<or> external_id resource \<noteq> ma_routing_value a
          then Inl ''MCP resource is not selected for this session''
          else if resource_availability resource \<noteq> ''ready'' then Inl ''MCP resource is unavailable''
          else Inr resource)"

definition action_intent :: "runtime_route \<Rightarrow> mcp_action \<Rightarrow> route_resource \<Rightarrow> mcp_action_intent" where
  "action_intent route a resource =
     \<lparr>ai_provider = ''mcp'', ai_connection_id = connection_id route, ai_action_type = ma_action_type a,
      ai_action_name = ma_action_name a,
      ai_resource = \<lparr>ar_resource_type = resource_type resource, ar_resource_id = resource_id resource,
        ar_external_id = external_id resource\<rparr>,
      ai_parameters = ma_parameters a\<rparr>"

definition handle_mcp_kit_reader :: "router \<Rightarrow> ctx \<Rightarrow> flow \<Rightarrow> runtime_route \<Rightarrow> world \<Rightarrow> handling" where
  "handle_mcp_kit_reader r parent f route w =
     (if fl_metadata_error f \<noteq> [] \<or> fl_mcp_action f = None \<or> fl_mcp_request_id f = []
      then reject_runtime ''invalid MCP Kit Reader request metadata'' w
      else
        (let a = the (fl_mcp_action f) in
         case action_resource route a of
           Inl e \<Rightarrow> reject_runtime e w
         | Inr resource \<Rightarrow>
             (case new_runtime_request_id w of
                (request_id, w1) \<Rightarrow>
                  (case new_mint_request (rt_canonicalize r) (rt_sha256 r) request_id (action_intent route a resource) of
                     Inl _ \<Rightarrow> reject_runtime ''invalid MCP Kit Reader request metadata'' w1
                   | Inr request \<Rightarrow>
                       (case mint_kit_action_token (with_timeout parent runtime_call_timeout w1) (rt_base r) (fl_svid f)
                               (kit_action_token_endpoint_path route) request w1 of
                          (Inl _, w2) \<Rightarrow> reject_runtime ''MCP Kit Reader authorization unavailable'' w2
                        | (Inr result, w2) \<Rightarrow> Some ([Inject_MCP_Action_Token (kt_token result)], w2))))))"

section \<open>MCP session relay\<close>

definition session_request :: "flow \<Rightarrow> runtime_route \<Rightarrow> string \<Rightarrow> mcp_session_request" where
  "session_request f route request_id =
     \<lparr>sq_schema_version = schema_version, sq_request_id = request_id, sq_connection_id = connection_id route,
      sq_message = \<lparr>sm_jsonrpc = ''2.0'', sm_id = fl_mcp_request_id f, sm_method = fl_mcp_method f,
        sm_params = (if fl_mcp_params f = [] then ''{}'' else fl_mcp_params f)\<rparr>\<rparr>"

definition answer_session :: "mcp_session_response \<Rightarrow> dp_action list" where
  "answer_session result =
     (if ms_status result = ''failed'' then [Reject (failure_reason ''MCP session relay failed'' (ms_error_code result))]
      else if ms_status result = ''accepted'' then [Respond answer_accepted]
      else case ms_mcp_response result of
        None \<Rightarrow> [Respond answer_accepted]
      | Some m \<Rightarrow>
          (case marshal_jsonrpc_response m of
             Inl _ \<Rightarrow> [Reject ''MCP session response encoding failed'']
           | Inr body \<Rightarrow> [Respond (answer_json body)]))"

definition handle_mcp_session :: "router \<Rightarrow> ctx \<Rightarrow> flow \<Rightarrow> runtime_route \<Rightarrow> world \<Rightarrow> handling" where
  "handle_mcp_session r parent f route w =
     (if fl_metadata_error f \<noteq> [] then reject_runtime ''invalid MCP session request metadata'' w
      else
        (case new_runtime_request_id w of
           (request_id, w1) \<Rightarrow>
             (case relay_mcp_session (with_timeout parent runtime_call_timeout w) (rt_base r) (fl_svid f)
                     (session_endpoint_path route) (session_request f route request_id) w1 of
                (Inl _, w2) \<Rightarrow> reject_runtime ''MCP session relay unavailable'' w2
              | (Inr result, w2) \<Rightarrow> Some (answer_session result, w2))))"

section \<open>MCP gateway\<close>

definition mcp_gateway_message_of :: "flow \<Rightarrow> mcp_gateway_message result" where
  "mcp_gateway_message_of f =
     (let a = the (fl_mcp_action f);
          msg = (\<lambda>params. \<lparr>gm_jsonrpc = ''2.0'', gm_id = fl_mcp_request_id f, gm_method = fl_mcp_method f,
             gm_params = params\<rparr>)
      in if fl_mcp_method f = ''tools/call'' then
           Inr (msg \<lparr>gp_name = ma_action_name a, gp_arguments = ma_parameters a, gp_uri = []\<rparr>)
         else if fl_mcp_method f = ''resources/read'' then
           (case (case ma_parameters a of None \<Rightarrow> None | Some m \<Rightarrow> map_of m ''uri'') of
              Some (AStr uri) \<Rightarrow>
                if uri \<noteq> ma_action_name a then Inl ''invalid MCP resource URI''
                else Inr (msg \<lparr>gp_name = [], gp_arguments = None, gp_uri = uri\<rparr>)
            | _ \<Rightarrow> Inl ''invalid MCP resource URI'')
         else Inl ''unsupported MCP method'')"

definition answer_gateway :: "mcp_gateway_response \<Rightarrow> dp_action list" where
  "answer_gateway result =
     (if mg_execution_status result = ''denied''
      then [Reject (''MCP request denied: '' @ rd_reason_code (mg_decision result))]
      else case mg_mcp_response result of
        None \<Rightarrow> [Reject (failure_reason ''MCP gateway execution failed'' (mg_error_code result))]
      | Some m \<Rightarrow>
          (case marshal_jsonrpc_response m of
             Inl _ \<Rightarrow> [Reject ''MCP gateway response encoding failed'']
           | Inr body \<Rightarrow> [Respond (answer_json body)]))"

definition gateway_request ::
  "runtime_route \<Rightarrow> route_resource \<Rightarrow> mcp_gateway_message \<Rightarrow> string \<Rightarrow> mcp_gateway_request" where
  "gateway_request route resource message request_id =
     \<lparr>gq_schema_version = schema_version, gq_request_id = request_id, gq_connection_id = connection_id route,
      gq_resource_id = resource_id resource, gq_message = message\<rparr>"

definition execute_gateway_request ::
  "router \<Rightarrow> ctx \<Rightarrow> flow \<Rightarrow> runtime_route \<Rightarrow> mcp_gateway_request \<Rightarrow> mcp_gateway_response io" where
  "execute_gateway_request r parent f route request w =
     execute_mcp_gateway (with_timeout parent runtime_call_timeout w) (rt_base r) (fl_svid f)
       (runtime_endpoint_path route) request w"

definition handle_mcp_gateway :: "router \<Rightarrow> ctx \<Rightarrow> flow \<Rightarrow> runtime_route \<Rightarrow> world \<Rightarrow> handling" where
  "handle_mcp_gateway r parent f route w =
     (if fl_metadata_error f \<noteq> [] \<or> fl_mcp_action f = None \<or> fl_mcp_request_id f = []
      then reject_runtime ''invalid MCP gateway request metadata'' w
      else
        (case action_resource route (the (fl_mcp_action f)) of
           Inl e \<Rightarrow> reject_runtime e w
         | Inr resource \<Rightarrow>
             (case mcp_gateway_message_of f of
                Inl _ \<Rightarrow> reject_runtime ''invalid MCP gateway request metadata'' w
              | Inr message \<Rightarrow>
                  (case new_runtime_request_id w of
                     (request_id, w1) \<Rightarrow>
                       governed_call
                         (execute_gateway_request r parent f route (gateway_request route resource message request_id))
                         mg_decision
                         (router_wait_for_approval r parent (fl_svid f) request_id)
                         ''MCP gateway unavailable'' ''MCP approval was not granted''
                         ''MCP gateway unavailable after approval'' answer_gateway w1))))"

section \<open>The router\<close>

definition handle_route :: "router \<Rightarrow> ctx \<Rightarrow> flow \<Rightarrow> runtime_route \<Rightarrow> world \<Rightarrow> handling" where
  "handle_route r parent f route w =
     (if availability route \<noteq> ''ready''
      then reject_runtime (failure_reason ''runtime route unavailable'' (status_reason_code route)) w
      else if enforcement_mode route = ''provider_executor'' then handle_provider_executor r parent f route w
      else if enforcement_mode route = ''mcp_gateway'' then
        (case mcp_passthrough_reason f route of
           Some _ \<Rightarrow> Some ([Pass_Through], w)
         | None \<Rightarrow>
             if is_mcp_session_method (fl_mcp_method f) then handle_mcp_session r parent f route w
             else if fl_mcp_method f = [] then Some ([Respond answer_no_mcp_stream], w)
             else handle_mcp_gateway r parent f route w)
      else if enforcement_mode route = ''mcp_kit_reader'' then
        (case mcp_passthrough_reason f route of
           Some _ \<Rightarrow> Some ([Pass_Through], w)
         | None \<Rightarrow> handle_mcp_kit_reader r parent f route w)
      else reject_runtime ''runtime enforcement mode is unsupported'' w)"

definition handle_routes :: "router \<Rightarrow> ctx \<Rightarrow> flow \<Rightarrow> runtime_routes \<Rightarrow> world \<Rightarrow> handling" where
  "handle_routes r parent f rs w =
     (if \<not> rt_client r then reject_runtime ''runtime enforcement unavailable'' w
      else case routes_for rs (flow_scheme f) (dst_host f) (dst_port f) (request_path f) of
        [] \<Rightarrow>
          if manages_origin rs (flow_scheme f) (dst_host f) (dst_port f) then
            if is_oauth_discovery_path (request_path f) then Some ([Respond answer_no_oauth], w)
            else reject_runtime ''runtime routes have no route for this path'' w
          else Some ([Pass_Through], w)
      | [route] \<Rightarrow> handle_route r parent f route w
      | _ \<Rightarrow> reject_runtime ''runtime route is ambiguous'' w)"

text \<open>\<open>handle\<close>: whether the routes owned the flow, the actions taken, and the world after.\<close>

definition handle :: "router \<Rightarrow> ctx \<Rightarrow> flow \<Rightarrow> world \<Rightarrow> (bool \<times> dp_action list \<times> world) option" where
  "handle r parent f w =
     (case fl_routes f of
        None \<Rightarrow> Some (False, [], w)
      | Some rs \<Rightarrow> map_option (\<lambda>(acts, w'). (True, acts, w')) (handle_routes r parent f rs w))"


section \<open>What a call returns\<close>

text \<open>A call that returned a body: what was sent last, and the reply it came from.\<close>

definition answered ::
  "world \<Rightarrow> world \<Rightarrow> string \<Rightarrow> string \<Rightarrow> string \<Rightarrow> bool" where
  "answered w w1 token body raw \<longleftrightarrow>
     wd_calls w1 = Suc (wd_calls w)
     \<and> (\<exists>rq. wd_sent w1 = wd_sent w @ [rq] \<and> hq_body rq = body \<and> hq_headers rq = json_headers token)
     \<and> (\<exists>lat st. wd_reply w (wd_calls w) = Reply lat st (Inr raw) \<and> 200 \<le> st \<and> st < 300)"

lemma client_do_sent:
  "client_do c rq w = (Inr (st, rd), w1) \<Longrightarrow> wd_calls w1 = Suc (wd_calls w) \<and> wd_sent w1 = wd_sent w @ [rq]
     \<and> (\<exists>lat. wd_reply w (wd_calls w) = Reply lat st rd)"
  by (auto simp: client_do_def Let_def split: if_splits reply.splits)

lemma read_bounded_Inr [simp]: "read_bounded rd n lbl = Inr raw \<longleftrightarrow> rd = Inr raw \<and> int (length raw) \<le> n"
  by (cases rd) (auto simp: read_bounded_def take_int_eq)

declare io_lift_eq [simp del]

lemma io_lift_result [simp]: "io_lift f w = (r, w') \<longleftrightarrow> f w = r \<and> w' = w"
  by (auto simp: io_lift_def)

lemma execute_json_answered:
  assumes "execute_runtime_json c base token p input lbl w = (Inr raw, w1)"
  shows "\<exists>body. input = Inr body \<and> answered w w1 token body raw"
  using assms unfolding execute_runtime_json_def answered_def
  by (auto simp: case_prod_unfold elim!: io_bind_cases dest!: client_do_sent split: if_splits)

lemma execute_json_time:
  assumes "execute_runtime_json (Some d) base token p input lbl w = (r, w1)"
  shows "wd_now w1 \<le> max (wd_now w) d \<and> wd_calls w1 \<le> Suc (wd_calls w)"
  using assms unfolding execute_runtime_json_def
  by (auto simp: case_prod_unfold elim!: io_bind_cases dest!: io_wrap_world dest: client_do_bounds split: if_splits)


text \<open>An execution returned by the client is validated and answers the request that was sent.\<close>

lemma decode_response_ok:
  "decode_response lbl dec zero check raw = Inr r \<Longrightarrow> check r = Inr ()"
  by (auto simp: decode_response_def)

lemma execute_provider_answered:
  assumes "execute_provider c base token p pe w = (Inr r, w1)"
  shows "\<exists>body raw. marshal_provider_request pe = Inr body \<and> answered w w1 token body raw
    \<and> decode_response [] decode_provider_execution zero_provider_execution_response (\<lambda>x. validate_provider_execution x (pe_request_id pe)) raw = Inr r"
  using assms unfolding execute_provider_def
  by (auto split: if_splits elim!: io_bind_cases dest!: execute_json_answered)

lemma execute_gateway_answered:
  assumes "execute_mcp_gateway c base token p gq w = (Inr r, w1)"
  shows "\<exists>body raw. marshal_gateway_request gq = Inr body \<and> answered w w1 token body raw
    \<and> decode_response [] decode_mcp_gateway zero_mcp_gateway_response (\<lambda>x. validate_mcp_gateway x (gq_request_id gq) (gm_id (gq_message gq))) raw = Inr r"
  using assms unfolding execute_mcp_gateway_def
  by (auto split: if_splits elim!: io_bind_cases dest!: execute_json_answered)

lemma relay_session_answered:
  assumes "relay_mcp_session c base token p sq w = (Inr r, w1)"
  shows "\<exists>body raw. marshal_session_request sq = Inr body \<and> answered w w1 token body raw
    \<and> validate_mcp_session r (sq_request_id sq) (sm_id (sq_message sq)) = Inr ()"
  using assms unfolding relay_mcp_session_def
  by (auto split: if_splits elim!: io_bind_cases dest!: execute_json_answered dest: decode_response_ok)

lemma mint_token_answered:
  assumes "mint_kit_action_token c base token p mk w = (Inr r, w1)"
  shows "\<exists>body raw. marshal_mint_request mk = Inr body \<and> answered w w1 token body raw
    \<and> check_kit_action_token (wd_now w1) r = Inr ()"
  using assms unfolding mint_kit_action_token_def
  by (auto split: if_splits elim!: io_bind_cases dest!: execute_json_answered dest: decode_response_ok)

text \<open>
  A step from \<open>w\<close> to \<open>w'\<close> that takes at most \<open>t\<close> nanoseconds and \<open>n\<close> requests, all of them
  trusted.
\<close>

definition within :: "string \<Rightarrow> int \<Rightarrow> int \<Rightarrow> world \<Rightarrow> world \<Rightarrow> bool" where
  "within base t n w w' \<longleftrightarrow> evolves (trusted_request (wd_allow_insecure w) base ''/v1/runtime/'') w w'
     \<and> wd_now w' \<le> wd_now w + t \<and> int (wd_calls w') \<le> int (wd_calls w) + n"

lemma within_refl: "0 \<le> t \<Longrightarrow> 0 \<le> n \<Longrightarrow> within base t n w w"
  by (simp add: within_def)

lemma within_trans:
  "within base t n w w1 \<Longrightarrow> within base t' n' w1 w2 \<Longrightarrow> within base (t + t') (n + n') w w2"
  using evolves_env [of _ w w1] by (fastforce simp: within_def intro: evolves_trans)

lemma within_mono: "within base t n w w' \<Longrightarrow> t \<le> t' \<Longrightarrow> n \<le> n' \<Longrightarrow> within base t' n' w w'"
  by (simp add: within_def)

lemma within_deadline:
  assumes "safe_io (trusted_request (wd_allow_insecure w) base ''/v1/runtime/'') w m"
    and "m w = (r, w1)" and "wd_now w1 \<le> max (wd_now w) d \<and> wd_calls w1 \<le> Suc (wd_calls w)"
    and "d \<le> wd_now w + t" and "0 \<le> t"
  shows "within base t 1 w w1"
  using assms by (auto simp: within_def safe_io_def)

lemma with_timeout_deadline: "\<exists>d. with_timeout c t w = Some d \<and> d \<le> wd_now w + t"
  by (auto simp: with_timeout_def split: option.split)

lemma json_call_time:
  assumes "(if b then io_lift f else io_bind (execute_runtime_json (Some d) base token p input lbl) (\<lambda>raw. io_lift (g raw))) w
    = (r, w1)"
  shows "wd_now w1 \<le> max (wd_now w) d \<and> wd_calls w1 \<le> Suc (wd_calls w)"
  using assms by (auto split: if_splits elim!: io_bind_cases dest: execute_json_time)

lemma runtime_calls_within:
  assumes "0 \<le> t"
  shows "execute_provider (with_timeout c t w) base token p pe w = (r1, w1) \<Longrightarrow> within base t 1 w w1"
    and "execute_mcp_gateway (with_timeout c t w) base token p gq w = (r2, w1) \<Longrightarrow> within base t 1 w w1"
    and "relay_mcp_session (with_timeout c t w) base token p sq w = (r3, w1) \<Longrightarrow> within base t 1 w w1"
    and "mint_kit_action_token (with_timeout c t w) base token p mk w = (r4, w1) \<Longrightarrow> within base t 1 w w1"
proof -
  obtain d where d: "with_timeout c t w = Some d" "d \<le> wd_now w + t"
    using with_timeout_deadline by blast
  note time = within_deadline [OF safe_runtime_calls(1) _ _ d(2) assms]
    within_deadline [OF safe_runtime_calls(2) _ _ d(2) assms]
    within_deadline [OF safe_runtime_calls(3) _ _ d(2) assms]
    within_deadline [OF safe_runtime_calls(4) _ _ d(2) assms]
  show "execute_provider (with_timeout c t w) base token p pe w = (r1, w1) \<Longrightarrow> within base t 1 w w1"
    unfolding d(1) by (rule time(1), assumption) (rule json_call_time, simp only: execute_provider_def)
  show "execute_mcp_gateway (with_timeout c t w) base token p gq w = (r2, w1) \<Longrightarrow> within base t 1 w w1"
    unfolding d(1) by (rule time(2), assumption) (rule json_call_time, simp only: execute_mcp_gateway_def)
  show "relay_mcp_session (with_timeout c t w) base token p sq w = (r3, w1) \<Longrightarrow> within base t 1 w w1"
    unfolding d(1) by (rule time(3), assumption) (rule json_call_time, simp only: relay_mcp_session_def)
  show "mint_kit_action_token (with_timeout c t w) base token p mk w = (r4, w1) \<Longrightarrow> within base t 1 w w1"
    unfolding d(1) by (rule time(4), assumption) (rule json_call_time, simp only: mint_kit_action_token_def)
qed

lemma within_wait:
  assumes "wait_for_approval (with_timeout c t w) base token rid w = Some (r, w')" and "0 \<le> t"
  shows "within base t (t div second + 1) w w'"
proof -
  obtain d where d: "with_timeout c t w = Some d" "d \<le> wd_now w + t"
    using with_timeout_deadline by blast
  from wait_for_approval_time [of d base token rid w r w'] assms d
  have time: "wd_now w' \<le> wd_now w + t" "second * (int (wd_calls w' - wd_calls w) - 1) \<le> t" by auto
  from zdiv_mono1 [OF time(2), of second] have "int (wd_calls w' - wd_calls w) - 1 \<le> t div second"
    by (simp add: second_def)
  then show ?thesis
    using time(1) evolves_wait_for_approval [OF assms(1)] by (simp add: within_def)
qed


text \<open>
  Replies the control plane gave: the \<open>i\<close>-th call returned a validated execution for this
  request id, or an approval of it.
\<close>

definition execution_reply :: "world \<Rightarrow> string \<Rightarrow> nat \<Rightarrow> provider_execution_response \<Rightarrow> bool" where
  "execution_reply w rid i res \<longleftrightarrow> (\<exists>lat st raw. wd_reply w i = Reply lat st (Inr raw) \<and> 200 \<le> st \<and> st < 300
     \<and> decode_response [] decode_provider_execution zero_provider_execution_response
         (\<lambda>r. validate_provider_execution r rid) raw = Inr res)"

definition gateway_reply :: "world \<Rightarrow> string \<Rightarrow> string \<Rightarrow> nat \<Rightarrow> mcp_gateway_response \<Rightarrow> bool" where
  "gateway_reply w rid jid i res \<longleftrightarrow> (\<exists>lat st raw. wd_reply w i = Reply lat st (Inr raw) \<and> 200 \<le> st \<and> st < 300
     \<and> decode_response [] decode_mcp_gateway zero_mcp_gateway_response
         (\<lambda>r. validate_mcp_gateway r rid jid) raw = Inr res)"

definition approval_reply :: "world \<Rightarrow> string \<Rightarrow> nat \<Rightarrow> bool" where
  "approval_reply w rid i \<longleftrightarrow> (\<exists>lat rd ap. wd_reply w i = Reply lat 200 rd
     \<and> decode_approval_status rid rd = Inr ap \<and> ap_status ap = ''approved'')"

lemma granted_reply:
  "granted rid w w' \<Longrightarrow> \<exists>i. wd_calls w \<le> i \<and> wd_calls w' = Suc i \<and> approval_reply w rid i"
  unfolding granted_def approval_reply_def by blast

lemma provider_call_reply:
  assumes "execute_provider_request r parent f route rq w = (Inr res, w1)"
  shows "wd_calls w1 = Suc (wd_calls w) \<and> execution_reply w (pe_request_id rq) (wd_calls w) res
    \<and> (\<exists>h. wd_sent w1 = wd_sent w @ [h] \<and> Inr (hq_body h) = marshal_provider_request rq
        \<and> hq_headers h = json_headers (fl_svid f))"
  using execute_provider_answered [OF assms [unfolded execute_provider_request_def]]
  unfolding answered_def execution_reply_def by fastforce

lemma gateway_call_reply:
  assumes "execute_gateway_request r parent f route rq w = (Inr res, w1)"
  shows "wd_calls w1 = Suc (wd_calls w)
    \<and> gateway_reply w (gq_request_id rq) (gm_id (gq_message rq)) (wd_calls w) res
    \<and> (\<exists>h. wd_sent w1 = wd_sent w @ [h] \<and> Inr (hq_body h) = marshal_gateway_request rq
        \<and> hq_headers h = json_headers (fl_svid f))"
  using execute_gateway_answered [OF assms [unfolded execute_gateway_request_def]]
  unfolding answered_def gateway_reply_def by fastforce

lemma reply_same:
  assumes "wd_reply w' = wd_reply w"
  shows "execution_reply w' rid i res = execution_reply w rid i res"
    and "gateway_reply w' rid jid i g = gateway_reply w rid jid i g"
    and "approval_reply w' rid i = approval_reply w rid i"
  by (simp_all add: execution_reply_def gateway_reply_def approval_reply_def assms)

section \<open>The interface of a governed call\<close>

text \<open>
  What the router relies on: execution and waiting end in time and send only trusted requests, a
  result decides on the request with this id, output is only relayed under \<open>allow\<close>, and waiting
  succeeds only when that request was approved.
\<close>

locale governed =
  fixes execute :: "world \<Rightarrow> 'r result \<times> world"
    and decision :: "'r \<Rightarrow> runtime_decision"
    and wait :: "world \<Rightarrow> (unit result \<times> world) option"
    and answer :: "'r \<Rightarrow> dp_action list"
    and base :: string
    and rid :: string
    and reply :: "world \<Rightarrow> nat \<Rightarrow> 'r \<Rightarrow> bool"
    and body :: "string result"
  assumes execute_within: "execute w = (res, w1) \<Longrightarrow> within base runtime_call_timeout 1 w w1"
    and execute_reply: "execute w = (Inr r, w1) \<Longrightarrow> wd_calls w1 = Suc (wd_calls w) \<and> reply w (wd_calls w) r
      \<and> (\<exists>h. wd_sent w1 = wd_sent w @ [h] \<and> Inr (hq_body h) = body)"
    and reply_env: "wd_reply w' = wd_reply w \<Longrightarrow> reply w' i r = reply w i r"
    and answer_allow: "execute w = (Inr r, w1) \<Longrightarrow> Respond p \<in> set (answer r) \<Longrightarrow> rd_decision (decision r) = ''allow''"
    and answer_single: "\<exists>a. answer r = [a] \<and> (\<exists>x. a = Reject x \<or> (\<exists>y. a = Respond y))"
    and wait_returns: "\<exists>res. wait w = Some res"
    and wait_within: "wait w = Some (u, w1) \<Longrightarrow> within base runtime_approval_wait_timeout 601 w w1"
    and wait_granted: "wait w = Some (Inr (), w1) \<Longrightarrow> granted rid w w1"
begin

lemma governed_cases:
  assumes "governed_call execute decision wait un ng rf answer w = h"
  obtains (Refused) reason w' where "h = Some ([Reject reason], w')"
      and "within base (2 * runtime_call_timeout + runtime_approval_wait_timeout) 603 w w'"
  | (Direct) r w' where "h = Some (answer r, w')" and "execute w = (Inr r, w')"
      and "rd_decision (decision r) \<noteq> ''approval_required''"
  | (Retried) r0 w1 w2 r w' where "h = Some (answer r, w')" and "execute w = (Inr r0, w1)"
      and "rd_decision (decision r0) = ''approval_required''" and "wait w1 = Some (Inr (), w2)"
      and "execute w2 = (Inr r, w')"
proof -
  obtain r1 w1 where e1: "execute w = (r1, w1)" by (cases "execute w")
  obtain u w2 where wt: "wait w1 = Some (u, w2)" using wait_returns [of w1] by auto
  obtain r3 w3 where e3: "execute w2 = (r3, w3)" by (cases "execute w2")
  note t1 = execute_within [OF e1] and t2 = within_trans [OF execute_within [OF e1] wait_within [OF wt]]
  note t3 = within_trans [OF t2 execute_within [OF e3]]
  have pos: "0 \<le> runtime_call_timeout" "0 \<le> runtime_approval_wait_timeout"
    by (simp_all add: runtime_call_timeout_def runtime_approval_wait_timeout_def second_def minute_def)
  have bounds: "within base (2 * runtime_call_timeout + runtime_approval_wait_timeout) 603 w w1"
    "within base (2 * runtime_call_timeout + runtime_approval_wait_timeout) 603 w w2"
    "within base (2 * runtime_call_timeout + runtime_approval_wait_timeout) 603 w w3"
    by (rule within_mono [OF t1] within_mono [OF t2] within_mono [OF t3], use pos in simp, simp)+
  show ?thesis
  proof (cases r1)
    case (Inl e)
    with assms e1 bounds show ?thesis by (auto simp: governed_call_def reject_runtime_def intro: Refused)
  next
    case r1: (Inr r0)
    show ?thesis
    proof (cases "rd_decision (decision r0) = ''approval_required''")
      case False
      with assms e1 r1 show ?thesis by (intro Direct [of r0 w1]) (auto simp: governed_call_def)
    next
      case ap: True
      show ?thesis
      proof (cases u)
        case (Inl e)
        with assms e1 r1 ap wt bounds show ?thesis
          by (intro Refused [of ng w2]) (auto simp: governed_call_def reject_runtime_def)
      next
        case u: (Inr x)
        show ?thesis
        proof (cases r3)
          case (Inl e)
          with assms e1 r1 ap wt u e3 bounds show ?thesis
            by (intro Refused [of rf w3]) (auto simp: governed_call_def reject_runtime_def)
        next
          case (Inr r)
          with assms e1 r1 ap wt u e3 show ?thesis
            by (intro Retried [of r w3 r0 w1 w2]) (auto simp: governed_call_def)
        qed
      qed
    qed
  qed
qed

lemma governed_total:
  "\<exists>a w'. governed_call execute decision wait un ng rf answer w = Some ([a], w')
     \<and> within base (2 * runtime_call_timeout + runtime_approval_wait_timeout) 603 w w'
     \<and> (\<exists>x. a = Reject x \<or> (\<exists>y. a = Respond y))"
  using refl [of "governed_call execute decision wait un ng rf answer w"]
proof (cases rule: governed_cases)
  case (Refused reason w')
  then show ?thesis by blast
next
  case (Direct r w')
  have "within base (2 * runtime_call_timeout + runtime_approval_wait_timeout) 603 w w'"
    by (rule within_mono [OF execute_within [OF Direct(2)]])
      (simp_all add: runtime_call_timeout_def runtime_approval_wait_timeout_def second_def minute_def)
  with Direct(1) answer_single [of r] show ?thesis by auto
next
  case (Retried r0 w1 w2 r w')
  have "within base (2 * runtime_call_timeout + runtime_approval_wait_timeout) 603 w w'"
    by (rule within_mono [OF within_trans [OF within_trans [OF execute_within [OF Retried(2)]
          wait_within [OF Retried(4)]] execute_within [OF Retried(5)]]]) simp_all
  with Retried(1) answer_single [of r] show ?thesis by auto
qed

lemma governed_respond:
  assumes "governed_call execute decision wait un ng rf answer w = Some (acts, w')" and "Respond p \<in> set acts"
  shows "\<exists>i res. wd_calls w' = Suc i \<and> reply w i res \<and> Respond p \<in> set (answer res)
    \<and> rd_decision (decision res) = ''allow'' \<and> Inr (hq_body (last (wd_sent w'))) = body
    \<and> (i = wd_calls w \<or> (\<exists>first. reply w (wd_calls w) first
         \<and> rd_decision (decision first) = ''approval_required''
         \<and> wd_calls w < i - 1 \<and> approval_reply w rid (i - 1)))"
  using assms(1)
proof (cases rule: governed_cases)
  case (Refused reason w'')
  with assms(2) show ?thesis by simp
next
  case (Direct r w'')
  with assms(2) have p: "Respond p \<in> set (answer r)" and e: "execute w = (Inr r, w')" by auto
  from execute_reply [OF e] answer_allow [OF e p] p show ?thesis by (intro exI [of _ "wd_calls w"] exI [of _ r]) auto
next
  case (Retried r0 w1 w2 r w'')
  with assms(2) have p: "Respond p \<in> set (answer r)" and e: "execute w2 = (Inr r, w')" by auto
  have same: "wd_reply w1 = wd_reply w" "wd_reply w2 = wd_reply w"
    using execute_within [OF Retried(2)] wait_within [OF Retried(4)] evolves_env by (auto simp: within_def)
  obtain k where k: "wd_calls w1 \<le> k" "wd_calls w2 = Suc k" "approval_reply w1 rid k"
    using granted_reply [OF wait_granted [OF Retried(4)]] by blast
  note first = execute_reply [OF Retried(2)] and last = execute_reply [OF e]
  have "reply w (Suc k) r" "approval_reply w rid k"
    using last k reply_env [OF same(2)] reply_same(3) [OF same(1)] by auto
  then show ?thesis
    using first last k answer_allow [OF e p] p Retried(3)
    by (intro exI [of _ "Suc k"] exI [of _ r]) auto
qed

end

lemma wait_within_router:
  assumes "router_wait_for_approval r parent token rid w = Some (u, w')"
  shows "within (rt_base r) runtime_approval_wait_timeout 601 w w'"
proof -
  have "within (rt_base r) runtime_approval_wait_timeout (runtime_approval_wait_timeout div second + 1) w w'"
    by (rule within_wait [OF assms [unfolded router_wait_for_approval_def]])
      (simp add: runtime_approval_wait_timeout_def minute_def second_def)
  then show ?thesis by (simp add: runtime_approval_wait_timeout_def minute_def second_def)
qed

lemma router_wait_returns: "\<exists>res. router_wait_for_approval r parent token rid w = Some res"
proof -
  obtain d where "with_timeout parent runtime_approval_wait_timeout w = Some d"
    using with_timeout_deadline by blast
  with wait_for_approval_returns [of d] show ?thesis by (auto simp: router_wait_for_approval_def)
qed

lemma router_wait_granted:
  "router_wait_for_approval r parent token rid w = Some (Inr (), w') \<Longrightarrow> granted rid w w'"
  by (auto simp: router_wait_for_approval_def dest: wait_for_approval_granted)

lemma answer_provider_respond:
  "Respond p \<in> set (answer_provider lbl r) \<Longrightarrow> px_execution_status r \<noteq> ''denied'' \<and> px_provider_response r = Some p"
  by (auto simp: answer_provider_def split: if_splits option.splits)

lemma answer_gateway_respond:
  "Respond p \<in> set (answer_gateway r) \<Longrightarrow> mg_execution_status r \<noteq> ''denied''
     \<and> (\<exists>m body. mg_mcp_response r = Some m \<and> marshal_jsonrpc_response m = Inr body \<and> p = answer_json body)"
  by (auto simp: answer_gateway_def split: if_splits option.splits sum.splits)

interpretation provider_call: governed "execute_provider_request r parent f route rq" px_decision
    "router_wait_for_approval r parent token (pe_request_id rq)" "answer_provider lbl" "rt_base r" "pe_request_id rq"
    "\<lambda>w. execution_reply w (pe_request_id rq)" "marshal_provider_request rq"
  for r parent f route rq token lbl
proof unfold_locales
  fix w w1 :: world and res x p u
  show "execute_provider_request r parent f route rq w = (res, w1) \<Longrightarrow> within (rt_base r) runtime_call_timeout 1 w w1"
    unfolding execute_provider_request_def
    by (rule runtime_calls_within(1)) (simp add: runtime_call_timeout_def second_def)
  show "execute_provider_request r parent f route rq w = (Inr x, w1) \<Longrightarrow> wd_calls w1 = Suc (wd_calls w)
      \<and> execution_reply w (pe_request_id rq) (wd_calls w) x \<and> (\<exists>h. wd_sent w1 = wd_sent w @ [h] \<and> Inr (hq_body h) = marshal_provider_request rq)"
    using provider_call_reply by blast
  show "execute_provider_request r parent f route rq w = (Inr x, w1) \<Longrightarrow> Respond p \<in> set (answer_provider lbl x)
      \<Longrightarrow> rd_decision (px_decision x) = ''allow''"
    by (auto simp: execute_provider_request_def verdict_ok_def
        dest!: answer_provider_respond execute_provider_answered decode_response_ok validate_provider_verdict)
  show "\<exists>a. answer_provider lbl x = [a] \<and> (\<exists>x. a = Reject x \<or> (\<exists>y. a = Respond y))"
    by (auto simp: answer_provider_def split: option.split)
qed (fact router_wait_returns wait_within_router router_wait_granted reply_same)+

interpretation gateway_call: governed "execute_gateway_request r parent f route rq" mg_decision
    "router_wait_for_approval r parent token (gq_request_id rq)" answer_gateway "rt_base r" "gq_request_id rq"
    "\<lambda>w. gateway_reply w (gq_request_id rq) (gm_id (gq_message rq))" "marshal_gateway_request rq"
  for r parent f route rq token
proof unfold_locales
  fix w w1 :: world and res x p u
  show "execute_gateway_request r parent f route rq w = (res, w1) \<Longrightarrow> within (rt_base r) runtime_call_timeout 1 w w1"
    unfolding execute_gateway_request_def
    by (rule runtime_calls_within(2)) (simp add: runtime_call_timeout_def second_def)
  show "execute_gateway_request r parent f route rq w = (Inr x, w1) \<Longrightarrow> wd_calls w1 = Suc (wd_calls w)
      \<and> gateway_reply w (gq_request_id rq) (gm_id (gq_message rq)) (wd_calls w) x \<and> (\<exists>h. wd_sent w1 = wd_sent w @ [h] \<and> Inr (hq_body h) = marshal_gateway_request rq)"
    using gateway_call_reply by blast
  show "execute_gateway_request r parent f route rq w = (Inr x, w1) \<Longrightarrow> Respond p \<in> set (answer_gateway x)
      \<Longrightarrow> rd_decision (mg_decision x) = ''allow''"
    by (auto simp: execute_gateway_request_def verdict_ok_def
        dest!: answer_gateway_respond execute_gateway_answered decode_response_ok validate_gateway_verdict)
  show "\<exists>a. answer_gateway x = [a] \<and> (\<exists>x. a = Reject x \<or> (\<exists>y. a = Respond y))"
    by (auto simp: answer_gateway_def split: option.split sum.split)
qed (fact router_wait_returns wait_within_router router_wait_granted reply_same)+


section \<open>What a handler does\<close>

definition flow_hold :: int where
  "flow_hold = 2 * runtime_call_timeout + runtime_approval_wait_timeout"

lemma flow_hold_eq: "flow_hold = 630 * second" "runtime_call_timeout \<le> flow_hold" "0 \<le> flow_hold" "0 \<le> runtime_call_timeout"
  by (simp_all add: flow_hold_def runtime_call_timeout_def runtime_approval_wait_timeout_def second_def minute_def)

text \<open>A handler settles a flow: one action of its own, never a pass-through or a broker credential, in bounded time.\<close>

fun settling :: "dp_action \<Rightarrow> bool" where
  "settling Pass_Through = False"
| "settling (Inject c) = False"
| "settling a = True"

lemma settling_iff: "settling a \<longleftrightarrow> a \<noteq> Pass_Through \<and> (\<forall>c. a \<noteq> Inject c)"
  by (cases a) auto

definition settles :: "router \<Rightarrow> world \<Rightarrow> handling \<Rightarrow> bool" where
  "settles r w h \<longleftrightarrow> (\<exists>a w'. h = Some ([a], w') \<and> settling a \<and> within (rt_base r) flow_hold 603 w w')"

lemma settles_now: "settling a \<Longrightarrow> settles r w (Some ([a], w))"
  using within_refl [OF flow_hold_eq(3), of 603] by (auto simp: settles_def)

lemma settles_reject [simp]: "settles r w (reject_runtime reason w)"
  by (simp add: reject_runtime_def settles_now)

lemma settles_call:
  "within (rt_base r) runtime_call_timeout 1 w w' \<Longrightarrow> settling a \<Longrightarrow> settles r w (Some ([a], w'))"
  using flow_hold_eq(2) by (auto simp: settles_def elim!: within_mono)

lemma within_request_id:
  "new_runtime_request_id w = (rid, w1) \<Longrightarrow> within base 0 0 w w1"
  by (auto simp: new_runtime_request_id_def within_def evolves_def split: option.splits)

lemma settles_after_id:
  assumes "new_runtime_request_id w = (rid, w1)" and "settles r w1 h"
  shows "settles r w h"
proof -
  from assms(2) obtain a w' where h: "h = Some ([a], w')" "settling a" "within (rt_base r) flow_hold 603 w1 w'"
    by (auto simp: settles_def)
  from within_trans [OF within_request_id [OF assms(1)] h(3)] h(1,2) show ?thesis by (auto simp: settles_def)
qed

lemma settles_governed_provider:
  "settles r w (governed_call (execute_provider_request r parent f route rq) px_decision
     (router_wait_for_approval r parent token (pe_request_id rq)) un ng rf (answer_provider lbl) w)"
  using provider_call.governed_total [of r parent f route rq token un ng rf lbl w]
  by (auto simp: settles_def flow_hold_def)

lemma settles_governed_gateway:
  "settles r w (governed_call (execute_gateway_request r parent f route rq) mg_decision
     (router_wait_for_approval r parent token (gq_request_id rq)) un ng rf answer_gateway w)"
  using gateway_call.governed_total [of r parent f route rq token un ng rf w]
  by (auto simp: settles_def flow_hold_def)

lemma request_ids [simp]:
  "pe_request_id (provider_request f route resource body rid) = rid"
  "gq_request_id (gateway_request route resource message rid) = rid"
  "sq_request_id (session_request f route rid) = rid"
  by (simp_all add: provider_request_def gateway_request_def session_request_def)

lemma settles_provider_executor: "settles r w (handle_provider_executor r parent f route w)"
  using settles_governed_provider [of r _ parent f route "provider_request f route _ _ _" "fl_svid f"]
  by (auto simp: handle_provider_executor_def split: sum.split prod.split option.split intro: settles_after_id)

lemma settles_gateway: "settles r w (handle_mcp_gateway r parent f route w)"
  using settles_governed_gateway [of r _ parent f route "gateway_request route _ _ _" "fl_svid f"]
  by (auto simp: handle_mcp_gateway_def split: sum.split prod.split intro: settles_after_id)

lemma settles_kit_reader: "settles r w (handle_mcp_kit_reader r parent f route w)"
proof -
  have mint: "settles r w1 (case mint_kit_action_token (with_timeout parent runtime_call_timeout w1) (rt_base r) t p rq w1 of
       (Inl _, w2) \<Rightarrow> reject_runtime e w2 | (Inr result, w2) \<Rightarrow> Some ([Inject_MCP_Action_Token (kt_token result)], w2))"
    for w1 t p rq e
    by (cases "mint_kit_action_token (with_timeout parent runtime_call_timeout w1) (rt_base r) t p rq w1")
      (auto simp: reject_runtime_def split: sum.split
        intro!: settles_call dest!: runtime_calls_within(4) [OF flow_hold_eq(4)])
  obtain rid w1 where id: "new_runtime_request_id w = (rid, w1)" by (cases "new_runtime_request_id w")
  show ?thesis
    by (auto simp: handle_mcp_kit_reader_def Let_def id split: sum.split
        intro!: settles_after_id [OF id] mint)
qed

lemma answer_session_single: "\<exists>a. answer_session x = [a] \<and> settling a"
  by (auto simp: answer_session_def split: option.split sum.split)

lemma settles_session: "settles r w (handle_mcp_session r parent f route w)"
proof -
  have now: "with_timeout parent t w = with_timeout parent t w1" if "new_runtime_request_id w = (rid, w1)" for rid w1 t
    using that by (auto simp: new_runtime_request_id_def with_timeout_def split: option.splits)
  have relay: "settles r w1 (case relay_mcp_session (with_timeout parent runtime_call_timeout w1) (rt_base r) t p rq w1 of
       (Inl _, w2) \<Rightarrow> reject_runtime e w2 | (Inr result, w2) \<Rightarrow> Some (answer_session result, w2))"
    for w1 t p rq e
  proof (cases "relay_mcp_session (with_timeout parent runtime_call_timeout w1) (rt_base r) t p rq w1")
    case (Pair x w2)
    from runtime_calls_within(3) [OF flow_hold_eq(4) this] have s: "settling a \<Longrightarrow> settles r w1 (Some ([a], w2))" for a
      by (rule settles_call)
    show ?thesis
    proof (cases x)
      case (Inl e')
      with Pair s show ?thesis by (simp add: reject_runtime_def)
    next
      case (Inr result)
      with Pair s answer_session_single [of result] show ?thesis by auto
    qed
  qed
  obtain rid w1 where id: "new_runtime_request_id w = (rid, w1)" by (cases "new_runtime_request_id w")
  show ?thesis
    by (auto simp: handle_mcp_session_def id now [OF id] intro!: settles_after_id [OF id] relay)
qed

text \<open>When a request goes upstream as it came.\<close>

definition passes_route :: "flow \<Rightarrow> runtime_route \<Rightarrow> bool" where
  "passes_route f route \<longleftrightarrow> availability route = ''ready''
     \<and> enforcement_mode route \<in> {''mcp_gateway'', ''mcp_kit_reader''} \<and> mcp_passthrough_reason f route \<noteq> None"

lemma handle_route_cases:
  "if passes_route f route then handle_route r parent f route w = Some ([Pass_Through], w)
   else settles r w (handle_route r parent f route w)"
  by (auto simp: passes_route_def handle_route_def settles_provider_executor settles_session settles_gateway
      settles_kit_reader settles_now split: option.split)

definition passes_routes :: "flow \<Rightarrow> runtime_routes \<Rightarrow> bool" where
  "passes_routes f rs \<longleftrightarrow>
     (case routes_for rs (flow_scheme f) (dst_host f) (dst_port f) (request_path f) of
        [] \<Rightarrow> \<not> manages_origin rs (flow_scheme f) (dst_host f) (dst_port f)
      | [route] \<Rightarrow> passes_route f route | _ \<Rightarrow> False)"

lemma handle_routes_cases:
  "if rt_client r \<and> passes_routes f rs then handle_routes r parent f rs w = Some ([Pass_Through], w)
   else settles r w (handle_routes r parent f rs w)"
  using handle_route_cases [of f _ r parent w]
  by (auto simp: handle_routes_def passes_routes_def settles_now split: list.split)

lemma handle_cases:
  assumes "fl_routes f = Some rs"
  obtains (Passed) "rt_client r" and "passes_routes f rs" and "handle r parent f w = Some (True, [Pass_Through], w)"
  | (Settled) a w' where "handle r parent f w = Some (True, [a], w')" and "a \<noteq> Pass_Through"
      and "within (rt_base r) flow_hold 603 w w'" and "\<not> (rt_client r \<and> passes_routes f rs)" and "settling a"
  using handle_routes_cases [of r f rs parent w] assms
  by (auto simp: handle_def settles_def settling_iff split: if_splits)

lemma handle_no_inject:
  assumes "handle r parent f w = Some (True, acts, w')"
  shows "Inject c \<notin> set acts"
proof (cases "fl_routes f")
  case None
  with assms show ?thesis by (simp add: handle_def)
next
  case (Some rs)
  then show ?thesis by (cases rule: handle_cases [where r = r and parent = parent and w = w]) (use assms in auto)
qed


section \<open>Properties\<close>

text \<open>
  C16. Every intercepted flow is settled, once: the router always returns, it owns exactly the flows
  of sessions that have routes, it takes exactly one data-plane action for a flow it owns and none
  for another, and it holds the flow for at most 630 seconds (two calls of 15 seconds and an
  approval wait of ten minutes) and at most 603 requests.
\<close>

theorem flow_settled_once:
  "\<exists>acts w'. handle r parent f w = Some (fl_routes f \<noteq> None, acts, w')
     \<and> length acts = (if fl_routes f = None then 0 else 1)
     \<and> wd_now w \<le> wd_now w' \<and> wd_now w' \<le> wd_now w + 630 * second
     \<and> wd_calls w \<le> wd_calls w' \<and> int (wd_calls w') \<le> int (wd_calls w) + 603"
proof (cases "fl_routes f")
  case None
  then show ?thesis by (simp add: handle_def second_def)
next
  case (Some rs)
  then show ?thesis
  proof (cases rule: handle_cases [where r = r and parent = parent and w = w])
    case Passed
    with Some show ?thesis by (simp add: second_def)
  next
    case (Settled a w')
    with Some evolves_env show ?thesis by (fastforce simp: within_def flow_hold_eq)
  qed
qed

text \<open>
  C17. The router sends nothing but trusted requests: to the scheme and host of the configured base
  URL, over https or to loopback, on runtime paths. Nothing an agent sends, and no route the server
  hands out, can move a session's KIT to another host.
\<close>

theorem router_requests_trusted:
  "case handle r parent f w of
     None \<Rightarrow> False
   | Some (owned, acts, w') \<Rightarrow> evolves (trusted_request (wd_allow_insecure w) (rt_base r) ''/v1/runtime/'') w w'"
proof (cases "fl_routes f")
  case None
  then show ?thesis by (simp add: handle_def)
next
  case (Some rs)
  then show ?thesis
    by (cases rule: handle_cases [where r = r and parent = parent and w = w]) (auto simp: within_def)
qed

definition open_route :: runtime_route where
  "open_route = zero_route\<lparr>enforcement_mode := ''mcp_gateway'', availability := ''ready'',
     origins := [\<lparr>om_scheme = ''http'', om_host = ''a.io'', om_port = 80, om_path_prefix = ''/''\<rparr>]\<rparr>"

definition sample_router :: router where
  "sample_router = \<lparr>rt_client = True, rt_base = ''https://x.io'', rt_canonicalize = (\<lambda>s. Inr s), rt_sha256 = take 1\<rparr>"

definition flow_to :: "runtime_route \<Rightarrow> flow \<Rightarrow> flow" where
  "flow_to route f = f\<lparr>fl_dst := ''a.io:80'', fl_dst_host := ''a.io'', fl_svid := ''t'',
     fl_req := Some (post_json sample_call), fl_routes := Some (zero_routes\<lparr>routes := [route]\<rparr>)\<rparr>"

text \<open>
  C5. A request of a session with routes goes upstream as it came only if no route covers its
  origin, or if the one route for it is ready, is an MCP route whose upstream needs no credential,
  and the request is a lifecycle method or a bare GET, HEAD or DELETE. In particular, on a managed
  origin a \<open>tools/call\<close>, a \<open>resources/read\<close>, and anything for a provider never pass, and
  passing a request through sends nothing to the control plane.
\<close>

theorem pass_through_only:
  assumes "handle r parent f w = Some (owned, acts, w')" and "Pass_Through \<in> set acts" and "fl_routes f = Some rs"
  shows "acts = [Pass_Through] \<and> w' = w
    \<and> (manages_origin rs (flow_scheme f) (dst_host f) (dst_port f) \<longrightarrow>
       (\<exists>route. routes_for rs (flow_scheme f) (dst_host f) (dst_port f) (request_path f) = [route]
          \<and> availability route = ''ready'' \<and> enforcement_mode route \<in> {''mcp_gateway'', ''mcp_kit_reader''}
          \<and> \<not> requires_upstream_auth route
          \<and> (fl_mcp_method f \<in> set lifecycle_methods
             \<or> fl_mcp_method f = [] \<and> request_method f \<in> {''GET'', ''HEAD'', ''DELETE''}))
       \<and> fl_mcp_method f \<notin> {''tools/call'', ''resources/read''})"
  using assms(3)
proof (cases rule: handle_cases [where r = r and parent = parent and w = w])
  case (Settled a w'')
  with assms show ?thesis by auto
next
  case Passed
  have "''tools/call'' \<notin> set lifecycle_methods" "''resources/read'' \<notin> set lifecycle_methods"
    by (simp_all add: lifecycle_methods_def)
  with Passed assms show ?thesis
    by (auto simp: passes_routes_def passes_route_def mcp_passthrough_reason_def split: list.splits if_splits)
qed

lemma pass_through_only_witness:
  "fl_mcp_method (flow_to open_route (zero_flow\<lparr>fl_mcp_method := ''ping''\<rparr>)) \<noteq> ''tools/call''
   \<and> handle sample_router None (flow_to open_route (zero_flow\<lparr>fl_mcp_method := ''ping''\<rparr>)) approving_world
     = Some (True, [Pass_Through], approving_world)"
proof -
  let ?f = "flow_to open_route (zero_flow\<lparr>fl_mcp_method := ''ping''\<rparr>)" and ?rs = "zero_routes\<lparr>routes := [open_route]\<rparr>"
  have rs: "fl_routes ?f = Some ?rs" by (simp add: flow_to_def)
  have go: "rt_client sample_router \<and> passes_routes ?f ?rs"
    and managed: "manages_origin ?rs (flow_scheme ?f) (dst_host ?f) (dst_port ?f)" by code_simp+
  from rs have h: "handle sample_router None ?f approving_world = Some (True, [Pass_Through], approving_world)"
    using go by (cases rule: handle_cases [where r = sample_router and parent = None and w = approving_world]) auto
  from pass_through_only [OF h _ rs] managed have "fl_mcp_method ?f \<notin> {''tools/call'', ''resources/read''}" by simp
  with h show ?thesis by simp
qed


lemma request_id_world:
  "new_runtime_request_id w = (rid, w1) \<Longrightarrow> wd_calls w1 = wd_calls w \<and> wd_reply w1 = wd_reply w \<and> wd_sent w1 = wd_sent w"
  by (auto simp: new_runtime_request_id_def split: option.splits)

lemma reject_no_respond: "reject_runtime e w = Some (acts, w') \<Longrightarrow> Respond p \<notin> set acts"
  by (auto simp: reject_runtime_def)

lemma provider_executor_call:
  assumes "handle_provider_executor r parent f route w = Some (acts, w')" and "Respond p \<in> set acts"
  obtains resource body rid w1 lbl un ng rf where
    "governed_call (execute_provider_request r parent f route (provider_request f route resource body rid)) px_decision
       (router_wait_for_approval r parent (fl_svid f) rid) un ng rf (answer_provider lbl) w1 = Some (acts, w')"
    and "new_runtime_request_id w = (rid, w1)"
    and "resource \<in> set (resources route)" and "resource_availability resource = ''ready''"
proof -
  have mem: "runtime_resource_for_target route t = Some x \<Longrightarrow> x \<in> set (resources route)" for t x
    by (auto simp: runtime_resource_for_target_def dest!: resource_by_key_Some)
  obtain rid w1 where id: "new_runtime_request_id w = (rid, w1)" by (cases "new_runtime_request_id w")
  from assms id show thesis
    by (auto simp: handle_provider_executor_def dest: reject_no_respond intro: that mem
        split: if_splits sum.splits prod.splits option.splits)
qed


lemma gateway_call_of:
  assumes "handle_mcp_gateway r parent f route w = Some (acts, w')" and "Respond p \<in> set acts"
  obtains a resource message rid w1 where "fl_mcp_action f = Some a" and "action_resource route a = Inr resource"
    and "mcp_gateway_message_of f = Inr message" and "new_runtime_request_id w = (rid, w1)"
    and "governed_call (execute_gateway_request r parent f route (gateway_request route resource message rid)) mg_decision
       (router_wait_for_approval r parent (fl_svid f) rid) ''MCP gateway unavailable'' ''MCP approval was not granted''
       ''MCP gateway unavailable after approval'' answer_gateway w1 = Some (acts, w')"
proof -
  obtain rid w1 where id: "new_runtime_request_id w = (rid, w1)" by (cases "new_runtime_request_id w")
  from assms id that show thesis
    by (auto simp: handle_mcp_gateway_def dest: reject_no_respond split: if_splits sum.splits prod.splits)
qed

text \<open>A ready slack channel and a ready tool, replies that allow, and a world that answers with one.\<close>

definition json_pair :: "string \<Rightarrow> string \<Rightarrow> string" where
  "json_pair k v = json_q k @ '':'' @ v"

definition allow_reply :: "string \<Rightarrow> string \<Rightarrow> string" where
  "allow_reply field output = json_object [(''schema_version'', ''1''), (''request_id'', json_q ''cli-''),
     (''decision'', json_object [(''schema_version'', ''1''), (''request_id'', json_q ''cli-''), (''decision'', json_q ''allow'')]),
     (''execution_status'', json_q ''succeeded''), (field, output)]"

definition replying_world :: "string \<Rightarrow> world" where
  "replying_world body = approving_world\<lparr>wd_reply := (\<lambda>_. Reply 5 200 (Inr body)), wd_random := (\<lambda>_. Some [])\<rparr>"

definition slack_route :: runtime_route where
  "slack_route = zero_route\<lparr>provider := ''slack'', enforcement_mode := ''provider_executor'', availability := ''ready'',
     runtime_endpoint_path := ''/v1/runtime/e'',
     resources := [zero_resource\<lparr>resource_type := ''slack.channel'', resource_id := ''r'', resource_availability := ''ready'',
       routing_keys := [\<lparr>key_type = ''slack.channel_id'', key_value = ''C12345678''\<rparr>]\<rparr>]\<rparr>"

definition slack_flow :: flow where
  "slack_flow = (flow_to slack_route zero_flow)\<lparr>fl_tool_params := json_object [(''channel'', json_q ''C12345678'')]\<rparr>"

definition slack_reply :: string where
  "slack_reply = allow_reply ''provider_response'' (json_object [(''status'', ''200'')])"

definition tool_route :: runtime_route where
  "tool_route = zero_route\<lparr>enforcement_mode := ''mcp_gateway'', availability := ''ready'', requires_upstream_auth := True,
     runtime_endpoint_path := ''/v1/runtime/e'', kit_action_token_endpoint_path := ''/v1/runtime/k'',
     resources := [zero_resource\<lparr>resource_type := ''mcp.tool'', external_id := ''t'', resource_availability := ''ready'',
       routing_keys := [\<lparr>key_type = ''mcp.tool_name'', key_value = ''t''\<rparr>]\<rparr>]\<rparr>"

definition tool_flow :: flow where
  "tool_flow = (flow_to tool_route zero_flow)\<lparr>fl_mcp_method := ''tools/call'', fl_mcp_request_id := ''7'',
     fl_mcp_action := Some \<lparr>ma_action_type = ''mcp.tool.call'', ma_action_name = ''t'', ma_resource_type = ''mcp.tool'',
       ma_routing_key_type = ''mcp.tool_name'', ma_routing_value = ''t'', ma_parameters = None\<rparr>\<rparr>"

definition tool_reply :: string where
  "tool_reply = allow_reply ''mcp_response''
     (json_object [(''jsonrpc'', json_q ''2.0''), (''id'', ''7''), (''result'', ''1'')])"

definition token_reply :: string where
  "token_reply = json_object [(''schema_version'', ''1''), (''kit_action_token'', json_q ''k''),
     (''expires_at'', json_q ''2000-03-01T01:00:00Z'')]"

lemma governed_direct:
  "execute w = (Inr r, w1) \<Longrightarrow> rd_decision (decision r) \<noteq> ''approval_required'' \<Longrightarrow>
     governed_call execute decision wait un ng rf answer w = Some (answer r, w1)"
  by (simp add: governed_call_def)

definition settled_ok :: "('r \<Rightarrow> runtime_decision) \<Rightarrow> ('r \<Rightarrow> dp_action list) \<Rightarrow> 'r result \<times> world \<Rightarrow> bool" where
  "settled_ok decision answer rw \<longleftrightarrow> (case fst rw of Inl _ \<Rightarrow> False
     | Inr r \<Rightarrow> rd_decision (decision r) \<noteq> ''approval_required''
         \<and> (case answer r of [Respond _] \<Rightarrow> True | _ \<Rightarrow> False))"

lemma settled_respond:
  assumes "settled_ok decision answer (execute w)"
  shows "\<exists>p w'. governed_call execute decision wait un ng rf answer w = Some ([Respond p], w')"
  using assms by (cases "execute w")
    (auto simp: settled_ok_def governed_direct split: sum.splits list.splits dp_action.splits)

lemma replying_id:
  "new_runtime_request_id (replying_world body) = (''cli-'', (replying_world body)\<lparr>wd_draws := 1\<rparr>)"
  by (simp add: new_runtime_request_id_def replying_world_def approving_world_def hex_encode_def)

abbreviation (input) slack_target :: provider_target where
  "slack_target \<equiv> \<lparr>pt_label = ''Slack'', pt_resource_type = ''slack.channel'', pt_key_type = ''slack.channel_id'',
     pt_value = ''C12345678'', pt_fold = False\<rparr>"

definition slack_request :: provider_execution_request where
  "slack_request = provider_request slack_flow slack_route (hd (resources slack_route))
     (Some [(''channel'', AStr ''C12345678'')]) ''cli-''"

lemma slack_answered:
  "\<exists>p w'. handle_provider_executor sample_router None slack_flow slack_route (replying_world slack_reply) = Some ([Respond p], w')"
proof -
  have r: "provider slack_route = ''slack''" "fl_metadata_error slack_flow = []"
    "runtime_resource_for_target slack_route slack_target = Some (hd (resources slack_route))"
    "resource_type (hd (resources slack_route)) = ''slack.channel''"
    "resource_availability (hd (resources slack_route)) = ''ready''"
    "resolve_provider_execution_target ''slack'' slack_flow = Inr (slack_target, Some [(''channel'', AStr ''C12345678'')])"
    by code_simp+
  have "settled_ok px_decision (answer_provider ''Slack'') (execute_provider_request sample_router None slack_flow slack_route
     slack_request ((replying_world slack_reply)\<lparr>wd_draws := 1\<rparr>))" by code_simp
  from settled_respond [of px_decision "answer_provider ''Slack''"
      "execute_provider_request sample_router None slack_flow slack_route slack_request", OF this]
  show ?thesis by (simp add: handle_provider_executor_def r replying_id slack_request_def)
qed

definition tool_message :: mcp_gateway_message where
  "tool_message = \<lparr>gm_jsonrpc = ''2.0'', gm_id = ''7'', gm_method = ''tools/call'',
     gm_params = \<lparr>gp_name = ''t'', gp_arguments = None, gp_uri = []\<rparr>\<rparr>"

lemma tool_answered:
  "\<exists>p w'. handle_mcp_gateway sample_router None tool_flow tool_route (replying_world tool_reply) = Some ([Respond p], w')"
proof -
  have r: "fl_metadata_error tool_flow = []" "fl_mcp_request_id tool_flow = ''7''"
    "fl_mcp_action tool_flow \<noteq> None"
    "action_resource tool_route (the (fl_mcp_action tool_flow)) = Inr (hd (resources tool_route))"
    "mcp_gateway_message_of tool_flow = Inr tool_message" by code_simp+
  have "settled_ok mg_decision answer_gateway (execute_gateway_request sample_router None tool_flow tool_route
     (gateway_request tool_route (hd (resources tool_route)) tool_message ''cli-'')
     ((replying_world tool_reply)\<lparr>wd_draws := 1\<rparr>))" by code_simp
  from settled_respond [of mg_decision answer_gateway
      "execute_gateway_request sample_router None tool_flow tool_route
        (gateway_request tool_route (hd (resources tool_route)) tool_message ''cli-'')", OF this]
  show ?thesis using r(3) by (auto simp: handle_mcp_gateway_def r replying_id)
qed

text \<open>
  C4. Provider output reaches the agent only under an allow decision for this very request: the
  last reply the router read is a validated execution of the request id it drew, decided
  \<open>allow\<close>, whose output is what is relayed; the request executed names a ready resource that the
  session's route selects; and if the execution was not immediate, the first reply asked for an
  approval of the same request and a later one granted it.
\<close>

theorem provider_output_decided:
  assumes "handle_provider_executor r parent f route w = Some (acts, w')" and "Respond p \<in> set acts"
  shows "\<exists>rid resource body i res. rid = fst (new_runtime_request_id w)
    \<and> resource \<in> set (resources route) \<and> resource_availability resource = ''ready''
    \<and> wd_calls w' = Suc i \<and> execution_reply w rid i res
    \<and> rd_decision (px_decision res) = ''allow'' \<and> px_provider_response res = Some p
    \<and> Inr (hq_body (last (wd_sent w'))) = marshal_provider_request (provider_request f route resource body rid)
    \<and> (i = wd_calls w \<or> (\<exists>first. execution_reply w rid (wd_calls w) first
         \<and> rd_decision (px_decision first) = ''approval_required''
         \<and> wd_calls w < i - 1 \<and> approval_reply w rid (i - 1)))"
proof -
  obtain resource body rid w1 lbl un ng rf where
    call: "governed_call (execute_provider_request r parent f route (provider_request f route resource body rid)) px_decision
       (router_wait_for_approval r parent (fl_svid f) rid) un ng rf (answer_provider lbl) w1 = Some (acts, w')"
    and id: "new_runtime_request_id w = (rid, w1)"
    and res: "resource \<in> set (resources route)" "resource_availability resource = ''ready''"
    using provider_executor_call [OF assms] .
  have same: "wd_reply w1 = wd_reply w" "wd_calls w1 = wd_calls w" using request_id_world [OF id] by simp_all
  from provider_call.governed_respond [of r parent f route "provider_request f route resource body rid", unfolded request_ids,
      OF call assms(2)]
  obtain i result where "wd_calls w' = Suc i \<and> execution_reply w1 rid i result \<and> Respond p \<in> set (answer_provider lbl result)
    \<and> rd_decision (px_decision result) = ''allow''
    \<and> Inr (hq_body (last (wd_sent w'))) = marshal_provider_request (provider_request f route resource body rid)
    \<and> (i = wd_calls w1 \<or> (\<exists>first. execution_reply w1 rid (wd_calls w1) first
         \<and> rd_decision (px_decision first) = ''approval_required''
         \<and> wd_calls w1 < i - 1 \<and> approval_reply w1 rid (i - 1)))" by blast
  with res id same show ?thesis
    by (intro exI [of _ rid] exI [of _ resource] exI [of _ body] exI [of _ i] exI [of _ result])
      (auto simp: reply_same [OF same(1)] dest: answer_provider_respond)
qed


lemma provider_output_decided_witness:
  "\<exists>p w' i res. handle_provider_executor sample_router None slack_flow slack_route (replying_world slack_reply) = Some ([Respond p], w')
     \<and> execution_reply (replying_world slack_reply) ''cli-'' i res \<and> rd_decision (px_decision res) = ''allow''"
proof -
  obtain p w' where h: "handle_provider_executor sample_router None slack_flow slack_route (replying_world slack_reply)
      = Some ([Respond p], w')" using slack_answered by blast
  from provider_output_decided [OF h, of p] h show ?thesis by (auto simp: replying_id)
qed

text \<open>
  C13. The same for the MCP gateway: an upstream reply reaches the agent only under an allow decision
  for this request, after an approval of it where one was asked; the action is the one read from the
  request, on a ready resource that the session's route selects under that very name; and what is
  relayed is a JSON-RPC reply to the id of the call.
\<close>

theorem gateway_output_decided:
  assumes "handle_mcp_gateway r parent f route w = Some (acts, w')" and "Respond p \<in> set acts"
  shows "\<exists>rid a resource message i res m body. rid = fst (new_runtime_request_id w)
    \<and> fl_mcp_action f = Some a \<and> action_resource route a = Inr resource
    \<and> resource \<in> set (resources route) \<and> external_id resource = ma_routing_value a
    \<and> wd_calls w' = Suc i \<and> gateway_reply w rid (gm_id message) i res
    \<and> rd_decision (mg_decision res) = ''allow'' \<and> mg_mcp_response res = Some m \<and> jsonrpc_ok m (gm_id message)
    \<and> marshal_jsonrpc_response m = Inr body \<and> p = answer_json body
    \<and> Inr (hq_body (last (wd_sent w'))) = marshal_gateway_request (gateway_request route resource message rid)
    \<and> (i = wd_calls w \<or> (\<exists>first. gateway_reply w rid (gm_id message) (wd_calls w) first
         \<and> rd_decision (mg_decision first) = ''approval_required''
         \<and> wd_calls w < i - 1 \<and> approval_reply w rid (i - 1)))"
proof -
  obtain a resource message rid w1 where a: "fl_mcp_action f = Some a" "action_resource route a = Inr resource"
    and id: "new_runtime_request_id w = (rid, w1)"
    and call: "governed_call (execute_gateway_request r parent f route (gateway_request route resource message rid)) mg_decision
       (router_wait_for_approval r parent (fl_svid f) rid) ''MCP gateway unavailable'' ''MCP approval was not granted''
       ''MCP gateway unavailable after approval'' answer_gateway w1 = Some (acts, w')"
    using gateway_call_of [OF assms] .
  have msg: "gq_message (gateway_request route resource message rid) = message" by (simp add: gateway_request_def)
  have same: "wd_reply w1 = wd_reply w" "wd_calls w1 = wd_calls w" using request_id_world [OF id] by simp_all
  have sel: "resource \<in> set (resources route)" "external_id resource = ma_routing_value a"
    using a(2) by (auto simp: action_resource_def split: option.splits if_splits dest: resource_by_key_Some)
  from gateway_call.governed_respond [of r parent f route "gateway_request route resource message rid", unfolded request_ids msg,
      OF call assms(2)]
  obtain i result where call_i: "wd_calls w' = Suc i \<and> gateway_reply w1 rid (gm_id message) i result
    \<and> Respond p \<in> set (answer_gateway result) \<and> rd_decision (mg_decision result) = ''allow''
    \<and> Inr (hq_body (last (wd_sent w'))) = marshal_gateway_request (gateway_request route resource message rid)
    \<and> (i = wd_calls w1 \<or> (\<exists>first. gateway_reply w1 rid (gm_id message) (wd_calls w1) first
         \<and> rd_decision (mg_decision first) = ''approval_required''
         \<and> wd_calls w1 < i - 1 \<and> approval_reply w1 rid (i - 1)))" by blast
  then obtain m body where m: "mg_mcp_response result = Some m" "marshal_jsonrpc_response m = Inr body" "p = answer_json body"
    by (auto dest: answer_gateway_respond)
  have "jsonrpc_ok m (gm_id message)" using call_i m(1)
    by (auto simp: gateway_reply_def dest!: decode_response_ok validate_gateway_jsonrpc validate_jsonrpc_ok)
  with a id sel same call_i m show ?thesis
    by (intro exI [of _ rid] exI [of _ a] exI [of _ resource] exI [of _ message] exI [of _ i] exI [of _ result]
        exI [of _ m] exI [of _ body]) (auto simp: reply_same [OF same(1)])
qed

lemma gateway_output_decided_witness:
  "\<exists>p w' i res jid. handle_mcp_gateway sample_router None tool_flow tool_route (replying_world tool_reply) = Some ([Respond p], w')
     \<and> gateway_reply (replying_world tool_reply) ''cli-'' jid i res \<and> rd_decision (mg_decision res) = ''allow''"
proof -
  obtain p w' where h: "handle_mcp_gateway sample_router None tool_flow tool_route (replying_world tool_reply)
      = Some ([Respond p], w')" using tool_answered by blast
  from gateway_output_decided [OF h, of p] h show ?thesis by (auto simp: replying_id)
qed

text \<open>
  C14. A KIT action token put into a request was minted for that request's action: the request to
  mint it, the only one sent, carries the intent of the action read from the flow, on a ready
  resource the route selects under the name the action has, hashed after canonicalization, and the
  reply is a checked token that has not expired.
\<close>

theorem action_token_minted_for_action:
  assumes "handle_mcp_kit_reader r parent f route w = Some (acts, w')" and "Inject_MCP_Action_Token token \<in> set acts"
  shows "\<exists>a resource request result. fl_mcp_action f = Some a \<and> fl_metadata_error f = []
    \<and> resource \<in> set (resources route) \<and> resource_availability resource = ''ready''
    \<and> external_id resource = ma_routing_value a \<and> resource_type resource = ma_resource_type a
    \<and> new_mint_request (rt_canonicalize r) (rt_sha256 r) (fst (new_runtime_request_id w))
        (action_intent route a resource) = Inr request
    \<and> length (wd_sent w') = Suc (length (wd_sent w))
    \<and> Inr (hq_body (last (wd_sent w'))) = marshal_mint_request request
    \<and> check_kit_action_token (wd_now w') result = Inr () \<and> kt_token result = token"
proof -
  obtain rid w1 where id: "new_runtime_request_id w = (rid, w1)" by (cases "new_runtime_request_id w")
  from assms id obtain a resource request result where a: "fl_mcp_action f = Some a" "fl_metadata_error f = []"
    and res: "action_resource route a = Inr resource"
    and rq: "new_mint_request (rt_canonicalize r) (rt_sha256 r) rid (action_intent route a resource) = Inr request"
    and mint: "mint_kit_action_token (with_timeout parent runtime_call_timeout w1) (rt_base r) (fl_svid f)
        (kit_action_token_endpoint_path route) request w1 = (Inr result, w')"
    and tok: "kt_token result = token"
    by (auto simp: handle_mcp_kit_reader_def reject_runtime_def Let_def split: if_splits sum.splits prod.splits)
  have sel: "resource \<in> set (resources route)" "resource_availability resource = ''ready''"
      "external_id resource = ma_routing_value a" "resource_type resource = ma_resource_type a"
    using res by (auto simp: action_resource_def split: option.splits if_splits dest: resource_by_key_Some)
  from mint_token_answered [OF mint] request_id_world [OF id]
  have "length (wd_sent w') = Suc (length (wd_sent w))" "Inr (hq_body (last (wd_sent w'))) = marshal_mint_request request"
    "check_kit_action_token (wd_now w') result = Inr ()" by (auto simp: answered_def)
  with a sel rq id tok show ?thesis
    by (intro exI [of _ a] exI [of _ resource] exI [of _ request] exI [of _ result]) simp
qed

definition tool_mint :: mint_kit_action_token_request where
  "tool_mint = \<lparr>mk_schema_version = schema_version, mk_request_id = ''cli-'',
     mk_request_hash = ''sha256:'' @ hex_encode ''{'',
     mk_intent = action_intent tool_route (the (fl_mcp_action tool_flow)) (hd (resources tool_route))\<rparr>"

lemma token_minted:
  "\<exists>t w'. handle_mcp_kit_reader sample_router None tool_flow tool_route (replying_world token_reply)
     = Some ([Inject_MCP_Action_Token t], w')"
proof -
  let ?w = "(replying_world token_reply)\<lparr>wd_draws := 1\<rparr>"
  have r: "fl_metadata_error tool_flow = []" "fl_mcp_request_id tool_flow = ''7''"
    "action_resource tool_route (the (fl_mcp_action tool_flow)) = Inr (hd (resources tool_route))"
    "fl_mcp_action tool_flow \<noteq> None" by code_simp+
  have rq: "new_mint_request (rt_canonicalize sample_router) (rt_sha256 sample_router) ''cli-''
      (action_intent tool_route (the (fl_mcp_action tool_flow)) (hd (resources tool_route))) = Inr tool_mint"
    by (simp add: new_mint_request_def tool_mint_def sample_router_def marshal_intent_def json_object_def)
  have "is_ok (fst (mint_kit_action_token (with_timeout None runtime_call_timeout ?w) (rt_base sample_router)
      (fl_svid tool_flow) (kit_action_token_endpoint_path tool_route) tool_mint ?w))" by code_simp
  then obtain res w' where "mint_kit_action_token (with_timeout None runtime_call_timeout ?w) (rt_base sample_router)
      (fl_svid tool_flow) (kit_action_token_endpoint_path tool_route) tool_mint ?w = (Inr res, w')"
    by (auto simp: is_ok_iff dest: eq_fst_iff [THEN iffD1, OF sym])
  with r(4) show ?thesis by (auto simp: handle_mcp_kit_reader_def r(1-3) Let_def replying_id rq)
qed

lemma action_token_minted_for_action_witness:
  "\<exists>acts w'. handle_mcp_kit_reader sample_router None tool_flow tool_route (replying_world token_reply) = Some (acts, w')
     \<and> length (wd_sent w') = 1"
proof -
  obtain t w' where h: "handle_mcp_kit_reader sample_router None tool_flow tool_route (replying_world token_reply)
      = Some ([Inject_MCP_Action_Token t], w')" using token_minted by blast
  from action_token_minted_for_action [OF h, of t]
  have "length (wd_sent w') = Suc (length (wd_sent (replying_world token_reply)))" by auto
  moreover have "wd_sent (replying_world token_reply) = []" by (simp add: replying_world_def approving_world_def)
  ultimately show ?thesis using h by simp
qed

text \<open>
  C36. A request whose metadata could not be read is never governed by guesswork: no call is made for
  it, and unless it is a request the routes pass through anyway, it is refused or gets one of
  the two fixed local answers.
\<close>

theorem unreadable_metadata_not_executed:
  assumes "fl_metadata_error f \<noteq> []" and "handle r parent f w = Some (True, acts, w')"
  shows "wd_sent w' = wd_sent w \<and> (acts = [Pass_Through] \<or> (\<exists>reason. acts = [Reject reason])
    \<or> acts = [Respond answer_no_oauth] \<or> acts = [Respond answer_no_mcp_stream])"
proof -
  have route: "handle_route r parent f route w = Some (acts, w') \<Longrightarrow> wd_sent w' = wd_sent w
     \<and> (acts = [Pass_Through] \<or> (\<exists>reason. acts = [Reject reason]) \<or> acts = [Respond answer_no_mcp_stream])" for route
    using assms(1) by (auto simp: handle_route_def handle_provider_executor_def handle_mcp_gateway_def
        handle_mcp_session_def handle_mcp_kit_reader_def reject_runtime_def split: if_splits option.splits)
  from assms(2) obtain rs where "handle_routes r parent f rs w = Some (acts, w')"
    by (auto simp: handle_def split: option.splits)
  with route show ?thesis
    by (auto simp: handle_routes_def reject_runtime_def split: if_splits list.splits)
qed

lemma unreadable_metadata_not_executed_witness:
  "\<exists>acts w'. handle sample_router None (flow_to open_route (zero_flow\<lparr>fl_metadata_error := ''e''\<rparr>)) approving_world
      = Some (True, acts, w') \<and> wd_sent w' = []"
proof -
  let ?f = "flow_to open_route (zero_flow\<lparr>fl_metadata_error := ''e''\<rparr>)"
  have rs: "fl_routes ?f = Some (zero_routes\<lparr>routes := [open_route]\<rparr>)" by (simp add: flow_to_def)
  obtain acts w' where h: "handle sample_router None ?f approving_world = Some (True, acts, w')"
    by (cases rule: handle_cases [OF rs, where r = sample_router and parent = None and w = approving_world]) blast+
  have "fl_metadata_error ?f \<noteq> []" by (simp add: flow_to_def)
  from unreadable_metadata_not_executed [OF this h] h show ?thesis by (simp add: approving_world_def)
qed


section \<open>Keys that differ in case\<close>

definition two_methods :: string where
  "two_methods = json_object [(''jsonrpc'', json_q ''2.0''), (''method'', json_q ''tools/call''), (''Method'', json_q ''tools/list'')]"

definition two_methods_flow :: flow where
  "two_methods_flow = (flow_to open_route (fst (apply_request_metadata zero_flow (post_json two_methods))))
     \<lparr>fl_req := Some (post_json two_methods)\<rparr>"

text \<open>
  C37. Duplicate keys are refused so that a policy and a provider cannot read a body differently, but
  the walk compares keys exactly while Go's decoder also accepts a key in another case. On this body
  the metadata reads \<open>Method\<close> and passes the request through as a listing, with no decision; the
  body that goes upstream unchanged says \<open>tools/call\<close> under \<open>method\<close>.
\<close>

theorem case_variant_method_passes:
  "apply_request_metadata zero_flow (post_json two_methods)
     = (fst (apply_request_metadata zero_flow (post_json two_methods)), post_json two_methods, [])
   \<and> any_at [''method''] (to_any (the (parse_json two_methods))) = Some (AStr ''tools/call'')
   \<and> handle sample_router None two_methods_flow approving_world = Some (True, [Pass_Through], approving_world)"
proof -
  let ?rs = "zero_routes\<lparr>routes := [open_route]\<rparr>"
  have rs: "fl_routes two_methods_flow = Some ?rs" by (simp add: two_methods_flow_def flow_to_def)
  have meta: "snd (snd (apply_request_metadata zero_flow (post_json two_methods))) = []"
    and upstream: "any_at [''method''] (to_any (the (parse_json two_methods))) = Some (AStr ''tools/call'')"
    and go: "rt_client sample_router \<and> passes_routes two_methods_flow ?rs" by code_simp+
  have "handle sample_router None two_methods_flow approving_world = Some (True, [Pass_Through], approving_world)"
    using go by (cases rule: handle_cases [OF rs, where r = sample_router and parent = None and w = approving_world]) auto
  moreover obtain f' req' e where r: "apply_request_metadata zero_flow (post_json two_methods) = (f', req', e)"
    by (cases "apply_request_metadata zero_flow (post_json two_methods)")
  ultimately show ?thesis using meta upstream request_metadata_body [of zero_flow "post_json two_methods" f' req'] by simp
qed

end
