(* ===== verification/Registry.thy ===== *)
theory Registry
  imports Flow
begin

text \<open>
  \<^verbatim>\<open>internal/node/attest\<close>: the registry that maps a platform handle to a registered session,
  and the walk up the process tree that verifies who connected. The registry is an association list
  with one entry per handle; its lock makes every operation atomic, so each is a function. Lemmas:
  the registry implements a finite map from handles to sessions, a swap never brings back a session
  that was taken, the walk up the process tree is exactly reachability by at most 64 parent links.
\<close>

section \<open>The session registry\<close>

record session =
  se_handle :: string
  se_spiffe_id :: string
  se_svid :: string
  se_blueprint :: string
  se_agent_id :: string
  se_ulid :: string
  se_expires_at :: string
  se_session_id :: string
  se_issued_at :: "int option"
  se_routes :: "runtime_routes option"
  se_owner_pid :: int
  se_owner_managed :: bool
  se_owner_identity :: string

type_synonym registry = "(string \<times> session) list"

definition register :: "session \<Rightarrow> registry \<Rightarrow> registry" where
  "register s r = assoc_set (se_handle s) s r"

definition unregister :: "string \<Rightarrow> registry \<Rightarrow> registry" where
  "unregister h r = filter (\<lambda>(k, _). k \<noteq> h) r"

definition take_session :: "string \<Rightarrow> registry \<Rightarrow> session option \<times> registry" where
  "take_session h r = (case map_of r h of None \<Rightarrow> (None, r) | Some s \<Rightarrow> (Some s, unregister h r))"

definition set_owner :: "string \<Rightarrow> int \<Rightarrow> bool \<Rightarrow> string \<Rightarrow> registry \<Rightarrow> bool \<times> registry" where
  "set_owner h pid managed identity r =
     (case map_of r h of
        None \<Rightarrow> (False, r)
      | Some s \<Rightarrow> (True, assoc_set h
          (s\<lparr>se_owner_pid := pid, se_owner_managed := managed, se_owner_identity := identity\<rparr>) r))"

definition lookup_session :: "string \<Rightarrow> registry \<Rightarrow> session option" where
  "lookup_session h r = map_of r h"

text \<open>\<open>Snapshot\<close>; the order of the source's map iteration is unspecified, here it is the list's.\<close>

definition snapshot :: "registry \<Rightarrow> session list" where
  "snapshot r = map snd r"

text \<open>
  \<open>ReplaceWith\<close>: swap only if the handle still points at the expected ULID, and run \<open>persist\<close>
  on the durable state under the lock. Returns whether it swapped and \<open>persist\<close>'s error.
\<close>

definition replace_with ::
  "string \<Rightarrow> string \<Rightarrow> session \<Rightarrow> ('d \<Rightarrow> unit result \<times> 'd) option \<Rightarrow> registry \<Rightarrow> 'd
     \<Rightarrow> (bool \<times> unit result) \<times> registry \<times> 'd"
where
  "replace_with h ulid next persist r d =
     (case map_of r h of
        None \<Rightarrow> ((False, Inr ()), r, d)
      | Some current \<Rightarrow>
          if se_ulid current \<noteq> ulid then ((False, Inr ()), r, d)
          else (case persist of
            None \<Rightarrow> ((True, Inr ()), assoc_set h next r, d)
          | Some p \<Rightarrow> (case p d of (e, d') \<Rightarrow> ((True, e), assoc_set h next r, d'))))"

definition replace_session :: "string \<Rightarrow> string \<Rightarrow> session \<Rightarrow> registry \<Rightarrow> bool \<times> registry" where
  "replace_session h ulid next r =
     (case replace_with h ulid next None r () of ((replaced, _), r', _) \<Rightarrow> (replaced, r'))"

definition sole :: "registry \<Rightarrow> session option" where
  "sole r = (if length r = 1 then Some (snd (hd r)) else None)"

text \<open>The registry invariant: one entry per handle, each under its own handle.\<close>

definition registry_ok :: "registry \<Rightarrow> bool" where
  "registry_ok r \<longleftrightarrow> distinct (map fst r) \<and> (\<forall>(h, s)\<in>set r. se_handle s = h)"

section \<open>Who connected\<close>

text \<open>\<open>IsDescendant\<close>: the loop runs at most 64 times.\<close>

fun descendant_loop :: "nat \<Rightarrow> (int \<Rightarrow> int option) \<Rightarrow> int \<Rightarrow> int \<Rightarrow> bool" where
  "descendant_loop 0 parent ancestor pid \<longleftrightarrow> pid = ancestor"
| "descendant_loop (Suc n) parent ancestor pid \<longleftrightarrow>
     (if pid \<le> 1 then pid = ancestor
      else if pid = ancestor then True
      else case parent pid of
        None \<Rightarrow> False
      | Some ppid \<Rightarrow> if ppid \<le> 0 \<or> ppid = pid then False else descendant_loop n parent ancestor ppid)"

definition is_descendant :: "int \<Rightarrow> int \<Rightarrow> (int \<Rightarrow> int option) \<Rightarrow> bool" where
  "is_descendant pid ancestor parent \<longleftrightarrow>
     (if pid \<le> 0 \<or> ancestor \<le> 0 then False else descendant_loop 64 parent ancestor pid)"

section \<open>The interface of a session store\<close>

text \<open>
  What the proxy, the socket and the renewal loop rely on: a store of sessions by handle in which
  writing changes one handle only.
\<close>

locale session_store =
  fixes look :: "string \<Rightarrow> 'reg \<Rightarrow> session option"
    and put :: "session \<Rightarrow> 'reg \<Rightarrow> 'reg"
    and drop_handle :: "string \<Rightarrow> 'reg \<Rightarrow> 'reg"
    and swap :: "string \<Rightarrow> string \<Rightarrow> session \<Rightarrow> 'reg \<Rightarrow> bool \<times> 'reg"
    and ok :: "'reg \<Rightarrow> bool"
  assumes look_put: "look h (put s r) = (if h = se_handle s then Some s else look h r)"
    and look_drop: "look h' (drop_handle h r) = (if h' = h then None else look h' r)"
    and swap_look: "swap h ulid next r = (done, r') \<Longrightarrow>
      done = (case look h r of None \<Rightarrow> False | Some s \<Rightarrow> se_ulid s = ulid) \<and>
      look h' r' = (if h' = h \<and> done then Some next else look h' r)"
    and ok_put: "ok r \<Longrightarrow> ok (put s r)"
    and ok_drop: "ok r \<Longrightarrow> ok (drop_handle h r)"
    and ok_swap: "ok r \<Longrightarrow> se_handle next = h \<Longrightarrow> swap h ulid next r = (done, r') \<Longrightarrow> ok r'"
begin

lemma swap_never_adds:
  assumes "swap h ulid next r = (done, r')" and "look h' r = None"
  shows "look h' r' = None"
  using swap_look [OF assms(1), of h'] assms(2) by (auto split: if_splits)

lemma swap_after_drop: "swap h ulid next (drop_handle h r) = (done, r') \<Longrightarrow> \<not> done \<and> look h r' = None"
  using swap_look [of h ulid "next" "drop_handle h r" "done" r' h] by (simp add: look_drop)

lemma swap_after_other_put:
  "swap (se_handle s) ulid next (put s r) = (done, r') \<Longrightarrow> se_ulid s \<noteq> ulid
     \<Longrightarrow> \<not> done \<and> look (se_handle s) r' = Some s"
  using swap_look [of "se_handle s" ulid "next" "put s r" "done" r' "se_handle s"] by (simp add: look_put)

lemma swap_isolated:
  "swap h ulid next r = (done, r') \<Longrightarrow> h' \<noteq> h \<Longrightarrow> look h' r' = look h' r"
  using swap_look [of h ulid "next" r "done" r' h'] by simp

end

lemma assoc_set_keys: "fst ` set (assoc_set k v m) = insert k (fst ` set m)"
  by (induction k v m rule: assoc_set.induct) auto

lemma assoc_set_distinct: "distinct (map fst m) \<Longrightarrow> distinct (map fst (assoc_set k v m))"
proof (induction k v m rule: assoc_set.induct)
  case (2 k v k' v' m)
  have "k' \<noteq> k \<Longrightarrow> k' \<notin> fst ` set m \<Longrightarrow> k' \<notin> fst ` set (assoc_set k v m)" by (simp add: assoc_set_keys)
  with 2 show ?case by auto
qed simp

lemma set_assoc_set_subset: "set (assoc_set k v m) \<subseteq> insert (k, v) (set m)"
  by (induction k v m rule: assoc_set.induct) auto

lemma registry_ok_assoc_set: "registry_ok r \<Longrightarrow> se_handle s = h \<Longrightarrow> registry_ok (assoc_set h s r)"
  using set_assoc_set_subset [of h s r] by (auto simp: registry_ok_def assoc_set_distinct)

lemma map_of_unregister: "map_of (unregister h r) h' = (if h' = h then None else map_of r h')"
  by (induction r) (auto simp: unregister_def)

lemma registry_ok_unregister: "registry_ok r \<Longrightarrow> registry_ok (unregister h r)"
  by (auto simp: registry_ok_def unregister_def distinct_map intro: inj_on_subset)

lemma replace_cases:
  "replace_session h ulid next r = (done, r') \<Longrightarrow>
     done = (case map_of r h of None \<Rightarrow> False | Some s \<Rightarrow> se_ulid s = ulid)
     \<and> r' = (if done then assoc_set h next r else r)"
  by (auto simp: replace_session_def replace_with_def split: option.splits if_splits)

interpretation registry: session_store lookup_session register unregister replace_session registry_ok
proof unfold_locales
  fix h h' ulid :: string and s "next" :: session and r r' :: registry and "done" :: bool
  show "lookup_session h (register s r) = (if h = se_handle s then Some s else lookup_session h r)"
    by (simp add: lookup_session_def register_def map_of_assoc_set)
  show "lookup_session h' (unregister h r) = (if h' = h then None else lookup_session h' r)"
    by (simp add: lookup_session_def map_of_unregister)
  show "replace_session h ulid next r = (done, r') \<Longrightarrow>
      done = (case lookup_session h r of None \<Rightarrow> False | Some s \<Rightarrow> se_ulid s = ulid) \<and>
      lookup_session h' r' = (if h' = h \<and> done then Some next else lookup_session h' r)"
    by (auto simp: lookup_session_def map_of_assoc_set dest!: replace_cases)
  show "registry_ok r \<Longrightarrow> registry_ok (register s r)"
    by (simp add: register_def registry_ok_assoc_set)
  show "registry_ok r \<Longrightarrow> registry_ok (unregister h r)"
    by (rule registry_ok_unregister)
  show "registry_ok r \<Longrightarrow> se_handle next = h \<Longrightarrow> replace_session h ulid next r = (done, r') \<Longrightarrow> registry_ok r'"
    by (auto simp: registry_ok_assoc_set dest!: replace_cases)
qed

text \<open>The operations that are not in the interface, through the ones that are.\<close>

lemma take_session_eq: "take_session h r = (lookup_session h r, if lookup_session h r = None then r else unregister h r)"
  by (auto simp: take_session_def lookup_session_def split: option.split)

lemma set_owner_look:
  "set_owner h pid m i r = (done, r') \<Longrightarrow> lookup_session h' r' =
     (if h' = h then map_option (\<lambda>s. s\<lparr>se_owner_pid := pid, se_owner_managed := m, se_owner_identity := i\<rparr>) (lookup_session h r)
      else lookup_session h' r)"
  by (auto simp: set_owner_def lookup_session_def map_of_assoc_set split: option.splits)

lemma registry_ok_look: "registry_ok r \<Longrightarrow> lookup_session h r = Some s \<Longrightarrow> se_handle s = h"
  by (auto simp: registry_ok_def lookup_session_def dest!: map_of_SomeD)

lemma set_owner_ok: "registry_ok r \<Longrightarrow> registry_ok (snd (set_owner h pid m i r))"
  by (auto simp: set_owner_def lookup_session_def split: option.split
      intro!: registry_ok_assoc_set dest: registry_ok_look [unfolded lookup_session_def])

lemma snapshot_look: "registry_ok r \<Longrightarrow> s \<in> set (snapshot r) \<longleftrightarrow> lookup_session (se_handle s) r = Some s"
  by (force simp: snapshot_def lookup_session_def registry_ok_def dest: map_of_SomeD)

lemma sole_look: "registry_ok r \<Longrightarrow> sole r = Some s \<longleftrightarrow> snapshot r = [s]"
  by (cases r) (auto simp: sole_def snapshot_def)

section \<open>Walking up\<close>

text \<open>The process \<open>n\<close> parent links above, if every link on the way is a real one.\<close>

fun above :: "(int \<Rightarrow> int option) \<Rightarrow> nat \<Rightarrow> int \<Rightarrow> int option" where
  "above parent 0 pid = Some pid"
| "above parent (Suc n) pid =
     (if pid \<le> 1 then None
      else case parent pid of None \<Rightarrow> None | Some q \<Rightarrow> if q \<le> 0 \<or> q = pid then None else above parent n q)"

lemma descendant_loop_above:
  "descendant_loop n parent ancestor pid \<longleftrightarrow> (\<exists>k\<le>n. above parent k pid = Some ancestor)"
proof (induction n arbitrary: pid)
  case 0
  show ?case by simp
next
  case (Suc n)
  have split: "(\<exists>k\<le>Suc n. P k) \<longleftrightarrow> P 0 \<or> (\<exists>k\<le>n. P (Suc k))" for P :: "nat \<Rightarrow> bool"
    by (metis Suc_le_mono le0 not0_implies_Suc)
  show ?case unfolding split by (auto simp: Suc.IH split: option.splits)
qed

section \<open>Properties\<close>

definition twins :: registry where
  "twins = [(''a'', \<lparr>se_handle = ''a'', se_spiffe_id = ''spiffe://a'', se_svid = ''t'', se_blueprint = ''b'', se_agent_id = ''b'',
     se_ulid = ''u'', se_expires_at = [], se_session_id = ''s'', se_issued_at = None, se_routes = None, se_owner_pid = 0,
     se_owner_managed = False, se_owner_identity = []\<rparr>)]"

text \<open>
  C40. The registry implements a finite map from handles to sessions: every operation does to the
  lookup function what it says and nothing to another handle, and keeps one entry per handle.
  Taking a session returns it and removes it at once; a swap takes place exactly when the handle
  still has the expected ULID, so it never brings back a session that was taken; the sole session is
  there exactly when the snapshot has one element.
\<close>

theorem registry_implements_map:
  assumes "registry_ok r" and "se_handle next = h"
  shows "(\<lambda>x. lookup_session x (register s r)) = (\<lambda>x. lookup_session x r)(se_handle s \<mapsto> s)
    \<and> (\<lambda>x. lookup_session x (unregister h r)) = (\<lambda>x. lookup_session x r)(h := None)
    \<and> take_session h r = (lookup_session h r, if lookup_session h r = None then r else unregister h r)
    \<and> (\<lambda>x. lookup_session x (snd (set_owner h pid m i r))) = (\<lambda>x. lookup_session x r)(h :=
        map_option (\<lambda>s. s\<lparr>se_owner_pid := pid, se_owner_managed := m, se_owner_identity := i\<rparr>) (lookup_session h r))
    \<and> fst (replace_session h ulid next r) = (map_option se_ulid (lookup_session h r) = Some ulid)
    \<and> (\<lambda>x. lookup_session x (snd (replace_session h ulid next r))) =
        (if map_option se_ulid (lookup_session h r) = Some ulid then (\<lambda>x. lookup_session x r)(h \<mapsto> next)
         else (\<lambda>x. lookup_session x r))
    \<and> list_all registry_ok [register s r, unregister h r, snd (set_owner h pid m i r), snd (replace_session h ulid next r)]
    \<and> set (snapshot r) = {s. lookup_session (se_handle s) r = Some s}
    \<and> (sole r = (case snapshot r of [s] \<Rightarrow> Some s | _ \<Rightarrow> None))"
proof -
  obtain moved r1 where so: "set_owner h pid m i r = (moved, r1)" by (cases "set_owner h pid m i r")
  obtain swapped r2 where sw: "replace_session h ulid next r = (swapped, r2)" by (cases "replace_session h ulid next r")
  have "(\<lambda>x. lookup_session x r1) = (\<lambda>x. lookup_session x r)(h :=
        map_option (\<lambda>s. s\<lparr>se_owner_pid := pid, se_owner_managed := m, se_owner_identity := i\<rparr>) (lookup_session h r))"
    by (rule ext) (simp add: set_owner_look [OF so])
  moreover have "swapped = (map_option se_ulid (lookup_session h r) = Some ulid)"
    using registry.swap_look [OF sw] by (auto split: option.splits)
  moreover have "(\<lambda>x. lookup_session x r2) = (if swapped then (\<lambda>x. lookup_session x r)(h \<mapsto> next) else (\<lambda>x. lookup_session x r))"
    using registry.swap_look [OF sw] by (intro ext) simp
  moreover have "registry_ok r1" using set_owner_ok [OF assms(1), of h pid m i] so by simp
  moreover have "registry_ok r2" using registry.ok_swap [OF assms sw] .
  moreover have "set (snapshot r) = {s. lookup_session (se_handle s) r = Some s}"
    using snapshot_look [OF assms(1)] by blast
  moreover have "sole r = (case snapshot r of [s] \<Rightarrow> Some s | _ \<Rightarrow> None)"
    by (cases r rule: remdups_adj.cases) (auto simp: sole_def snapshot_def)
  ultimately show ?thesis using assms(1) so sw
    by (auto simp: registry.look_put registry.look_drop take_session_eq registry.ok_put registry.ok_drop)
qed

lemma registry_implements_map_witness:
  "registry_ok twins \<and> fst (replace_session ''a'' ''u'' (snd (hd twins)) twins)
   \<and> \<not> fst (replace_session ''a'' ''u'' (snd (hd twins)) (unregister ''a'' twins))"
proof -
  have ok: "registry_ok twins" "registry_ok (unregister ''a'' twins)" "se_handle (snd (hd twins)) = ''a''"
    "lookup_session ''a'' twins = Some (snd (hd twins))" "se_ulid (snd (hd twins)) = ''u''"
    "lookup_session ''a'' (unregister ''a'' twins) = None" by code_simp+
  from registry_implements_map [OF ok(1,3), of "snd (hd twins)" 0 False "[]" "''u''"]
    registry_implements_map [OF ok(2,3), of "snd (hd twins)" 0 False "[]" "''u''"] ok show ?thesis by simp
qed

text \<open>
  C25. Peer verification walks real parent links only, and at most 64 of them: a process belongs to
  an owner exactly when the owner is at most 64 parents above it, on a chain of positive process ids
  that never passes through init. In particular the walk ends on a corrupt or cyclic chain.
\<close>

theorem descendant_within_64:
  "is_descendant pid ancestor parent \<longleftrightarrow>
     0 < pid \<and> 0 < ancestor \<and> (\<exists>k\<le>64. above parent k pid = Some ancestor)"
  by (simp add: is_descendant_def descendant_loop_above not_le)

end
