(* ===== verification/Proxy_Scope.thy ===== *)
theory Proxy_Scope
  imports Runtime_Routes Strconv
begin

text \<open>
  \<^verbatim>\<open>internal/proxyscope/scope.go\<close>: which destinations are governed when a session has no routes,
  and the canonical form of a destination that the proxy compares. Lemmas: a canonical destination
  is a host and a port from 1 to 65535 and canonicalization leaves it alone; a scope manages exactly
  the destinations it was configured with, in any spelling.
\<close>

definition mode_all :: string where "mode_all = ''all''"
definition mode_selected :: string where "mode_selected = ''selected''"

text \<open>The origin a URL names: its authority and default port.\<close>

definition url_origin :: "string \<Rightarrow> (string \<times> string) result" where
  "url_origin raw =
     (case parse_url raw of
        None \<Rightarrow> Inl ''invalid managed destination''
      | Some u \<Rightarrow>
          if url_hostname u = [] then Inl ''invalid managed destination''
          else if u_user u \<or> (u_path u \<noteq> [] \<and> u_path u \<noteq> ''/'') \<or> u_raw_query u \<noteq> [] \<or> u_fragment u \<noteq> []
          then Inl ''managed destination contains a path; only origins are supported''
          else if u_scheme u = ''http'' then Inr (u_host u, ''80'')
          else if u_scheme u = ''https'' then Inr (u_host u, ''443'')
          else Inl ''managed destination uses unsupported scheme'')"

definition host_and_port :: "string \<Rightarrow> string \<Rightarrow> (string \<times> string) result" where
  "host_and_port raw default_port =
     (case split_host_port raw of
        Some hp \<Rightarrow> Inr hp
      | None \<Rightarrow>
          if CHR '':'' \<in> set raw then
            (case parse_ip (trim_set ''[]'' raw) of
               Some i \<Rightarrow> Inr (ip_string i, default_port)
             | None \<Rightarrow> Inl ''invalid managed destination: include an explicit port'')
          else Inr (raw, default_port))"

definition canonical_host :: "string \<Rightarrow> string" where
  "canonical_host h = (case parse_ip h of Some i \<Rightarrow> ip_string i | None \<Rightarrow> h)"

definition canonical_destination :: "string \<times> string \<Rightarrow> string result" where
  "canonical_destination hp =
     (let host = trim_suffix (to_lower (trim_space (fst hp))) ''.''; port = snd hp in
      if host = [] \<or> port = [] then Inl ''invalid managed destination''
      else case atoi port of
        None \<Rightarrow> Inl ''invalid managed destination: port must be between 1 and 65535''
      | Some n \<Rightarrow>
          if n < 1 \<or> 65535 < n then Inl ''invalid managed destination: port must be between 1 and 65535''
          else Inr (join_host_port (canonical_host host) (itoa n)))"

definition normalize_destination :: "string \<Rightarrow> string result" where
  "normalize_destination raw0 =
     (let raw = trim_space raw0 in
      if raw = [] then Inl ''managed destination is empty''
      else bind_result (if contains raw ''://'' then url_origin raw else Inr (raw, ''443'')) (\<lambda>(authority, default_port).
        bind_result (host_and_port authority default_port) canonical_destination))"

record scope =
  sc_mode :: string
  sc_destinations :: "string list"

definition add_destination :: "string \<Rightarrow> scope \<Rightarrow> scope result" where
  "add_destination raw s = bind_result (normalize_destination raw) (\<lambda>dst.
     Inr (s\<lparr>sc_destinations := (if dst \<in> set (sc_destinations s) then sc_destinations s else sc_destinations s @ [dst])\<rparr>))"

definition new_scope :: "string \<Rightarrow> string list \<Rightarrow> scope result" where
  "new_scope mode0 destinations =
     (let mode = (if mode0 = [] then mode_all else mode0) in
      if mode \<noteq> mode_all \<and> mode \<noteq> mode_selected then Inl ''unknown proxy scope mode (want all or selected)''
      else for_each add_destination destinations \<lparr>sc_mode = mode, sc_destinations = []\<rparr>)"

text \<open>A nil scope is \<open>None\<close>.\<close>

definition managed :: "scope option \<Rightarrow> string \<Rightarrow> bool" where
  "managed s dst \<longleftrightarrow>
     (case s of None \<Rightarrow> True
      | Some sc \<Rightarrow> sc_mode sc = mode_all \<or>
          (case normalize_destination dst of Inl _ \<Rightarrow> False | Inr canonical \<Rightarrow> canonical \<in> set (sc_destinations sc)))"

definition scope_mode :: "scope option \<Rightarrow> string" where
  "scope_mode s = (case s of None \<Rightarrow> mode_all | Some sc \<Rightarrow> if sc_mode sc = [] then mode_all else sc_mode sc)"

definition scope_destinations :: "scope option \<Rightarrow> string list" where
  "scope_destinations s = (case s of None \<Rightarrow> [] | Some sc \<Rightarrow> sort_on id (sc_destinations sc))"

section \<open>Canonical destinations\<close>

text \<open>A host as DNS names and dotted addresses are written, in canonical form.\<close>

definition plain_char :: "char \<Rightarrow> bool" where
  "plain_char c \<longleftrightarrow> is_lower c \<or> is_digit c \<or> c = CHR ''-'' \<or> c = CHR ''_'' \<or> c = CHR ''.''"

definition plain_host :: "string \<Rightarrow> bool" where
  "plain_host h \<longleftrightarrow> h \<noteq> [] \<and> list_all plain_char h \<and> last h \<noteq> CHR ''.'' \<and> canonical_host h = h"

lemma trim_left_plain:
  assumes "list_all (\<lambda>w. w \<noteq> [] \<and> hd w \<noteq> c) ws"
  shows "trim_left_of ws (c # s) = c # s"
proof -
  have "find (\<lambda>w. w \<noteq> [] \<and> has_prefix (c # s) w) ws = None"
    using assms by (auto simp: find_None_iff list_all_iff has_prefix_iff Cons_eq_append_conv)
  then show ?thesis by (simp add: trim_left_of_def)
qed

definition solid_char :: "char \<Rightarrow> bool" where
  "solid_char c \<longleftrightarrow> plain_char c \<or> is_upper c"

lemma solid_not_space:
  assumes "solid_char c"
  shows "list_all (\<lambda>w. w \<noteq> [] \<and> hd w \<noteq> c) go_spaces" and "list_all (\<lambda>w. w \<noteq> [] \<and> hd w \<noteq> c) (map rev go_spaces)"
proof -
  have "list_all (\<lambda>w. w \<noteq> [] \<and> \<not> solid_char (hd w)) (go_spaces @ map rev go_spaces)" by code_simp
  then have "list_all (\<lambda>w. w \<noteq> [] \<and> hd w \<noteq> c) (go_spaces @ map rev go_spaces)"
    using assms by (auto simp: list_all_iff)
  then show "list_all (\<lambda>w. w \<noteq> [] \<and> hd w \<noteq> c) go_spaces" "list_all (\<lambda>w. w \<noteq> [] \<and> hd w \<noteq> c) (map rev go_spaces)"
    by simp_all
qed

lemma trim_space_solid:
  assumes "s \<noteq> []" and "solid_char (hd s)" and "solid_char (last s)"
  shows "trim_space s = s"
proof -
  obtain c t where s: "s = c # t" using assms(1) by (cases s) auto
  have left: "trim_left_of go_spaces s = s"
    using trim_left_plain [OF solid_not_space(1) [OF assms(2)]] s by simp
  have r: "rev s = last s # rev (butlast s)"
    by (subst append_butlast_last_id [OF assms(1), symmetric]) simp
  have "trim_left_of (map rev go_spaces) (rev s) = rev s"
    unfolding r by (rule trim_left_plain [OF solid_not_space(2) [OF assms(3)]])
  with left show ?thesis by (simp add: trim_space_def)
qed

lemma solid_chars: "solid_char c \<Longrightarrow> c \<noteq> CHR '':'' \<and> c \<noteq> CHR ''['' \<and> c \<noteq> CHR '']'' \<and> c \<noteq> CHR ''/''"
  by (auto simp: solid_char_def plain_char_def is_lower_def is_upper_def is_digit_def byte_def)

lemma digit_solid: "is_digit c \<Longrightarrow> solid_char c"
  by (simp add: solid_char_def plain_char_def)

lemma solid_no_mark: "list_all solid_char s \<Longrightarrow> CHR '':'' \<notin> set s \<and> CHR ''['' \<notin> set s \<and> CHR '']'' \<notin> set s \<and> CHR ''/'' \<notin> set s"
  by (auto simp: list_all_iff dest: solid_chars)

lemma no_scheme: "CHR ''/'' \<notin> set s \<Longrightarrow> \<not> contains s ''://''"
  by (auto simp: contains_iff)

lemma itoa_solid: "0 \<le> n \<Longrightarrow> list_all solid_char (itoa n) \<and> itoa n \<noteq> []"
  using nat_to_dec_digits [of "nat n"] by (auto simp: itoa_def list_all_iff digit_solid)

lemma list_all_ends: "list_all P s \<Longrightarrow> s \<noteq> [] \<Longrightarrow> P (hd s) \<and> P (last s)"
  by (simp add: list_all_iff)

text \<open>The host part of every spelling of a plain host.\<close>

lemma spelled_host:
  assumes "plain_host h" and "to_lower s = h" and "list_all solid_char s" and "dot = [] \<or> dot = ''.''"
  shows "trim_suffix (to_lower (trim_space (s @ dot))) ''.'' = h"
proof -
  from assms(1,2) have ne: "s \<noteq> []" by (auto simp: plain_host_def to_lower_def)
  have "solid_char (hd (s @ dot))" "solid_char (last (s @ dot))"
    using assms(3,4) ne by (auto simp: list_all_iff solid_char_def plain_char_def)
  with ne have "trim_space (s @ dot) = s @ dot" by (intro trim_space_solid) auto
  moreover have "to_lower dot = dot" using assms(4) by (auto simp: to_lower_def lower_char_def is_upper_def byte_def)
  ultimately have "to_lower (trim_space (s @ dot)) = h @ dot" using assms(2) by (simp add: to_lower_def)
  moreover have "\<not> has_suffix h ''.''" using assms(1) by (auto simp: plain_host_def has_suffix_iff)
  ultimately show ?thesis using assms(4) by (auto simp: trim_suffix_def has_suffix_iff)
qed

lemma canonical_plain:
  assumes "plain_host h" and "to_lower s = h" and "list_all solid_char s" and "dot = [] \<or> dot = ''.''"
    and "1 \<le> n" and "n \<le> 65535"
  shows "canonical_destination (s @ dot, itoa n) = Inr (join_host_port h (itoa n))"
proof -
  have "atoi (itoa n) = Some n" using assms(5,6) by (intro atoi_itoa) auto
  moreover have "itoa n \<noteq> []" "h \<noteq> []" "canonical_host h = h" using itoa_solid [of n] assms(1,5) by (simp_all add: plain_host_def)
  ultimately show ?thesis using assms(5,6)
    by (simp add: canonical_destination_def Let_def spelled_host [OF assms(1-4)])
qed

section \<open>What a scope manages\<close>

lemma add_destination_iff: "add_destination raw s = Inr s1 \<longleftrightarrow> (\<exists>d. normalize_destination raw = Inr d \<and>
     s1 = s\<lparr>sc_destinations := (if d \<in> set (sc_destinations s) then sc_destinations s else sc_destinations s @ [d])\<rparr>)"
  by (auto simp: add_destination_def)

lemma add_destinations:
  "for_each add_destination ds s = Inr s' \<Longrightarrow>
     sc_mode s' = sc_mode s \<and> (\<forall>raw\<in>set ds. is_ok (normalize_destination raw))
     \<and> set (sc_destinations s') = set (sc_destinations s) \<union> {d. \<exists>raw\<in>set ds. normalize_destination raw = Inr d}
     \<and> (distinct (sc_destinations s) \<longrightarrow> distinct (sc_destinations s'))"
proof (induction ds arbitrary: s)
  case (Cons raw ds)
  from Cons.prems obtain d where d: "normalize_destination raw = Inr d"
    and rest: "for_each add_destination ds (s\<lparr>sc_destinations :=
      (if d \<in> set (sc_destinations s) then sc_destinations s else sc_destinations s @ [d])\<rparr>) = Inr s'"
    by (auto simp: add_destination_iff)
  from Cons.IH [OF rest] d show ?case by (auto split: if_splits)
qed auto

lemma add_destinations_total:
  "list_all (\<lambda>raw. is_ok (normalize_destination raw)) ds \<Longrightarrow> is_ok (for_each add_destination ds s)"
proof (induction ds arbitrary: s)
  case (Cons raw ds)
  then obtain d where "normalize_destination raw = Inr d" by (auto simp: is_ok_iff)
  with Cons show ?case by (simp add: add_destination_def)
qed simp

section \<open>Properties\<close>

text \<open>
  C26. Every spelling of a destination has one canonical form: upper or lower case, with or without a
  trailing dot, with an explicit port or the default one; and the canonical form is its own. So the
  two places that compare destinations as strings (the CONNECT target against the request inside
  the tunnel, the scope's set) compare what is dialled.
\<close>

theorem normalize_spellings:
  assumes "plain_host h" and "to_lower s = h" and "list_all solid_char s" and "dot = [] \<or> dot = ''.''"
    and "1 \<le> n" and "n \<le> 65535"
  shows "normalize_destination (join_host_port (s @ dot) (itoa n)) = Inr (join_host_port h (itoa n))
    \<and> normalize_destination (s @ dot) = Inr (join_host_port h ''443'')
    \<and> normalize_destination (join_host_port h (itoa n)) = Inr (join_host_port h (itoa n))"
proof -
  have spelled: "normalize_destination (join_host_port (t @ d) (itoa m)) = Inr (join_host_port h (itoa m))
      \<and> normalize_destination (t @ d) = Inr (join_host_port h ''443'')"
    if t: "to_lower t = h" "list_all solid_char t" "d = [] \<or> d = ''.''" and m: "1 \<le> m" "m \<le> 65535" for t d m
  proof -
    from assms(1) t(1) have ne: "t \<noteq> []" by (auto simp: plain_host_def to_lower_def)
    have solid: "list_all solid_char (t @ d)" using t(2,3) by (auto simp: solid_char_def plain_char_def)
    note marks = solid_no_mark [OF solid] and port = itoa_solid [of m]
    have join: "join_host_port (t @ d) (itoa m) = (t @ d) @ CHR '':'' # itoa m" using marks by (simp add: join_host_port_def)
    have port_marks: "CHR '':'' \<notin> set (itoa m)" "CHR ''['' \<notin> set (itoa m)" "CHR '']'' \<notin> set (itoa m)" "CHR ''/'' \<notin> set (itoa m)"
      using solid_no_mark [of "itoa m"] port m by auto
    have ends: "solid_char (hd (t @ d))" "solid_char (last (t @ d))" "solid_char (last (itoa m))" "itoa m \<noteq> []"
      using ne solid port m by (simp_all add: list_all_ends)
    have trim: "trim_space (join_host_port (t @ d) (itoa m)) = join_host_port (t @ d) (itoa m)" "trim_space (t @ d) = t @ d"
      unfolding join using ne ends by (intro trim_space_solid; simp)+
    have schemes: "\<not> contains (join_host_port (t @ d) (itoa m)) ''://''" "\<not> contains (t @ d) ''://''"
      using marks port_marks unfolding join by (auto intro!: no_scheme)
    have "split_host_port (join_host_port (t @ d) (itoa m)) = Some (t @ d, itoa m)"
      using marks port_marks by (intro split_join_host_port) auto
    moreover have "itoa 443 = ''443''" by code_simp
    then have "canonical_destination (t @ d, ''443'') = Inr (join_host_port h ''443'')"
      using canonical_plain [OF assms(1) t, of 443] by simp
    moreover have "split_host_port (t @ d) = None"
      using marks cut_last_None [of "CHR '':''" "t @ d"] by (auto simp: split_host_port_def)
    ultimately show ?thesis using ne marks trim schemes canonical_plain [OF assms(1) t m] join
      by (auto simp: normalize_destination_def host_and_port_def Let_def)
  qed
  have low: "to_lower h = h" "list_all solid_char h"
    using assms(1,2) by (auto simp: plain_host_def solid_char_def list_all_iff)
  from spelled [OF assms(2-6)] spelled [OF low, of "[]" n] assms(5,6) show ?thesis by simp
qed

lemma normalize_spellings_witness:
  "normalize_destination ''A.io.:80'' = Inr ''a.io:80''"
proof -
  have facts: "plain_host ''a.io''" "to_lower ''A.io'' = ''a.io''" "list_all solid_char ''A.io''" "itoa 80 = ''80''" by code_simp+
  from normalize_spellings [OF facts(1-3), of "''.''" 80] facts(4) show ?thesis by (simp add: join_host_port_def)
qed

text \<open>
  C27. A scope is accepted exactly when its mode is known and every destination can be canonicalized,
  and it manages exactly what it was configured with: everything in mode \<open>all\<close> (the default), and
  otherwise the destinations whose canonical form is that of one of the configured ones, whatever
  the spelling on either side. No scope at all manages everything.
\<close>

theorem scope_manages_configured:
  "is_ok (new_scope mode ds) = ((mode = [] \<or> mode = mode_all \<or> mode = mode_selected) \<and> list_all (\<lambda>raw. is_ok (normalize_destination raw)) ds)
   \<and> managed None dst
   \<and> (case new_scope mode ds of Inl _ \<Rightarrow> True
      | Inr s \<Rightarrow> distinct (sc_destinations s)
          \<and> managed (Some s) dst = (mode = [] \<or> mode = mode_all \<or> (\<exists>raw d. raw \<in> set ds \<and> normalize_destination raw = Inr d \<and> normalize_destination dst = Inr d)))"
proof -
  let ?start = "\<lparr>sc_mode = (if mode = [] then mode_all else mode), sc_destinations = []\<rparr>"
  have known: "new_scope mode ds = (if mode = [] \<or> mode = mode_all \<or> mode = mode_selected
      then for_each add_destination ds ?start else Inl ''unknown proxy scope mode (want all or selected)'')"
    by (auto simp: new_scope_def Let_def)
  have "list_all (\<lambda>raw. is_ok (normalize_destination raw)) ds" if "is_ok (for_each add_destination ds ?start)"
    using that add_destinations [of ds ?start] by (auto simp: is_ok_iff list_all_iff)
  with known add_destinations_total [of ds ?start]
  have ok: "is_ok (new_scope mode ds) = ((mode = [] \<or> mode = mode_all \<or> mode = mode_selected)
      \<and> list_all (\<lambda>raw. is_ok (normalize_destination raw)) ds)" by auto
  have "distinct (sc_destinations s) \<and> managed (Some s) dst
      = (mode = [] \<or> mode = mode_all \<or> (\<exists>raw d. raw \<in> set ds \<and> normalize_destination raw = Inr d \<and> normalize_destination dst = Inr d))"
    if "new_scope mode ds = Inr s" for s
  proof -
    from that known have s: "for_each add_destination ds ?start = Inr s"
      and "mode = [] \<or> mode = mode_all \<or> mode = mode_selected" by (auto split: if_splits)
    with add_destinations [OF s] show ?thesis
      by (auto simp: managed_def mode_all_def mode_selected_def split: sum.splits if_splits)
  qed
  with ok show ?thesis by (auto simp: managed_def split: sum.split)
qed

end
