(* ===== verification/Meter_Origins.thy ===== *)
theory Meter_Origins
  imports Go_Json
begin

text \<open>
  \<^verbatim>\<open>internal/node/meter/origins.go\<close>: which TLS origins are metered. The built-in hosts with
  overrides applied in order. Lemma: the last override of a host decides.
\<close>

type_synonym origins = "(string \<times> string) list"

definition builtin_origins :: origins where
  "builtin_origins = [(''api.anthropic.com'', ''anthropic''), (''api.openai.com'', ''openai'')]"

text \<open>An override \<open>host=provider\<close>; entries without a host or without \<open>=\<close> are skipped.\<close>

definition parse_override :: "string \<Rightarrow> (string \<times> string) option" where
  "parse_override entry =
     (case cut_at (CHR ''='') (trim_space entry) of
        (h, p, found) \<Rightarrow>
          (let host = to_lower (trim_space h) in
           if \<not> found \<or> host = [] then None else Some (host, trim_space p)))"

definition apply_override :: "string \<Rightarrow> origins \<Rightarrow> origins" where
  "apply_override entry m =
     (case parse_override entry of
        None \<Rightarrow> m
      | Some (host, p) \<Rightarrow> if p = ''off'' then filter (\<lambda>(h, _). h \<noteq> host) m else assoc_set host p m)"

definition new_origins :: "string list \<Rightarrow> origins" where
  "new_origins overrides = fold apply_override overrides builtin_origins"

text \<open>\<open>Provider\<close> on a possibly nil matcher.\<close>

definition origin_provider :: "origins option \<Rightarrow> string \<Rightarrow> int \<Rightarrow> string option" where
  "origin_provider m host port =
     (case m of None \<Rightarrow> None | Some by_host \<Rightarrow> if port \<noteq> 443 then None else map_of by_host (to_lower host))"

section \<open>Properties\<close>

lemma map_of_assoc: "map_of (assoc_set k v m) k' = (if k' = k then Some v else map_of m k')"
  by (induction k v m rule: assoc_set.induct) auto

lemma map_of_without: "map_of (filter (\<lambda>(h, _). h \<noteq> k) m) k' = (if k' = k then None else map_of m k')"
  by (induction m) auto

definition last_override :: "string list \<Rightarrow> string \<Rightarrow> string option" where
  "last_override overrides host =
     fold (\<lambda>entry acc. case parse_override entry of None \<Rightarrow> acc | Some (h, p) \<Rightarrow> if h = host then Some p else acc) overrides None"

lemma fold_overrides:
  "map_of (fold apply_override overrides m) host =
     (case fold (\<lambda>entry acc. case parse_override entry of None \<Rightarrow> acc | Some (h, p) \<Rightarrow> if h = host then Some p else acc) overrides None of
        None \<Rightarrow> map_of m host | Some p \<Rightarrow> if p = ''off'' then None else Some p)"
proof (induction overrides rule: rev_induct)
  case (snoc entry overrides)
  then show ?case
    by (auto simp: apply_override_def map_of_assoc map_of_without split: option.split)
qed simp

text \<open>
  C28. An origin is metered exactly when its port is 443 and the last override of its host, in any
  letter case, names a provider other than \<open>off\<close>, or, without an override, it is a built-in host.
\<close>

theorem metered_by_last_override:
  "origin_provider (Some (new_origins overrides)) host port =
     (if port \<noteq> 443 then None
      else case last_override overrides (to_lower host) of
        None \<Rightarrow> map_of builtin_origins (to_lower host)
      | Some p \<Rightarrow> if p = ''off'' then None else Some p)"
  by (simp add: origin_provider_def new_origins_def fold_overrides last_override_def)

end
