(* ===== verification/Sandbox_Proxy.thy ===== *)
theory Sandbox_Proxy
  imports Router Registry Proxy_Scope Meter_Origins
begin

text \<open>
  \<^verbatim>\<open>internal/node/dataplane/sandboxproxy.go\<close>: the forward proxy that turns a connection into a
  flow. Which session a connection belongs to, whether its destination is governed, metered or
  tunnelled, and the flow built from the request inside a terminated TLS tunnel or from a plain
  proxy request. Sockets and TLS are outside the model: what a handshake yields is a record. Lemmas:
  attribution only ever names a session whose handle was presented, and an unknown handle is never
  downgraded; the request inside a tunnel is for the tunnel's target; governed origins are neither
  metered nor tunnelled; a flow of a session with routes reaches the router with the origin the proxy
  found governed.
\<close>

section \<open>The plane\<close>

datatype peer_verify_mode = Peer_Verify_Off | Peer_Verify_Warn | Peer_Verify_Enforce

definition parse_peer_verify :: "string \<Rightarrow> peer_verify_mode" where
  "parse_peer_verify s =
     (if s = ''off'' then Peer_Verify_Off else if s = ''enforce'' then Peer_Verify_Enforce else Peer_Verify_Warn)"

record plane =
  pn_registry :: "registry option"
  pn_allow_sole :: bool
  pn_peer_verify :: peer_verify_mode
  pn_scope :: "scope option"
  pn_meter :: bool
  pn_meter_origins :: "origins option"

text \<open>
  What the operating system answers: whether peers can be resolved, the process behind a local
  endpoint, and parent processes. A connection has a remote address, unless it is nil.
\<close>

record peer_os =
  po_supported :: bool
  po_conn_pid :: "string \<Rightarrow> int \<Rightarrow> int option"
  po_parent :: "int \<Rightarrow> int option"

type_synonym conn = "string option"

definition remote_ip_port :: "conn \<Rightarrow> (string \<times> int) option" where
  "remote_ip_port c =
     (case c of None \<Rightarrow> None
      | Some addr \<Rightarrow>
          (case split_host_port addr of None \<Rightarrow> None
           | Some (host, port_text) \<Rightarrow> (case atoi port_text of None \<Rightarrow> None | Some port \<Rightarrow> Some (host, port))))"

section \<open>Attribution\<close>

definition handle_from_proxy_auth :: "string \<Rightarrow> string" where
  "handle_from_proxy_auth h =
     (if \<not> has_prefix h ''Basic '' then []
      else case b64_decode (trim_space (drop 6 h)) of
        None \<Rightarrow> []
      | Some raw \<Rightarrow> (case cut_at (CHR '':'') raw of (_, secret, found) \<Rightarrow> if found then secret else []))"

definition presented_handle :: "http_in \<Rightarrow> string" where
  "presented_handle req = handle_from_proxy_auth (header_get (hi_header req) ''Proxy-Authorization'')"

definition match_session :: "plane \<Rightarrow> http_in \<Rightarrow> session option" where
  "match_session p req =
     (case pn_registry p of
        None \<Rightarrow> None
      | Some reg \<Rightarrow>
          if presented_handle req \<noteq> [] then lookup_session (presented_handle req) reg
          else if pn_allow_sole p then sole reg else None)"

definition verify_peer :: "plane \<Rightarrow> peer_os \<Rightarrow> conn \<Rightarrow> session \<Rightarrow> bool" where
  "verify_peer p os c s =
     (if pn_peer_verify p = Peer_Verify_Off \<or> se_owner_pid s = 0 \<or> \<not> po_supported os then True
      else case remote_ip_port c of
        None \<Rightarrow> True
      | Some (ip, port) \<Rightarrow>
          (case po_conn_pid os ip port of
             None \<Rightarrow> pn_peer_verify p \<noteq> Peer_Verify_Enforce
           | Some pid \<Rightarrow> is_descendant pid (se_owner_pid s) (po_parent os) \<or> pn_peer_verify p \<noteq> Peer_Verify_Enforce))"

definition resolve_session :: "plane \<Rightarrow> peer_os \<Rightarrow> conn \<Rightarrow> http_in \<Rightarrow> session option" where
  "resolve_session p os c req =
     (case match_session p req of None \<Rightarrow> None | Some s \<Rightarrow> if verify_peer p os c s then Some s else None)"

definition apply_session :: "flow \<Rightarrow> session option \<Rightarrow> flow" where
  "apply_session f s =
     (case s of None \<Rightarrow> f
      | Some x \<Rightarrow> f\<lparr>fl_session_id := se_spiffe_id x, fl_svid := se_svid x, fl_routes := se_routes x\<rparr>)"

section \<open>Destinations\<close>

definition port_for_target :: "string \<Rightarrow> int \<Rightarrow> int" where
  "port_for_target target default_port =
     (case split_host_port target of
        None \<Rightarrow> default_port
      | Some (_, port_text) \<Rightarrow> (case atoi port_text of None \<Rightarrow> default_port | Some port \<Rightarrow> port))"

definition host_only :: "string \<Rightarrow> string" where
  "host_only dst = (case split_host_port dst of Some (host, _) \<Rightarrow> host | None \<Rightarrow> dst)"

definition session_routes :: "session option \<Rightarrow> runtime_routes option" where
  "session_routes s = (case s of None \<Rightarrow> None | Some x \<Rightarrow> se_routes x)"

definition manages_session_origin :: "plane \<Rightarrow> session option \<Rightarrow> string \<Rightarrow> string \<Rightarrow> int \<Rightarrow> bool" where
  "manages_session_origin p s scheme host port =
     (case session_routes s of
        Some rs \<Rightarrow> manages_origin rs scheme host port
      | None \<Rightarrow> managed (pn_scope p) (join_host_port host (itoa port)))"

text \<open>The request's destination: the URL's authority and the Host header must agree.\<close>

definition request_destination :: "http_in option \<Rightarrow> string \<Rightarrow> string result" where
  "request_destination rq scheme =
     (case rq of
        None \<Rightarrow> Inl ''request is nil''
      | Some req \<Rightarrow>
          let authority = hi_host req; full = (\<lambda>a. normalize_destination (scheme @ ''://'' @ a)) in
          if u_host (hi_url req) \<noteq> [] then
            bind_result (full (u_host (hi_url req))) (\<lambda>url_target.
              if authority = [] then Inr url_target
              else bind_result (full authority) (\<lambda>host_target.
                if host_target \<noteq> url_target then Inl ''URL authority does not match Host'' else Inr url_target))
          else if authority = [] then Inl ''request has no authority''
          else full authority)"

section \<open>Building a flow\<close>

text \<open>
  What terminating TLS yields: whether the handshake ran (the 200 written, the client's side done), the
  server name the client sent, whether a leaf could be made for the host, and the first request
  inside, if one could be read.
\<close>

record tunnel =
  tn_established :: bool
  tn_server_name :: string
  tn_leaf :: "string \<Rightarrow> bool"
  tn_request :: "http_in option"

definition server_name_accepted :: "string \<Rightarrow> string \<Rightarrow> bool" where
  "server_name_accepted name host \<longleftrightarrow>
     name = [] \<or> (case normalize_destination name of Inl _ \<Rightarrow> False | Inr sni \<Rightarrow> host_only sni = host)"

definition terminate_tls :: "string \<Rightarrow> tunnel \<Rightarrow> bool" where
  "terminate_tls host tn \<longleftrightarrow> tn_established tn \<and> server_name_accepted (tn_server_name tn) host \<and> tn_leaf tn host"

text \<open>\<open>leafFor\<close>: leaves are minted once per host; \<open>mint\<close> is the CA.\<close>

definition leaf_for :: "(string \<Rightarrow> 'c option) \<Rightarrow> string \<Rightarrow> (string \<times> 'c) list \<Rightarrow> 'c option \<times> (string \<times> 'c) list" where
  "leaf_for mint host leaves =
     (case map_of leaves host of
        Some cert \<Rightarrow> (Some cert, leaves)
      | None \<Rightarrow> (case mint host of None \<Rightarrow> (None, leaves) | Some leaf \<Rightarrow> (Some leaf, assoc_set host leaf leaves)))"

text \<open>\<open>netip.ParseAddrPort\<close> on a canonical destination, as the text of the flow's original address.\<close>

definition orig_dst_of :: "string \<Rightarrow> string" where
  "orig_dst_of target =
     (case split_host_port target of
        None \<Rightarrow> ''invalid AddrPort''
      | Some (h, _) \<Rightarrow>
          (case cut_at (CHR ''%'') h of
             (addr, zone, found) \<Rightarrow>
               if parse_ip addr \<noteq> None \<and> (\<not> found \<or> (CHR '':'' \<in> set addr \<and> zone \<noteq> []))
               then target else ''invalid AddrPort''))"

text \<open>A flow with the metadata of its request.\<close>

definition with_metadata :: "flow \<Rightarrow> http_in \<Rightarrow> flow" where
  "with_metadata f req =
     (case apply_request_metadata f req of (f1, req1, e) \<Rightarrow> f1\<lparr>fl_metadata_error := e, fl_req := Some req1\<rparr>)"

datatype built =
    Closed
  | Refused string
  | Tunnelled string
  | Metered string string session
  | Built flow

definition build_connect :: "plane \<Rightarrow> peer_os \<Rightarrow> conn \<Rightarrow> http_in \<Rightarrow> tunnel \<Rightarrow> built" where
  "build_connect p os c connect_req tn =
     (case normalize_destination (hi_host connect_req) of
        Inl _ \<Rightarrow> Refused ''invalid CONNECT destination''
      | Inr target \<Rightarrow>
          let host = host_only target; sess = resolve_session p os c connect_req in
          if \<not> manages_session_origin p sess ''https'' host (port_for_target target 443) then
            (case (origin_provider (pn_meter_origins p) host (port_for_target target 443), sess) of
               (Some prov, Some s) \<Rightarrow> if pn_meter p then Metered target prov s else Tunnelled target
             | _ \<Rightarrow> Tunnelled target)
          else if \<not> terminate_tls host tn then Closed
          else case tn_request tn of
            None \<Rightarrow> Closed
          | Some req \<Rightarrow>
              if request_destination (Some req) ''https'' \<noteq> Inr target
              then Refused ''request authority does not match CONNECT target''
              else Built (apply_session
                ((with_metadata (zero_flow\<lparr>fl_dst := target, fl_dst_host := host, fl_upstream_tls := True, fl_req := Some req\<rparr>) req)
                  \<lparr>fl_orig_dst := orig_dst_of target\<rparr>) sess))"

definition build_plain :: "plane \<Rightarrow> peer_os \<Rightarrow> conn \<Rightarrow> http_in \<Rightarrow> built" where
  "build_plain p os c req =
     (case request_destination (Some req) ''http'' of
        Inl _ \<Rightarrow> Refused ''invalid upstream host''
      | Inr host \<Rightarrow>
          let sess = resolve_session p os c req;
              f = zero_flow\<lparr>fl_dst := host, fl_dst_host := host_only host, fl_req := Some req\<rparr>;
              f1 = (if manages_session_origin p sess ''http'' (host_only host) (port_for_target host 80)
                    then with_metadata f req else f)
          in Built (apply_session (f1\<lparr>fl_orig_dst := orig_dst_of host\<rparr>) sess))"

definition build :: "plane \<Rightarrow> peer_os \<Rightarrow> conn \<Rightarrow> http_in option \<Rightarrow> tunnel \<Rightarrow> built" where
  "build p os c first tn =
     (case first of
        None \<Rightarrow> Closed
      | Some req \<Rightarrow> if hi_method req = ''CONNECT'' then build_connect p os c req tn else build_plain p os c req)"

section \<open>Attribution is sound\<close>

text \<open>
  Why a session may be credited with a connection: its handle was presented, or none was and it is
  the only one where that is allowed; and under enforcement the peer, when it can be told, is a
  process below its owner.
\<close>

definition credited :: "plane \<Rightarrow> peer_os \<Rightarrow> conn \<Rightarrow> http_in \<Rightarrow> session \<Rightarrow> bool" where
  "credited p os c req s \<longleftrightarrow>
     (case pn_registry p of None \<Rightarrow> False
      | Some reg \<Rightarrow> (if presented_handle req \<noteq> [] then lookup_session (presented_handle req) reg = Some s
                     else pn_allow_sole p \<and> snapshot reg = [s]))
     \<and> (pn_peer_verify p = Peer_Verify_Enforce \<and> se_owner_pid s \<noteq> 0 \<and> po_supported os \<longrightarrow>
         (case remote_ip_port c of None \<Rightarrow> True
          | Some (ip, port) \<Rightarrow> (case po_conn_pid os ip port of None \<Rightarrow> False
              | Some pid \<Rightarrow> is_descendant pid (se_owner_pid s) (po_parent os))))"

lemma sole_snapshot: "sole reg = Some s \<Longrightarrow> snapshot reg = [s]"
  by (auto simp: sole_def snapshot_def length_Suc_conv split: if_splits)

lemma resolve_session_credited: "resolve_session p os c req = Some s \<Longrightarrow> credited p os c req s"
  by (auto simp: resolve_session_def match_session_def credited_def verify_peer_def sole_snapshot
      split: option.splits if_splits prod.splits)

lemma resolve_unknown_handle:
  "presented_handle req \<noteq> [] \<Longrightarrow> pn_registry p = Some reg \<Longrightarrow> lookup_session (presented_handle req) reg = None
     \<Longrightarrow> resolve_session p os c req = None"
  by (simp add: resolve_session_def match_session_def)

section \<open>The built flow\<close>

text \<open>Reading metadata changes neither where a flow goes nor whose it is.\<close>

definition same_place :: "flow \<Rightarrow> flow \<Rightarrow> bool" where
  "same_place f g \<longleftrightarrow> fl_dst f = fl_dst g \<and> fl_dst_host f = fl_dst_host g \<and> fl_upstream_tls f = fl_upstream_tls g
     \<and> fl_session_id f = fl_session_id g \<and> fl_svid f = fl_svid g \<and> fl_routes f = fl_routes g"

lemma tool_call_place: "apply_mcp_tool_call f raw = (f', ok) \<Longrightarrow> same_place f' f"
  by (auto simp: apply_mcp_tool_call_def Let_def same_place_def split: option.splits if_splits)

lemma resource_read_place: "apply_mcp_resource_read f raw = (f', ok) \<Longrightarrow> same_place f' f"
  by (auto simp: apply_mcp_resource_read_def Let_def same_place_def split: option.splits sum.splits if_splits)

lemma tool_metadata_place: "same_place (apply_mcp_tool_metadata f body) f"
  by (auto simp: apply_mcp_tool_metadata_def Let_def same_place_def split: option.splits prod.splits
      dest!: tool_call_place [unfolded same_place_def] resource_read_place [unfolded same_place_def])

lemma request_metadata_place:
  assumes "apply_request_metadata f req = (f', req', e)"
  shows "same_place f' f"
  using assms
proof (cases rule: request_metadata_cases)
  case Plain
  then show ?thesis by (simp add: same_place_def)
next
  case (Promoted body j)
  then show ?thesis
    using tool_metadata_place [of "f\<lparr>fl_tool_call := hi_method req @ '' '' @ url_request_path (hi_url req), fl_tool_params := body\<rparr>" body]
    by (simp add: same_place_def)
qed

lemma request_metadata_request:
  assumes "apply_request_metadata f req = (f', req', e)"
  shows "\<exists>b. req' = req\<lparr>hi_body := b\<rparr>"
  using assms
  by (cases req) (auto simp: apply_request_metadata_def Let_def split: option.splits sum.splits if_splits)

lemma with_metadata_place:
  "same_place (with_metadata f req) f \<and> (\<exists>b. fl_req (with_metadata f req) = Some (req\<lparr>hi_body := b\<rparr>))"
proof -
  obtain f' req' e where r: "apply_request_metadata f req = (f', req', e)" by (cases "apply_request_metadata f req")
  from request_metadata_place [OF r] request_metadata_request [OF r] show ?thesis
    by (auto simp: with_metadata_def r same_place_def)
qed

text \<open>A canonical destination has a port that reads the same everywhere.\<close>

lemma normalize_shape:
  assumes "normalize_destination raw = Inr d"
  shows "\<exists>h n. d = join_host_port h (itoa n) \<and> 1 \<le> n \<and> n \<le> 65535"
proof -
  from assms obtain hp where "canonical_destination hp = Inr d"
    by (auto simp: normalize_destination_def Let_def split: if_splits)
  then obtain n where "d = join_host_port (canonical_host (trim_suffix (to_lower (trim_space (fst hp))) ''.'')) (itoa n)"
    and "1 \<le> n" and "n \<le> 65535"
    by (auto simp: canonical_destination_def Let_def not_less split: if_splits option.splits)
  then show ?thesis by blast
qed

lemma split_join_port:
  assumes "split_host_port (join_host_port h p) = Some (h', p')" and "CHR '':'' \<notin> set p"
  shows "p' = p"
proof -
  define b where "b = (if CHR '':'' \<in> set h then CHR ''['' # h @ '']'' else h)"
  have "join_host_port h p = b @ CHR '':'' # p" by (simp add: join_host_port_def b_def)
  with cut_last_append [OF assms(2)] have "cut_last (CHR '':'') (join_host_port h p) = Some (b, p)" by simp
  with assms(1) show ?thesis by (auto simp: split_host_port_def split: if_splits prod.splits)
qed

lemma scan_itoa:
  assumes "1 \<le> n" and "n \<le> 65535"
  shows "scan_int (itoa n) = Some n"
proof -
  have d: "list_all is_digit (itoa n)" "itoa n \<noteq> []"
    using nat_to_dec_digits [of "nat n"] assms(1) by (simp_all add: itoa_def)
  then obtain c t where ct: "itoa n = c # t" "is_digit c" by (cases "itoa n") auto
  then have "c \<noteq> CHR 0x20" "c \<noteq> CHR 0x09" by (auto simp: is_digit_def byte_def)
  moreover have "takeWhile is_digit t = t" using d ct by (simp add: list_all_iff takeWhile_eq_all_conv)
  ultimately show ?thesis using ct digit_not_sign [OF ct(2)] atoi_itoa [of n] assms
    by (simp add: scan_int_def Let_def takeWhile_eq_all_conv [THEN iffD2])
qed

lemma dst_port_target:
  assumes "normalize_destination raw = Inr target" and "fl_dst f = target" and "fl_upstream_tls f = tls"
  shows "dst_port f = port_for_target target (if tls then 443 else 80)"
proof -
  obtain h n where t: "target = join_host_port h (itoa n)" "1 \<le> n" "n \<le> 65535" using normalize_shape [OF assms(1)] by blast
  have ne: "target \<noteq> []" by (simp add: t(1) join_host_port_def)
  have "CHR '':'' \<notin> set (itoa n)" using itoa_solid [of n] t(2) solid_no_mark by auto
  then have port: "split_host_port target = Some (h', p') \<Longrightarrow> p' = itoa n" for h' p'
    using split_join_port t(1) by blast
  have "atoi (itoa n) = Some n" using t(2,3) by (intro atoi_itoa) auto
  with scan_itoa [OF t(2,3)] port assms(2,3) ne show ?thesis
    by (auto simp: dst_port_def port_for_target_def dst_string_def Let_def split: option.split)
qed

lemma dst_host_target:
  "fl_dst f = target \<Longrightarrow> target \<noteq> [] \<Longrightarrow> fl_dst_host f = host_only target \<Longrightarrow> dst_host f = host_only target"
  by (auto simp: dst_host_def host_only_def dst_string_def split: option.split)

text \<open>Whose a flow is: nobody's, or the session's whose identity, token and routes it carries.\<close>

definition owned_by :: "flow \<Rightarrow> session option \<Rightarrow> bool" where
  "owned_by f s \<longleftrightarrow>
     (case s of None \<Rightarrow> fl_session_id f = [] \<and> fl_svid f = [] \<and> fl_routes f = None
      | Some x \<Rightarrow> fl_session_id f = se_spiffe_id x \<and> fl_svid f = se_svid x \<and> fl_routes f = se_routes x)"

lemma apply_session_frame [simp]:
  "fl_dst (apply_session f s) = fl_dst f" "fl_dst_host (apply_session f s) = fl_dst_host f"
  "fl_upstream_tls (apply_session f s) = fl_upstream_tls f" "fl_req (apply_session f s) = fl_req f"
  by (simp_all add: apply_session_def split: option.split)

lemma owned_by_apply: "owned_by f None \<Longrightarrow> owned_by (apply_session f s) s"
  by (simp add: owned_by_def apply_session_def split: option.split)

text \<open>What a flow from a tunnel, and one from a plain request, is made of.\<close>

lemma build_connect_flow:
  assumes "build_connect p os c creq tn = Built f"
  obtains target req b where "normalize_destination (hi_host creq) = Inr target" and "tn_request tn = Some req"
    and "request_destination (Some req) ''https'' = Inr target" and "terminate_tls (host_only target) tn"
    and "manages_session_origin p (resolve_session p os c creq) ''https'' (host_only target) (port_for_target target 443)"
    and "fl_dst f = target" and "fl_dst_host f = host_only target" and "fl_upstream_tls f"
    and "fl_req f = Some (req\<lparr>hi_body := b\<rparr>)" and "owned_by f (resolve_session p os c creq)"
proof -
  from assms obtain target req where n: "normalize_destination (hi_host creq) = Inr target" and r: "tn_request tn = Some req"
    and d: "request_destination (Some req) ''https'' = Inr target" and tls: "terminate_tls (host_only target) tn"
    and m: "manages_session_origin p (resolve_session p os c creq) ''https'' (host_only target) (port_for_target target 443)"
    and f: "f = apply_session ((with_metadata (zero_flow\<lparr>fl_dst := target, fl_dst_host := host_only target, fl_upstream_tls := True,
        fl_req := Some req\<rparr>) req)\<lparr>fl_orig_dst := orig_dst_of target\<rparr>) (resolve_session p os c creq)"
    by (auto simp: build_connect_def Let_def split: sum.splits if_splits option.splits)
  define f0 where "f0 = zero_flow\<lparr>fl_dst := target, fl_dst_host := host_only target, fl_upstream_tls := True, fl_req := Some req\<rparr>"
  have place: "same_place (with_metadata f0 req) f0" using with_metadata_place by blast
  obtain b where b: "fl_req (with_metadata f0 req) = Some (req\<lparr>hi_body := b\<rparr>)" using with_metadata_place by blast
  have "owned_by ((with_metadata f0 req)\<lparr>fl_orig_dst := orig_dst_of target\<rparr>) None"
    using place by (simp add: owned_by_def same_place_def f0_def zero_flow_def)
  from owned_by_apply [OF this] have "owned_by f (resolve_session p os c creq)" unfolding f f0_def [symmetric] .
  moreover have "fl_dst f = target" "fl_dst_host f = host_only target" "fl_upstream_tls f"
    using place unfolding f f0_def [symmetric] by (simp_all add: same_place_def) (simp_all add: f0_def)
  moreover have "fl_req f = Some (req\<lparr>hi_body := b\<rparr>)" using b unfolding f f0_def [symmetric] by simp
  ultimately show thesis using n r d tls m by (intro that)
qed

lemma build_plain_flow:
  assumes "build_plain p os c req = Built f"
  shows "request_destination (Some req) ''http'' = Inr (fl_dst f) \<and> fl_dst_host f = host_only (fl_dst f)
    \<and> \<not> fl_upstream_tls f \<and> owned_by f (resolve_session p os c req)"
proof -
  from assms obtain target where d: "request_destination (Some req) ''http'' = Inr target"
    by (auto simp: build_plain_def split: sum.splits)
  define f0 where "f0 = zero_flow\<lparr>fl_dst := target, fl_dst_host := host_only target, fl_req := Some req\<rparr>"
  obtain f1 where f: "f = apply_session (f1\<lparr>fl_orig_dst := orig_dst_of target\<rparr>) (resolve_session p os c req)"
    and f1: "f1 = f0 \<or> f1 = with_metadata f0 req"
    using assms d by (auto simp: build_plain_def Let_def f0_def)
  have place: "same_place f1 f0" using f1 with_metadata_place [of f0 req] by (auto simp: same_place_def)
  then have "owned_by (f1\<lparr>fl_orig_dst := orig_dst_of target\<rparr>) None"
    by (simp add: owned_by_def same_place_def f0_def zero_flow_def)
  from owned_by_apply [OF this] place d show ?thesis
    by (simp add: f same_place_def) (simp add: f0_def zero_flow_def)
qed

section \<open>Properties\<close>

definition basic_auth :: "string \<Rightarrow> string" where
  "basic_auth encoded = ''Basic '' @ encoded"

definition twin_plane :: plane where
  "twin_plane = \<lparr>pn_registry = Some [(''a'', (snd (hd twins))\<lparr>se_routes := Some (zero_routes\<lparr>routes := [open_route\<lparr>
       origins := [\<lparr>om_scheme = ''https'', om_host = ''a.io'', om_port = 443, om_path_prefix = ''/''\<rparr>]\<rparr>]\<rparr>)\<rparr>)],
     pn_allow_sole = False, pn_peer_verify = Peer_Verify_Enforce, pn_scope = None, pn_meter = True,
     pn_meter_origins = Some builtin_origins\<rparr>"

definition quiet_os :: peer_os where
  "quiet_os = \<lparr>po_supported = False, po_conn_pid = (\<lambda>_ _. None), po_parent = (\<lambda>_. None)\<rparr>"

definition connect_request :: http_in where
  "connect_request = (post_json [])\<lparr>hi_method := ''CONNECT'', hi_host := ''A.io:443'', hi_body := None,
     hi_header := [(''Proxy-Authorization'', [basic_auth ''eDph''])]\<rparr>"

definition call_tunnel :: tunnel where
  "call_tunnel = \<lparr>tn_established = True, tn_server_name = ''a.io'', tn_leaf = (\<lambda>_. True),
     tn_request = Some (post_json sample_call)\<rparr>"

definition twin_session :: session where
  "twin_session = snd (hd (the (pn_registry twin_plane)))"

definition tunnelled_call :: flow where
  "tunnelled_call = with_metadata (zero_flow\<lparr>fl_dst := ''a.io:443'', fl_dst_host := ''a.io'', fl_upstream_tls := True,
     fl_req := Some (post_json sample_call)\<rparr>) (post_json sample_call)"

lemma twin_facts:
  "normalize_destination (hi_host connect_request) = Inr ''a.io:443''"
  "resolve_session twin_plane quiet_os None connect_request = Some twin_session"
  "request_destination (Some (post_json sample_call)) ''https'' = Inr ''a.io:443''"
  "terminate_tls ''a.io'' call_tunnel" "host_only ''a.io:443'' = ''a.io''" "port_for_target ''a.io:443'' 443 = 443"
  "manages_session_origin twin_plane (Some twin_session) ''https'' ''a.io'' 443"
  by code_simp+

lemma twin_built:
  "build_connect twin_plane quiet_os None connect_request call_tunnel
     = Built (apply_session (tunnelled_call\<lparr>fl_orig_dst := orig_dst_of ''a.io:443''\<rparr>) (Some twin_session))"
proof -
  have "tn_request call_tunnel = Some (post_json sample_call)" by (simp add: call_tunnel_def)
  then show ?thesis by (simp add: build_connect_def Let_def twin_facts tunnelled_call_def)
qed

text \<open>
  C3. Attribution is sound: a flow carries a session's identity, KIT and routes only if the
  connection presented that session's handle (or presented none where the sole registered session may
  be assumed), and, under enforcement with a known owner, only if the connecting process is the owner
  or below it. Otherwise the flow carries no identity, no KIT and no routes; a presented handle that
  is not registered is never credited to another session.
\<close>

theorem attribution_sound:
  assumes "build p os c (Some req) tn = Built f"
  shows "(\<exists>s. credited p os c req s \<and> owned_by f (Some s)) \<or> owned_by f None"
proof -
  have "owned_by f (resolve_session p os c req)"
  proof (cases "hi_method req = ''CONNECT''")
    case True
    with assms have "build_connect p os c req tn = Built f" by (simp add: build_def)
    then show ?thesis by (rule build_connect_flow)
  next
    case False
    with assms have "build_plain p os c req = Built f" by (simp add: build_def)
    then show ?thesis using build_plain_flow by blast
  qed
  then show ?thesis
    by (cases "resolve_session p os c req") (auto dest: resolve_session_credited)
qed

lemma attribution_sound_witness:
  "\<exists>f. build twin_plane quiet_os None (Some connect_request) call_tunnel = Built f \<and> fl_svid f = ''t''"
proof -
  have "hi_method connect_request = ''CONNECT''" by (simp add: connect_request_def)
  then have b: "build twin_plane quiet_os None (Some connect_request) call_tunnel
      = Built (apply_session (tunnelled_call\<lparr>fl_orig_dst := orig_dst_of ''a.io:443''\<rparr>) (Some twin_session))"
    by (simp add: build_def twin_built)
  have "fl_svid (apply_session (tunnelled_call\<lparr>fl_orig_dst := orig_dst_of ''a.io:443''\<rparr>) (Some twin_session)) = ''t''"
    by (simp add: apply_session_def twin_session_def twin_plane_def twins_def)
  with attribution_sound [OF b] b show ?thesis by blast
qed

text \<open>
  C30. A request inside a tunnel is for the tunnel's target: the flow's destination is the canonical
  CONNECT target, the decrypted request's own authority (URL and Host header) canonicalizes to it, a
  server name the client sent names its host, the flow is https, and host and port of the flow are
  those on which the destination was found to be governed. There is no domain fronting.
\<close>

theorem tunnel_flow_target:
  assumes "build_connect p os c creq tn = Built f"
  shows "\<exists>req b. normalize_destination (hi_host creq) = Inr (fl_dst f) \<and> tn_request tn = Some req
    \<and> fl_req f = Some (req\<lparr>hi_body := b\<rparr>) \<and> request_destination (Some req) ''https'' = Inr (fl_dst f)
    \<and> server_name_accepted (tn_server_name tn) (dst_host f) \<and> flow_scheme f = ''https'' \<and> dst_string f = fl_dst f
    \<and> manages_session_origin p (resolve_session p os c creq) (flow_scheme f) (dst_host f) (dst_port f)"
  using assms
proof (rule build_connect_flow)
  fix target req b
  assume n: "normalize_destination (hi_host creq) = Inr target" and r: "tn_request tn = Some req"
    "request_destination (Some req) ''https'' = Inr target" and tls: "terminate_tls (host_only target) tn"
    and m: "manages_session_origin p (resolve_session p os c creq) ''https'' (host_only target) (port_for_target target 443)"
    and f: "fl_dst f = target" "fl_dst_host f = host_only target" "fl_upstream_tls f" "fl_req f = Some (req\<lparr>hi_body := b\<rparr>)"
  have ne: "target \<noteq> []" using normalize_shape [OF n] by (auto simp: join_host_port_def split: if_splits)
  have "dst_port f = port_for_target target 443" using dst_port_target [OF n f(1), of True] f(3) by simp
  with dst_host_target [OF f(1) ne f(2)] n r tls m f ne show ?thesis
    by (intro exI [of _ req] exI [of _ b]) (simp add: terminate_tls_def flow_scheme_def dst_string_def)
qed

lemma tunnel_flow_target_witness:
  "\<exists>f. build_connect twin_plane quiet_os None connect_request call_tunnel = Built f \<and> flow_scheme f = ''https''"
  using tunnel_flow_target [OF twin_built] twin_built by blast

text \<open>
  C10. Governance wins: a CONNECT to an origin that the session's routes (or, without routes, the
  scope) govern is neither tunnelled opaquely nor metered, and it becomes a flow only through the TLS
  termination; metering happens only for a session credited with the connection, with metering on, on
  a metered origin, and outside governance.
\<close>

theorem governed_origin_not_bypassed:
  "case build_connect p os c creq tn of
     Closed \<Rightarrow> True
   | Refused _ \<Rightarrow> True
   | Tunnelled target \<Rightarrow> normalize_destination (hi_host creq) = Inr target
       \<and> \<not> manages_session_origin p (resolve_session p os c creq) ''https'' (host_only target) (port_for_target target 443)
   | Metered target prov s \<Rightarrow> normalize_destination (hi_host creq) = Inr target
       \<and> \<not> manages_session_origin p (resolve_session p os c creq) ''https'' (host_only target) (port_for_target target 443)
       \<and> resolve_session p os c creq = Some s \<and> credited p os c creq s \<and> pn_meter p
       \<and> origin_provider (pn_meter_origins p) (host_only target) (port_for_target target 443) = Some prov
   | Built f \<Rightarrow> manages_session_origin p (resolve_session p os c creq) ''https'' (host_only (fl_dst f))
       (port_for_target (fl_dst f) 443) \<and> terminate_tls (host_only (fl_dst f)) tn"
proof (cases "build_connect p os c creq tn")
  case (Built f)
  then show ?thesis by (auto elim!: build_connect_flow)
qed (auto simp: build_connect_def Let_def resolve_session_credited split: sum.splits if_splits option.splits)

text \<open>
  C9. Proxy and router agree on what is governed: a tools/call or resources/read that a session with
  routes sends through a tunnel never goes upstream as it came, whatever the router is given; it is
  owned by the router, which takes exactly one action on it.
\<close>

theorem tunnelled_call_governed:
  assumes "build_connect p os c creq tn = Built f" and "fl_routes f = Some rs"
    and "fl_mcp_method f = ''tools/call'' \<or> fl_mcp_method f = ''resources/read''"
  shows "\<exists>a w'. handle r parent f w = Some (True, [a], w') \<and> a \<noteq> Pass_Through"
  using assms(2)
proof (cases rule: handle_cases [where r = r and parent = parent and w = w])
  case Passed
  from assms(1) obtain target where n: "normalize_destination (hi_host creq) = Inr target"
    and m: "manages_session_origin p (resolve_session p os c creq) ''https'' (host_only target) (port_for_target target 443)"
    and f: "fl_dst f = target" "fl_dst_host f = host_only target" "fl_upstream_tls f" and own: "owned_by f (resolve_session p os c creq)"
    by (rule build_connect_flow)
  have ne: "target \<noteq> []" using normalize_shape [OF n] by (auto simp: join_host_port_def split: if_splits)
  have "session_routes (resolve_session p os c creq) = Some rs"
    using own assms(2) by (auto simp: owned_by_def session_routes_def split: option.splits)
  with m have "manages_origin rs (flow_scheme f) (dst_host f) (dst_port f)"
    using dst_port_target [OF n f(1), of True] f(3) dst_host_target [OF f(1) ne f(2)]
    by (simp add: manages_session_origin_def flow_scheme_def)
  moreover have "''tools/call'' \<notin> set lifecycle_methods" "''resources/read'' \<notin> set lifecycle_methods"
    by (simp_all add: lifecycle_methods_def)
  ultimately have False using Passed(2) assms(3)
    by (auto simp: passes_routes_def passes_route_def mcp_passthrough_reason_def split: list.splits if_splits)
  then show ?thesis ..
next
  case (Settled a w')
  then show ?thesis by blast
qed

lemma tunnelled_call_governed_witness:
  "\<exists>f a w'. build_connect twin_plane quiet_os None connect_request call_tunnel = Built f
     \<and> handle sample_router None f approving_world = Some (True, [a], w') \<and> a \<noteq> Pass_Through"
proof -
  let ?f = "apply_session (tunnelled_call\<lparr>fl_orig_dst := orig_dst_of ''a.io:443''\<rparr>) (Some twin_session)"
  have m: "fl_mcp_method tunnelled_call = ''tools/call''" by code_simp
  have "fl_mcp_method ?f = ''tools/call''" by (simp add: apply_session_def m)
  moreover obtain rs where "fl_routes ?f = Some rs"
    by (simp add: apply_session_def twin_session_def twin_plane_def)
  ultimately show ?thesis
    using tunnelled_call_governed [OF twin_built, of rs sample_router None approving_world] twin_built by blast
qed

end
