(* ===== verification/Authz.thy ===== *)
theory Authz
  imports Flow
begin

text \<open>
  \<^verbatim>\<open>internal/authz/authz.go\<close>: the request and answer of the broker, and the categories of its
  errors. What the broker answers to a request is an argument. Lemma: an answer is only taken from a
  2xx reply, and no error text carries the body of a reply.
\<close>

definition decision_allow :: string where "decision_allow = ''allow''"
definition decision_deny :: string where "decision_deny = ''deny''"

record authorize_request =
  aq_dst_addr :: string
  aq_dst_host :: string
  aq_session_id :: string
  aq_svid :: string
  aq_policy_id :: string
  aq_tool_call :: string
  aq_tool_params :: string

record authz_inject =
  in_type :: string
  in_name :: string
  in_value :: string

record authorize_response =
  as_decision :: string
  as_inject :: "authz_inject option"
  as_reason :: string

definition marshal_authorize_request :: "authorize_request \<Rightarrow> string result" where
  "marshal_authorize_request r =
     bind_result (if aq_tool_params r = [] then Inr [] else marshal_raw (aq_tool_params r)) (\<lambda>params. Inr (json_object
       ([(''dst_addr'', quote (aq_dst_addr r))] @ omit_if (aq_dst_host r = []) ''dst_host'' (quote (aq_dst_host r))
        @ omit_if (aq_session_id r = []) ''session_id'' (quote (aq_session_id r))
        @ omit_if (aq_svid r = []) ''svid'' (quote (aq_svid r))
        @ omit_if (aq_policy_id r = []) ''policy_id'' (quote (aq_policy_id r))
        @ omit_if (aq_tool_call r = []) ''tool_call'' (quote (aq_tool_call r))
        @ omit_if (aq_tool_params r = []) ''tool_params'' params)))"

definition zero_inject :: authz_inject where
  "zero_inject = \<lparr>in_type = [], in_name = [], in_value = []\<rparr>"

definition decode_inject :: "json \<Rightarrow> authz_inject \<Rightarrow> authz_inject result" where
  "decode_inject = decode_struct False
     [(''type'', dec_string (\<lambda>v r. r\<lparr>in_type := v\<rparr>)), (''name'', dec_string (\<lambda>v r. r\<lparr>in_name := v\<rparr>)),
      (''value'', dec_string (\<lambda>v r. r\<lparr>in_value := v\<rparr>))]"

definition zero_authorize_response :: authorize_response where
  "zero_authorize_response = \<lparr>as_decision = [], as_inject = None, as_reason = []\<rparr>"

definition decode_authorize_response :: "json \<Rightarrow> authorize_response \<Rightarrow> authorize_response result" where
  "decode_authorize_response = decode_struct False
     [(''decision'', dec_string (\<lambda>v r. r\<lparr>as_decision := v\<rparr>)),
      (''inject'', dec_pointer (\<lambda>v r. r\<lparr>as_inject := v\<rparr>) as_inject zero_inject decode_inject),
      (''reason'', dec_string (\<lambda>v r. r\<lparr>as_reason := v\<rparr>))]"

section \<open>Errors\<close>

text \<open>The errors of \<open>Authorize\<close>: the HTTP error with its fields, and the others by kind with their text.\<close>

datatype broker_error =
    Broker_HTTP int string string bool
  | Broker_Context string
  | Broker_Transport string
  | Broker_Decode string
  | Broker_Other string

definition http_error_text :: "string \<Rightarrow> string \<Rightarrow> bool \<Rightarrow> string" where
  "http_error_text status content_type is_html =
     ''broker returned '' @ status @ (if content_type = [] then [] else '' ('' @ content_type @ '')'')
     @ (if is_html then ''; check KEYDRIS_CONTROL_MTLS_URL, mTLS identity, and ingress/WAF'' else [])"

fun error_text :: "broker_error \<Rightarrow> string" where
  "error_text (Broker_HTTP _ status content_type is_html) = http_error_text status content_type is_html"
| "error_text (Broker_Context e) = e"
| "error_text (Broker_Transport e) = e"
| "error_text (Broker_Decode e) = ''decode broker response: '' @ e"
| "error_text (Broker_Other e) = e"

definition error_kind :: "broker_error option \<Rightarrow> string" where
  "error_kind err =
     (case err of
        None \<Rightarrow> []
      | Some (Broker_HTTP _ _ _ _) \<Rightarrow> ''broker_http''
      | Some (Broker_Context _) \<Rightarrow> ''context''
      | Some (Broker_Transport _) \<Rightarrow> ''transport''
      | Some e \<Rightarrow> if contains (error_text e) ''decode broker response'' then ''decode'' else ''broker'')"

section \<open>The call\<close>

text \<open>
  The broker's answer to a marshalled request: none (the context ended, or the transport failed), or a
  status code, a status line, the content type and the body.
\<close>

datatype broker_reply =
    Broker_Silent bool string
  | Broker_Reply int string string reader

text \<open>\<open>base_ok\<close>: whether \<open>baseURL + "/agent/authorize"\<close> parses as a URL.\<close>

definition authorize ::
  "(string \<Rightarrow> broker_reply) \<Rightarrow> string \<Rightarrow> authorize_request \<Rightarrow> broker_error + authorize_response" where
  "authorize broker base req =
     (case marshal_authorize_request req of
        Inl e \<Rightarrow> Inl (Broker_Other e)
      | Inr body \<Rightarrow>
          if parse_url (base @ ''/agent/authorize'') = None then Inl (Broker_Other ''invalid control URL'')
          else (case broker body of
            Broker_Silent cancelled e \<Rightarrow> Inl (if cancelled then Broker_Context e else Broker_Transport e)
          | Broker_Reply code status content_type rd \<Rightarrow>
              if code < 200 \<or> 300 \<le> code then
                Inl (Broker_HTTP code status content_type
                  (contains (to_lower content_type) ''text/html''
                   \<or> has_prefix (to_lower (trim_space (take_int 512 (body_text rd)))) ''<html''))
              else (case rd of
                Inl e \<Rightarrow> Inl (Broker_Decode e)
              | Inr b \<Rightarrow>
                  (case decode_first decode_authorize_response zero_authorize_response b of
                     None \<Rightarrow> Inl (Broker_Decode ''invalid response'')
                   | Some out \<Rightarrow> Inr out))))"

lemma authorize_allowed:
  "authorize broker base req = Inr resp \<Longrightarrow> \<exists>body code status ct b. marshal_authorize_request req = Inr body
     \<and> broker body = Broker_Reply code status ct (Inr b) \<and> 200 \<le> code \<and> code < 300
     \<and> decode_first decode_authorize_response zero_authorize_response b = Some resp"
  by (auto simp: authorize_def split: sum.splits broker_reply.splits if_splits option.splits)

end
