(* ===== verification/Evidence.thy ===== *)
theory Evidence
  imports Wire_Json Strconv
begin

text \<open>
  \<^verbatim>\<open>internal/evidence/ledger.go\<close>: the append-only hash-chained ledger. SHA-256 is a parameter; the
  file is its text; writing may fail. Lemmas: verification is exactly the chain condition, appending
  keeps it, and the last hash determines every record as long as the hash has no collision among the
  records compared.
\<close>

section \<open>Records\<close>

record ledger_record =
  lr_seq :: int
  lr_time :: string
  lr_type :: string
  lr_payload :: string
  lr_prev_hash :: string
  lr_hash :: string

definition hash_preimage :: "ledger_record \<Rightarrow> string" where
  "hash_preimage r =
     itoa (lr_seq r) @ [CHR 0x0A] @ lr_time r @ [CHR 0x0A] @ lr_type r @ [CHR 0x0A] @ lr_prev_hash r @ [CHR 0x0A] @ lr_payload r"

definition hash_record :: "(string \<Rightarrow> string) \<Rightarrow> ledger_record \<Rightarrow> string" where
  "hash_record sha256 r = hex_encode (sha256 (hash_preimage r))"

text \<open>\<open>verifyRecords\<close>: the loop with its index and the hash before.\<close>

fun verify_from :: "(string \<Rightarrow> string) \<Rightarrow> int \<Rightarrow> string \<Rightarrow> ledger_record list \<Rightarrow> unit result" where
  "verify_from sha256 i prev [] = Inr ()"
| "verify_from sha256 i prev (r # rs) =
     (if lr_seq r \<noteq> i + 1 then Inl (''record '' @ itoa (i + 1) @ '': sequence mismatch (got '' @ itoa (lr_seq r) @ '')'')
      else if lr_prev_hash r \<noteq> prev then Inl (''record '' @ itoa (lr_seq r) @ '': prev_hash mismatch'')
      else if hash_record sha256 r \<noteq> lr_hash r then Inl (''record '' @ itoa (lr_seq r) @ '': hash mismatch (tampered)'')
      else verify_from sha256 (i + 1) (lr_hash r) rs)"

definition verify_records :: "(string \<Rightarrow> string) \<Rightarrow> ledger_record list \<Rightarrow> unit result" where
  "verify_records sha256 rs = verify_from sha256 0 [] rs"

section \<open>The file\<close>

definition marshal_record :: "ledger_record \<Rightarrow> string result" where
  "marshal_record r =
     (if lr_payload r \<noteq> [] \<and> \<not> json_valid (lr_payload r)
      then Inl ''json: error calling MarshalJSON for type json.RawMessage''
      else Inr (json_object
        [(''seq'', itoa (lr_seq r)), (''time'', quote (lr_time r)), (''type'', quote (lr_type r)),
         (''payload'', if lr_payload r = [] then ''null'' else compact (lr_payload r)),
         (''prev_hash'', quote (lr_prev_hash r)), (''hash'', quote (lr_hash r))]))"

definition zero_record :: ledger_record where
  "zero_record = \<lparr>lr_seq = 0, lr_time = [], lr_type = [], lr_payload = [], lr_prev_hash = [], lr_hash = []\<rparr>"

definition decode_record :: "json \<Rightarrow> ledger_record \<Rightarrow> ledger_record result" where
  "decode_record = decode_struct False
     [(''seq'', dec_int (\<lambda>v r. r\<lparr>lr_seq := v\<rparr>)), (''time'', dec_string (\<lambda>v r. r\<lparr>lr_time := v\<rparr>)),
      (''type'', dec_string (\<lambda>v r. r\<lparr>lr_type := v\<rparr>)), (''payload'', dec_raw (\<lambda>v r. r\<lparr>lr_payload := v\<rparr>)),
      (''prev_hash'', dec_string (\<lambda>v r. r\<lparr>lr_prev_hash := v\<rparr>)), (''hash'', dec_string (\<lambda>v r. r\<lparr>lr_hash := v\<rparr>))]"

definition max_line_bytes :: int where
  "max_line_bytes = 2 * 1024 * 1024"

text \<open>
  \<open>bufio.ScanLines\<close>: the text up to each newline; the text after the last newline is a line unless it
  is empty. A line that does not fit the buffer is an error; a carriage return at its end is dropped.
\<close>

definition drop_cr :: "string \<Rightarrow> string" where
  "drop_cr s = (if s \<noteq> [] \<and> last s = CHR 0x0D then butlast s else s)"

definition scan_lines :: "string \<Rightarrow> string list" where
  "scan_lines s = (let ls = split_on (CHR 0x0A) s in if last ls = [] then butlast ls else ls)"

definition read_line :: "string \<Rightarrow> ledger_record list \<Rightarrow> ledger_record list result" where
  "read_line line out =
     (if max_line_bytes \<le> int (length line) then Inl ''bufio.Scanner: token too long''
      else if drop_cr line = [] then Inr out
      else case parse_json (drop_cr line) of
        None \<Rightarrow> Inl ''invalid character in ledger record''
      | Some j \<Rightarrow> bind_result (decode_record j zero_record) (\<lambda>r. Inr (out @ [r])))"

text \<open>An absent file has no records.\<close>

definition read_ledger :: "string option \<Rightarrow> ledger_record list result" where
  "read_ledger file = (case file of None \<Rightarrow> Inr [] | Some text \<Rightarrow> for_each read_line (scan_lines text) [])"

definition verify_ledger :: "(string \<Rightarrow> string) \<Rightarrow> string option \<Rightarrow> unit result" where
  "verify_ledger sha256 file = bind_result (read_ledger file) (verify_records sha256)"

section \<open>The ledger\<close>

record ledger =
  lg_last_hash :: string
  lg_seq :: int
  lg_file :: string

definition open_ledger :: "(string \<Rightarrow> string) \<Rightarrow> string option \<Rightarrow> ledger result" where
  "open_ledger sha256 file =
     bind_result (read_ledger file) (\<lambda>records.
     bind_result (verify_records sha256 records) (\<lambda>_.
       Inr \<lparr>lg_last_hash = (if records = [] then [] else lr_hash (last records)),
         lg_seq = (if records = [] then 0 else lr_seq (last records)),
         lg_file = (case file of None \<Rightarrow> [] | Some text \<Rightarrow> text)\<rparr>))"

definition next_record :: "(string \<Rightarrow> string) \<Rightarrow> ledger \<Rightarrow> string \<Rightarrow> string \<Rightarrow> string \<Rightarrow> ledger_record" where
  "next_record sha256 l now typ payload =
     (let r = \<lparr>lr_seq = lg_seq l + 1, lr_time = now, lr_type = typ, lr_payload = payload,
            lr_prev_hash = lg_last_hash l, lr_hash = []\<rparr>
      in r\<lparr>lr_hash := hash_record sha256 r\<rparr>)"

text \<open>
  \<open>Append\<close>: the payload already marshalled, the time printed; opening, writing or syncing the file
  may fail, after writing the first \<open>n\<close> bytes.
\<close>

datatype file_fault = No_Fault | Open_Fails string | Write_Fails nat string | Sync_Fails string

definition append_record ::
  "(string \<Rightarrow> string) \<Rightarrow> file_fault \<Rightarrow> string \<Rightarrow> string \<Rightarrow> string result \<Rightarrow> ledger \<Rightarrow> ledger_record result \<times> ledger"
where
  "append_record sha256 fault now typ payload l =
     (case payload of
        Inl e \<Rightarrow> (Inl e, l)
      | Inr pb \<Rightarrow>
          let r = next_record sha256 l now typ pb in
          (case fault of Open_Fails e \<Rightarrow> (Inl e, l)
           | _ \<Rightarrow>
             (case marshal_record r of
                Inl e \<Rightarrow> (Inl e, l)
              | Inr line \<Rightarrow>
                  (case fault of
                     Write_Fails n e \<Rightarrow> (Inl e, l\<lparr>lg_file := lg_file l @ take n (line @ [CHR 0x0A])\<rparr>)
                   | Sync_Fails e \<Rightarrow> (Inl e, l\<lparr>lg_file := lg_file l @ line @ [CHR 0x0A]\<rparr>)
                   | _ \<Rightarrow> (Inr r, l\<lparr>lg_file := lg_file l @ line @ [CHR 0x0A], lg_last_hash := lr_hash r, lg_seq := lr_seq r\<rparr>)))))"

section \<open>The chain\<close>

definition chained :: "(string \<Rightarrow> string) \<Rightarrow> ledger_record list \<Rightarrow> nat \<Rightarrow> bool" where
  "chained sha256 rs k \<longleftrightarrow> lr_seq (rs ! k) = int k + 1
     \<and> lr_prev_hash (rs ! k) = (if k = 0 then [] else lr_hash (rs ! (k - 1)))
     \<and> lr_hash (rs ! k) = hash_record sha256 (rs ! k)"

lemma all_less_Suc_split: "(\<forall>k<Suc n. P k) \<longleftrightarrow> P 0 \<and> (\<forall>k<n. P (Suc k))"
  by (metis less_Suc_eq_0_disj)

lemma verify_from_iff:
  "verify_from sha256 i prev rs = Inr () \<longleftrightarrow>
     (\<forall>k<length rs. lr_seq (rs ! k) = i + int k + 1
        \<and> lr_prev_hash (rs ! k) = (if k = 0 then prev else lr_hash (rs ! (k - 1)))
        \<and> lr_hash (rs ! k) = hash_record sha256 (rs ! k))"
proof (induction rs arbitrary: i prev)
  case (Cons r rs)
  have step: "(if k = 0 then lr_hash r else lr_hash (rs ! (k - 1))) = lr_hash ((r # rs) ! k)" for k
    by (cases k) auto
  show ?case
    unfolding length_Cons all_less_Suc_split by (auto simp: Cons.IH step add.assoc)
qed simp

lemma verify_records_iff: "verify_records sha256 rs = Inr () \<longleftrightarrow> (\<forall>k<length rs. chained sha256 rs k)"
  by (simp add: verify_records_def verify_from_iff chained_def)

lemma chained_butlast:
  "k < length rs \<Longrightarrow> chained sha256 (rs @ [r]) k \<longleftrightarrow> chained sha256 rs k"
  by (cases k) (simp_all add: chained_def nth_append)

lemma verify_snoc:
  "verify_records sha256 (rs @ [r]) = Inr () \<longleftrightarrow> verify_records sha256 rs = Inr ()
     \<and> lr_seq r = int (length rs) + 1 \<and> lr_prev_hash r = (if rs = [] then [] else lr_hash (last rs))
     \<and> lr_hash r = hash_record sha256 r"
proof -
  have last: "chained sha256 (rs @ [r]) (length rs) \<longleftrightarrow> lr_seq r = int (length rs) + 1
     \<and> lr_prev_hash r = (if rs = [] then [] else lr_hash (last rs)) \<and> lr_hash r = hash_record sha256 r"
    by (cases rs rule: rev_cases) (auto simp: chained_def nth_append last_conv_nth)
  show ?thesis
    by (auto simp: verify_records_iff less_Suc_eq all_conj_distrib chained_butlast last)
qed

text \<open>The tip a ledger holds in memory is that of the records in its file.\<close>

definition at_tip :: "ledger \<Rightarrow> ledger_record list \<Rightarrow> bool" where
  "at_tip l rs \<longleftrightarrow> lg_last_hash l = (if rs = [] then [] else lr_hash (last rs)) \<and> lg_seq l = int (length rs)"

lemma hash_record_hash [simp]: "hash_record sha256 (r\<lparr>lr_hash := h\<rparr>) = hash_record sha256 r"
  by (simp add: hash_record_def hash_preimage_def)

lemma append_record_ok:
  "append_record sha256 fault now typ payload l = (Inr r, l') \<Longrightarrow>
     \<exists>pb line. payload = Inr pb \<and> r = next_record sha256 l now typ pb \<and> marshal_record r = Inr line
       \<and> l' = l\<lparr>lg_file := lg_file l @ line @ [CHR 0x0A], lg_last_hash := lr_hash r, lg_seq := lr_seq r\<rparr>"
  by (auto simp: append_record_def Let_def split: sum.splits file_fault.splits)

lemma append_record_error:
  "append_record sha256 fault now typ payload l = (Inl e, l') \<Longrightarrow> lg_last_hash l' = lg_last_hash l \<and> lg_seq l' = lg_seq l"
  by (auto simp: append_record_def Let_def split: sum.splits file_fault.splits)

lemma next_record_chain:
  "at_tip l rs \<Longrightarrow> verify_records sha256 rs = Inr () \<Longrightarrow>
     verify_records sha256 (rs @ [next_record sha256 l now typ pb]) = Inr ()"
  by (simp add: verify_snoc at_tip_def next_record_def Let_def hash_record_def hash_preimage_def)

lemma append_keeps_chain_step:
  assumes "at_tip l rs" and "verify_records sha256 rs = Inr ()"
    and "append_record sha256 fault now typ payload l = (Inr r, l')"
  shows "verify_records sha256 (rs @ [r]) = Inr () \<and> at_tip l' (rs @ [r]) \<and> lr_type r = typ
    \<and> payload = Inr (lr_payload r) \<and> (\<exists>line. marshal_record r = Inr line \<and> lg_file l' = lg_file l @ line @ [CHR 0x0A])"
proof -
  from append_record_ok [OF assms(3)] obtain pb line where pb: "payload = Inr pb"
    and r: "r = next_record sha256 l now typ pb" and line: "marshal_record r = Inr line"
    and l': "l' = l\<lparr>lg_file := lg_file l @ line @ [CHR 0x0A], lg_last_hash := lr_hash r, lg_seq := lr_seq r\<rparr>" by blast
  have "verify_records sha256 (rs @ [r]) = Inr ()" unfolding r by (rule next_record_chain [OF assms(1,2)])
  moreover have "lr_seq r = int (length rs) + 1" "lr_type r = typ" "lr_payload r = pb"
    using assms(1) by (simp_all add: r next_record_def Let_def at_tip_def)
  ultimately show ?thesis using pb line by (simp add: l' at_tip_def)
qed

section \<open>The preimage\<close>

lemma newline_split:
  "a @ CHR 0x0A # s = b @ CHR 0x0A # t \<Longrightarrow> CHR 0x0A \<notin> set a \<Longrightarrow> CHR 0x0A \<notin> set b \<Longrightarrow> a = b \<and> s = t"
  by (induction a arbitrary: b) (auto simp: Cons_eq_append_conv append_eq_Cons_conv)

definition one_line :: "ledger_record \<Rightarrow> bool" where
  "one_line r \<longleftrightarrow> CHR 0x0A \<notin> set (lr_time r) \<and> CHR 0x0A \<notin> set (lr_type r)"

lemma preimage_inj:
  assumes "hash_preimage a = hash_preimage b" and "0 \<le> lr_seq a" and "0 \<le> lr_seq b"
    and "one_line a" and "one_line b" and "CHR 0x0A \<notin> set (lr_prev_hash a)" and "CHR 0x0A \<notin> set (lr_prev_hash b)"
  shows "lr_seq a = lr_seq b \<and> lr_time a = lr_time b \<and> lr_type a = lr_type b \<and> lr_prev_hash a = lr_prev_hash b
    \<and> lr_payload a = lr_payload b"
proof -
  from assms(1) have eq: "itoa (lr_seq a) @ CHR 0x0A # (lr_time a @ CHR 0x0A # (lr_type a @ CHR 0x0A # (lr_prev_hash a @ CHR 0x0A # lr_payload a)))
    = itoa (lr_seq b) @ CHR 0x0A # (lr_time b @ CHR 0x0A # (lr_type b @ CHR 0x0A # (lr_prev_hash b @ CHR 0x0A # lr_payload b)))"
    by (simp add: hash_preimage_def)
  from newline_split [OF eq itoa_no_newline itoa_no_newline] assms(2,3)
  have s: "itoa (lr_seq a) = itoa (lr_seq b)" and eq1: "lr_time a @ CHR 0x0A # (lr_type a @ CHR 0x0A # (lr_prev_hash a @ CHR 0x0A # lr_payload a))
      = lr_time b @ CHR 0x0A # (lr_type b @ CHR 0x0A # (lr_prev_hash b @ CHR 0x0A # lr_payload b))" by auto
  from newline_split [OF eq1] assms(4,5) have t: "lr_time a = lr_time b"
    and eq2: "lr_type a @ CHR 0x0A # (lr_prev_hash a @ CHR 0x0A # lr_payload a)
      = lr_type b @ CHR 0x0A # (lr_prev_hash b @ CHR 0x0A # lr_payload b)" by (auto simp: one_line_def)
  from newline_split [OF eq2] assms(4,5) have y: "lr_type a = lr_type b"
    and eq3: "lr_prev_hash a @ CHR 0x0A # lr_payload a = lr_prev_hash b @ CHR 0x0A # lr_payload b" by (auto simp: one_line_def)
  from newline_split [OF eq3 assms(6,7)] itoa_inj [OF assms(2,3) s] t y show ?thesis by simp
qed

lemma verified_prev_one_line:
  "verify_records sha256 (rs @ [r]) = Inr () \<Longrightarrow> CHR 0x0A \<notin> set (lr_prev_hash r)"
proof -
  assume v: "verify_records sha256 (rs @ [r]) = Inr ()"
  show ?thesis
  proof (cases rs rule: rev_cases)
    case Nil
    with v verify_snoc [of sha256 "[]" r] show ?thesis by simp
  next
    case (snoc rs' r')
    with v verify_snoc [of sha256 rs r] verify_snoc [of sha256 rs' r'] have "lr_prev_hash r = hash_record sha256 r'" by simp
    then show ?thesis by (simp add: hash_record_def hex_no_newline)
  qed
qed

section \<open>Properties\<close>

definition short_hash :: "string \<Rightarrow> string" where
  "short_hash s = take 1 (rev s)"

definition fresh_ledger :: ledger where
  "fresh_ledger = \<lparr>lg_last_hash = [], lg_seq = 0, lg_file = []\<rparr>"

text \<open>
  C25. Appending keeps the chain: if the ledger in memory is at the tip of a verified list of records,
  then after a successful append it is at the tip of that list with one more record, which verifies and
  whose line is what was added to the file; after a failed one the tip in memory is unchanged.
\<close>

theorem append_keeps_chain:
  assumes "at_tip l rs" and "verify_records sha256 rs = Inr ()"
    and "append_record sha256 fault now typ payload l = (res, l')"
  shows "case res of
      Inl e \<Rightarrow> at_tip l' rs
    | Inr r \<Rightarrow> verify_records sha256 (rs @ [r]) = Inr () \<and> at_tip l' (rs @ [r]) \<and> lr_type r = typ
        \<and> payload = Inr (lr_payload r) \<and> (\<exists>line. marshal_record r = Inr line \<and> lg_file l' = lg_file l @ line @ [CHR 0x0A])"
proof (cases res)
  case (Inl e)
  with assms(1,3) append_record_error show ?thesis by (auto simp: at_tip_def)
next
  case (Inr r)
  with append_keeps_chain_step [OF assms(1,2)] assms(3) show ?thesis by simp
qed

lemma append_keeps_chain_witness:
  "\<exists>r l'. append_record short_hash No_Fault ''t'' ''authorize'' (Inr ''{}'') fresh_ledger = (Inr r, l')
     \<and> verify_records short_hash [r] = Inr ()"
proof -
  have "is_ok (fst (append_record short_hash No_Fault ''t'' ''authorize'' (Inr ''{}'') fresh_ledger))" by code_simp
  then obtain r l' where a: "append_record short_hash No_Fault ''t'' ''authorize'' (Inr ''{}'') fresh_ledger = (Inr r, l')"
    by (cases "append_record short_hash No_Fault ''t'' ''authorize'' (Inr ''{}'') fresh_ledger") (auto simp: is_ok_iff)
  have "at_tip fresh_ledger []" "verify_records short_hash [] = Inr ()"
    by (simp_all add: at_tip_def fresh_ledger_def verify_records_def)
  from append_keeps_chain [OF this a] a show ?thesis by auto
qed

text \<open>
  C24. The last hash pins the whole history: two verified ledgers that end in the same hash are equal,
  record by record, provided the hash does not collide on the records at hand and no time or type
  contains a newline (the daemon writes RFC 3339 times and the type \<open>authorize\<close>). Nothing can be
  changed, inserted, removed or reordered without changing the tip.
\<close>

theorem last_hash_pins_history:
  assumes "verify_records sha256 rs = Inr ()" and "verify_records sha256 rs' = Inr ()"
    and "rs \<noteq> []" and "rs' \<noteq> []" and "lr_hash (last rs) = lr_hash (last rs')"
    and "\<forall>a\<in>set rs. \<forall>b\<in>set rs'. hash_record sha256 a = hash_record sha256 b \<longrightarrow> hash_preimage a = hash_preimage b"
    and "list_all one_line rs" and "list_all one_line rs'"
  shows "rs = rs'"
  using assms
proof (induction rs arbitrary: rs' rule: rev_induct)
  case (snoc a rs)
  then obtain b ts where rs': "rs' = ts @ [b]" by (cases rs' rule: rev_cases) auto
  from snoc.prems rs' have a: "lr_seq a = int (length rs) + 1" "lr_prev_hash a = (if rs = [] then [] else lr_hash (last rs))"
      "lr_hash a = hash_record sha256 a" and b: "lr_seq b = int (length ts) + 1"
      "lr_prev_hash b = (if ts = [] then [] else lr_hash (last ts))" "lr_hash b = hash_record sha256 b"
    by (simp_all add: verify_snoc)
  have "hash_preimage a = hash_preimage b" using snoc.prems(5,6) rs' a(3) b(3) by auto
  from preimage_inj [OF this] snoc.prems(7,8) rs' a(1) b(1) verified_prev_one_line [OF snoc.prems(1)]
    verified_prev_one_line [OF snoc.prems(2) [unfolded rs']]
  have eq: "lr_seq a = lr_seq b" "lr_time a = lr_time b" "lr_type a = lr_type b" "lr_prev_hash a = lr_prev_hash b"
    "lr_payload a = lr_payload b" by auto
  from snoc.prems(5) rs' have "lr_hash a = lr_hash b" by simp
  with eq have ab: "a = b" by simp
  have len: "length rs = length ts" using eq(1) a(1) b(1) by simp
  have "rs = ts"
  proof (cases "rs = []")
    case True
    with len show ?thesis by simp
  next
    case False
    with len have ts: "ts \<noteq> []" by auto
    with False eq(4) a(2) b(2) have "lr_hash (last rs) = lr_hash (last ts)" by simp
    with snoc.IH [of ts] snoc.prems False ts rs' show ?thesis by (simp add: verify_snoc)
  qed
  with ab rs' show ?case by simp
qed simp

lemma last_hash_pins_history_witness:
  "\<exists>r. verify_records short_hash [r] = Inr () \<and> [r] = [next_record short_hash fresh_ledger ''t'' ''authorize'' ''{}'']"
proof -
  let ?r = "next_record short_hash fresh_ledger ''t'' ''authorize'' ''{}''"
  have v: "verify_records short_hash [?r] = Inr ()" by code_simp
  have "one_line ?r" by code_simp
  with last_hash_pins_history [OF v v] v show ?thesis by simp
qed

text \<open>
  C39. A failed sync breaks the ledger: the record is in the file although \<open>Append\<close> reports an error and
  the tip is not advanced, so the next successful append repeats its sequence number, and from then on
  verification, and with it opening the ledger, fails for good.
\<close>

theorem failed_sync_breaks_chain:
  assumes "at_tip l rs" and "append_record sha256 (Sync_Fails e) t1 y1 (Inr p1) l = (Inl e, l1)"
    and "append_record sha256 No_Fault t2 y2 (Inr p2) l1 = (Inr r2, l2)"
    and "marshal_record (next_record sha256 l t1 y1 p1) = Inr line1"
  shows "\<exists>line2. marshal_record r2 = Inr line2 \<and> lg_file l2 = lg_file l @ line1 @ [CHR 0x0A] @ line2 @ [CHR 0x0A]
    \<and> (\<exists>reason. verify_records sha256 (rs @ [next_record sha256 l t1 y1 p1, r2]) = Inl reason)"
proof -
  let ?r1 = "next_record sha256 l t1 y1 p1"
  have l1: "l1 = l\<lparr>lg_file := lg_file l @ line1 @ [CHR 0x0A]\<rparr>"
    using assms(2,4) by (simp add: append_record_def Let_def)
  from append_record_ok [OF assms(3)] obtain line2 where r2: "r2 = next_record sha256 l1 t2 y2 p2"
    and line: "marshal_record r2 = Inr line2" "lg_file l2 = lg_file l1 @ line2 @ [CHR 0x0A]" by auto
  have "lr_seq r2 = int (length rs) + 1" using assms(1) by (simp add: r2 l1 next_record_def Let_def at_tip_def)
  then have "verify_records sha256 ((rs @ [?r1]) @ [r2]) \<noteq> Inr ()" unfolding verify_snoc [of sha256 "rs @ [?r1]"] by simp
  then have "\<exists>reason. verify_records sha256 (rs @ [?r1, r2]) = Inl reason"
    by (cases "verify_records sha256 (rs @ [?r1, r2])") auto
  with line l1 show ?thesis by simp
qed

lemma failed_sync_breaks_chain_witness:
  "\<exists>l1 r2 l2 reason. append_record short_hash (Sync_Fails ''EIO'') ''t'' ''a'' (Inr ''1'') fresh_ledger = (Inl ''EIO'', l1)
     \<and> append_record short_hash No_Fault ''t'' ''a'' (Inr ''2'') l1 = (Inr r2, l2)
     \<and> verify_records short_hash [next_record short_hash fresh_ledger ''t'' ''a'' ''1'', r2] = Inl reason"
proof -
  have m: "is_ok (marshal_record (next_record short_hash fresh_ledger ''t'' ''a'' ''1''))" by code_simp
  then obtain line1 where line1: "marshal_record (next_record short_hash fresh_ledger ''t'' ''a'' ''1'') = Inr line1"
    by (auto simp: is_ok_iff)
  define l1 where "l1 = fresh_ledger\<lparr>lg_file := line1 @ [CHR 0x0A]\<rparr>"
  have a1: "append_record short_hash (Sync_Fails ''EIO'') ''t'' ''a'' (Inr ''1'') fresh_ledger = (Inl ''EIO'', l1)"
    using line1 by (simp add: append_record_def Let_def l1_def fresh_ledger_def)
  have "next_record short_hash l1 ''t'' ''a'' ''2'' = next_record short_hash fresh_ledger ''t'' ''a'' ''2''"
    by (simp add: next_record_def l1_def fresh_ledger_def)
  moreover have "is_ok (marshal_record (next_record short_hash fresh_ledger ''t'' ''a'' ''2''))" by code_simp
  ultimately obtain line2 where "marshal_record (next_record short_hash l1 ''t'' ''a'' ''2'') = Inr line2"
    by (auto simp: is_ok_iff)
  then obtain r2 l2 where a2: "append_record short_hash No_Fault ''t'' ''a'' (Inr ''2'') l1 = (Inr r2, l2)"
    by (simp add: append_record_def Let_def)
  have "at_tip fresh_ledger []" by (simp add: at_tip_def fresh_ledger_def)
  from failed_sync_breaks_chain [OF this a1 a2 line1] a1 a2 show ?thesis by auto
qed

end
