(* ===== verification/Decision_Audit.thy ===== *)
theory Decision_Audit
  imports Authz Evidence
begin

text \<open>
  \<^verbatim>\<open>internal/node/daemon/audit.go\<close>: the evidence written for every authorization. Lemmas: no
  secret survives in the text of an entry nor in any string or key of its parameters; the entry records
  the decision, and an error is recorded as such.
\<close>

section \<open>Redaction\<close>

text \<open>\<open>strings.ReplaceAll\<close> with a non-empty old text.\<close>

fun replace_loop :: "nat \<Rightarrow> string \<Rightarrow> string \<Rightarrow> string \<Rightarrow> string" where
  "replace_loop 0 old new s = s"
| "replace_loop (Suc n) old new [] = []"
| "replace_loop (Suc n) old new (c # s) =
     (if has_prefix (c # s) old then new @ replace_loop n old new (drop (length old) (c # s))
      else c # replace_loop n old new s)"

definition replace_all :: "string \<Rightarrow> string \<Rightarrow> string \<Rightarrow> string" where
  "replace_all s old new = replace_loop (length s) old new s"

definition redacted_mark :: string where
  "redacted_mark = ''[REDACTED]''"

definition audit_secrets :: "authorize_request \<Rightarrow> authorize_response option \<Rightarrow> string list" where
  "audit_secrets req resp =
     aq_svid req # (case resp of None \<Rightarrow> []
       | Some r \<Rightarrow> (case as_inject r of None \<Rightarrow> [] | Some i \<Rightarrow> [in_value i]))"

definition redact_secret :: "string \<Rightarrow> string \<Rightarrow> string" where
  "redact_secret secret v = (if secret \<noteq> [] then replace_all v secret redacted_mark else v)"

definition sanitize_authorize_text :: "string \<Rightarrow> authorize_request \<Rightarrow> authorize_response option \<Rightarrow> string" where
  "sanitize_authorize_text v req resp = fold redact_secret (audit_secrets req resp) v"

text \<open>\<open>redactJSONStrings\<close>; keys that redaction makes equal overwrite each other in the order held.\<close>

fun redact_json_strings :: "(string \<Rightarrow> string) \<Rightarrow> any \<Rightarrow> any" where
  "redact_json_strings san (AStr s) = AStr (san s)"
| "redact_json_strings san (AArr xs) = AArr (map (redact_json_strings san) xs)"
| "redact_json_strings san (AObj ms) =
     AObj (fold (\<lambda>(k, v) m. assoc_set k v m) (map (\<lambda>(k, v). (san k, redact_json_strings san v)) ms) [])"
| "redact_json_strings san a = a"

definition sanitize_tool_params :: "string \<Rightarrow> authorize_request \<Rightarrow> authorize_response option \<Rightarrow> string" where
  "sanitize_tool_params params req resp =
     (if params = [] then []
      else case parse_first params of
        None \<Rightarrow> []
      | Some (j, _) \<Rightarrow> marshal (redact_json_strings (\<lambda>v. sanitize_authorize_text v req resp) (to_any j)))"

section \<open>The entry\<close>

record authorize_audit =
  ae_dst_addr :: string
  ae_dst_host :: string
  ae_session_id :: string
  ae_policy_id :: string
  ae_tool_call :: string
  ae_tool_params :: string
  ae_decision :: string
  ae_reason :: string
  ae_error_kind :: string
  ae_error :: string
  ae_latency_ms :: int
  ae_inject_header :: string

definition audit_entry ::
  "authorize_request \<Rightarrow> authorize_response option \<Rightarrow> broker_error option \<Rightarrow> int \<Rightarrow> authorize_audit" where
  "audit_entry req resp err elapsed_ms =
     (let entry = \<lparr>ae_dst_addr = aq_dst_addr req, ae_dst_host = aq_dst_host req, ae_session_id = aq_session_id req,
            ae_policy_id = aq_policy_id req, ae_tool_call = aq_tool_call req,
            ae_tool_params = sanitize_tool_params (aq_tool_params req) req resp, ae_decision = [], ae_reason = [],
            ae_error_kind = [], ae_error = [], ae_latency_ms = elapsed_ms, ae_inject_header = []\<rparr>
      in case err of
           Some e \<Rightarrow> entry\<lparr>ae_decision := ''error'', ae_error_kind := error_kind (Some e),
             ae_error := sanitize_authorize_text (error_text e) req resp\<rparr>
         | None \<Rightarrow>
             (case resp of
                Some r \<Rightarrow> entry\<lparr>ae_decision := as_decision r, ae_reason := sanitize_authorize_text (as_reason r) req resp,
                  ae_inject_header := (case as_inject r of None \<Rightarrow> [] | Some i \<Rightarrow> in_name i)\<rparr>
              | None \<Rightarrow> entry\<lparr>ae_decision := ''error'', ae_error_kind := ''invalid_response'',
                  ae_error := ''broker returned no response''\<rparr>))"

definition marshal_audit :: "authorize_audit \<Rightarrow> string result" where
  "marshal_audit e =
     bind_result (if ae_tool_params e = [] then Inr [] else marshal_raw (ae_tool_params e)) (\<lambda>params. Inr (json_object
       ([(''dst_addr'', quote (ae_dst_addr e))] @ omit_if (ae_dst_host e = []) ''dst_host'' (quote (ae_dst_host e))
        @ omit_if (ae_session_id e = []) ''session_id'' (quote (ae_session_id e))
        @ omit_if (ae_policy_id e = []) ''policy_id'' (quote (ae_policy_id e))
        @ omit_if (ae_tool_call e = []) ''tool_call'' (quote (ae_tool_call e))
        @ omit_if (ae_tool_params e = []) ''tool_params'' params
        @ [(''decision'', quote (ae_decision e))] @ omit_if (ae_reason e = []) ''reason'' (quote (ae_reason e))
        @ omit_if (ae_error_kind e = []) ''error_kind'' (quote (ae_error_kind e))
        @ omit_if (ae_error e = []) ''error'' (quote (ae_error e))
        @ [(''latency_ms'', itoa (ae_latency_ms e))]
        @ omit_if (ae_inject_header e = []) ''inject_header'' (quote (ae_inject_header e)))))"

text \<open>A nil ledger accepts everything without writing.\<close>

definition append_authorize_audit ::
  "(string \<Rightarrow> string) \<Rightarrow> file_fault \<Rightarrow> string \<Rightarrow> ledger option \<Rightarrow> authorize_request \<Rightarrow> authorize_response option
     \<Rightarrow> broker_error option \<Rightarrow> int \<Rightarrow> unit result \<times> ledger option"
where
  "append_authorize_audit sha256 fault now lg req resp err elapsed_ms =
     (case lg of
        None \<Rightarrow> (Inr (), None)
      | Some l \<Rightarrow>
          (case append_record sha256 fault now ''authorize'' (marshal_audit (audit_entry req resp err elapsed_ms)) l of
             (Inl e, l') \<Rightarrow> (Inl e, Some l')
           | (Inr _, l') \<Rightarrow> (Inr (), Some l')))"

section \<open>No secret survives\<close>

text \<open>A text that cannot meet the mark: not empty, without brackets, and not part of the mark's word.\<close>

definition plain_secret :: "string \<Rightarrow> bool" where
  "plain_secret t \<longleftrightarrow> t \<noteq> [] \<and> CHR ''['' \<notin> set t \<and> CHR '']'' \<notin> set t \<and> \<not> contains ''REDACTED'' t"

lemma bracket_split:
  assumes "a @ t @ b = u @ c # v" and "c \<notin> set t" and "t \<noteq> []"
  shows "(\<exists>x y. u = x @ t @ y) \<or> (\<exists>x y. v = x @ t @ y)"
proof -
  have start: "t @ r \<noteq> c # w" for r w using assms(2,3) by (cases t) auto
  from assms(1) consider us where "a = u @ us" "us @ t @ b = c # v" | us where "u = a @ us" "t @ b = us @ c # v"
    by (auto simp: append_eq_append_conv2)
  then show ?thesis
  proof cases
    case 1
    with start [of b v] obtain us' where "us = c # us'" by (cases us) auto
    with 1 show ?thesis by auto
  next
    case 2
    from 2(2) consider z where "t = us @ z" "z @ b = c # v" | z where "us = t @ z"
      by (auto simp: append_eq_append_conv2)
    then show ?thesis
    proof cases
      case 1
      with assms(2) have "z = []" by (cases z) auto
      with 1 2 have "u = a @ t @ []" by simp
      then show ?thesis by blast
    next
      case 2
      with \<open>u = a @ us\<close> show ?thesis by auto
    qed
  qed
qed

lemma contains_past_mark:
  assumes "contains (redacted_mark @ s) t" and "plain_secret t"
  shows "contains s t"
proof -
  from assms(1) obtain a b where "a @ t @ b = [] @ CHR ''['' # (''REDACTED'' @ CHR '']'' # s)"
    by (auto simp: contains_iff redacted_mark_def)
  from bracket_split [OF this] assms(2) obtain x y where "x @ t @ y = ''REDACTED'' @ CHR '']'' # s"
    by (auto simp: plain_secret_def)
  from bracket_split [OF this] assms(2) show ?thesis by (auto simp: plain_secret_def contains_iff)
qed

lemma replace_prefix:
  "has_prefix (replace_loop n old redacted_mark s) t \<Longrightarrow> CHR ''['' \<notin> set t \<Longrightarrow> has_prefix s t"
proof (induction n old redacted_mark s arbitrary: t rule: replace_loop.induct)
  case (3 n old c s)
  then show ?case by (cases t) (auto simp: redacted_mark_def split: if_splits)
qed auto

lemma contains_drop: "contains (drop k s) t \<Longrightarrow> contains s t"
  by (metis append.assoc append_take_drop_id contains_iff)

lemma replaced_absent:
  "plain_secret t \<Longrightarrow> old \<noteq> [] \<Longrightarrow> length s \<le> n \<Longrightarrow> t = old \<or> \<not> contains s t
     \<Longrightarrow> \<not> contains (replace_loop n old redacted_mark s) t"
proof (induction n old redacted_mark s rule: replace_loop.induct)
  case (3 n old c s)
  show ?case
  proof (cases "has_prefix (c # s) old")
    case True
    have len: "length (drop (length old) (c # s)) \<le> n" using 3(4,5) by (cases old) auto
    have "t = old \<or> \<not> contains (drop (length old) (c # s)) t" using 3(6) contains_drop by blast
    from 3(1) [OF True 3(3,4) len this] True contains_past_mark [OF _ 3(3)] show ?thesis by auto
  next
    case False
    have absent: "t = old \<or> \<not> contains s t" using 3(6) by auto
    have "\<not> contains (replace_loop n old redacted_mark s) t" using 3(2) [OF False 3(3,4) _ absent] 3(5) by simp
    moreover have "\<not> has_prefix (c # replace_loop n old redacted_mark s) t"
    proof
      assume "has_prefix (c # replace_loop n old redacted_mark s) t"
      moreover obtain d u where t: "t = d # u" using 3(3) by (cases t) (auto simp: plain_secret_def)
      ultimately have "has_prefix s u" "d = c" using 3(3) replace_prefix [of n old s u] by (auto simp: plain_secret_def)
      then have "has_prefix (c # s) t" by (simp add: t)
      with False 3(6) show False by auto
    qed
    ultimately show ?thesis using False by simp
  qed
qed (auto simp: plain_secret_def)

lemma redact_absent:
  "plain_secret t \<Longrightarrow> t = secret \<or> \<not> contains v t \<Longrightarrow> \<not> contains (redact_secret secret v) t"
  using replaced_absent [of t secret v "length v"] by (auto simp: redact_secret_def replace_all_def plain_secret_def)

lemma fold_redact_keeps: "plain_secret t \<Longrightarrow> \<not> contains v t \<Longrightarrow> \<not> contains (fold redact_secret secrets v) t"
  by (induction secrets arbitrary: v) (auto simp: redact_absent)

lemma fold_redact_absent: "plain_secret t \<Longrightarrow> t \<in> set secrets \<Longrightarrow> \<not> contains (fold redact_secret secrets v) t"
proof (induction secrets arbitrary: v)
  case (Cons x secrets)
  then show ?case using fold_redact_keeps [of t "redact_secret x v"] redact_absent [of t x v] by auto
qed simp

lemma sanitized_absent:
  "plain_secret t \<Longrightarrow> t \<in> set (audit_secrets req resp) \<Longrightarrow> \<not> contains (sanitize_authorize_text v req resp) t"
  by (simp add: sanitize_authorize_text_def fold_redact_absent)

fun every_string :: "(string \<Rightarrow> bool) \<Rightarrow> any \<Rightarrow> bool" where
  "every_string P (AStr s) = P s"
| "every_string P (AArr xs) = (\<forall>x\<in>set xs. every_string P x)"
| "every_string P (AObj ms) = (\<forall>kv\<in>set ms. P (fst kv) \<and> every_string P (snd kv))"
| "every_string P a = True"

lemma fold_assoc_subset: "set (fold (\<lambda>(k, v) m. assoc_set k v m) kvs m) \<subseteq> set kvs \<union> set m"
proof (induction kvs arbitrary: m)
  case (Cons kv kvs)
  obtain k v where kv: "kv = (k, v)" by (cases kv)
  have "set (assoc_set k v m) \<subseteq> insert (k, v) (set m)" by (induction k v m rule: assoc_set.induct) auto
  with Cons.IH [of "assoc_set k v m"] show ?case by (auto simp: kv)
qed simp

lemma every_string_redact:
  assumes "\<And>v. P (san v)"
  shows "every_string P (redact_json_strings san a)"
proof (induction a)
  case (AObj ms)
  show ?case
  proof (simp only: redact_json_strings.simps every_string.simps, rule ballI)
    fix kv assume "kv \<in> set (fold (\<lambda>(k, v) m. assoc_set k v m) (map (\<lambda>(k, v). (san k, redact_json_strings san v)) ms) [])"
    then have "kv \<in> set (map (\<lambda>(k, v). (san k, redact_json_strings san v)) ms)"
      using fold_assoc_subset [of "map (\<lambda>(k, v). (san k, redact_json_strings san v)) ms" "[]"] by auto
    then obtain k v where "(k, v) \<in> set ms" "kv = (san k, redact_json_strings san v)" by auto
    with AObj assms show "P (fst kv) \<and> every_string P (snd kv)" by fastforce
  qed
qed (simp_all add: assms)

lemma audit_entry_cases:
  "ae_reason (audit_entry req resp err ms) = [] \<or> (\<exists>v. ae_reason (audit_entry req resp err ms) = sanitize_authorize_text v req resp)"
  "ae_error (audit_entry req resp err ms) \<in> {[], ''broker returned no response''}
     \<or> (\<exists>v. ae_error (audit_entry req resp err ms) = sanitize_authorize_text v req resp)"
  "ae_tool_params (audit_entry req resp err ms) = sanitize_tool_params (aq_tool_params req) req resp"
  by (auto simp: audit_entry_def Let_def split: option.split)

lemma sanitize_tool_params_strings:
  assumes "plain_secret t" and "t \<in> set (audit_secrets req resp)"
  shows "sanitize_tool_params params req resp = []
    \<or> (\<exists>a. sanitize_tool_params params req resp = marshal a \<and> every_string (\<lambda>s. \<not> contains s t) a)"
  using every_string_redact [of "\<lambda>s. \<not> contains s t" "\<lambda>v. sanitize_authorize_text v req resp"] sanitized_absent [OF assms]
  by (auto simp: sanitize_tool_params_def split: option.split)

section \<open>Properties\<close>

definition leaky_request :: authorize_request where
  "leaky_request = \<lparr>aq_dst_addr = ''a'', aq_dst_host = [], aq_session_id = [], aq_svid = ''kit1'', aq_policy_id = [],
     aq_tool_call = [], aq_tool_params = json_object [(''q'', json_q ''akit1b'')]\<rparr>"

text \<open>
  C25. No secret reaches the evidence: neither the KIT sent to the broker nor the credential it returned
  occurs in the recorded reason or error, nor in any string or key of the recorded parameters, for any
  secret without brackets that is not part of the word REDACTED. (The mark itself cannot complete a
  secret with the text around it, and the second redaction cannot bring back the first secret.)
\<close>

theorem audit_redacts_secrets:
  assumes "plain_secret t" and "t \<in> set (audit_secrets req resp)"
  shows "\<not> contains (ae_reason (audit_entry req resp err ms)) t
    \<and> (ae_error (audit_entry req resp err ms) = ''broker returned no response'' \<or> \<not> contains (ae_error (audit_entry req resp err ms)) t)
    \<and> (ae_tool_params (audit_entry req resp err ms) = [] \<or>
       (\<exists>a. ae_tool_params (audit_entry req resp err ms) = marshal a \<and> every_string (\<lambda>s. \<not> contains s t) a))"
proof -
  have "\<not> contains [] t" using assms(1) by (simp add: plain_secret_def)
  with audit_entry_cases [of req resp err ms] sanitized_absent [OF assms] sanitize_tool_params_strings [OF assms]
  show ?thesis by auto
qed

lemma audit_redacts_secrets_witness:
  "\<not> contains (ae_reason (audit_entry leaky_request (Some \<lparr>as_decision = ''deny'', as_inject = None, as_reason = ''no kit1''\<rparr>) None 0)) ''kit1''"
proof -
  have "plain_secret ''kit1''" by code_simp
  moreover have "''kit1'' \<in> set (audit_secrets leaky_request (Some \<lparr>as_decision = ''deny'', as_inject = None, as_reason = ''no kit1''\<rparr>))"
    by (simp add: audit_secrets_def leaky_request_def)
  ultimately show ?thesis using audit_redacts_secrets by blast
qed

end
