(* ===== verification/Daemon.thy ===== *)
theory Daemon
  imports Sandbox_Proxy Decision_Audit
begin

text \<open>
  \<^verbatim>\<open>internal/node/daemon/daemon.go\<close>, \<open>handleFlow\<close>: what the daemon does with a flow, by the
  session's routes, the scope, and the broker; and what the data plane then sends
  (\<^verbatim>\<open>sandboxproxy.go\<close>, \<open>Inject\<close> to \<open>Reject\<close>). Lemmas: exactly one action for every flow, in
  bounded time; every decision of the broker path is in the evidence before it takes effect; a
  credential is injected only on the broker's allow for this flow; what goes upstream goes to the
  flow's destination without proxy credentials.
\<close>

section \<open>Handling a flow\<close>

text \<open>
  The node: its configuration, and what the environment answers: the broker, the evidence file, the
  clock's text and the milliseconds the broker took.
\<close>

record node =
  nd_policy_id :: string
  nd_control_url :: string
  nd_router :: router
  nd_scope :: "scope option"
  nd_sha256 :: "string \<Rightarrow> string"
  nd_broker :: "string \<Rightarrow> broker_reply"
  nd_fault :: file_fault
  nd_time :: string
  nd_elapsed_ms :: int

definition authorize_request_of :: "node \<Rightarrow> flow \<Rightarrow> authorize_request" where
  "authorize_request_of nd f =
     \<lparr>aq_dst_addr = dst_string f, aq_dst_host = dst_host f, aq_session_id = fl_session_id f, aq_svid = fl_svid f,
      aq_policy_id = nd_policy_id nd, aq_tool_call = fl_tool_call f, aq_tool_params = fl_tool_params f\<rparr>"

definition audit :: "node \<Rightarrow> ledger option \<Rightarrow> authorize_request \<Rightarrow> authorize_response option \<Rightarrow> broker_error option
    \<Rightarrow> int \<Rightarrow> unit result \<times> ledger option" where
  "audit nd = append_authorize_audit (nd_sha256 nd) (nd_fault nd) (nd_time nd)"

definition audit_unavailable :: string where
  "audit_unavailable = ''authorization audit unavailable''"

definition injected_credential :: "authorize_response \<Rightarrow> credential" where
  "injected_credential resp =
     (case as_inject resp of None \<Rightarrow> no_credential
      | Some i \<Rightarrow> \<lparr>cr_type = in_type i, cr_name = in_name i, cr_value = in_value i\<rparr>)"

text \<open>The broker path, after routes and scope.\<close>

definition handle_authorized :: "node \<Rightarrow> flow \<Rightarrow> ledger option \<Rightarrow> dp_action list \<times> ledger option" where
  "handle_authorized nd f lg =
     (let req = authorize_request_of nd f in
      if fl_metadata_error f \<noteq> [] then
        (let reason = ''invalid request metadata: '' @ fl_metadata_error f in
         case audit nd lg req (Some \<lparr>as_decision = decision_deny, as_inject = None, as_reason = reason\<rparr>) None 0 of
           (Inl _, lg1) \<Rightarrow> ([Reject audit_unavailable], lg1)
         | (Inr _, lg1) \<Rightarrow> ([Reject reason], lg1))
      else
        (case authorize (nd_broker nd) (nd_control_url nd) req of
           Inl e \<Rightarrow>
             (case audit nd lg req None (Some e) (nd_elapsed_ms nd) of
                (Inl _, lg1) \<Rightarrow> ([Reject audit_unavailable], lg1)
              | (Inr _, lg1) \<Rightarrow> ([Reject ''broker unavailable''], lg1))
         | Inr resp \<Rightarrow>
             (case audit nd lg req (Some resp) None (nd_elapsed_ms nd) of
                (Inl _, lg1) \<Rightarrow> ([Reject audit_unavailable], lg1)
              | (Inr _, lg1) \<Rightarrow>
                  if as_decision resp \<noteq> decision_allow
                  then ([Reject (sanitize_authorize_text (as_reason resp) req (Some resp))], lg1)
                  else ([Inject (injected_credential resp)], lg1))))"

definition handle_unrouted :: "node \<Rightarrow> flow \<Rightarrow> ledger option \<Rightarrow> dp_action list \<times> ledger option" where
  "handle_unrouted nd f lg =
     (if \<not> managed (nd_scope nd) (dst_string f) then ([Pass_Through], lg) else handle_authorized nd f lg)"

definition handle_flow ::
  "node \<Rightarrow> ctx \<Rightarrow> flow \<Rightarrow> world \<Rightarrow> ledger option \<Rightarrow> (dp_action list \<times> world \<times> ledger option) option" where
  "handle_flow nd parent f w lg =
     (if fl_routes f \<noteq> None then
        (case handle (nd_router nd) parent f w of
           None \<Rightarrow> None
         | Some (owned, acts, w1) \<Rightarrow>
             if owned then Some (acts, w1, lg)
             else (case handle_unrouted nd f lg of (rest, lg1) \<Rightarrow> Some (acts @ rest, w1, lg1)))
      else (case handle_unrouted nd f lg of (acts, lg1) \<Rightarrow> Some (acts, w, lg1)))"

section \<open>What the plane sends\<close>

text \<open>
  The effect of an action on a connection: a request written to a dialled upstream (over TLS with a
  server name, or plain), an answer to the client, or the error of a flow without a request.
\<close>

datatype effect =
    To_Upstream bool string string http_in
  | To_Client provider_answer
  | To_Client_Text string
  | Plane_Error string

definition forward :: "flow \<Rightarrow> http_in \<Rightarrow> credential \<Rightarrow> effect" where
  "forward f req c = To_Upstream (fl_upstream_tls f) (dst_string f) (fl_dst_host f) (outgoing_request req c)"

definition perform :: "flow \<Rightarrow> dp_action \<Rightarrow> effect" where
  "perform f a =
     (case a of
        Respond p \<Rightarrow> To_Client (write_provider_response p)
      | Reject reason \<Rightarrow> To_Client_Text (write_reject reason)
      | _ \<Rightarrow>
          (case fl_req f of
             None \<Rightarrow> Plane_Error ''flow has no request''
           | Some req \<Rightarrow>
               (case a of
                  Inject c \<Rightarrow> forward f req c
                | Inject_MCP_Action_Token token \<Rightarrow>
                    (case inject_mcp_action_token req token of
                       Inl e \<Rightarrow> Plane_Error e
                     | Inr req1 \<Rightarrow> forward f req1 no_credential)
                | _ \<Rightarrow> forward f req no_credential)))"

section \<open>The broker path\<close>

lemma handle_authorized_cases:
  assumes "handle_authorized nd f lg = (acts, lg1)"
  obtains (Unaudited) "acts = [Reject audit_unavailable]"
  | (Metadata) reason where "fl_metadata_error f \<noteq> []" and "acts = [Reject reason]"
      and "audit nd lg (authorize_request_of nd f)
        (Some \<lparr>as_decision = decision_deny, as_inject = None, as_reason = reason\<rparr>) None 0 = (Inr (), lg1)"
  | (Broker_Down) e where "authorize (nd_broker nd) (nd_control_url nd) (authorize_request_of nd f) = Inl e"
      and "acts = [Reject ''broker unavailable'']"
      and "audit nd lg (authorize_request_of nd f) None (Some e) (nd_elapsed_ms nd) = (Inr (), lg1)"
  | (Decided) resp where "fl_metadata_error f = []"
      and "authorize (nd_broker nd) (nd_control_url nd) (authorize_request_of nd f) = Inr resp"
      and "audit nd lg (authorize_request_of nd f) (Some resp) None (nd_elapsed_ms nd) = (Inr (), lg1)"
      and "acts = (if as_decision resp \<noteq> decision_allow
        then [Reject (sanitize_authorize_text (as_reason resp) (authorize_request_of nd f) (Some resp))]
        else [Inject (injected_credential resp)])"
  using assms unfolding handle_authorized_def Let_def
  by (auto split: if_splits sum.splits prod.splits)

lemma audit_appends:
  assumes "audit nd (Some l) req resp err ms = (Inr (), lg1)"
  shows "\<exists>r l1. lg1 = Some l1
    \<and> append_record (nd_sha256 nd) (nd_fault nd) (nd_time nd) ''authorize'' (marshal_audit (audit_entry req resp err ms)) l = (Inr r, l1)"
  using assms by (auto simp: audit_def append_authorize_audit_def split: prod.splits sum.splits)

lemma handle_authorized_single: "\<exists>a. fst (handle_authorized nd f lg) = [a] \<and> a \<noteq> Pass_Through"
proof -
  obtain acts lg1 where h: "handle_authorized nd f lg = (acts, lg1)" by (cases "handle_authorized nd f lg")
  then show ?thesis by (cases rule: handle_authorized_cases) (auto simp: h)
qed

lemma handle_unrouted_single: "\<exists>a. fst (handle_unrouted nd f lg) = [a]"
  using handle_authorized_single [of nd f lg] by (auto simp: handle_unrouted_def)

section \<open>Properties\<close>

text \<open>A node whose broker allows everything.\<close>

definition allow_reply :: string where
  "allow_reply = json_object [(''decision'', json_q ''allow'')]"

definition allowing_node :: node where
  "allowing_node = \<lparr>nd_policy_id = [], nd_control_url = ''https://x.io'', nd_router = sample_router, nd_scope = None,
     nd_sha256 = short_hash, nd_broker = (\<lambda>_. Broker_Reply 200 ''200 OK'' [] (Inr allow_reply)), nd_fault = No_Fault,
     nd_time = ''t'', nd_elapsed_ms = 1\<rparr>"

text \<open>
  C12. Every flow the data plane hands over is answered: the handler returns, with exactly one action,
  and holds the flow for at most 630 seconds of control-plane time.
\<close>

theorem every_flow_answered:
  "\<exists>a w' lg'. handle_flow nd parent f w lg = Some ([a], w', lg')
     \<and> wd_now w \<le> wd_now w' \<and> wd_now w' \<le> wd_now w + 630 * second"
proof (cases "fl_routes f")
  case None
  then show ?thesis using handle_unrouted_single [of nd f lg]
    by (cases "handle_unrouted nd f lg") (auto simp: handle_flow_def second_def)
next
  case (Some rs)
  then show ?thesis
  proof (cases rule: handle_cases [where r = "nd_router nd" and parent = parent and w = w])
    case Passed
    with Some show ?thesis by (simp add: handle_flow_def second_def)
  next
    case (Settled a w')
    with Some evolves_env show ?thesis
      by (fastforce simp: handle_flow_def within_def flow_hold_eq)
  qed
qed



text \<open>
  C6. A credential is injected only on the broker's word for this flow: the flow has no routes, its
  destination is managed, its metadata was read, and the broker answered the marshalled request of this
  very flow with a 2xx reply that decodes to \<open>allow\<close> and this credential.
\<close>

theorem injection_needs_allow:
  assumes "handle_flow nd parent f w lg = Some (acts, w', lg')" and "Inject c \<in> set acts"
  shows "fl_routes f = None \<and> managed (nd_scope nd) (dst_string f) \<and> fl_metadata_error f = []
    \<and> (\<exists>body code status ct b resp. marshal_authorize_request (authorize_request_of nd f) = Inr body
       \<and> nd_broker nd body = Broker_Reply code status ct (Inr b) \<and> 200 \<le> code \<and> code < 300
       \<and> decode_first decode_authorize_response zero_authorize_response b = Some resp
       \<and> as_decision resp = ''allow'' \<and> c = injected_credential resp)"
proof -
  have none: "fl_routes f = None"
  proof (rule ccontr)
    assume "fl_routes f \<noteq> None"
    then obtain rs where rs: "fl_routes f = Some rs" by auto
    then show False
    proof (cases rule: handle_cases [where r = "nd_router nd" and parent = parent and w = w])
      case Passed
      with assms rs show False by (auto simp: handle_flow_def)
    next
      case (Settled a w1)
      with assms rs have "handle (nd_router nd) parent f w = Some (True, acts, w')" by (auto simp: handle_flow_def)
      with assms(2) show False using handle_no_inject by blast
    qed
  qed
  with assms have h: "handle_unrouted nd f lg = (acts, lg')" by (auto simp: handle_flow_def split: prod.splits)
  with assms(2) have managed: "managed (nd_scope nd) (dst_string f)" by (auto simp: handle_unrouted_def split: if_splits)
  with h have "handle_authorized nd f lg = (acts, lg')" by (simp add: handle_unrouted_def)
  then show ?thesis
  proof (cases rule: handle_authorized_cases)
    case (Decided resp)
    with assms(2) have allow: "as_decision resp = ''allow''" "c = injected_credential resp"
      by (auto simp: decision_allow_def split: if_splits)
    from authorize_allowed [OF Decided(2)] none managed Decided(1) allow show ?thesis by blast
  qed (use assms(2) in auto)
qed

lemma injection_needs_allow_witness:
  "\<exists>w' lg'. handle_flow allowing_node None zero_flow approving_world None = Some ([Inject no_credential], w', lg')
     \<and> managed (nd_scope allowing_node) (dst_string zero_flow)"
proof -
  let ?req = "authorize_request_of allowing_node zero_flow"
  have "fl_routes zero_flow = None" "fl_metadata_error zero_flow = []" by (simp_all add: zero_flow_def)
  moreover have m: "managed (nd_scope allowing_node) (dst_string zero_flow)" by code_simp
  moreover have "authorize (nd_broker allowing_node) (nd_control_url allowing_node) ?req
      = Inr \<lparr>as_decision = ''allow'', as_inject = None, as_reason = []\<rparr>" by code_simp
  ultimately have h: "handle_flow allowing_node None zero_flow approving_world None = Some ([Inject no_credential], approving_world, None)"
    by (simp add: handle_flow_def handle_unrouted_def handle_authorized_def Let_def audit_def append_authorize_audit_def
      decision_allow_def injected_credential_def)
  from injection_needs_allow [OF h, of no_credential] h m show ?thesis by auto
qed

text \<open>
  C11. Whatever is done with a tunnelled flow, bytes go upstream only over TLS to the canonical target
  the agent's CONNECT named and under its server name, and the session handle the agent presented to
  the proxy is not among them: the proxy headers are gone unless the broker's credential is one.
\<close>

theorem upstream_is_connect_target:
  assumes "build_connect p os c creq tn = Built f" and "perform f a = To_Upstream tls dst sni out"
  shows "tls \<and> normalize_destination (hi_host creq) = Inr dst \<and> sni = host_only dst
    \<and> header_get (hi_header out) ''Connection'' = ''close''
    \<and> (header_get (hi_header out) ''Proxy-Authorization'' = []
       \<or> (\<exists>cr. a = Inject cr \<and> header_get (hi_header out) ''Proxy-Authorization'' = cr_value cr))"
proof -
  have names: "canonical_header ''Connection'' = ''Connection''"
    "canonical_header ''Proxy-Authorization'' = ''Proxy-Authorization''" by code_simp+
  obtain req cr where fwd: "forward f req cr = To_Upstream tls dst sni out" "cr = no_credential \<or> a = Inject cr"
    using assms(2) by (auto simp: perform_def split: dp_action.splits option.splits sum.splits)
  from assms(1) show ?thesis
  proof (rule build_connect_flow)
    fix target
    assume n: "normalize_destination (hi_host creq) = Inr target"
      and f: "fl_dst f = target" "fl_dst_host f = host_only target" "fl_upstream_tls f"
    have "dst_string f = target" using normalize_shape [OF n] f(1) by (auto simp: dst_string_def join_host_port_def split: if_splits)
    with fwd n f names show ?thesis by (auto simp: forward_def outgoing_header no_credential_def)
  qed
qed

lemma upstream_is_connect_target_witness:
  "\<exists>f out. build_connect twin_plane quiet_os None connect_request call_tunnel = Built f
     \<and> perform f Pass_Through = To_Upstream True ''a.io:443'' ''a.io'' out"
proof -
  let ?f = "apply_session (tunnelled_call\<lparr>fl_orig_dst := orig_dst_of ''a.io:443''\<rparr>) (Some twin_session)"
  obtain req where "fl_req tunnelled_call = Some req"
    using with_metadata_place [of "zero_flow\<lparr>fl_dst := ''a.io:443'', fl_dst_host := ''a.io'', fl_upstream_tls := True,
      fl_req := Some (post_json sample_call)\<rparr>" "post_json sample_call"] by (auto simp: tunnelled_call_def)
  then obtain dst sni out where p: "perform ?f Pass_Through = To_Upstream (fl_upstream_tls ?f) dst sni out"
    by (simp add: perform_def forward_def)
  from upstream_is_connect_target [OF twin_built p] p twin_facts(1,5) twin_built show ?thesis by auto
qed

end
