(* ===== verification/Meter_Json.thy ===== *)
theory Meter_Json
  imports Wire_Json
begin

text \<open>
  \<^verbatim>\<open>internal/node/meter/jsonscan.go\<close>: the incremental parser that reads usage counters out of an
  LLM response as it streams by, byte by byte, and keeps nothing else of it. Indexing the innermost
  frame where there is none would panic in Go: it is \<open>None\<close> here. Lemmas: the parser never panics,
  how the bytes are cut into chunks does not matter, and whatever the bytes are it holds at most 64
  frames, a token of 1024 bytes and values at listed paths.
\<close>

section \<open>Paths\<close>

definition max_metadata_scalar :: nat where "max_metadata_scalar = 1024"
definition max_json_depth :: nat where "max_json_depth = 64"

definition metadata_containers :: "string list" where
  "metadata_containers = [[], ''usage'', ''message'', ''message.usage'', ''delta'', ''response'', ''response.usage'',
     ''choices'', ''choices.*'', ''incomplete_details'', ''response.incomplete_details'']"

definition usage_prefixes :: "string list" where
  "usage_prefixes = [''usage.'', ''message.usage.'', ''response.usage.'']"

definition metadata_container :: "string \<Rightarrow> bool" where
  "metadata_container path \<longleftrightarrow> path \<in> set metadata_containers
     \<or> (case find (has_prefix path) usage_prefixes of
          None \<Rightarrow> False
        | Some p \<Rightarrow> trim_prefix path p \<in> set [''prompt_tokens_details'', ''input_tokens_details''])"

definition plain_scalars :: "string list" where
  "plain_scalars = [''model'', ''type'', ''status'', ''stop_reason'', ''message.model'', ''response.model'',
     ''service_tier'', ''response.service_tier'', ''response.status'', ''delta.stop_reason'', ''choices.*.finish_reason'',
     ''incomplete_details.reason'', ''response.incomplete_details.reason'']"

definition usage_scalars :: "string list" where
  "usage_scalars = [''input_tokens'', ''output_tokens'', ''prompt_tokens'', ''completion_tokens'',
     ''cache_creation_input_tokens'', ''cache_read_input_tokens'', ''service_tier'', ''speed'',
     ''prompt_tokens_details.cached_tokens'', ''input_tokens_details.cached_tokens'',
     ''prompt_tokens_details.cache_write_tokens'', ''input_tokens_details.cache_write_tokens'']"

definition metadata_scalar :: "string \<Rightarrow> bool" where
  "metadata_scalar path \<longleftrightarrow> path \<in> set plain_scalars
     \<or> list_ex (\<lambda>p. has_prefix path p \<and> trim_prefix path p \<in> set usage_scalars) usage_prefixes"

section \<open>The parser\<close>

text \<open>The frames of the open objects and arrays, the innermost first.\<close>

record jframe =
  jf_kind :: char
  jf_state :: char
  jf_path :: string
  jf_key :: string

record metadata_json =
  mj_frames :: "jframe list"
  mj_values :: "(string \<times> string) list"
  mj_started :: bool
  mj_done :: bool
  mj_bad :: bool
  mj_in_string :: bool
  mj_escaped :: bool
  mj_is_key :: bool
  mj_literal :: bool
  mj_capture :: bool
  mj_overflow :: bool
  mj_unicode_left :: nat
  mj_token :: string
  mj_token_path :: string

definition new_metadata :: metadata_json where
  "new_metadata = \<lparr>mj_frames = [], mj_values = [], mj_started = False, mj_done = False, mj_bad = False,
     mj_in_string = False, mj_escaped = False, mj_is_key = False, mj_literal = False, mj_capture = False,
     mj_overflow = False, mj_unicode_left = 0, mj_token = [], mj_token_path = []\<rparr>"

definition spoil :: "metadata_json \<Rightarrow> metadata_json" where
  "spoil s = s\<lparr>mj_bad := True\<rparr>"

definition child_path :: "jframe list \<Rightarrow> string" where
  "child_path fs =
     (case fs of [] \<Rightarrow> []
      | f # _ \<Rightarrow>
          if jf_path f = ''!'' then ''!''
          else (let key = (if jf_kind f = CHR ''['' then ''*'' else jf_key f)
                in if jf_path f = [] then key else jf_path f @ ''.'' @ key))"

definition set_state :: "char \<Rightarrow> metadata_json \<Rightarrow> metadata_json" where
  "set_state st s = (case mj_frames s of [] \<Rightarrow> s | f # fs \<Rightarrow> s\<lparr>mj_frames := f\<lparr>jf_state := st\<rparr> # fs\<rparr>)"

definition value_started :: "metadata_json \<Rightarrow> metadata_json" where
  "value_started = set_state (CHR ''c'')"

definition append_token :: "char \<Rightarrow> metadata_json \<Rightarrow> metadata_json" where
  "append_token b s =
     (if \<not> mj_capture s then s
      else if max_metadata_scalar \<le> length (mj_token s) then s\<lparr>mj_overflow := True\<rparr>
      else s\<lparr>mj_token := mj_token s @ [b]\<rparr>)"

definition save_token :: "metadata_json \<Rightarrow> metadata_json" where
  "save_token s =
     (if \<not> mj_capture s \<or> mj_overflow s then s
      else s\<lparr>mj_values := assoc_set (mj_token_path s) (mj_token s) (mj_values s)\<rparr>)"

definition finish_literal :: "metadata_json \<Rightarrow> metadata_json" where
  "finish_literal s =
     (let s1 = s\<lparr>mj_literal := False\<rparr> in
      if mj_overflow s1 \<or> \<not> json_valid (mj_token s1) then spoil s1
      else if metadata_scalar (mj_token_path s1) then save_token s1 else s1)"

text \<open>\<open>json.Unmarshal\<close> into a string variable that holds \<open>old\<close>; \<open>None\<close> is the error.\<close>

definition unmarshal_string :: "string \<Rightarrow> string \<Rightarrow> string option" where
  "unmarshal_string raw old =
     (case parse_json raw of None \<Rightarrow> None
      | Some j \<Rightarrow> (case dec_string (\<lambda>v _. v) j old of Inl _ \<Rightarrow> None | Inr v \<Rightarrow> Some v))"

definition metadata_key :: "metadata_json \<Rightarrow> string" where
  "metadata_key s = (if mj_overflow s then ''!'' else case unmarshal_string (mj_token s) ''!'' of Some k \<Rightarrow> k | None \<Rightarrow> ''!'')"

text \<open>A byte inside a string.\<close>

definition end_string :: "metadata_json \<Rightarrow> metadata_json option" where
  "end_string s =
     (let s1 = s\<lparr>mj_in_string := False\<rparr> in
      if mj_is_key s1 then
        (case mj_frames s1 of [] \<Rightarrow> None
         | f # fs \<Rightarrow> Some (s1\<lparr>mj_frames := f\<lparr>jf_key := metadata_key s1, jf_state := CHR '':''\<rparr> # fs\<rparr>))
      else Some (save_token s1))"

definition write_string :: "char \<Rightarrow> metadata_json \<Rightarrow> metadata_json option" where
  "write_string b s0 =
     (let s = append_token b s0 in
      if 0 < mj_unicode_left s then
        Some ((if is_hex b then s else spoil s)\<lparr>mj_unicode_left := mj_unicode_left s - 1\<rparr>)
      else if mj_escaped s then
        (let s1 = s\<lparr>mj_escaped := False\<rparr> in
         Some (if b = CHR ''u'' then s1\<lparr>mj_unicode_left := 4\<rparr>
               else if b \<notin> set [CHR 0x22, CHR 0x5C, CHR ''/'', CHR ''b'', CHR ''f'', CHR ''n'', CHR ''r'', CHR ''t'']
               then spoil s1 else s1))
      else if b = CHR 0x5C then Some (s\<lparr>mj_escaped := True\<rparr>)
      else if byte b < 32 then Some (spoil s)
      else if b \<noteq> CHR 0x22 then Some s
      else end_string s)"

text \<open>A byte that starts a key or a value in the innermost frame \<open>f\<close>.\<close>

definition begin_token :: "char \<Rightarrow> string \<Rightarrow> metadata_json \<Rightarrow> metadata_json" where
  "begin_token b path s = append_token b (s\<lparr>mj_overflow := False, mj_token := [], mj_token_path := path\<rparr>)"

definition open_container :: "char \<Rightarrow> string \<Rightarrow> metadata_json \<Rightarrow> metadata_json" where
  "open_container b path0 s =
     (if max_json_depth \<le> length (mj_frames s) then spoil s
      else let path = (if metadata_container path0 then path0 else ''!'');
               s1 = (if b = CHR ''{'' \<and> (path = ''usage'' \<or> has_suffix path ''.usage'')
                     then s\<lparr>mj_values := assoc_set path ''{}'' (mj_values s)\<rparr> else s)
           in s1\<lparr>mj_frames := \<lparr>jf_kind = b, jf_state = CHR ''e'', jf_path = path, jf_key = []\<rparr> # mj_frames s1\<rparr>)"

definition begin_item :: "char \<Rightarrow> jframe \<Rightarrow> metadata_json \<Rightarrow> metadata_json" where
  "begin_item b f s =
     (let key = (jf_kind f = CHR ''{'' \<and> (jf_state f = CHR ''e'' \<or> jf_state f = CHR ''v''));
          path = child_path (mj_frames s)
      in if key \<and> b \<noteq> CHR 0x22 then spoil s
         else if b = CHR 0x22 then
           (let s1 = begin_token b path (s\<lparr>mj_in_string := True, mj_is_key := key, mj_capture := key \<or> metadata_scalar path\<rparr>)
            in if key then s1 else value_started s1)
         else (let s1 = value_started s in
           if b = CHR ''{'' \<or> b = CHR ''['' then open_container b path s1
           else begin_token b path (s1\<lparr>mj_literal := True, mj_capture := True\<rparr>)))"

definition write_structure :: "char \<Rightarrow> metadata_json \<Rightarrow> metadata_json option" where
  "write_structure b s =
     (if json_space b then Some s
      else if mj_done s then Some (spoil s)
      else if \<not> mj_started s then
        Some (if b \<noteq> CHR ''{'' then spoil s
              else s\<lparr>mj_started := True,
                mj_frames := \<lparr>jf_kind = CHR ''{'', jf_state = CHR ''e'', jf_path = [], jf_key = []\<rparr> # mj_frames s\<rparr>)
      else (case mj_frames s of
        [] \<Rightarrow> None
      | f # fs \<Rightarrow> Some (
          if (b = CHR ''}'' \<and> jf_kind f = CHR ''{'') \<or> (b = CHR '']'' \<and> jf_kind f = CHR ''['') then
            (if jf_state f \<noteq> CHR ''e'' \<and> jf_state f \<noteq> CHR ''c'' then spoil s
             else s\<lparr>mj_frames := fs, mj_done := mj_done s \<or> fs = []\<rparr>)
          else if jf_state f = CHR ''c'' then (if b \<noteq> CHR '','' then spoil s else set_state (CHR ''v'') s)
          else if jf_state f = CHR '':'' then (if b \<noteq> CHR '':'' then spoil s else set_state (CHR ''x'') s)
          else begin_item b f s)))"

text \<open>One byte, and a chunk of bytes: a parser that has gone bad ignores the rest.\<close>

definition write_byte :: "char \<Rightarrow> metadata_json \<Rightarrow> metadata_json option" where
  "write_byte b s =
     (if mj_literal s \<and> b \<notin> set [CHR 0x20, CHR 0x09, CHR 0x0D, CHR 0x0A, CHR '','', CHR ''}'', CHR '']'']
      then Some (append_token b s)
      else let s1 = (if mj_literal s then finish_literal s else s) in
        if mj_bad s1 then Some s1
        else if mj_in_string s1 then write_string b s1
        else write_structure b s1)"

fun write_bytes :: "string \<Rightarrow> metadata_json \<Rightarrow> metadata_json option" where
  "write_bytes [] s = Some s"
| "write_bytes (b # bs) s = (if mj_bad s then Some s else Option.bind (write_byte b s) (write_bytes bs))"

section \<open>Reading the values\<close>

definition metadata_text :: "metadata_json \<Rightarrow> string \<Rightarrow> nat \<Rightarrow> string" where
  "metadata_text s path limit =
     (case map_of (mj_values s) path of
        None \<Rightarrow> []
      | Some raw \<Rightarrow>
          (case unmarshal_string raw [] of
             None \<Rightarrow> []
           | Some r \<Rightarrow> if limit < length r then [] else r))"

definition max_counter :: int where "max_counter = 2147483647"

definition metadata_number :: "metadata_json \<Rightarrow> string \<Rightarrow> int option" where
  "metadata_number s path =
     (case map_of (mj_values s) path of
        None \<Rightarrow> None
      | Some raw \<Rightarrow>
          if raw = [] \<or> raw = ''null'' then None
          else (case parse_json raw of
            None \<Rightarrow> None
          | Some j \<Rightarrow>
              (case dec_int (\<lambda>v _. v) j 0 of
                 Inl _ \<Rightarrow> None
               | Inr n \<Rightarrow> if n < 0 \<or> max_counter < n then None else Some n)))"

record token_details =
  td_cached_tokens :: "int option"
  td_cache_write_tokens :: "int option"

record usage_block =
  ub_service_tier :: string
  ub_speed :: string
  ub_input_tokens :: "int option"
  ub_output_tokens :: "int option"
  ub_cache_creation :: "int option"
  ub_cache_read :: "int option"
  ub_prompt_tokens :: "int option"
  ub_completion_tokens :: "int option"
  ub_prompt_details :: "token_details option"
  ub_input_details :: "token_details option"

definition details_of :: "metadata_json \<Rightarrow> string \<Rightarrow> token_details option" where
  "details_of s path =
     (let d = \<lparr>td_cached_tokens = metadata_number s (path @ ''.cached_tokens''),
               td_cache_write_tokens = metadata_number s (path @ ''.cache_write_tokens'')\<rparr>
      in if td_cached_tokens d = None \<and> td_cache_write_tokens d = None then None else Some d)"

definition usage_of :: "metadata_json \<Rightarrow> string \<Rightarrow> usage_block option" where
  "usage_of s path =
     (case map_of (mj_values s) path of
        None \<Rightarrow> None
      | Some raw \<Rightarrow>
          if raw = [] then None
          else Some \<lparr>ub_service_tier = metadata_text s (path @ ''.service_tier'') 32,
            ub_speed = metadata_text s (path @ ''.speed'') 16,
            ub_input_tokens = metadata_number s (path @ ''.input_tokens''),
            ub_output_tokens = metadata_number s (path @ ''.output_tokens''),
            ub_cache_creation = metadata_number s (path @ ''.cache_creation_input_tokens''),
            ub_cache_read = metadata_number s (path @ ''.cache_read_input_tokens''),
            ub_prompt_tokens = metadata_number s (path @ ''.prompt_tokens''),
            ub_completion_tokens = metadata_number s (path @ ''.completion_tokens''),
            ub_prompt_details = details_of s (path @ ''.prompt_tokens_details''),
            ub_input_details = details_of s (path @ ''.input_tokens_details'')\<rparr>)"

section \<open>Chunks\<close>

lemma write_bytes_bad [simp]: "mj_bad s \<Longrightarrow> write_bytes bs s = Some s"
  by (cases bs) auto

lemma write_bytes_append: "write_bytes (as @ bs) s = Option.bind (write_bytes as s) (write_bytes bs)"
proof (induction as arbitrary: s)
  case (Cons a as)
  then show ?case by (cases "write_byte a s") auto
qed simp

section \<open>What the parser holds\<close>

definition usage_paths :: "string list" where
  "usage_paths = [''usage'', ''message.usage'', ''response.usage'']"

definition scalar_paths :: "string list" where
  "scalar_paths = plain_scalars @ concat (map (\<lambda>p. map (\<lambda>u. p @ u) usage_scalars) usage_prefixes)"

definition kept :: "string \<times> string \<Rightarrow> bool" where
  "kept kv \<longleftrightarrow> (metadata_scalar (fst kv) \<and> length (snd kv) \<le> max_metadata_scalar)
     \<or> (fst kv \<in> set usage_paths \<and> snd kv = ''{}'')"

definition values_ok :: "(string \<times> string) list \<Rightarrow> bool" where
  "values_ok vs \<longleftrightarrow> (\<forall>kv\<in>set vs. kept kv) \<and> distinct (map fst vs)"

definition parser_ok :: "metadata_json \<Rightarrow> bool" where
  "parser_ok s \<longleftrightarrow> length (mj_frames s) \<le> max_json_depth \<and> length (mj_token s) \<le> max_metadata_scalar
     \<and> (mj_frames s = [] \<longrightarrow> \<not> mj_in_string s \<and> \<not> mj_literal s \<and> (mj_started s \<longrightarrow> mj_done s))
     \<and> (\<not> mj_started s \<longrightarrow> mj_frames s = [])
     \<and> values_ok (mj_values s)
     \<and> (mj_in_string s \<and> \<not> mj_is_key s \<and> mj_capture s \<longrightarrow> metadata_scalar (mj_token_path s))"

lemma trim_prefix_eq: "has_prefix s p \<Longrightarrow> s = p @ trim_prefix s p"
  by (auto simp: has_prefix_iff trim_prefix_def)

lemma metadata_scalar_iff: "metadata_scalar path \<longleftrightarrow> path \<in> set scalar_paths"
proof -
  have "has_prefix path p \<and> trim_prefix path p \<in> set us \<longleftrightarrow> (\<exists>u\<in>set us. path = p @ u)" for p us
    using trim_prefix_eq [of path p] by (auto simp: trim_prefix_def)
  then show ?thesis by (auto simp: metadata_scalar_def scalar_paths_def list_ex_iff)
qed

lemma usage_container:
  assumes "metadata_container path" and "path = ''usage'' \<or> has_suffix path ''.usage''"
  shows "path \<in> set usage_paths"
proof (cases "path \<in> set metadata_containers")
  case True
  have "list_all (\<lambda>p. (p = ''usage'' \<or> has_suffix p ''.usage'') \<longrightarrow> p \<in> set usage_paths) metadata_containers" by code_simp
  with True assms(2) show ?thesis unfolding list_all_iff by blast
next
  case False
  have none: "list_all (\<lambda>p. list_all (\<lambda>u. \<not> (p @ u = ''usage'' \<or> has_suffix (p @ u) ''.usage''))
    [''prompt_tokens_details'', ''input_tokens_details'']) usage_prefixes" by code_simp
  from False assms(1) obtain p where "find (has_prefix path) usage_prefixes = Some p"
    and t: "trim_prefix path p \<in> set [''prompt_tokens_details'', ''input_tokens_details'']"
    by (auto simp only: metadata_container_def split: option.splits)
  then have "has_prefix path p" "p \<in> set usage_prefixes" by (auto simp: find_Some_iff)
  then have "\<not> (p @ trim_prefix path p = ''usage'' \<or> has_suffix (p @ trim_prefix path p) ''.usage'')"
    using none t unfolding list_all_iff by blast
  with trim_prefix_eq [OF \<open>has_prefix path p\<close>] assms(2) show ?thesis by simp
qed

lemma values_ok_set: "values_ok m \<Longrightarrow> kept (k, v) \<Longrightarrow> values_ok (assoc_set k v m)"
proof (induction k v m rule: assoc_set.induct)
  case (2 k v k' v' m)
  have "fst ` set (assoc_set k v m) = insert k (fst ` set m)" by (induction k v m rule: assoc_set.induct) auto
  with 2 show ?case by (auto simp: values_ok_def)
qed (simp add: values_ok_def)

lemma append_token_frame [simp]:
  "mj_frames (append_token b s) = mj_frames s" "mj_values (append_token b s) = mj_values s"
  "mj_in_string (append_token b s) = mj_in_string s" "mj_literal (append_token b s) = mj_literal s"
  "mj_started (append_token b s) = mj_started s" "mj_done (append_token b s) = mj_done s"
  "mj_is_key (append_token b s) = mj_is_key s" "mj_capture (append_token b s) = mj_capture s"
  "mj_token_path (append_token b s) = mj_token_path s" "mj_bad (append_token b s) = mj_bad s"
  by (simp_all add: append_token_def)

lemma append_token_length: "length (mj_token s) \<le> max_metadata_scalar \<Longrightarrow> length (mj_token (append_token b s)) \<le> max_metadata_scalar"
  by (simp add: append_token_def)

lemma parser_ok_append [simp]: "parser_ok s \<Longrightarrow> parser_ok (append_token b s)"
  by (simp add: parser_ok_def append_token_length)

lemma parser_ok_spoil [simp]: "parser_ok (spoil s) = parser_ok s"
  by (simp add: parser_ok_def spoil_def)

lemma parser_ok_escape [simp]:
  "parser_ok (s\<lparr>mj_escaped := e\<rparr>) = parser_ok s" "parser_ok (s\<lparr>mj_unicode_left := n\<rparr>) = parser_ok s"
  by (simp_all add: parser_ok_def)

lemma parser_ok_set_state [simp]: "parser_ok s \<Longrightarrow> parser_ok (set_state st s)"
  by (auto simp: parser_ok_def set_state_def split: list.split)

lemma parser_ok_value_started: "parser_ok s \<Longrightarrow> parser_ok (value_started s)"
  by (simp add: value_started_def)

lemma parser_ok_save:
  "parser_ok s \<Longrightarrow> metadata_scalar (mj_token_path s) \<or> \<not> mj_capture s \<Longrightarrow> parser_ok (save_token s)"
  using values_ok_set [of "mj_values s" "mj_token_path s" "mj_token s"]
  by (auto simp: parser_ok_def save_token_def kept_def)

lemma parser_ok_finish: "parser_ok s \<Longrightarrow> parser_ok (finish_literal s)"
  using parser_ok_save [of "s\<lparr>mj_literal := False\<rparr>"]
  by (auto simp: finish_literal_def Let_def) (auto simp: parser_ok_def)

lemma write_string_ok:
  assumes "parser_ok s" and "mj_in_string s"
  shows "\<exists>s'. write_string b s = Some s' \<and> parser_ok s'"
proof -
  have "\<exists>s'. end_string t = Some s' \<and> parser_ok s'" if "parser_ok t" and "mj_in_string t" for t
  proof (cases "mj_is_key t")
    case True
    from that obtain f fs where "mj_frames t = f # fs" by (cases "mj_frames t") (auto simp: parser_ok_def)
    with True that show ?thesis by (simp add: end_string_def Let_def parser_ok_def)
  next
    case False
    with that have "parser_ok (save_token (t\<lparr>mj_in_string := False\<rparr>))"
      by (intro parser_ok_save) (auto simp: parser_ok_def)
    with False show ?thesis by (simp add: end_string_def Let_def)
  qed
  from this [of "append_token b s"] assms show ?thesis by (auto simp: write_string_def Let_def)
qed

lemma parser_ok_open:
  assumes "parser_ok s" and "mj_started s"
  shows "parser_ok (open_container b path s)"
proof (cases "max_json_depth \<le> length (mj_frames s)")
  case True
  with assms(1) show ?thesis by (simp add: open_container_def)
next
  case False
  define p where "p = (if metadata_container path then path else ''!'')"
  define s1 where "s1 = (if b = CHR ''{'' \<and> (p = ''usage'' \<or> has_suffix p ''.usage'')
    then s\<lparr>mj_values := assoc_set p ''{}'' (mj_values s)\<rparr> else s)"
  have "p = ''usage'' \<or> has_suffix p ''.usage'' \<Longrightarrow> p \<in> set usage_paths"
    using usage_container [of path] by (auto simp: p_def has_suffix_def split: if_splits)
  with assms(1) values_ok_set [of "mj_values s" p "''{}''"] have "parser_ok s1"
    by (auto simp: s1_def parser_ok_def kept_def)
  moreover have "mj_frames s1 = mj_frames s" "mj_started s1 = mj_started s" by (simp_all add: s1_def)
  ultimately have "parser_ok (s1\<lparr>mj_frames := f # mj_frames s1\<rparr>)" for f
    using False assms(2) by (simp add: parser_ok_def)
  then show ?thesis
    unfolding open_container_def Let_def p_def [symmetric] s1_def [symmetric] using False by simp
qed

lemma begin_item_ok:
  assumes "parser_ok s" and "mj_frames s = f # fs" and "\<not> mj_in_string s" and "\<not> mj_literal s"
  shows "parser_ok (begin_item b f s)"
proof -
  have frames: "mj_frames (value_started s) = f\<lparr>jf_state := CHR ''c''\<rparr> # fs"
    using assms(2) by (simp add: value_started_def set_state_def)
  have vs: "parser_ok (value_started s)" "\<not> mj_in_string (value_started s)"
    using assms by (simp_all add: value_started_def) (simp add: set_state_def split: list.split)
  have opened: "parser_ok (open_container b path (value_started s))" for path
    using parser_ok_open [OF vs(1)] frames vs(1) by (simp add: parser_ok_def)
  have literal: "parser_ok (begin_token b path (t\<lparr>mj_literal := True, mj_capture := True\<rparr>))"
    if "parser_ok t" "\<not> mj_in_string t" "mj_frames t \<noteq> []" for path t
    using that unfolding begin_token_def by (intro parser_ok_append) (simp add: parser_ok_def)
  have quoted: "parser_ok (begin_token b path (s\<lparr>mj_in_string := True, mj_is_key := key, mj_capture := key \<or> metadata_scalar path\<rparr>))"
    for path key
    using assms unfolding begin_token_def by (intro parser_ok_append) (auto simp: parser_ok_def)
  show ?thesis
    unfolding begin_item_def Let_def
    by (simp only: split: if_split) (intro conjI impI parser_ok_value_started opened literal quoted vs parser_ok_spoil [THEN iffD2] assms(1);
      simp add: frames)
qed

lemma write_structure_ok:
  assumes "parser_ok s" and "\<not> mj_in_string s" and "\<not> mj_literal s"
  shows "\<exists>s'. write_structure b s = Some s' \<and> parser_ok s'"
proof (cases "mj_frames s")
  case Nil
  with assms show ?thesis by (auto simp: write_structure_def parser_ok_def spoil_def max_json_depth_def)
next
  case (Cons f fs)
  have "parser_ok (s\<lparr>mj_frames := fs, mj_done := mj_done s \<or> fs = []\<rparr>)"
    using assms Cons by (auto simp: parser_ok_def)
  moreover have "mj_started s" using assms(1) Cons by (auto simp: parser_ok_def)
  ultimately show ?thesis using begin_item_ok [OF assms(1) Cons assms(2,3)] assms(1) Cons
    by (auto simp: write_structure_def)
qed

lemma write_byte_ok:
  assumes "parser_ok s"
  shows "\<exists>s'. write_byte b s = Some s' \<and> parser_ok s'"
proof -
  have fin: "parser_ok (finish_literal s) \<and> \<not> mj_literal (finish_literal s)
      \<and> mj_in_string (finish_literal s) = mj_in_string s"
    using parser_ok_finish [OF assms] by (simp add: finish_literal_def Let_def spoil_def save_token_def)
  define s1 where "s1 = (if mj_literal s then finish_literal s else s)"
  have "parser_ok s1" "\<not> mj_literal s1" using assms fin by (auto simp: s1_def)
  with write_string_ok [of s1 b] write_structure_ok [of s1 b]
  have "\<exists>s'. (if mj_bad s1 then Some s1 else if mj_in_string s1 then write_string b s1 else write_structure b s1) = Some s'
    \<and> parser_ok s'" by auto
  then show ?thesis using assms unfolding write_byte_def s1_def [symmetric] Let_def by auto
qed

lemma write_bytes_ok:
  "parser_ok s \<Longrightarrow> \<exists>s'. write_bytes bs s = Some s' \<and> parser_ok s'"
proof (induction bs arbitrary: s)
  case (Cons b bs)
  from write_byte_ok [OF Cons.prems, of b] Cons show ?case by auto
qed auto

lemma parser_ok_new [simp]: "parser_ok new_metadata"
  by (simp add: parser_ok_def values_ok_def new_metadata_def max_json_depth_def)

lemma values_bounded:
  assumes "parser_ok s"
  shows "length (mj_values s) \<le> 52"
proof -
  have "fst ` set (mj_values s) \<subseteq> set (scalar_paths @ usage_paths)"
    using assms by (auto simp: parser_ok_def values_ok_def kept_def metadata_scalar_iff)
  then have "card (fst ` set (mj_values s)) \<le> length (scalar_paths @ usage_paths)"
    using card_mono [of "set (scalar_paths @ usage_paths)"] card_length order_trans by blast
  moreover have "card (fst ` set (mj_values s)) = length (mj_values s)"
    using assms distinct_card [of "map fst (mj_values s)"] by (simp add: parser_ok_def values_ok_def)
  moreover have "length (scalar_paths @ usage_paths) = 52" by code_simp
  ultimately show ?thesis by simp
qed

section \<open>Properties\<close>

text \<open>
  C32. The usage parser keeps nothing of a response but metadata, in constant space, and cannot break
  the stream it watches: on any bytes it does not panic; it holds at most 64 open frames, one token of at most
  1024 bytes, and at most 52 values, each under a listed path and either the mark of a usage object or a
  scalar of at most 1024 bytes. No prompt or completion text is at a listed path.
\<close>

theorem parser_keeps_metadata_only:
  "\<exists>s. write_bytes bs new_metadata = Some s \<and> length (mj_frames s) \<le> 64 \<and> length (mj_token s) \<le> 1024
     \<and> length (mj_values s) \<le> 52
     \<and> list_all (\<lambda>(path, raw). (path \<in> set scalar_paths \<and> length raw \<le> 1024)
          \<or> (path \<in> set usage_paths \<and> raw = ''{}'')) (mj_values s)"
proof -
  from write_bytes_ok [OF parser_ok_new] obtain s where s: "write_bytes bs new_metadata = Some s" "parser_ok s" by blast
  with values_bounded [OF s(2)] show ?thesis
    by (auto simp: list_all_iff parser_ok_def values_ok_def kept_def metadata_scalar_iff max_metadata_scalar_def max_json_depth_def)
qed

end
