(* ===== verification/Meter_Extract.thy ===== *)
theory Meter_Extract
  imports Meter_Json Flow
begin

text \<open>
  \<^verbatim>\<open>internal/node/meter/extract.go\<close> and \<^verbatim>\<open>event.go\<close>: the request hint, the two response sinks
  (one JSON body, or server-sent events), the running totals, and the event that is reported. Lemmas:
  a stream of chunks gives what its concatenation gives, line splitting by chunks is a byte-by-byte
  machine, and the counters of an event stay within 32 bits and its texts within their limits.
\<close>

section \<open>Totals\<close>

record usage_totals =
  ut_service_tier :: string
  ut_speed :: string
  ut_has_input :: bool
  ut_invalid :: bool
  ut_model :: string
  ut_input_tokens :: int
  ut_output_tokens :: "int option"
  ut_cache_creation :: int
  ut_cache_read :: int
  ut_stop_reason :: string
  ut_observed :: bool

definition zero_totals :: usage_totals where
  "zero_totals = \<lparr>ut_service_tier = [], ut_speed = [], ut_has_input = False, ut_invalid = False, ut_model = [],
     ut_input_tokens = 0, ut_output_tokens = None, ut_cache_creation = 0, ut_cache_read = 0, ut_stop_reason = [],
     ut_observed = False\<rparr>"

record usage_envelope =
  en_service_tier :: string
  en_model :: string
  en_status :: string
  en_incomplete_reason :: string
  en_usage :: "usage_block option"

record wire_usage =
  wu_service_tier :: string
  wu_model :: string
  wu_status :: string
  wu_incomplete_reason :: string
  wu_usage :: "usage_block option"
  wu_message :: "usage_envelope option"
  wu_delta :: "string option"
  wu_response :: "usage_envelope option"
  wu_choices :: "string option list"
  wu_stop_reason :: string

definition unless_empty :: "(string \<Rightarrow> usage_totals \<Rightarrow> usage_totals) \<Rightarrow> string \<Rightarrow> usage_totals \<Rightarrow> usage_totals" where
  "unless_empty upd v t = (if v \<noteq> [] then upd v t else t)"

definition set_tier :: "string \<Rightarrow> usage_totals \<Rightarrow> usage_totals" where "set_tier v t = t\<lparr>ut_service_tier := v\<rparr>"
definition set_model :: "string \<Rightarrow> usage_totals \<Rightarrow> usage_totals" where "set_model v t = t\<lparr>ut_model := v\<rparr>"
definition set_stop :: "string \<Rightarrow> usage_totals \<Rightarrow> usage_totals" where "set_stop v t = t\<lparr>ut_stop_reason := v\<rparr>"

definition cached_of :: "token_details option \<Rightarrow> int option" where
  "cached_of d = Option.bind d td_cached_tokens"

definition writes_of :: "token_details option \<Rightarrow> int option" where
  "writes_of d = Option.bind d td_cache_write_tokens"

text \<open>The input side of a block: which of the two provider shapes it has, or neither.\<close>

definition observe_input :: "usage_block \<Rightarrow> usage_totals \<Rightarrow> usage_totals" where
  "observe_input b t =
     (let cached0 = (case ub_cache_read b of None \<Rightarrow> 0 | Some n \<Rightarrow> n) in
      case ub_prompt_tokens b of
        Some prompt \<Rightarrow>
          (let cached = (case cached_of (ub_prompt_details b) of None \<Rightarrow> cached0 | Some n \<Rightarrow> n);
               writes = (case writes_of (ub_prompt_details b) of None \<Rightarrow> 0 | Some n \<Rightarrow> n)
           in t\<lparr>ut_has_input := True, ut_invalid := ut_invalid t \<or> prompt < cached + writes,
                ut_input_tokens := max 0 (prompt - cached - writes),
                ut_cache_creation := writes, ut_cache_read := cached\<rparr>)
      | None \<Rightarrow>
          (case ub_input_tokens b of
             Some inp0 \<Rightarrow>
               (let cached = (case cached_of (ub_input_details b) of None \<Rightarrow> cached0 | Some n \<Rightarrow> n);
                    inp1 = (case cached_of (ub_input_details b) of None \<Rightarrow> inp0 | Some n \<Rightarrow> max 0 (inp0 - n));
                    inp2 = (case writes_of (ub_input_details b) of None \<Rightarrow> inp1 | Some w \<Rightarrow> inp1 - w)
                in t\<lparr>ut_has_input := True,
                     ut_cache_creation := (case writes_of (ub_input_details b) of None \<Rightarrow> ut_cache_creation t | Some w \<Rightarrow> w),
                     ut_invalid := ut_invalid t \<or> (ub_input_details b \<noteq> None \<and> (inp2 < 0 \<or> inp0 < cached)),
                     ut_input_tokens := max 0 inp2, ut_cache_read := cached\<rparr>)
           | None \<Rightarrow> if 0 < cached0 then t\<lparr>ut_cache_read := cached0\<rparr> else t))"

definition observe_block :: "usage_block \<Rightarrow> usage_totals \<Rightarrow> usage_totals" where
  "observe_block b t0 =
     (let t1 = unless_empty (\<lambda>v t. t\<lparr>ut_speed := v\<rparr>) (ub_speed b)
                (unless_empty set_tier (ub_service_tier b) (t0\<lparr>ut_observed := True\<rparr>));
          t2 = observe_input b t1;
          t3 = (case ub_cache_creation b of None \<Rightarrow> t2 | Some n \<Rightarrow> t2\<lparr>ut_cache_creation := n\<rparr>);
          t4 = (case ub_output_tokens b of None \<Rightarrow> t3 | Some n \<Rightarrow> t3\<lparr>ut_output_tokens := Some n\<rparr>)
      in (case ub_completion_tokens b of None \<Rightarrow> t4 | Some n \<Rightarrow> t4\<lparr>ut_output_tokens := Some n\<rparr>))"

definition opt_apply :: "('x \<Rightarrow> usage_totals \<Rightarrow> usage_totals) \<Rightarrow> 'x option \<Rightarrow> usage_totals \<Rightarrow> usage_totals" where
  "opt_apply f x t = (case x of None \<Rightarrow> t | Some v \<Rightarrow> f v t)"

text \<open>\<open>observe\<close>: its assignments in their order, later ones win.\<close>

definition observe_names :: "wire_usage \<Rightarrow> usage_totals \<Rightarrow> usage_totals" where
  "observe_names w =
     unless_empty set_stop (wu_incomplete_reason w)
     \<circ> unless_empty set_stop (wu_status w)
     \<circ> opt_apply (\<lambda>e. unless_empty set_stop (en_incomplete_reason e) \<circ> unless_empty set_stop (en_status e)
         \<circ> unless_empty set_model (en_model e)) (wu_response w)
     \<circ> opt_apply (\<lambda>e. unless_empty set_model (en_model e)) (wu_message w)
     \<circ> unless_empty set_model (wu_model w)
     \<circ> opt_apply (\<lambda>e. unless_empty set_tier (en_service_tier e)) (wu_response w)
     \<circ> unless_empty set_tier (wu_service_tier w)"

definition observed_blocks :: "wire_usage \<Rightarrow> usage_block option list" where
  "observed_blocks w =
     [wu_usage w] @ (case wu_message w of None \<Rightarrow> [] | Some e \<Rightarrow> [en_usage e])
     @ (case wu_response w of None \<Rightarrow> [] | Some e \<Rightarrow> [en_usage e])"

definition observe :: "wire_usage \<Rightarrow> usage_totals \<Rightarrow> usage_totals" where
  "observe w t =
     fold (opt_apply (unless_empty set_stop)) (wu_choices w)
       (unless_empty set_stop (wu_stop_reason w)
         (opt_apply (unless_empty set_stop) (wu_delta w)
           (fold (opt_apply observe_block) (observed_blocks w) (observe_names w t))))"

text \<open>\<open>metadataJSON.observe\<close>: only a complete, well-formed object counts.\<close>

definition wire_of :: "metadata_json \<Rightarrow> wire_usage" where
  "wire_of s = \<lparr>wu_service_tier = metadata_text s ''service_tier'' 32, wu_model = metadata_text s ''model'' 128,
     wu_status = metadata_text s ''status'' 64, wu_incomplete_reason = metadata_text s ''incomplete_details.reason'' 64,
     wu_usage = usage_of s ''usage'',
     wu_message = Some \<lparr>en_service_tier = [], en_model = metadata_text s ''message.model'' 128, en_status = [],
       en_incomplete_reason = [], en_usage = usage_of s ''message.usage''\<rparr>,
     wu_delta = Some (metadata_text s ''delta.stop_reason'' 64),
     wu_response = Some \<lparr>en_service_tier = metadata_text s ''response.service_tier'' 32,
       en_model = metadata_text s ''response.model'' 128, en_status = metadata_text s ''response.status'' 64,
       en_incomplete_reason = metadata_text s ''response.incomplete_details.reason'' 64,
       en_usage = usage_of s ''response.usage''\<rparr>,
     wu_choices = (let reason = metadata_text s ''choices.*.finish_reason'' 64 in if reason \<noteq> [] then [Some reason] else []),
     wu_stop_reason = metadata_text s ''stop_reason'' 64\<rparr>"

definition observe_metadata :: "metadata_json \<Rightarrow> usage_totals \<Rightarrow> usage_totals" where
  "observe_metadata s t = (if \<not> mj_done s \<or> mj_bad s then t else observe (wire_of s) t)"

section \<open>The sinks\<close>

text \<open>\<open>jsonSink\<close> is the parser; its totals are read at the end.\<close>

definition json_totals :: "metadata_json \<Rightarrow> usage_totals" where
  "json_totals s = observe_metadata s zero_totals"

record sse_sink =
  ss_acc :: usage_totals
  ss_parser :: metadata_json
  ss_prefix :: string
  ss_data :: bool
  ss_ignore :: bool
  ss_line_bytes :: nat

definition new_sse_sink :: sse_sink where
  "new_sse_sink = \<lparr>ss_acc = zero_totals, ss_parser = new_metadata, ss_prefix = [], ss_data = False, ss_ignore = False,
     ss_line_bytes = 0\<rparr>"

text \<open>The field name: bytes are taken until it is \<open>data:\<close>, or cannot be any more.\<close>

fun sse_field :: "string \<Rightarrow> sse_sink \<Rightarrow> string \<times> sse_sink" where
  "sse_field [] s = ([], s)"
| "sse_field (b # bs) s =
     (if ss_data s then (b # bs, s)
      else let s1 = s\<lparr>ss_prefix := ss_prefix s @ [b]\<rparr> in
        if \<not> has_prefix ''data:'' (ss_prefix s1) then ([], s1\<lparr>ss_ignore := True\<rparr>)
        else sse_field bs (if length (ss_prefix s1) = 5 then s1\<lparr>ss_data := True\<rparr> else s1))"

definition parse_into :: "string \<Rightarrow> sse_sink \<Rightarrow> sse_sink option" where
  "parse_into bs s = map_option (\<lambda>p. s\<lparr>ss_parser := p\<rparr>) (write_bytes bs (ss_parser s))"

definition sse_write_line :: "string \<Rightarrow> sse_sink \<Rightarrow> sse_sink option" where
  "sse_write_line bs s0 =
     (let s = s0\<lparr>ss_line_bytes := ss_line_bytes s0 + length bs\<rparr> in
      if ss_ignore s then Some s
      else (case sse_field bs s of (rest, s1) \<Rightarrow>
        if ss_ignore s1 then Some s1 else if ss_data s1 then parse_into rest s1 else Some s1))"

definition sse_end_event :: "sse_sink \<Rightarrow> sse_sink" where
  "sse_end_event s =
     (if mj_done (ss_parser s) \<or> mj_bad (ss_parser s)
      then s\<lparr>ss_acc := observe_metadata (ss_parser s) (ss_acc s), ss_parser := new_metadata\<rparr> else s)"

definition sse_finish_line :: "sse_sink \<Rightarrow> sse_sink option" where
  "sse_finish_line s =
     map_option (\<lambda>s. s\<lparr>ss_prefix := [], ss_data := False, ss_ignore := False, ss_line_bytes := 0\<rparr>)
       (if ss_data s then map_option sse_end_event (parse_into [CHR 0x0A] s)
        else if ss_line_bytes s = 0 \<or> (ss_line_bytes s = 1 \<and> ss_prefix s = [CHR 0x0D])
        then Some (s\<lparr>ss_parser := new_metadata\<rparr>) else Some s)"

function sse_write :: "string \<Rightarrow> sse_sink \<Rightarrow> sse_sink option" where
  "sse_write bs s =
     (if bs = [] then Some s
      else if CHR 0x0A \<notin> set bs then sse_write_line bs s
      else Option.bind (sse_write_line (takeWhile (\<lambda>c. c \<noteq> CHR 0x0A) bs) s) (\<lambda>s1.
           Option.bind (sse_finish_line s1) (\<lambda>s2.
             sse_write (tl (dropWhile (\<lambda>c. c \<noteq> CHR 0x0A) bs)) s2)))"
  by pat_completeness auto
termination
proof (relation "measure (length \<circ> fst)")
  fix bs :: string and s s1 s2 :: sse_sink
  assume "bs \<noteq> []" and "\<not> CHR 0x0A \<notin> set bs"
  then have "dropWhile (\<lambda>c. c \<noteq> CHR 0x0A) bs \<noteq> []" by (simp add: dropWhile_eq_Nil_conv)
  then show "((tl (dropWhile (\<lambda>c. c \<noteq> CHR 0x0A) bs), s2), (bs, s)) \<in> measure (length \<circ> fst)"
    using length_dropWhile_le [of "\<lambda>c. c \<noteq> CHR 0x0A" bs] by (cases "dropWhile (\<lambda>c. c \<noteq> CHR 0x0A) bs") auto
qed simp

declare sse_write.simps [simp del]

definition sse_totals :: "sse_sink \<Rightarrow> usage_totals option" where
  "sse_totals s = map_option ss_acc (sse_finish_line s)"

text \<open>The sink of a response, by its content type; what a whole response adds up to.\<close>

datatype sink_kind = Json_Sink | Sse_Sink

definition response_sink :: "string \<Rightarrow> sink_kind option" where
  "response_sink content_type =
     (case parse_media_type content_type of
        None \<Rightarrow> None
      | Some mt \<Rightarrow>
          if mt = ''text/event-stream'' then Some Sse_Sink
          else if mt = ''application/json'' \<or> has_suffix mt ''+json'' then Some Json_Sink else None)"

fun fold_opt :: "('x \<Rightarrow> 's \<Rightarrow> 's option) \<Rightarrow> 'x list \<Rightarrow> 's \<Rightarrow> 's option" where
  "fold_opt f [] s = Some s"
| "fold_opt f (x # xs) s = Option.bind (f x s) (fold_opt f xs)"

definition metered_totals :: "sink_kind \<Rightarrow> string list \<Rightarrow> usage_totals option" where
  "metered_totals k chunks =
     (case k of
        Json_Sink \<Rightarrow> map_option json_totals (fold_opt write_bytes chunks new_metadata)
      | Sse_Sink \<Rightarrow> Option.bind (fold_opt sse_write chunks new_sse_sink) sse_totals)"

section \<open>The request\<close>

text \<open>\<open>unknownModel\<close>\<close>

definition unknown_model :: string where "unknown_model = ''unknown''"
definition max_request_peek_bytes :: int where "max_request_peek_bytes = 256 * 1024"

record request_info =
  ri_model :: string
  ri_inference :: bool

definition inference_paths :: "string \<Rightarrow> string list" where
  "inference_paths prov =
     (if prov = ''anthropic'' then [''/v1/messages'']
      else if prov = ''openai'' then [''/v1/chat/completions'', ''/v1/completions'', ''/v1/responses''] else [])"

function skip_nested :: "int \<Rightarrow> decoder \<Rightarrow> decoder result" where
  "skip_nested depth d =
     (if depth \<le> 0 then Inr d
      else case dec_token d of
        Inl e \<Rightarrow> Inl e
      | Inr (t, d1) \<Rightarrow>
          skip_nested (if t = Delim (CHR ''{'') \<or> t = Delim (CHR ''['') then depth + 1
            else if t = Delim (CHR ''}'') \<or> t = Delim (CHR '']'') then depth - 1 else depth) d1)"
  by pat_completeness auto
termination
  by (relation "measure (length \<circ> fst \<circ> snd)") (auto dest: dec_token_progress)

declare skip_nested.simps [simp del]

definition skip_value :: "decoder \<Rightarrow> decoder result" where
  "skip_value d =
     (case dec_token d of
        Inl e \<Rightarrow> Inl e
      | Inr (t, d1) \<Rightarrow> if t = Delim (CHR ''{'') \<or> t = Delim (CHR ''['') then skip_nested 1 d1 else Inr d1)"

lemma skip_nested_length: "skip_nested depth d = Inr d' \<Longrightarrow> length (fst d') \<le> length (fst d)"
proof (induction depth d rule: skip_nested.induct)
  case (1 depth d)
  show ?case
  proof (cases "depth \<le> 0 \<or> (\<exists>e. dec_token d = Inl e)")
    case True
    with 1(2) show ?thesis by (auto simp: skip_nested.simps [of depth d] split: if_splits)
  next
    case False
    then obtain t d1 where t: "dec_token d = Inr (t, d1)" by (cases "dec_token d") auto
    with 1(2) False have "skip_nested (if t = Delim (CHR ''{'') \<or> t = Delim (CHR ''['') then depth + 1
        else if t = Delim (CHR ''}'') \<or> t = Delim (CHR '']'') then depth - 1 else depth) d1 = Inr d'"
      by (simp add: skip_nested.simps [of depth d])
    from 1(1) [OF _ t refl this] False dec_token_progress [OF t] show ?thesis by simp
  qed
qed

lemma skip_value_length: "skip_value d = Inr d' \<Longrightarrow> length (fst d') < length (fst d)"
  by (force simp: skip_value_def dest: dec_token_progress skip_nested_length split: sum.splits prod.splits if_splits)

text \<open>The model of the request: the top-level key \<open>model\<close> of the object, if it is a short string.\<close>

function model_loop :: "int \<Rightarrow> bool \<Rightarrow> decoder \<Rightarrow> string" where
  "model_loop depth expect_key d =
     (case dec_token d of
        Inl _ \<Rightarrow> []
      | Inr (t, d1) \<Rightarrow>
          (case t of
             Delim c \<Rightarrow>
               if c = CHR ''{'' then model_loop (depth + 1) True d1
               else if c = CHR ''}'' then model_loop (depth - 1) (depth - 1 = 1) d1
               else model_loop depth False d1
           | StrTok v \<Rightarrow>
               if depth = 1 \<and> expect_key then
                 (if v = ''model'' then
                    (case dec_token d1 of
                       Inr (StrTok m, _) \<Rightarrow> if m = [] \<or> 128 < length m then [] else m
                     | _ \<Rightarrow> [])
                  else (case skip_value d1 of Inl _ \<Rightarrow> [] | Inr d2 \<Rightarrow> model_loop depth expect_key d2))
               else model_loop depth expect_key d1
           | LitTok _ \<Rightarrow> model_loop depth expect_key d1))"
  by pat_completeness auto
termination
  by (relation "measure (length \<circ> fst \<circ> snd \<circ> snd)") (auto simp del: dec_token.simps dest!: dec_token_progress skip_value_length)

declare model_loop.simps [simp del]

definition top_level_model :: "string \<Rightarrow> string" where
  "top_level_model prefix = model_loop 0 False (new_decoder prefix)"

text \<open>
  \<open>ExtractRequest\<close>. The body is put back, so the request is not changed; a body that cannot be read
  gives no prefix.
\<close>

definition extract_request :: "string \<Rightarrow> http_in \<Rightarrow> request_info" where
  "extract_request prov req =
     (let inference = (hi_method req = ''POST'' \<and> url_request_path (hi_url req) \<in> set (inference_paths prov));
          model = (case hi_body req of
              None \<Rightarrow> []
            | Some rd \<Rightarrow> top_level_model (take_int max_request_peek_bytes (body_text rd)))
      in \<lparr>ri_model = (if inference \<and> model \<noteq> [] then model else unknown_model), ri_inference = inference\<rparr>)"

section \<open>The event\<close>

definition priced_tier :: "string \<Rightarrow> usage_totals \<Rightarrow> string" where
  "priced_tier prov t =
     (if prov = ''openai'' then
        (if ut_service_tier t = ''fast'' then ''priority''
         else if ut_service_tier t \<in> set [''default'', ''flex'', ''priority'', ''scale''] then ut_service_tier t
         else ''unknown'')
      else if prov = ''anthropic'' then
        (if ut_speed t = ''fast'' then ''priority'' else if ut_service_tier t = ''priority'' then ''unknown'' else ''default'')
      else ''default'')"

text \<open>The request id, the milliseconds since the start and the printed start are arguments.\<close>

definition build_event :: "string \<Rightarrow> request_info \<Rightarrow> usage_totals \<Rightarrow> string \<Rightarrow> int \<Rightarrow> string \<Rightarrow> session_usage_event" where
  "build_event prov info t request_id elapsed_ms occurred_at =
     \<lparr>ue_request_id = request_id, ue_provider = prov,
      ue_model = (if ut_model t = [] then ri_model info else ut_model t), ue_service_tier = priced_tier prov t,
      ue_input_tokens = ut_input_tokens t,
      ue_output_tokens = (if \<not> ut_has_input t \<or> ut_invalid t then None else ut_output_tokens t),
      ue_cache_creation_tokens = ut_cache_creation t, ue_cache_read_tokens = ut_cache_read t,
      ue_stop_reason = ut_stop_reason t, ue_latency_ms = min max_counter (max 0 elapsed_ms), ue_occurred_at = occurred_at\<rparr>"

section \<open>Chunks do not matter\<close>

lemma fold_opt_append: "fold_opt f (xs @ ys) s = Option.bind (fold_opt f xs s) (fold_opt f ys)"
proof (induction xs arbitrary: s)
  case (Cons x xs)
  then show ?case by (cases "f x s") auto
qed simp

lemma fold_opt_concat: "fold_opt (fold_opt f) xss s = fold_opt f (concat xss) s"
proof (induction xss arbitrary: s)
  case (Cons xs xss)
  then show ?case by (cases "fold_opt f xs s") (auto simp: fold_opt_append)
qed simp

lemma fold_opt_cong: "(\<And>x s. x \<in> set xs \<Longrightarrow> f x s = g x s) \<Longrightarrow> fold_opt f xs s = fold_opt g xs s"
proof (induction xs arbitrary: s)
  case (Cons x xs)
  then show ?case by (cases "g x s") auto
qed simp

definition checked_byte :: "char \<Rightarrow> metadata_json \<Rightarrow> metadata_json option" where
  "checked_byte b s = (if mj_bad s then Some s else write_byte b s)"

lemma write_bytes_fold: "write_bytes = fold_opt checked_byte"
proof (intro ext)
  fix bs s show "write_bytes bs s = fold_opt checked_byte bs s"
  proof (induction bs arbitrary: s)
    case (Cons b bs)
    have "fold_opt checked_byte bs t = Some t" if "mj_bad t" for t
      using that by (induction bs) (simp_all add: checked_byte_def)
    then have "mj_bad s \<Longrightarrow> ?case" by (simp add: checked_byte_def [of b])
    moreover have "\<not> mj_bad s \<Longrightarrow> ?case" by (cases "write_byte b s") (simp_all add: checked_byte_def [of b] Cons)
    ultimately show ?case by blast
  qed simp
qed

lemma write_line_nil [simp]: "sse_write_line [] s = Some s"
  by (simp add: sse_write_line_def Let_def parse_into_def)

lemma write_bytes_Cons: "write_bytes (b # bs) s = Option.bind (write_bytes [b] s) (write_bytes bs)"
  using write_bytes_append [of "[b]" bs s] by simp

lemma parse_into_Cons:
  "parse_into (b # bs) s = Option.bind (parse_into [b] s) (parse_into bs)"
  using write_bytes_append [of "[b]" bs "ss_parser s"]
  by (cases "write_bytes [b] (ss_parser s)") (auto simp: parse_into_def option.map_comp comp_def)

lemma write_line_data:
  "ss_data s \<Longrightarrow> \<not> ss_ignore s \<Longrightarrow> sse_write_line bs s = parse_into bs (s\<lparr>ss_line_bytes := ss_line_bytes s + length bs\<rparr>)"
  by (cases bs) (simp_all add: sse_write_line_def Let_def)

lemma write_line_Cons: "sse_write_line (b # bs) s = Option.bind (sse_write_line [b] s) (sse_write_line bs)"
proof (cases "ss_ignore s")
  case True
  then show ?thesis by (simp add: sse_write_line_def Let_def)
next
  case live: False
  show ?thesis
  proof (cases "ss_data s")
    case True
    then show ?thesis using live
      by (cases "write_bytes [b] (ss_parser s)")
        (auto simp: write_line_data parse_into_def write_bytes_Cons [of b bs] option.map_comp comp_def simp del: write_bytes.simps)
  next
    case False
    define s1 where "s1 = s\<lparr>ss_prefix := ss_prefix s @ [b]\<rparr>"
    show ?thesis using False live
      by (cases bs) (auto simp: sse_write_line_def Let_def parse_into_def intro!: arg_cong2 [where f = map_option] ext)
  qed
qed

lemma write_line_fold: "sse_write_line bs s = fold_opt (\<lambda>b. sse_write_line [b]) bs s"
proof (induction bs arbitrary: s)
  case (Cons b bs)
  show ?case unfolding write_line_Cons [of b bs s] by (cases "sse_write_line [b] s") (simp_all add: Cons)
qed simp

definition sse_byte :: "char \<Rightarrow> sse_sink \<Rightarrow> sse_sink option" where
  "sse_byte b s = (if b = CHR 0x0A then sse_finish_line s else sse_write_line [b] s)"

lemma sse_line_fold: "CHR 0x0A \<notin> set bs \<Longrightarrow> sse_write_line bs s = fold_opt sse_byte bs s"
  by (subst write_line_fold) (rule fold_opt_cong, auto simp: sse_byte_def)

lemma sse_write_fold: "sse_write = fold_opt sse_byte"
proof (intro ext)
  fix bs s show "sse_write bs s = fold_opt sse_byte bs s"
  proof (induction "length bs" arbitrary: bs s rule: less_induct)
    case less
    show ?case
    proof (cases "CHR 0x0A \<in> set bs")
      case False
      then show ?thesis using sse_line_fold [OF False, of s] by (simp add: sse_write.simps)
    next
      case True
      then obtain pre rest where bs: "bs = pre @ CHR 0x0A # rest" "CHR 0x0A \<notin> set pre" by (meson split_list_first)
      from bs(2) have mem: "c \<in> set pre \<Longrightarrow> c \<noteq> CHR 0x0A" for c by auto
      have cut: "takeWhile (\<lambda>c. c \<noteq> CHR 0x0A) bs = pre" "tl (dropWhile (\<lambda>c. c \<noteq> CHR 0x0A) bs) = rest"
        by (simp_all add: bs(1) takeWhile_append2 dropWhile_append2 mem)
      have "sse_write bs s = Option.bind (sse_write_line pre s) (\<lambda>s1. Option.bind (sse_finish_line s1) (sse_write rest))"
        by (subst sse_write.simps) (use True in \<open>auto simp: cut\<close>)
      also have "\<dots> = fold_opt sse_byte bs s"
      proof -
        have "sse_write rest = fold_opt sse_byte rest" using less [of rest] by (intro ext) (simp add: bs(1))
        then show ?thesis unfolding bs(1) fold_opt_append sse_line_fold [OF bs(2)]
          by (cases "fold_opt sse_byte pre s") (simp_all add: sse_byte_def [of "CHR 0x0A"])
      qed
      finally show ?thesis .
    qed
  qed
qed

section \<open>The sinks do not fail\<close>

lemma parse_into_ok:
  "parser_ok (ss_parser s) \<Longrightarrow> \<exists>s'. parse_into bs s = Some s' \<and> parser_ok (ss_parser s') \<and> ss_acc s' = ss_acc s"
  using write_bytes_ok [of "ss_parser s" bs] by (auto simp: parse_into_def)

lemma sse_field_frame:
  "sse_field bs s = (rest, s') \<Longrightarrow> ss_parser s' = ss_parser s \<and> ss_acc s' = ss_acc s"
  by (induction bs s arbitrary: rest rule: sse_field.induct) (auto simp: Let_def split: if_splits)

lemma sse_write_line_ok:
  assumes "parser_ok (ss_parser s)"
  shows "\<exists>s'. sse_write_line bs s = Some s' \<and> parser_ok (ss_parser s') \<and> ss_acc s' = ss_acc s"
proof -
  define s0 where "s0 = s\<lparr>ss_line_bytes := ss_line_bytes s + length bs\<rparr>"
  obtain rest s1 where f: "sse_field bs s0 = (rest, s1)" by (cases "sse_field bs s0")
  with sse_field_frame [OF f] parse_into_ok [of s1 rest] assms show ?thesis
    by (auto simp: sse_write_line_def Let_def s0_def)
qed

section \<open>Bounds\<close>

definition counter :: "int \<Rightarrow> bool" where
  "counter n \<longleftrightarrow> 0 \<le> n \<and> n \<le> max_counter"

definition totals_ok :: "usage_totals \<Rightarrow> bool" where
  "totals_ok t \<longleftrightarrow> counter (ut_input_tokens t) \<and> counter (ut_cache_creation t) \<and> counter (ut_cache_read t)
     \<and> pred_option counter (ut_output_tokens t) \<and> length (ut_service_tier t) \<le> 32 \<and> length (ut_speed t) \<le> 16
     \<and> length (ut_model t) \<le> 128 \<and> length (ut_stop_reason t) \<le> 64"

lemma metadata_text_length: "length (metadata_text s path limit) \<le> limit"
  by (auto simp: metadata_text_def split: option.split)

lemma metadata_number_counter: "pred_option counter (metadata_number s path)"
  by (auto simp: metadata_number_def counter_def split: option.split sum.split)

definition details_ok :: "token_details option \<Rightarrow> bool" where
  "details_ok d \<longleftrightarrow> pred_option counter (cached_of d) \<and> pred_option counter (writes_of d)"

definition block_ok :: "usage_block \<Rightarrow> bool" where
  "block_ok b \<longleftrightarrow> list_all (pred_option counter) [ub_input_tokens b, ub_output_tokens b, ub_cache_creation b, ub_cache_read b,
       ub_prompt_tokens b, ub_completion_tokens b]
     \<and> details_ok (ub_prompt_details b) \<and> details_ok (ub_input_details b)
     \<and> length (ub_service_tier b) \<le> 32 \<and> length (ub_speed b) \<le> 16"

lemma details_of_ok: "details_ok (details_of s path)"
  using metadata_number_counter by (auto simp: details_of_def Let_def details_ok_def cached_of_def writes_of_def)

lemma usage_of_ok: "usage_of s path = Some b \<Longrightarrow> block_ok b"
  using metadata_text_length metadata_number_counter details_of_ok
  by (auto simp: usage_of_def block_ok_def split: option.splits if_splits)

lemma totals_ok_texts [simp]:
  "totals_ok t \<Longrightarrow> length v \<le> 32 \<Longrightarrow> totals_ok (unless_empty set_tier v t)"
  "totals_ok t \<Longrightarrow> length v \<le> 128 \<Longrightarrow> totals_ok (unless_empty set_model v t)"
  "totals_ok t \<Longrightarrow> length v \<le> 64 \<Longrightarrow> totals_ok (unless_empty set_stop v t)"
  "totals_ok t \<Longrightarrow> length v \<le> 16 \<Longrightarrow> totals_ok (unless_empty (\<lambda>v t. t\<lparr>ut_speed := v\<rparr>) v t)"
  by (simp_all add: totals_ok_def unless_empty_def set_tier_def set_model_def set_stop_def)

lemma observe_input_ok:
  assumes "block_ok b" and "totals_ok t"
  shows "totals_ok (observe_input b t)"
proof (cases "ub_prompt_tokens b")
  case (Some prompt)
  with assms show ?thesis
    by (auto simp: observe_input_def Let_def totals_ok_def block_ok_def details_ok_def counter_def max_counter_def
        split: option.splits)
next
  case None
  then show ?thesis using assms
    by (cases "ub_input_tokens b"; cases "cached_of (ub_input_details b)"; cases "writes_of (ub_input_details b)";
        cases "ub_cache_read b")
      (auto simp: observe_input_def Let_def totals_ok_def block_ok_def details_ok_def counter_def max_counter_def)
qed

lemma observe_block_ok:
  assumes "block_ok b" and "totals_ok t"
  shows "totals_ok (observe_block b t)"
proof -
  define t1 where "t1 = unless_empty (\<lambda>v t. t\<lparr>ut_speed := v\<rparr>) (ub_speed b)
    (unless_empty set_tier (ub_service_tier b) (t\<lparr>ut_observed := True\<rparr>))"
  have "totals_ok (t\<lparr>ut_observed := True\<rparr>)" using assms(2) by (simp add: totals_ok_def)
  with assms(1) have "totals_ok t1" by (simp add: t1_def block_ok_def)
  from observe_input_ok [OF assms(1) this] assms(1) show ?thesis
    by (auto simp: observe_block_def Let_def t1_def [symmetric] block_ok_def totals_ok_def split: option.split)
qed

lemma observe_ok: "totals_ok t \<Longrightarrow> totals_ok (observe (wire_of s) t)"
proof -
  assume t: "totals_ok t"
  have blocks: "Some b \<in> set (observed_blocks (wire_of s)) \<Longrightarrow> block_ok b" for b
    using usage_of_ok by (auto simp: observed_blocks_def wire_of_def)
  have "totals_ok (observe_names (wire_of s) t)"
    using t metadata_text_length [of s] by (simp add: observe_names_def opt_apply_def wire_of_def)
  moreover have "totals_ok (fold (opt_apply observe_block) bs u)" if "totals_ok u" "\<And>b. Some b \<in> set bs \<Longrightarrow> block_ok b" for bs u
    using that by (induction bs arbitrary: u) (auto simp: opt_apply_def observe_block_ok split: option.split)
  ultimately have u: "totals_ok (fold (opt_apply observe_block) (observed_blocks (wire_of s)) (observe_names (wire_of s) t))"
    using blocks by blast
  have texts: "opt_apply f (wu_delta (wire_of s)) v = f (metadata_text s ''delta.stop_reason'' 64) v"
    "length (wu_stop_reason (wire_of s)) \<le> 64"
    "wu_choices (wire_of s) = [] \<or> wu_choices (wire_of s) = [Some (metadata_text s ''choices.*.finish_reason'' 64)]" for f v
    using metadata_text_length by (auto simp: wire_of_def opt_apply_def Let_def)
  from texts(3) show ?thesis
  proof
    assume "wu_choices (wire_of s) = []"
    then show ?thesis using u texts(2) metadata_text_length by (simp add: observe_def texts(1))
  next
    assume "wu_choices (wire_of s) = [Some (metadata_text s ''choices.*.finish_reason'' 64)]"
    then show ?thesis using u texts(2) metadata_text_length by (simp add: observe_def texts(1)) (simp add: opt_apply_def)
  qed
qed

lemma observe_metadata_ok: "totals_ok t \<Longrightarrow> totals_ok (observe_metadata s t)"
  by (simp add: observe_metadata_def observe_ok)

lemma zero_totals_ok [simp]: "totals_ok zero_totals"
  by (simp add: totals_ok_def zero_totals_def counter_def max_counter_def)

definition sink_ok :: "sse_sink \<Rightarrow> bool" where
  "sink_ok s \<longleftrightarrow> parser_ok (ss_parser s) \<and> totals_ok (ss_acc s)"

lemma sink_ok_end_event: "sink_ok s \<Longrightarrow> sink_ok (sse_end_event s)"
  by (simp add: sink_ok_def sse_end_event_def observe_metadata_ok)

lemma sse_finish_line_ok: "sink_ok s \<Longrightarrow> \<exists>s'. sse_finish_line s = Some s' \<and> sink_ok s'"
proof -
  assume s: "sink_ok s"
  have reset: "sink_ok (t\<lparr>ss_prefix := [], ss_data := False, ss_ignore := False, ss_line_bytes := 0\<rparr>)"
    if "sink_ok t" for t using that by (simp add: sink_ok_def)
  from s parse_into_ok [of s "[CHR 0x0A]"] obtain s1 where "parse_into [CHR 0x0A] s = Some s1" "sink_ok s1"
    by (auto simp: sink_ok_def)
  moreover have "sink_ok (s\<lparr>ss_parser := new_metadata\<rparr>)" using s by (simp add: sink_ok_def)
  ultimately show ?thesis using s reset sink_ok_end_event by (simp add: sse_finish_line_def)
qed

lemma sse_byte_ok: "sink_ok s \<Longrightarrow> \<exists>s'. sse_byte b s = Some s' \<and> sink_ok s'"
  using sse_finish_line_ok [of s] sse_write_line_ok [of s "[b]"] by (auto simp: sse_byte_def sink_ok_def)

lemma fold_opt_invariant:
  "P s \<Longrightarrow> (\<And>x s. P s \<Longrightarrow> \<exists>s'. f x s = Some s' \<and> P s') \<Longrightarrow> \<exists>s'. fold_opt f xs s = Some s' \<and> P s'"
proof (induction xs arbitrary: s)
  case (Cons x xs)
  from Cons.prems(2) [OF Cons.prems(1)] obtain s1 where "f x s = Some s1" "P s1" by blast
  with Cons.IH [of s1] Cons.prems(2) show ?case by simp
qed simp

lemma metered_totals_ok: "\<exists>t. metered_totals k chunks = Some t \<and> totals_ok t"
proof (cases k)
  case Json_Sink
  have "\<exists>s. fold_opt write_bytes chunks new_metadata = Some s \<and> parser_ok s"
    by (rule fold_opt_invariant) (simp_all add: write_bytes_ok)
  then show ?thesis by (auto simp: metered_totals_def Json_Sink json_totals_def observe_metadata_ok)
next
  case Sse_Sink
  have "\<exists>s. fold_opt sse_write chunks new_sse_sink = Some s \<and> sink_ok s"
    unfolding sse_write_fold fold_opt_concat
    by (rule fold_opt_invariant) (simp_all add: sse_byte_ok, simp add: sink_ok_def new_sse_sink_def)
  then obtain s where s: "fold_opt sse_write chunks new_sse_sink = Some s" "sink_ok s" by blast
  from sse_finish_line_ok [OF s(2)] s(1) show ?thesis
    by (auto simp: metered_totals_def Sse_Sink sse_totals_def sink_ok_def)
qed

lemma model_loop_length: "length (model_loop depth expect_key d) \<le> 128"
proof (induction depth expect_key d rule: model_loop.induct)
  case (1 depth expect_key d)
  then show ?case by (subst model_loop.simps) (auto split: sum.split prod.split token.split)
qed

lemma extract_model_length: "length (ri_model (extract_request prov req)) \<le> 128"
  using model_loop_length by (auto simp: extract_request_def Let_def top_level_model_def unknown_model_def split: option.split)

section \<open>Properties\<close>

text \<open>
  C32. How the response arrives does not matter: the totals of a stream of chunks are those of its
  bytes in one piece, for a JSON body and for server-sent events (whose line splitting works inside each
  chunk), even when a chunk ends inside a line, a field name, a string escape or a number.
\<close>

theorem totals_independent_of_chunks:
  "metered_totals k chunks = metered_totals k [concat chunks]"
proof -
  have "fold_opt write_bytes chunks = fold_opt write_bytes [concat chunks]"
    unfolding write_bytes_fold by (intro ext) (simp only: fold_opt_concat concat.simps append_Nil2)
  moreover have "fold_opt sse_write chunks = fold_opt sse_write [concat chunks]"
    unfolding sse_write_fold by (intro ext) (simp only: fold_opt_concat concat.simps append_Nil2)
  ultimately show ?thesis by (simp only: metered_totals_def)
qed

text \<open>
  C33. Metering never fails and what it reports is small: for any request and any response bytes there
  are totals, and the event has counters between 0 and 2147483647, a model of at most 128 bytes, a stop
  reason of at most 64, one of the five tiers or the tier \<open>default\<close>, and a latency within 32 bits.
\<close>

theorem event_within_bounds:
  "\<exists>t. metered_totals k chunks = Some t \<and>
     (let e = build_event prov (extract_request prov req) t rid ms at_time in
       list_all (\<lambda>n. 0 \<le> n \<and> n \<le> 2147483647)
         ([ue_input_tokens e, ue_cache_creation_tokens e, ue_cache_read_tokens e, ue_latency_ms e]
            @ (case ue_output_tokens e of None \<Rightarrow> [] | Some n \<Rightarrow> [n]))
       \<and> length (ue_model e) \<le> 128 \<and> ue_model e \<noteq> [] \<and> length (ue_stop_reason e) \<le> 64
       \<and> ue_service_tier e \<in> {''default'', ''flex'', ''priority'', ''scale'', ''unknown''})"
proof -
  obtain t where t: "metered_totals k chunks = Some t" "totals_ok t" using metered_totals_ok by blast
  have "ri_model (extract_request prov req) \<noteq> []" by (simp add: extract_request_def Let_def unknown_model_def)
  moreover have "0 \<le> min max_counter (max 0 ms) \<and> min max_counter (max 0 ms) \<le> 2147483647" by (simp add: max_counter_def)
  moreover have "priced_tier prov t \<in> {''default'', ''flex'', ''priority'', ''scale'', ''unknown''}"
    by (auto simp: priced_tier_def)
  ultimately show ?thesis using t extract_model_length [of prov req]
    by (cases "ut_output_tokens t")
      (auto simp: build_event_def Let_def totals_ok_def counter_def max_counter_def intro!: exI [of _ t])
qed

text \<open>
  C31. The token classes add up: for a block in the shape of OpenAI (\<open>prompt_tokens\<close>, or
  \<open>input_tokens\<close> with both details) that is not flagged invalid, input, cache writes and cache reads sum
  to the provider's number; it is flagged exactly when the shares exceed the whole; and in Anthropic's
  shape the input is passed through as it is.
\<close>

theorem token_classes_add_up:
  assumes "block_ok b" and "ub_cache_creation b = None" and "\<not> ut_invalid t"
  shows "(\<forall>n. ub_prompt_tokens b = Some n \<longrightarrow>
       (if ut_invalid (observe_block b t)
        then n < ut_cache_creation (observe_block b t) + ut_cache_read (observe_block b t)
        else ut_input_tokens (observe_block b t) + ut_cache_creation (observe_block b t) + ut_cache_read (observe_block b t) = n))
    \<and> (\<forall>n c w. ub_prompt_tokens b = None \<longrightarrow> ub_input_tokens b = Some n \<longrightarrow>
         ub_input_details b = Some \<lparr>td_cached_tokens = Some c, td_cache_write_tokens = Some w\<rparr> \<longrightarrow>
       ut_cache_creation (observe_block b t) = w \<and> ut_cache_read (observe_block b t) = c \<and>
       (if ut_invalid (observe_block b t) then n < w + c else ut_input_tokens (observe_block b t) + w + c = n))
    \<and> (\<forall>n. ub_prompt_tokens b = None \<longrightarrow> ub_input_tokens b = Some n \<longrightarrow> ub_input_details b = None \<longrightarrow>
       ut_input_tokens (observe_block b t) = n \<and> \<not> ut_invalid (observe_block b t))"
proof -
  obtain t1 where t1: "observe_block b t = (case ub_completion_tokens b of None \<Rightarrow> (case ub_output_tokens b of None \<Rightarrow> observe_input b t1
      | Some n \<Rightarrow> (observe_input b t1)\<lparr>ut_output_tokens := Some n\<rparr>)
      | Some n \<Rightarrow> (case ub_output_tokens b of None \<Rightarrow> observe_input b t1
      | Some n \<Rightarrow> (observe_input b t1)\<lparr>ut_output_tokens := Some n\<rparr>)\<lparr>ut_output_tokens := Some n\<rparr>)"
    and valid: "ut_invalid t1 = ut_invalid t"
    using assms(2) by (simp add: observe_block_def Let_def unless_empty_def set_tier_def)
  have fields: "ut_invalid (observe_block b t) = ut_invalid (observe_input b t1)"
    "ut_input_tokens (observe_block b t) = ut_input_tokens (observe_input b t1)"
    "ut_cache_creation (observe_block b t) = ut_cache_creation (observe_input b t1)"
    "ut_cache_read (observe_block b t) = ut_cache_read (observe_input b t1)"
    by (simp_all add: t1 split: option.split)
  have nonneg: "ub_input_tokens b = Some n \<Longrightarrow> 0 \<le> n"
    "ub_input_details b = Some \<lparr>td_cached_tokens = Some c, td_cache_write_tokens = Some w\<rparr> \<Longrightarrow> 0 \<le> w" for n c w
    using assms(1) by (auto simp: block_ok_def details_ok_def cached_of_def writes_of_def counter_def)
  show ?thesis unfolding fields using valid assms(3)
    by (auto simp: observe_input_def Let_def cached_of_def writes_of_def split: option.split dest: nonneg)
qed

lemma token_classes_add_up_witness:
  "let t = observe_block \<lparr>ub_service_tier = [], ub_speed = [], ub_input_tokens = None, ub_output_tokens = Some 3,
       ub_cache_creation = None, ub_cache_read = None, ub_prompt_tokens = Some 10, ub_completion_tokens = None,
       ub_prompt_details = Some \<lparr>td_cached_tokens = Some 4, td_cache_write_tokens = None\<rparr>, ub_input_details = None\<rparr> zero_totals
   in ut_input_tokens t + ut_cache_creation t + ut_cache_read t = 10 \<and> ut_input_tokens t = 6"
proof -
  let ?b = "\<lparr>ub_service_tier = [], ub_speed = [], ub_input_tokens = None, ub_output_tokens = Some 3,
       ub_cache_creation = None, ub_cache_read = None, ub_prompt_tokens = Some 10, ub_completion_tokens = None,
       ub_prompt_details = Some \<lparr>td_cached_tokens = Some 4, td_cache_write_tokens = None\<rparr>, ub_input_details = None\<rparr>"
  have b: "block_ok ?b" "ub_cache_creation ?b = None" "\<not> ut_invalid zero_totals"
    by (simp_all add: block_ok_def details_ok_def cached_of_def writes_of_def counter_def max_counter_def zero_totals_def)
  have "\<not> ut_invalid (observe_block ?b zero_totals)" "ut_input_tokens (observe_block ?b zero_totals) = 6" by code_simp+
  with token_classes_add_up [OF b] show ?thesis by (simp add: Let_def)
qed

end
