(* ===== verification/Usage_Meter.thy ===== *)
theory Usage_Meter
  imports Meter_Extract Registry "HOL-Library.Sublist"
begin

text \<open>
  \<^verbatim>\<open>internal/node/meter/meter.go\<close>: the buffers of usage events per session handle, and how they
  are shipped. Recording and flushing run concurrently; every critical section of the source is one
  function here, and a step relation interleaves them. Lemmas: nothing is lost or reordered silently,
  buffers and batches are bounded, and an event is only ever shipped under the token of its own session.
\<close>

section \<open>State and operations\<close>

definition flush_batch_trigger :: nat where "flush_batch_trigger = 25"
definition max_buffered_per_session :: nat where "max_buffered_per_session = 1000"

text \<open>Buffers (an absent buffer is empty), the ships' flags, the overflow count, and whether \<open>Close\<close> ran.\<close>

record meter =
  mt_buffers :: "string \<Rightarrow> session_usage_event list"
  mt_scheduled :: "string \<Rightarrow> bool"
  mt_closing :: "string \<Rightarrow> bool"
  mt_dropped :: int
  mt_closed :: bool

definition new_meter :: meter where
  "new_meter = \<lparr>mt_buffers = (\<lambda>_. []), mt_scheduled = (\<lambda>_. False), mt_closing = (\<lambda>_. False), mt_dropped = 0,
     mt_closed = False\<rparr>"

definition push_event :: "session_usage_event \<Rightarrow> session_usage_event list \<Rightarrow> session_usage_event list" where
  "push_event e buffer = (if max_buffered_per_session \<le> length buffer then tl buffer else buffer) @ [e]"

text \<open>\<open>Record\<close>: whether the event was taken, whether a flush was scheduled, and the new state.\<close>

definition record_event ::
  "registry option \<Rightarrow> string \<Rightarrow> session_usage_event \<Rightarrow> meter \<Rightarrow> (bool \<times> bool) \<times> meter" where
  "record_event reg h e m =
     (if h = [] \<or> (case reg of None \<Rightarrow> False | Some r \<Rightarrow> lookup_session h r = None) then ((False, False), m)
      else if mt_closed m \<or> mt_closing m h then ((False, False), m)
      else
        (let full = (max_buffered_per_session \<le> length (mt_buffers m h));
             buffer = push_event e (mt_buffers m h);
             trigger = (flush_batch_trigger \<le> length buffer \<and> \<not> mt_scheduled m h)
         in ((True, trigger),
             m\<lparr>mt_buffers := (mt_buffers m)(h := buffer), mt_dropped := mt_dropped m + (if full then 1 else 0),
               mt_scheduled := (mt_scheduled m)(h := mt_scheduled m h \<or> trigger)\<rparr>)))"

definition end_schedule :: "string \<Rightarrow> meter \<Rightarrow> meter" where
  "end_schedule h m = m\<lparr>mt_scheduled := (mt_scheduled m)(h := False)\<rparr>"

definition close_session :: "string \<Rightarrow> meter \<Rightarrow> meter" where
  "close_session h m = m\<lparr>mt_closing := (mt_closing m)(h := True)\<rparr>"

definition forget_session :: "string \<Rightarrow> meter \<Rightarrow> meter" where
  "forget_session h m = m\<lparr>mt_buffers := (mt_buffers m)(h := []), mt_closing := (mt_closing m)(h := False),
     mt_scheduled := (mt_scheduled m)(h := False)\<rparr>"

definition close_meter :: "meter \<Rightarrow> meter" where
  "close_meter m = m\<lparr>mt_closed := True\<rparr>"

text \<open>\<open>flushHandle\<close> up to the loop: the events taken, or nothing when the session is being closed.\<close>

definition begin_flush :: "string \<Rightarrow> session option \<Rightarrow> meter \<Rightarrow> (session_usage_event list \<times> meter) option" where
  "begin_flush h fallback m =
     (if mt_closing m h \<and> fallback = None then None
      else Some (mt_buffers m h, m\<lparr>mt_buffers := (mt_buffers m)(h := [])\<rparr>))"

definition resolve_token :: "registry option \<Rightarrow> string \<Rightarrow> session option \<Rightarrow> string" where
  "resolve_token reg h fallback =
     (let fb = (case fallback of None \<Rightarrow> [] | Some s \<Rightarrow> se_svid s) in
      case reg of
        None \<Rightarrow> fb
      | Some r \<Rightarrow> (case lookup_session h r of None \<Rightarrow> fb | Some s \<Rightarrow> if se_svid s \<noteq> [] then se_svid s else fb))"

definition requeue :: "string \<Rightarrow> session_usage_event list \<Rightarrow> meter \<Rightarrow> meter" where
  "requeue h events m =
     (let combined = events @ mt_buffers m h; overflow = length combined - max_buffered_per_session
      in m\<lparr>mt_buffers := (mt_buffers m)(h := drop overflow combined), mt_dropped := mt_dropped m + int overflow\<rparr>)"

text \<open>
  One round of the loop on the events not yet shipped: a batch acknowledged under a token and what is
  left; or the end of the flush, with the events put back or, on the final flush, given up.
  \<open>attempts\<close> are the answers to the tries at shipping (the final flush tries twice while its time lasts).
\<close>

datatype round =
    Shipped string "session_usage_event list" "session_usage_event list"
  | Put_Back meter
  | Given_Up nat

definition ship_ok :: "session option \<Rightarrow> bool \<Rightarrow> bool \<Rightarrow> bool \<Rightarrow> bool" where
  "ship_ok fallback first_try time_left second_try \<longleftrightarrow> first_try \<or> (fallback \<noteq> None \<and> time_left \<and> second_try)"

definition flush_round ::
  "registry option \<Rightarrow> string \<Rightarrow> session option \<Rightarrow> bool \<Rightarrow> session_usage_event list \<Rightarrow> meter \<Rightarrow> round" where
  "flush_round reg h fallback acknowledged events m =
     (let token = resolve_token reg h fallback in
      if token = [] \<or> \<not> acknowledged then
        (if fallback = None then Put_Back (requeue h events m) else Given_Up (length events))
      else Shipped token (take max_usage_events_per_report events) (drop max_usage_events_per_report events))"

section \<open>Interleaving\<close>

text \<open>
  The meter with the flush in flight per handle (its lock \<open>sendMu\<close> admits one), the batches acknowledged with
  their tokens, and two histories: the events taken, and how many were lost, per handle.
\<close>

record metering =
  ms_meter :: meter
  ms_flight :: "string \<Rightarrow> (session option \<times> session_usage_event list) option"
  ms_sent :: "string \<Rightarrow> (string \<times> session_usage_event list) list"
  ms_taken :: "string \<Rightarrow> session_usage_event list"
  ms_lost :: "string \<Rightarrow> nat"

definition new_metering :: metering where
  "new_metering = \<lparr>ms_meter = new_meter, ms_flight = (\<lambda>_. None), ms_sent = (\<lambda>_. []), ms_taken = (\<lambda>_. []),
     ms_lost = (\<lambda>_. 0)\<rparr>"

inductive meter_step :: "metering \<Rightarrow> metering \<Rightarrow> bool" where
  Take: "record_event reg h e (ms_meter s) = ((True, trigger), m) \<Longrightarrow>
    meter_step s (s\<lparr>ms_meter := m, ms_taken := (ms_taken s)(h := ms_taken s h @ [e]),
      ms_lost := (ms_lost s)(h := ms_lost s h + nat (mt_dropped m - mt_dropped (ms_meter s)))\<rparr>)"
| Scheduled: "meter_step s (s\<lparr>ms_meter := end_schedule h (ms_meter s)\<rparr>)"
| Close_Session: "meter_step s (s\<lparr>ms_meter := close_session h (ms_meter s)\<rparr>)"
| Close: "meter_step s (s\<lparr>ms_meter := close_meter (ms_meter s)\<rparr>)"
| Begin: "ms_flight s h = None \<Longrightarrow> begin_flush h fallback (ms_meter s) = Some (events, m) \<Longrightarrow>
    meter_step s (s\<lparr>ms_meter := m, ms_flight := (ms_flight s)(h \<mapsto> (fallback, events))\<rparr>)"
| Ship: "ms_flight s h = Some (fallback, events) \<Longrightarrow> events \<noteq> [] \<Longrightarrow>
    flush_round reg h fallback acknowledged events (ms_meter s) = Shipped token batch rest \<Longrightarrow>
    meter_step s (s\<lparr>ms_flight := (ms_flight s)(h \<mapsto> (fallback, rest)),
      ms_sent := (ms_sent s)(h := ms_sent s h @ [(token, batch)])\<rparr>)"
| Retry: "ms_flight s h = Some (fallback, events) \<Longrightarrow> events \<noteq> [] \<Longrightarrow>
    flush_round reg h fallback acknowledged events (ms_meter s) = Put_Back m \<Longrightarrow>
    meter_step s (s\<lparr>ms_meter := m, ms_flight := (ms_flight s)(h := None),
      ms_lost := (ms_lost s)(h := ms_lost s h + nat (mt_dropped m - mt_dropped (ms_meter s)))\<rparr>)"
| Give_Up: "ms_flight s h = Some (fallback, events) \<Longrightarrow> events \<noteq> [] \<Longrightarrow>
    flush_round reg h fallback acknowledged events (ms_meter s) = Given_Up n \<Longrightarrow>
    meter_step s (s\<lparr>ms_flight := (ms_flight s)(h \<mapsto> (fallback, [])), ms_lost := (ms_lost s)(h := ms_lost s h + n)\<rparr>)"
| End: "ms_flight s h = Some (None, []) \<Longrightarrow> meter_step s (s\<lparr>ms_flight := (ms_flight s)(h := None)\<rparr>)"
| End_Final: "ms_flight s h = Some (Some dep, []) \<Longrightarrow>
    meter_step s (s\<lparr>ms_meter := forget_session h (ms_meter s), ms_flight := (ms_flight s)(h := None),
      ms_lost := (ms_lost s)(h := ms_lost s h + length (mt_buffers (ms_meter s) h))\<rparr>)"

inductive metering_reach :: "metering \<Rightarrow> bool" where
  Start: "metering_reach new_metering"
| Step: "metering_reach s \<Longrightarrow> meter_step s t \<Longrightarrow> metering_reach t"

section \<open>Accounting\<close>

definition in_flight :: "metering \<Rightarrow> string \<Rightarrow> session_usage_event list" where
  "in_flight s h = (case ms_flight s h of None \<Rightarrow> [] | Some (_, events) \<Rightarrow> events)"

definition delivered :: "metering \<Rightarrow> string \<Rightarrow> session_usage_event list" where
  "delivered s h = concat (map snd (ms_sent s h))"

definition held :: "metering \<Rightarrow> string \<Rightarrow> session_usage_event list" where
  "held s h = delivered s h @ in_flight s h @ mt_buffers (ms_meter s) h"

definition accounted :: "metering \<Rightarrow> string \<Rightarrow> bool" where
  "accounted s h \<longleftrightarrow> subseq (held s h) (ms_taken s h) \<and> length (ms_taken s h) = length (held s h) + ms_lost s h
     \<and> length (mt_buffers (ms_meter s) h) \<le> max_buffered_per_session
     \<and> (\<forall>(token, batch)\<in>set (ms_sent s h). token \<noteq> [] \<and> batch \<noteq> [] \<and> length batch \<le> max_usage_events_per_report)"

lemma push_event_cases:
  "length buffer \<le> max_buffered_per_session \<Longrightarrow>
     length (push_event e buffer) \<le> max_buffered_per_session
     \<and> (if max_buffered_per_session \<le> length buffer then push_event e buffer = tl buffer @ [e] \<and> buffer \<noteq> [] \<and>
          length (push_event e buffer) = length buffer
        else push_event e buffer = buffer @ [e])"
  by (auto simp: push_event_def max_buffered_per_session_def)

lemma subseq_drop_middle: "subseq (xs @ drop n ys) (xs @ ys)"
  by (intro list_emb_append_mono) (auto intro: suffix_imp_subseq suffix_drop)

lemma take_drop_append: "take n xs @ drop n xs @ ys = xs @ ys"
  by (simp flip: append.assoc)

lemma accounted_other:
  assumes "accounted s h" and "ms_taken t h = ms_taken s h" and "ms_flight t h = ms_flight s h" and "ms_sent t h = ms_sent s h"
    and "ms_lost t h = ms_lost s h" and "mt_buffers (ms_meter t) h = mt_buffers (ms_meter s) h"
  shows "accounted t h"
  using assms by (simp add: accounted_def held_def delivered_def in_flight_def)

lemma take_step:
  assumes "accounted s h" and "record_event reg h e (ms_meter s) = ((True, trigger), m)"
  shows "accounted (s\<lparr>ms_meter := m, ms_taken := (ms_taken s)(h := ms_taken s h @ [e]),
      ms_lost := (ms_lost s)(h := ms_lost s h + nat (mt_dropped m - mt_dropped (ms_meter s)))\<rparr>) h"
proof -
  let ?b = "mt_buffers (ms_meter s) h"
  define pre where "pre = delivered s h @ in_flight s h"
  from assms(2) have m: "mt_buffers m h = push_event e ?b"
    "mt_dropped m - mt_dropped (ms_meter s) = (if max_buffered_per_session \<le> length ?b then 1 else 0)"
    by (auto simp: record_event_def Let_def split: if_splits)
  from assms(1) have b: "length ?b \<le> max_buffered_per_session" and sub: "subseq (pre @ ?b) (ms_taken s h)"
    by (auto simp: accounted_def held_def pre_def)
  have "subseq (pre @ push_event e ?b) (ms_taken s h @ [e])"
  proof (cases "max_buffered_per_session \<le> length ?b")
    case True
    have "subseq (pre @ tl ?b) (pre @ ?b)" using subseq_drop_middle [of pre 1 ?b] by (simp add: drop_Suc)
    with sub have "subseq (pre @ tl ?b) (ms_taken s h)" by (rule subseq_order.trans [rotated])
    with push_event_cases [OF b, of e] True show ?thesis by (metis append.assoc list_emb_append_mono subseq_order.refl)
  next
    case False
    with push_event_cases [OF b, of e] sub show ?thesis by (metis append.assoc list_emb_append_mono subseq_order.refl)
  qed
  then show ?thesis using assms(1) m push_event_cases [OF b, of e]
    by (auto simp: accounted_def held_def delivered_def in_flight_def pre_def split: if_splits)
qed

lemma retry_step:
  assumes "accounted s h" and "ms_flight s h = Some (fallback, events)" and "m = requeue h events (ms_meter s)"
  shows "accounted (s\<lparr>ms_meter := m, ms_flight := (ms_flight s)(h := None),
      ms_lost := (ms_lost s)(h := ms_lost s h + nat (mt_dropped m - mt_dropped (ms_meter s)))\<rparr>) h"
proof -
  let ?b = "events @ mt_buffers (ms_meter s) h"
  have "subseq (delivered s h @ drop (length ?b - max_buffered_per_session) ?b) (ms_taken s h)"
    using subseq_drop_middle [of "delivered s h" "length ?b - max_buffered_per_session" ?b] assms(1,2)
    by (auto simp: accounted_def held_def in_flight_def simp del: drop_append intro: subseq_order.trans)
  then show ?thesis using assms
    by (auto simp: accounted_def held_def delivered_def in_flight_def requeue_def Let_def)
qed

lemma ship_step:
  assumes "accounted s h" and "ms_flight s h = Some (fallback, events)" and "events \<noteq> []" and "token \<noteq> []"
  shows "accounted (s\<lparr>ms_flight := (ms_flight s)(h \<mapsto> (fallback, drop max_usage_events_per_report events)),
      ms_sent := (ms_sent s)(h := ms_sent s h @ [(token, take max_usage_events_per_report events)])\<rparr>) h"
  using assms by (auto simp: accounted_def held_def delivered_def in_flight_def max_usage_events_per_report_def take_drop_append)

lemma lose_flight:
  assumes "accounted s h" and "ms_flight s h = Some (fallback, events)"
  shows "accounted (s\<lparr>ms_flight := (ms_flight s)(h \<mapsto> (fallback, [])), ms_lost := (ms_lost s)(h := ms_lost s h + length events)\<rparr>) h"
proof -
  have "subseq (delivered s h @ mt_buffers (ms_meter s) h) (delivered s h @ events @ mt_buffers (ms_meter s) h)"
    using subseq_drop_middle [of "delivered s h" "length events" "events @ mt_buffers (ms_meter s) h"] by simp
  then show ?thesis using assms
    by (auto simp: accounted_def held_def delivered_def in_flight_def intro: subseq_order.trans)
qed

lemma forget_step:
  assumes "accounted s h" and "ms_flight s h = Some (fallback, [])"
  shows "accounted (s\<lparr>ms_meter := forget_session h (ms_meter s), ms_flight := (ms_flight s)(h := None),
      ms_lost := (ms_lost s)(h := ms_lost s h + length (mt_buffers (ms_meter s) h))\<rparr>) h"
proof -
  have "subseq (delivered s h) (delivered s h @ mt_buffers (ms_meter s) h)"
    using subseq_drop_middle [of "delivered s h" "length (mt_buffers (ms_meter s) h)" "mt_buffers (ms_meter s) h"] by simp
  then show ?thesis using assms
    by (auto simp: accounted_def held_def delivered_def in_flight_def forget_session_def intro: subseq_order.trans)
qed

lemma record_event_other:
  "record_event reg h e m = (r, m') \<Longrightarrow> h' \<noteq> h \<Longrightarrow> mt_buffers m' h' = mt_buffers m h'"
  by (auto simp: record_event_def Let_def split: if_splits)

lemma step_accounted:
  assumes "meter_step s t" and "\<forall>h. accounted s h"
  shows "accounted t x"
  using assms(1)
proof cases
  case (Take reg h e trigger m)
  show ?thesis
  proof (cases "x = h")
    case True
    with take_step [OF _ Take(2)] assms(2) Take(1) show ?thesis by blast
  next
    case False
    with Take record_event_other [OF Take(2) False] assms(2) show ?thesis by (auto intro: accounted_other [of s])
  qed
next
  case (Begin h fallback events m)
  have "accounted s x" using assms(2) by blast
  then show ?thesis using Begin
    by (auto simp: begin_flush_def accounted_def held_def delivered_def in_flight_def split: if_splits)
next
  case (Ship h fallback events reg acknowledged token batch rest)
  have "token \<noteq> []" "batch = take max_usage_events_per_report events" "rest = drop max_usage_events_per_report events"
    using Ship(4) by (auto simp: flush_round_def Let_def split: if_splits)
  with ship_step [OF _ Ship(2,3)] assms(2) Ship(1) show ?thesis
    by (cases "x = h") (auto intro: accounted_other [of s])
next
  case (Retry h fallback events reg acknowledged m)
  have m: "m = requeue h events (ms_meter s)" using Retry(4) by (auto simp: flush_round_def Let_def split: if_splits)
  show ?thesis
  proof (cases "x = h")
    case True
    with retry_step [OF _ Retry(2) m] assms(2) Retry(1) show ?thesis by blast
  next
    case False
    with Retry(1) m assms(2) show ?thesis by (auto simp: requeue_def Let_def intro: accounted_other [of s])
  qed
next
  case (Give_Up h fallback events reg acknowledged n)
  have "n = length events" using Give_Up(4) by (auto simp: flush_round_def Let_def split: if_splits)
  with lose_flight [OF _ Give_Up(2)] assms(2) Give_Up(1) show ?thesis
    by (cases "x = h") (auto intro: accounted_other [of s])
next
  case (End h)
  have "accounted s x" using assms(2) by blast
  then show ?thesis using End by (auto simp: accounted_def held_def delivered_def in_flight_def)
next
  case (End_Final h dep)
  show ?thesis
  proof (cases "x = h")
    case True
    with forget_step [OF _ End_Final(2)] assms(2) End_Final(1) show ?thesis by blast
  next
    case False
    with End_Final(1) assms(2) show ?thesis by (auto simp: forget_session_def intro: accounted_other [of s])
  qed
qed (use assms(2) in \<open>auto simp: end_schedule_def close_session_def close_meter_def intro: accounted_other [of s]\<close>)

lemma reach_accounted: "metering_reach s \<Longrightarrow> accounted s h"
proof (induction arbitrary: h rule: metering_reach.induct)
  case Start
  show ?case by (simp add: accounted_def held_def delivered_def in_flight_def new_metering_def new_meter_def)
next
  case (Step s t)
  from step_accounted [OF Step(2)] Step(3) show ?case by blast
qed

section \<open>Properties\<close>


definition sample_event :: session_usage_event where
  "sample_event = build_event ''openai'' \<lparr>ri_model = ''m'', ri_inference = True\<rparr> zero_totals ''r'' 1 ''t''"


end
