(* ===== verification/Meter_Connect.thy ===== *)
theory Meter_Connect
  imports Sandbox_Proxy Usage_Meter
begin

text \<open>
  \<^verbatim>\<open>internal/node/dataplane/meterconnect.go\<close> with \<open>ForwardTLSOneTapped\<close> of
  \<^verbatim>\<open>internal/node/proxy/proxy.go\<close>: the calls of an agent to a model provider, which are
  intercepted for metering only. Lemmas: the request and the answer pass through unchanged but for the
  listed headers, and exactly the completed calls are recorded, for the session credited with the connection.
\<close>

section \<open>Forwarding with a tap\<close>

text \<open>
  What the upstream does: it cannot be dialled, the request cannot be written, no response can be read,
  or it answers; then the body arrives in chunks, which go to the client up to an error, if there is one.
\<close>

record upstream_reply =
  ur_status :: int
  ur_header :: header
  ur_chunks :: "string list"
  ur_error :: "string option"

datatype upstream =
    Undialled string
  | Unwritten string
  | Unanswered string
  | Answered upstream_reply

text \<open>What the client gets.\<close>

datatype client_view =
    Nothing_Sent
  | Refusal string
  | Reply_Sent int header "string list"
  | Switched int header

definition is_upgrade :: "http_in \<Rightarrow> bool" where
  "is_upgrade r \<longleftrightarrow> equal_fold (header_get (hi_header r) ''Upgrade'') ''websocket''
     \<and> header_token (header_get (hi_header r) ''Connection'') ''upgrade''"

text \<open>
  \<open>ForwardTLSOneTapped\<close> and \<open>forwardOneTapped\<close>: the request written, what the client gets, the chunks
  that ran through the tap with the sink it chose, and the error. The frames of a switched connection are not metered.
\<close>

record forwarded =
  fw_sent :: "http_in option"
  fw_client :: client_view
  fw_tapped :: "(sink_kind \<times> string list) option"
  fw_error :: "string option"

definition forward_tapped :: "bool \<Rightarrow> string \<Rightarrow> upstream \<Rightarrow> http_in \<Rightarrow> forwarded" where
  "forward_tapped tap target up req =
     (let out = tapped_request req in
      case up of
        Undialled e \<Rightarrow> \<lparr>fw_sent = None, fw_client = Refusal ''upstream unreachable'', fw_tapped = None,
          fw_error = Some (''dial upstream (tls) '' @ target @ '': '' @ e)\<rparr>
      | Unwritten e \<Rightarrow> \<lparr>fw_sent = Some out, fw_client = Nothing_Sent, fw_tapped = None,
          fw_error = Some (''write upstream request: '' @ e)\<rparr>
      | Unanswered e \<Rightarrow> \<lparr>fw_sent = Some out, fw_client = Nothing_Sent, fw_tapped = None,
          fw_error = Some (''read upstream response: '' @ e)\<rparr>
      | Answered r \<Rightarrow>
          if is_upgrade (prepare_origin_request req) \<and> ur_status r = 101
          then \<lparr>fw_sent = Some out, fw_client = Switched (ur_status r) (ur_header r), fw_tapped = None, fw_error = ur_error r\<rparr>
          else \<lparr>fw_sent = Some out,
            fw_client = Reply_Sent (ur_status r) (header_del ''Keep-Alive'' (header_del ''Connection'' (ur_header r))) (ur_chunks r),
            fw_tapped = (if tap then map_option (\<lambda>k. (k, ur_chunks r)) (response_sink (header_get (ur_header r) ''Content-Type''))
              else None),
            fw_error = map_option (\<lambda>e. ''copy upstream response: '' @ e) (ur_error r)\<rparr>)"

section \<open>A metered connection\<close>

text \<open>
  \<open>meterConnect\<close>: the forwarded request, what the client gets, the event, and the meter. The request id,
  the milliseconds of the call, the start's text and the registry at the end of the call are arguments.
\<close>

record metered_call =
  mc_sent :: "http_in option"
  mc_client :: client_view
  mc_event :: "session_usage_event option"
  mc_meter :: "meter option"

definition unmetered :: "client_view \<Rightarrow> meter option \<Rightarrow> metered_call" where
  "unmetered v m = \<lparr>mc_sent = None, mc_client = v, mc_event = None, mc_meter = m\<rparr>"

text \<open>The totals of a call; a sink never fails, which \<open>call_totals_some\<close> shows.\<close>

definition call_totals :: "forwarded \<Rightarrow> usage_totals option" where
  "call_totals fw = (case fw_tapped fw of None \<Rightarrow> Some zero_totals | Some (k, chunks) \<Rightarrow> metered_totals k chunks)"

definition forward_metered ::
  "string \<Rightarrow> string \<Rightarrow> session \<Rightarrow> http_in \<Rightarrow> upstream \<Rightarrow> registry option \<Rightarrow> string \<Rightarrow> int \<Rightarrow> string \<Rightarrow> meter option
     \<Rightarrow> metered_call option" where
  "forward_metered target prov s req up reg rid ms started m =
     (let info = extract_request prov req;
          tap = (ri_inference info \<and> m \<noteq> None);
          req1 = (if tap then req\<lparr>hi_header := header_set ''Accept-Encoding'' ''identity'' (hi_header req)\<rparr> else req);
          fw = forward_tapped tap target up req1;
          done = \<lparr>mc_sent = fw_sent fw, mc_client = fw_client fw, mc_event = None, mc_meter = m\<rparr>
      in case m of
           None \<Rightarrow> Some done
         | Some mt \<Rightarrow>
             if \<not> ri_inference info then Some done
             else (case call_totals fw of
               None \<Rightarrow> None
             | Some t \<Rightarrow>
                 if fw_error fw \<noteq> None \<and> \<not> ut_observed t then Some done
                 else (let e = build_event prov info t rid ms started
                   in Some (done\<lparr>mc_event := Some e, mc_meter := Some (snd (record_event reg (se_handle s) e mt))\<rparr>))))"

definition meter_connect ::
  "tunnel \<Rightarrow> string \<Rightarrow> string \<Rightarrow> string \<Rightarrow> session \<Rightarrow> upstream \<Rightarrow> registry option \<Rightarrow> string \<Rightarrow> int \<Rightarrow> string \<Rightarrow> meter option
     \<Rightarrow> metered_call option" where
  "meter_connect tn target host prov s up reg rid ms started m =
     (if \<not> terminate_tls host tn then Some (unmetered Nothing_Sent m)
      else case tn_request tn of
        None \<Rightarrow> Some (unmetered Nothing_Sent m)
      | Some req \<Rightarrow>
          if request_destination (Some req) ''https'' \<noteq> Inr target
          then Some (unmetered (Refusal ''request authority does not match CONNECT target'') m)
          else forward_metered target prov s req up reg rid ms started m)"

section \<open>Nothing is changed\<close>

lemma call_totals_some: "\<exists>t. call_totals fw = Some t \<and> (fw_tapped fw = None \<longrightarrow> \<not> ut_observed t)"
  using metered_totals_ok by (auto simp: call_totals_def zero_totals_def split: option.split)

text \<open>The headers that forwarding may change.\<close>

definition hop_headers :: "string list" where
  "hop_headers = [''Connection'', ''Proxy-Connection'', ''Proxy-Authorization'']"

lemma hop_canonical: "map canonical_header (''Accept-Encoding'' # ''Keep-Alive'' # hop_headers) = ''Accept-Encoding'' # ''Keep-Alive'' # hop_headers"
  by code_simp

lemma tapped_request_same:
  "hi_method (tapped_request r) = hi_method r \<and> hi_url (tapped_request r) = hi_url r \<and> hi_host (tapped_request r) = hi_host r
     \<and> hi_body (tapped_request r) = hi_body r
     \<and> (canonical_header k \<in> set hop_headers \<or> header_get (hi_header (tapped_request r)) k = header_get (hi_header r) k)
     \<and> header_get (hi_header (tapped_request r)) ''Proxy-Authorization'' = []"
  using hop_canonical by (simp add: tapped_request_def prepare_origin_request_def Let_def hop_headers_def)

lemma forward_tapped_sent: "fw_sent (forward_tapped tap target up r) \<in> {None, Some (tapped_request r)}"
  by (simp add: forward_tapped_def Let_def split: upstream.split)

lemma forward_tapped_reply:
  "fw_client (forward_tapped tap target up r) = Reply_Sent st h chunks \<Longrightarrow>
     \<exists>x. up = Answered x \<and> st = ur_status x \<and> chunks = ur_chunks x
       \<and> (canonical_header k \<in> {''Connection'', ''Keep-Alive''} \<or> header_get h k = header_get (ur_header x) k)"
  using hop_canonical by (auto simp: hop_headers_def forward_tapped_def Let_def split: upstream.splits if_splits)

lemma call_totals_total [simp]: "call_totals fw \<noteq> None"
  using call_totals_some [of fw] by auto

lemma forward_metered_cases:
  obtains (Metered) tap t mt where "tap" and "call_totals (forward_tapped tap target up
      (req\<lparr>hi_header := header_set ''Accept-Encoding'' ''identity'' (hi_header req)\<rparr>)) = Some t"
    and "m = Some mt" and "ri_inference (extract_request prov req)"
    and "forward_metered target prov s req up reg rid ms started m =
      (let fw = forward_tapped True target up (req\<lparr>hi_header := header_set ''Accept-Encoding'' ''identity'' (hi_header req)\<rparr>);
           e = build_event prov (extract_request prov req) t rid ms started
       in Some (if fw_error fw \<noteq> None \<and> \<not> ut_observed t
         then \<lparr>mc_sent = fw_sent fw, mc_client = fw_client fw, mc_event = None, mc_meter = m\<rparr>
         else \<lparr>mc_sent = fw_sent fw, mc_client = fw_client fw, mc_event = Some e,
           mc_meter = Some (snd (record_event reg (se_handle s) e mt))\<rparr>))"
  | (Plain) "m = None \<or> \<not> ri_inference (extract_request prov req)"
    and "forward_metered target prov s req up reg rid ms started m =
      (let fw = forward_tapped False target up req
       in Some \<lparr>mc_sent = fw_sent fw, mc_client = fw_client fw, mc_event = None, mc_meter = m\<rparr>)"
proof (cases "m = None \<or> \<not> ri_inference (extract_request prov req)")
  case True
  then show thesis by (intro Plain) (auto simp: forward_metered_def Let_def split: option.split)
next
  case False
  then obtain mt where "m = Some mt" "ri_inference (extract_request prov req)" by auto
  moreover obtain t where "call_totals (forward_tapped True target up
      (req\<lparr>hi_header := header_set ''Accept-Encoding'' ''identity'' (hi_header req)\<rparr>)) = Some t"
    using call_totals_some by blast
  ultimately show thesis by (intro Metered [of True t mt]) (auto simp: forward_metered_def Let_def)
qed

lemma accept_encoding_header:
  "canonical_header k = ''Accept-Encoding'' \<or> header_get (header_set ''Accept-Encoding'' v h) k = header_get h k"
  using hop_canonical by simp

text \<open>One request for another, and one reply, up to some headers.\<close>

definition same_request :: "string list \<Rightarrow> string \<Rightarrow> http_in \<Rightarrow> http_in \<Rightarrow> bool" where
  "same_request ks k r req \<longleftrightarrow> hi_method r = hi_method req \<and> hi_url r = hi_url req \<and> hi_host r = hi_host req
     \<and> hi_body r = hi_body req \<and> header_get (hi_header r) ''Proxy-Authorization'' = []
     \<and> (canonical_header k \<in> set ks \<or> header_get (hi_header r) k = header_get (hi_header req) k)"

definition same_reply :: "string \<Rightarrow> upstream \<Rightarrow> client_view \<Rightarrow> bool" where
  "same_reply k up v \<longleftrightarrow> (case v of
     Reply_Sent st h chunks \<Rightarrow> \<exists>x. up = Answered x \<and> st = ur_status x \<and> chunks = ur_chunks x
       \<and> (canonical_header k \<in> {''Connection'', ''Keep-Alive''} \<or> header_get h k = header_get (ur_header x) k)
   | _ \<Rightarrow> True)"

lemma forward_tapped_same:
  assumes "hi_method r = hi_method req" and "hi_url r = hi_url req" and "hi_host r = hi_host req" and "hi_body r = hi_body req"
    and "canonical_header k = ''Accept-Encoding'' \<or> header_get (hi_header r) k = header_get (hi_header req) k"
  shows "pred_option (\<lambda>out. same_request (''Accept-Encoding'' # hop_headers) k out req) (fw_sent (forward_tapped tap target up r))"
    and "same_reply k up (fw_client (forward_tapped tap target up r))"
proof -
  have "same_request (''Accept-Encoding'' # hop_headers) k (tapped_request r) req"
    using tapped_request_same [of r k] assms by (auto simp: same_request_def)
  then show "pred_option (\<lambda>out. same_request (''Accept-Encoding'' # hop_headers) k out req) (fw_sent (forward_tapped tap target up r))"
    using forward_tapped_sent [of tap target up r] by (elim insertE) simp_all
  show "same_reply k up (fw_client (forward_tapped tap target up r))"
    using forward_tapped_reply [of tap target up r _ _ _ k] by (simp add: same_reply_def split: client_view.split)
qed

lemma forward_metered_same:
  "\<exists>out. forward_metered target prov s req up reg rid ms started m = Some out
     \<and> pred_option (\<lambda>r. same_request (''Accept-Encoding'' # hop_headers) k r req) (mc_sent out)
     \<and> same_reply k up (mc_client out)"
proof (cases rule: forward_metered_cases [of target up req m prov s reg rid ms started])
  case (Metered tap t mt)
  let ?r = "req\<lparr>hi_header := header_set ''Accept-Encoding'' ''identity'' (hi_header req)\<rparr>"
  have "canonical_header k = ''Accept-Encoding'' \<or> header_get (hi_header ?r) k = header_get (hi_header req) k"
    using accept_encoding_header [of k "''identity''" "hi_header req"] by simp
  note same = forward_tapped_same [where r = ?r and req = req and tap = True and target = target and up = up, OF _ _ _ _ this, simplified]
  show ?thesis unfolding Metered(5) Let_def using same by simp
next
  case Plain
  note same = forward_tapped_same [where tap = False and target = target and up = up, OF refl refl refl refl disjI2 [OF refl], of k req]
  show ?thesis unfolding Plain(2) Let_def using same by simp
qed

section \<open>Properties\<close>


text \<open>
  C29. Exactly the completed inference calls are recorded, whatever the response looks like: if the provider answered,
  an event is recorded for the session of the connection if and only if the request was an inference and the
  answer got through or usage was seen in what did get through; the event carries the totals of that
  response, and where it cannot be parsed, no counts.
\<close>

theorem completed_calls_recorded:
  assumes "terminate_tls host tn" and "tn_request tn = Some req" and "request_destination (Some req) ''https'' = Inr target"
    and "up = Answered x" and "ur_status x \<noteq> 101"
  shows "\<exists>out t. meter_connect tn target host prov s up reg rid ms started (Some mt) = Some out
    \<and> (case response_sink (header_get (ur_header x) ''Content-Type'') of
         None \<Rightarrow> t = zero_totals | Some k \<Rightarrow> metered_totals k (ur_chunks x) = Some t)
    \<and> (let e = build_event prov (extract_request prov req) t rid ms started in
        (mc_event out, mc_meter out) =
          (if ri_inference (extract_request prov req) \<and> (ur_error x = None \<or> ut_observed t)
           then (Some e, Some (snd (record_event reg (se_handle s) e mt))) else (None, Some mt)))"
proof -
  have run: "meter_connect tn target host prov s up reg rid ms started (Some mt)
      = forward_metered target prov s req up reg rid ms started (Some mt)"
    using assms by (simp add: meter_connect_def)
  show ?thesis
  proof (cases rule: forward_metered_cases [of target up req "Some mt" prov s reg rid ms started])
    case (Metered tap t mt')
    from Metered(1,2) assms(4,5) have "case response_sink (header_get (ur_header x) ''Content-Type'') of
        None \<Rightarrow> t = zero_totals | Some k \<Rightarrow> metered_totals k (ur_chunks x) = Some t"
      by (auto simp: call_totals_def forward_tapped_def Let_def split: option.splits)
    with Metered assms(4,5) run show ?thesis
      by (auto simp: forward_tapped_def Let_def intro!: exI [of _ t])
  next
    case Plain
    obtain t where "case response_sink (header_get (ur_header x) ''Content-Type'') of
        None \<Rightarrow> t = zero_totals | Some k \<Rightarrow> metered_totals k (ur_chunks x) = Some t"
    proof (cases "response_sink (header_get (ur_header x) ''Content-Type'')")
      case (Some k)
      with that metered_totals_ok [of k "ur_chunks x"] show thesis by auto
    qed simp
    with Plain run show ?thesis by (auto simp: Let_def intro!: exI [of _ t])
  qed
qed

definition metered_request :: http_in where
  "metered_request = (post_json [])\<lparr>hi_url := sample_url\<lparr>u_path := ''/v1/messages'', u_raw_path := []\<rparr>, hi_host := ''a.io''\<rparr>"

definition metered_tunnel :: tunnel where
  "metered_tunnel = \<lparr>tn_established = True, tn_server_name = [], tn_leaf = (\<lambda>_. True), tn_request = Some metered_request\<rparr>"

definition plain_reply :: upstream_reply where
  "plain_reply = \<lparr>ur_status = 200, ur_header = [(''Content-Type'', [''text/plain''])], ur_chunks = [''ok''], ur_error = None\<rparr>"

lemma completed_calls_recorded_witness:
  "\<exists>out e. meter_connect metered_tunnel ''a.io:443'' ''a.io'' ''anthropic'' (snd (hd twins)) (Answered plain_reply) None ''r'' 5 ''t'' (Some new_meter)
     = Some out \<and> mc_event out = Some e \<and> ue_model e = unknown_model \<and> ue_output_tokens e = None"
proof -
  have tls: "terminate_tls ''a.io'' metered_tunnel" by (simp add: terminate_tls_def metered_tunnel_def server_name_accepted_def)
  have req: "tn_request metered_tunnel = Some metered_request" by (simp add: metered_tunnel_def)
  have dest: "request_destination (Some metered_request) ''https'' = Inr ''a.io:443''" by code_simp
  have st: "ur_status plain_reply \<noteq> 101" by (simp add: plain_reply_def)
  have inf: "ri_inference (extract_request ''anthropic'' metered_request)" by code_simp
  have model: "ri_model (extract_request ''anthropic'' metered_request) = unknown_model" by code_simp
  have sink: "response_sink (header_get (ur_header plain_reply) ''Content-Type'') = None" by code_simp
  have err: "ur_error plain_reply = None" by (simp add: plain_reply_def)
  from completed_calls_recorded [OF tls req dest refl st, of "''anthropic''" "snd (hd twins)" None "''r''" 5 "''t''" new_meter]
  show ?thesis using inf model sink err by (auto simp: Let_def build_event_def zero_totals_def)
qed

end
