(* ===== verification/Session_Sock.thy ===== *)
theory Session_Sock
  imports Registry Strconv
begin

text \<open>
  \<^verbatim>\<open>internal/node/sessionsock/sessionsock.go\<close>: the daemon's local socket, on which hooks
  register, update, look up and unregister sessions. A connection is a sequence of lines, each answered
  by one line; \<open>handle_line\<close> is the body of the loop. Lemmas: nothing happens without the secret, what
  each action does to the registry, what a registered session is guaranteed to be, and that the secret
  is loaded or created in at most twenty attempts.
\<close>

section \<open>Messages\<close>

record sock_message =
  sm_auth :: string
  sm_action :: string
  sm_handle :: string
  sm_spiffe_id :: string
  sm_svid :: string
  sm_blueprint :: string
  sm_ulid :: string
  sm_agent_id :: string
  sm_expires_at :: string
  sm_session_id :: string
  sm_owner_pid :: int
  sm_owner_managed :: bool
  sm_owner_identity :: string
  sm_routes :: "runtime_routes option"

definition action_register :: string where "action_register = ''register''"
definition action_unregister :: string where "action_unregister = ''unregister''"
definition action_update_owner :: string where "action_update_owner = ''update-owner''"
definition action_lookup :: string where "action_lookup = ''lookup''"
definition action_health :: string where "action_health = ''health''"

definition zero_message :: sock_message where
  "zero_message = \<lparr>sm_auth = [], sm_action = [], sm_handle = [], sm_spiffe_id = [], sm_svid = [], sm_blueprint = [],
     sm_ulid = [], sm_agent_id = [], sm_expires_at = [], sm_session_id = [], sm_owner_pid = 0, sm_owner_managed = False,
     sm_owner_identity = [], sm_routes = None\<rparr>"

definition message_fields :: "json \<Rightarrow> sock_message \<Rightarrow> sock_message result" where
  "message_fields = decode_struct False
     [(''auth'', dec_string (\<lambda>v r. r\<lparr>sm_auth := v\<rparr>)), (''action'', dec_string (\<lambda>v r. r\<lparr>sm_action := v\<rparr>)),
      (''handle'', dec_string (\<lambda>v r. r\<lparr>sm_handle := v\<rparr>)), (''spiffe_id'', dec_string (\<lambda>v r. r\<lparr>sm_spiffe_id := v\<rparr>)),
      (''svid'', dec_string (\<lambda>v r. r\<lparr>sm_svid := v\<rparr>)), (''blueprint'', dec_string (\<lambda>v r. r\<lparr>sm_blueprint := v\<rparr>)),
      (''ulid'', dec_string (\<lambda>v r. r\<lparr>sm_ulid := v\<rparr>)), (''agent_id'', dec_string (\<lambda>v r. r\<lparr>sm_agent_id := v\<rparr>)),
      (''expires_at'', dec_string (\<lambda>v r. r\<lparr>sm_expires_at := v\<rparr>)), (''session_id'', dec_string (\<lambda>v r. r\<lparr>sm_session_id := v\<rparr>)),
      (''owner_pid'', dec_int (\<lambda>v r. r\<lparr>sm_owner_pid := v\<rparr>)), (''owner_managed'', dec_bool (\<lambda>v r. r\<lparr>sm_owner_managed := v\<rparr>)),
      (''owner_identity'', dec_string (\<lambda>v r. r\<lparr>sm_owner_identity := v\<rparr>)),
      (''routes'', dec_pointer (\<lambda>v r. r\<lparr>sm_routes := v\<rparr>) sm_routes zero_routes (decode_routes False))]"

definition decode_message :: "string \<Rightarrow> sock_message option" where
  "decode_message line =
     (case parse_json line of None \<Rightarrow> None
      | Some j \<Rightarrow> (case message_fields j zero_message of Inl _ \<Rightarrow> None | Inr m \<Rightarrow> Some m))"

text \<open>\<open>validateMessage\<close>; \<open>Validate\<close> parses the origins of the routes into the message's own routes.\<close>

definition validate_message :: "sock_message \<Rightarrow> sock_message result" where
  "validate_message m =
     (if sm_action m = action_health then Inr m
      else if sm_handle m = [] \<or> 4096 < int (length (sm_handle m)) then Inl ''invalid handle''
      else if sm_action m = action_register then
        (if sm_spiffe_id m = [] \<or> sm_svid m = [] \<or> 2048 < int (length (sm_spiffe_id m)) \<or> 1024 * 1024 < int (length (sm_svid m))
         then Inl ''invalid registration''
         else case sm_routes m of
             None \<Rightarrow> Inl ''invalid runtime routes''
           | Some rs \<Rightarrow>
               (case validate_routes rs of
                  Inl _ \<Rightarrow> Inl ''invalid runtime routes''
                | Inr rs' \<Rightarrow> Inr (m\<lparr>sm_routes := Some rs'\<rparr>)))
      else if sm_action m = action_update_owner then
        (if sm_owner_pid m \<le> 0 \<or> 512 < int (length (sm_owner_identity m)) then Inl ''invalid owner pid'' else Inr m)
      else if sm_action m = action_unregister \<or> sm_action m = action_lookup then Inr m
      else Inl ''unknown action'')"

section \<open>Answers\<close>

record session_snapshot =
  sn_handle :: string
  sn_spiffe_id :: string
  sn_svid :: string
  sn_blueprint :: string
  sn_ulid :: string
  sn_agent_id :: string
  sn_expires_at :: string
  sn_session_id :: string
  sn_owner_pid :: int
  sn_owner_managed :: bool
  sn_owner_identity :: string

definition snapshot_session :: "session \<Rightarrow> session_snapshot" where
  "snapshot_session s = \<lparr>sn_handle = se_handle s, sn_spiffe_id = se_spiffe_id s, sn_svid = se_svid s,
     sn_blueprint = se_blueprint s, sn_ulid = se_ulid s, sn_agent_id = se_agent_id s, sn_expires_at = se_expires_at s,
     sn_session_id = se_session_id s, sn_owner_pid = se_owner_pid s, sn_owner_managed = se_owner_managed s,
     sn_owner_identity = se_owner_identity s\<rparr>"

definition marshal_snapshot :: "session_snapshot \<Rightarrow> string" where
  "marshal_snapshot s = json_object
     ([(''handle'', quote (sn_handle s)), (''spiffe_id'', quote (sn_spiffe_id s)), (''svid'', quote (sn_svid s)),
       (''blueprint'', quote (sn_blueprint s)), (''ulid'', quote (sn_ulid s)), (''agent_id'', quote (sn_agent_id s)),
       (''expires_at'', quote (sn_expires_at s)), (''session_id'', quote (sn_session_id s))]
      @ omit_if (sn_owner_pid s = 0) ''owner_pid'' (itoa (sn_owner_pid s))
      @ omit_if (\<not> sn_owner_managed s) ''owner_managed'' ''true''
      @ omit_if (sn_owner_identity s = []) ''owner_identity'' (quote (sn_owner_identity s)))"

record health =
  hl_pid :: int
  hl_sessions :: int
  hl_ready :: bool
  hl_port :: int
  hl_dataplane :: string
  hl_agent_id :: string

definition marshal_health :: "health \<Rightarrow> string" where
  "marshal_health h = json_object
     [(''pid'', itoa (hl_pid h)), (''sessions'', itoa (hl_sessions h)), (''ready'', marshal_bool (hl_ready h)),
      (''port'', itoa (hl_port h)), (''dataplane'', quote (hl_dataplane h)), (''agent_id'', quote (hl_agent_id h))]"

record sock_response =
  rs_ok :: bool
  rs_error :: string
  rs_session :: "session_snapshot option"
  rs_health :: "health option"

text \<open>The answer line, without its newline.\<close>

definition marshal_sock_response :: "sock_response \<Rightarrow> string" where
  "marshal_sock_response r = json_object
     ([(''ok'', marshal_bool (rs_ok r))]
      @ omit_if (rs_error r = []) ''error'' (quote (rs_error r))
      @ (case rs_session r of None \<Rightarrow> [] | Some s \<Rightarrow> [(''session'', marshal_snapshot s)])
      @ (case rs_health r of None \<Rightarrow> [] | Some h \<Rightarrow> [(''health'', marshal_health h)]))"

definition error_response :: "string \<Rightarrow> sock_response" where
  "error_response e = \<lparr>rs_ok = False, rs_error = e, rs_session = None, rs_health = None\<rparr>"

definition ok_response :: "session_snapshot option \<Rightarrow> sock_response" where
  "ok_response s = \<lparr>rs_ok = True, rs_error = [], rs_session = s, rs_health = None\<rparr>"

section \<open>The server\<close>

text \<open>The secret, the process id, and the health as \<open>MarkReady\<close> left it.\<close>

record sock_server =
  sv_secret :: string
  sv_pid :: int
  sv_health :: health

definition unready_health :: health where
  "unready_health = \<lparr>hl_pid = 0, hl_sessions = 0, hl_ready = False, hl_port = 0, hl_dataplane = [], hl_agent_id = []\<rparr>"

definition serve_socket :: "string \<Rightarrow> int \<Rightarrow> sock_server result" where
  "serve_socket secret pid =
     (if secret = [] then Inl ''empty session socket secret''
      else Inr \<lparr>sv_secret = secret, sv_pid = pid, sv_health = unready_health\<rparr>)"

definition mark_ready :: "int \<Rightarrow> string \<Rightarrow> string \<Rightarrow> sock_server \<Rightarrow> sock_server" where
  "mark_ready port plane agent_name sv = sv\<lparr>sv_health := unready_health
     \<lparr>hl_ready := True, hl_port := port, hl_dataplane := plane, hl_agent_id := agent_name\<rparr>\<rparr>"

definition inspect_health :: "sock_server \<Rightarrow> registry \<Rightarrow> health" where
  "inspect_health sv reg = (sv_health sv)\<lparr>hl_pid := sv_pid sv, hl_sessions := int (length (snapshot reg))\<rparr>"

definition session_of_message :: "sock_message \<Rightarrow> int \<Rightarrow> session" where
  "session_of_message m now = \<lparr>se_handle = sm_handle m, se_spiffe_id = sm_spiffe_id m, se_svid = sm_svid m,
     se_blueprint = sm_blueprint m, se_agent_id = sm_agent_id m, se_ulid = sm_ulid m, se_expires_at = sm_expires_at m,
     se_session_id = sm_session_id m, se_issued_at = Some now, se_routes = sm_routes m, se_owner_pid = sm_owner_pid m,
     se_owner_managed = sm_owner_managed m, se_owner_identity = sm_owner_identity m\<rparr>"

text \<open>An accepted message: the answer, the registry, and the session handed to \<open>onUnregister\<close> before the answer.\<close>

definition apply_message :: "sock_server \<Rightarrow> int \<Rightarrow> sock_message \<Rightarrow> registry \<Rightarrow> sock_response \<times> registry \<times> session option" where
  "apply_message sv now m reg =
     (if sm_action m = action_health
      then (\<lparr>rs_ok = True, rs_error = [], rs_session = None, rs_health = Some (inspect_health sv reg)\<rparr>, reg, None)
      else if sm_action m = action_register
      then (ok_response None, register (session_of_message m now) reg, None)
      else if sm_action m = action_update_owner
      then (ok_response None, snd (set_owner (sm_handle m) (sm_owner_pid m) (sm_owner_managed m) (sm_owner_identity m) reg), None)
      else if sm_action m = action_unregister
      then (case take_session (sm_handle m) reg of
          (None, reg1) \<Rightarrow> (ok_response None, reg1, None)
        | (Some current, reg1) \<Rightarrow> (ok_response (Some (snapshot_session current)), reg1, Some current))
      else if sm_action m = action_lookup
      then (case lookup_session (sm_handle m) reg of
          None \<Rightarrow> (error_response ''session not found'', reg, None)
        | Some current \<Rightarrow> (ok_response (Some (snapshot_session current)), reg, None))
      else (error_response ''unknown action'', reg, None))"

text \<open>A decoded message, and a line.\<close>

definition answer_message :: "sock_server \<Rightarrow> int \<Rightarrow> sock_message \<Rightarrow> registry \<Rightarrow> sock_response \<times> registry \<times> session option" where
  "answer_message sv now m reg =
     (if sm_auth m \<noteq> sv_secret sv then (error_response ''unauthorized'', reg, None)
      else case validate_message m of
          Inl _ \<Rightarrow> (error_response ''invalid message'', reg, None)
        | Inr m1 \<Rightarrow> apply_message sv now m1 reg)"

definition handle_line :: "sock_server \<Rightarrow> int \<Rightarrow> string \<Rightarrow> registry \<Rightarrow> sock_response \<times> registry \<times> session option" where
  "handle_line sv now line reg =
     (case decode_message line of
        None \<Rightarrow> (error_response ''bad message'', reg, None)
      | Some m \<Rightarrow> answer_message sv now m reg)"

section \<open>The client\<close>

definition zero_snapshot :: session_snapshot where
  "zero_snapshot = \<lparr>sn_handle = [], sn_spiffe_id = [], sn_svid = [], sn_blueprint = [], sn_ulid = [], sn_agent_id = [],
     sn_expires_at = [], sn_session_id = [], sn_owner_pid = 0, sn_owner_managed = False, sn_owner_identity = []\<rparr>"

definition snapshot_fields :: "json \<Rightarrow> session_snapshot \<Rightarrow> session_snapshot result" where
  "snapshot_fields = decode_struct False
     [(''handle'', dec_string (\<lambda>v r. r\<lparr>sn_handle := v\<rparr>)), (''spiffe_id'', dec_string (\<lambda>v r. r\<lparr>sn_spiffe_id := v\<rparr>)),
      (''svid'', dec_string (\<lambda>v r. r\<lparr>sn_svid := v\<rparr>)), (''blueprint'', dec_string (\<lambda>v r. r\<lparr>sn_blueprint := v\<rparr>)),
      (''ulid'', dec_string (\<lambda>v r. r\<lparr>sn_ulid := v\<rparr>)), (''agent_id'', dec_string (\<lambda>v r. r\<lparr>sn_agent_id := v\<rparr>)),
      (''expires_at'', dec_string (\<lambda>v r. r\<lparr>sn_expires_at := v\<rparr>)), (''session_id'', dec_string (\<lambda>v r. r\<lparr>sn_session_id := v\<rparr>)),
      (''owner_pid'', dec_int (\<lambda>v r. r\<lparr>sn_owner_pid := v\<rparr>)), (''owner_managed'', dec_bool (\<lambda>v r. r\<lparr>sn_owner_managed := v\<rparr>)),
      (''owner_identity'', dec_string (\<lambda>v r. r\<lparr>sn_owner_identity := v\<rparr>))]"

definition health_fields :: "json \<Rightarrow> health \<Rightarrow> health result" where
  "health_fields = decode_struct False
     [(''pid'', dec_int (\<lambda>v r. r\<lparr>hl_pid := v\<rparr>)), (''sessions'', dec_int (\<lambda>v r. r\<lparr>hl_sessions := v\<rparr>)),
      (''ready'', dec_bool (\<lambda>v r. r\<lparr>hl_ready := v\<rparr>)), (''port'', dec_int (\<lambda>v r. r\<lparr>hl_port := v\<rparr>)),
      (''dataplane'', dec_string (\<lambda>v r. r\<lparr>hl_dataplane := v\<rparr>)), (''agent_id'', dec_string (\<lambda>v r. r\<lparr>hl_agent_id := v\<rparr>))]"

definition ack_fields :: "json \<Rightarrow> sock_response \<Rightarrow> sock_response result" where
  "ack_fields = decode_struct False
     [(''ok'', dec_bool (\<lambda>v r. r\<lparr>rs_ok := v\<rparr>)), (''error'', dec_string (\<lambda>v r. r\<lparr>rs_error := v\<rparr>)),
      (''session'', dec_pointer (\<lambda>v r. r\<lparr>rs_session := v\<rparr>) rs_session zero_snapshot snapshot_fields),
      (''health'', dec_pointer (\<lambda>v r. r\<lparr>rs_health := v\<rparr>) rs_health unready_health health_fields)]"

definition decode_ack :: "string \<Rightarrow> sock_response option" where
  "decode_ack line =
     (case parse_json line of None \<Rightarrow> None
      | Some j \<Rightarrow> (case ack_fields j (error_response []) of Inl _ \<Rightarrow> None | Inr r \<Rightarrow> Some r))"

text \<open>
  \<open>exchange\<close>: a transport delivers the marshalled message on a new connection to a daemon in some state,
  and yields the line it answers, or an error (no socket, a timeout, no answer).
\<close>

type_synonym 'd transport = "sock_message \<Rightarrow> 'd \<Rightarrow> string result \<times> 'd"

definition exchange :: "'d transport \<Rightarrow> sock_message \<Rightarrow> 'd \<Rightarrow> sock_response result \<times> 'd" where
  "exchange t m d =
     (case t m d of
        (Inl e, d1) \<Rightarrow> (Inl e, d1)
      | (Inr line, d1) \<Rightarrow>
          (case decode_ack line of
             None \<Rightarrow> (Inl ''bad ack'', d1)
           | Some r \<Rightarrow> if \<not> rs_ok r then (Inl (''daemon rejected: '' @ rs_error r), d1) else (Inr r, d1)))"

definition inspect_daemon :: "'d transport \<Rightarrow> string \<Rightarrow> 'd \<Rightarrow> health result \<times> 'd" where
  "inspect_daemon t auth d =
     (case exchange t (zero_message\<lparr>sm_auth := auth, sm_action := action_health\<rparr>) d of
        (Inl e, d1) \<Rightarrow> (Inl e, d1)
      | (Inr r, d1) \<Rightarrow>
          (case rs_health r of
             None \<Rightarrow> (Inl ''daemon does not support health inspection; restart it after upgrading'', d1)
           | Some h \<Rightarrow> if hl_pid h \<le> 0 \<or> hl_sessions h < 0
               then (Inl ''daemon does not support health inspection; restart it after upgrading'', d1) else (Inr h, d1)))"

section \<open>The secret\<close>

text \<open>
  One attempt of \<open>LoadOrCreateSecret\<close>: the file was created and written with 32 random bytes, creating
  failed otherwise than because it exists, or it exists and was read.
\<close>

datatype secret_attempt = Created string | Create_Fails string | Existing "string result"

definition hex_text :: "string \<Rightarrow> bool" where
  "hex_text s \<longleftrightarrow> even (length s) \<and> list_all is_hex s"

fun load_secret :: "secret_attempt list \<Rightarrow> nat \<Rightarrow> string result option" where
  "load_secret [] empty_reads = None"
| "load_secret (Created raw # _) empty_reads = Some (Inr (hex_encode raw))"
| "load_secret (Create_Fails e # _) empty_reads = Some (Inl e)"
| "load_secret (Existing (Inl e) # _) empty_reads = Some (Inl e)"
| "load_secret (Existing (Inr data) # attempts) empty_reads =
     (if trim_space data = [] then
        (if 20 \<le> Suc empty_reads then Some (Inl ''empty session auth secret'')
         else load_secret attempts (Suc empty_reads))
      else if \<not> hex_text (trim_space data) \<or> length (trim_space data) div 2 \<noteq> 32
      then Some (Inl ''invalid session auth secret'')
      else Some (Inr (trim_space data)))"

section \<open>What is registered\<close>

definition valid_session :: "session \<Rightarrow> bool" where
  "valid_session s \<longleftrightarrow> se_handle s \<noteq> [] \<and> int (length (se_handle s)) \<le> 4096 \<and> se_spiffe_id s \<noteq> [] \<and> se_svid s \<noteq> []
     \<and> int (length (se_svid s)) \<le> 1024 * 1024 \<and> (\<exists>rs. se_routes s = Some rs \<and> routes_ok rs)"

definition registry_valid :: "registry \<Rightarrow> bool" where
  "registry_valid reg \<longleftrightarrow> registry_ok reg \<and> (\<forall>s\<in>set (snapshot reg). valid_session s)"

lemma valid_message_session:
  assumes "validate_message m = Inr m1" and "sm_action m1 = action_register"
  shows "valid_session (session_of_message m1 now)"
  using assms
  by (auto simp: validate_message_def valid_session_def session_of_message_def action_register_def action_health_def
      action_update_owner_def action_unregister_def action_lookup_def split: if_splits option.splits sum.splits
      dest: validate_routes_ok)

lemma snapshot_assoc_set:
  "set (snapshot (assoc_set h s reg)) \<subseteq> insert s (set (snapshot reg))"
  using set_assoc_set_subset [of h s reg] by (auto simp: snapshot_def)

lemma registry_valid_assoc_set:
  "registry_valid reg \<Longrightarrow> valid_session s \<Longrightarrow> se_handle s = h \<Longrightarrow> registry_valid (assoc_set h s reg)"
  using snapshot_assoc_set [of h s reg] registry_ok_assoc_set [of reg s h] by (auto simp: registry_valid_def)

lemma registry_valid_unregister: "registry_valid reg \<Longrightarrow> registry_valid (unregister h reg)"
  using registry_ok_unregister [of reg h] by (auto simp: registry_valid_def snapshot_def unregister_def)

lemma registry_valid_look: "registry_valid reg \<Longrightarrow> lookup_session h reg = Some s \<Longrightarrow> valid_session s \<and> se_handle s = h"
  using registry_ok_look [of reg h s] by (auto simp: registry_valid_def snapshot_def lookup_session_def dest!: map_of_SomeD)

lemma registry_valid_set_owner: "registry_valid reg \<Longrightarrow> registry_valid (snd (set_owner h pid managed identity reg))"
proof (cases "lookup_session h reg")
  case None
  then show "registry_valid reg \<Longrightarrow> ?thesis" by (simp add: set_owner_def lookup_session_def)
next
  case (Some s)
  assume v: "registry_valid reg"
  from registry_valid_look [OF v Some]
  have "valid_session (s\<lparr>se_owner_pid := pid, se_owner_managed := managed, se_owner_identity := identity\<rparr>)"
    "se_handle (s\<lparr>se_owner_pid := pid, se_owner_managed := managed, se_owner_identity := identity\<rparr>) = h"
    by (auto simp: valid_session_def)
  from registry_valid_assoc_set [OF v this] Some show ?thesis by (simp add: set_owner_def lookup_session_def)
qed

lemma handle_line_cases:
  "handle_line sv now line reg = (r, reg1, gone) \<Longrightarrow>
     (reg1 = reg \<and> gone = None \<and> (\<exists>e. r = error_response e))
   \<or> (\<exists>m m1. decode_message line = Some m \<and> sm_auth m = sv_secret sv \<and> validate_message m = Inr m1
        \<and> apply_message sv now m1 reg = (r, reg1, gone))"
  by (auto simp: handle_line_def answer_message_def split: option.splits if_splits sum.splits)

lemma apply_message_valid:
  assumes "registry_valid reg" and "validate_message m = Inr m1" and "apply_message sv now m1 reg = (r, reg1, gone)"
  shows "registry_valid reg1"
proof (cases "sm_action m1 = action_register")
  case True
  from valid_message_session [OF assms(2) True] registry_valid_assoc_set [OF assms(1)] assms(3) True show ?thesis
    by (auto simp: apply_message_def register_def session_of_message_def action_register_def action_health_def)
next
  case False
  with assms(1,3) registry_valid_set_owner [OF assms(1)] registry_valid_unregister [OF assms(1)] show ?thesis
    by (auto simp: apply_message_def take_session_eq split: if_splits option.splits prod.splits)
qed

lemma handle_line_valid:
  "registry_valid reg \<Longrightarrow> handle_line sv now line reg = (r, reg1, gone) \<Longrightarrow> registry_valid reg1"
  using handle_line_cases [of sv now line reg r reg1 gone] apply_message_valid by blast

text \<open>A line changes the registry under one handle, and only a registration adds one.\<close>

lemma apply_message_look:
  assumes "apply_message sv now m reg = (r, reg1, gone)" and "lookup_session h reg = None" and "lookup_session h reg1 \<noteq> None"
  shows "sm_action m = action_register \<and> sm_handle m = h"
proof -
  have "lookup_session h (snd (set_owner k pid managed identity reg)) = None" for k pid managed identity
    using set_owner_look [of k pid managed identity reg "fst (set_owner k pid managed identity reg)"
      "snd (set_owner k pid managed identity reg)" h] assms(2) by auto
  with assms show ?thesis
    by (auto simp: apply_message_def take_session_eq registry.look_put registry.look_drop session_of_message_def
        split: if_splits option.splits prod.splits)
qed

section \<open>Properties\<close>

text \<open>
  C36. The socket does nothing without the secret: a line that is not a message carrying it changes
  nothing, hands over nothing, and is answered with one of two fixed errors without any data.
\<close>

theorem socket_authenticated:
  "(\<exists>m. decode_message line = Some m \<and> sm_auth m = sv_secret sv)
   \<or> handle_line sv now line reg \<in> {(error_response ''bad message'', reg, None), (error_response ''unauthorized'', reg, None)}"
  by (auto simp: handle_line_def answer_message_def split: option.split)

text \<open>
  C78. The secret is settled in at most twenty attempts: given that many, loading returns; if it
  returns a secret, this is the hexadecimal text of 32 bytes, the ones just drawn or the ones in the
  file, so it is never empty.
\<close>

theorem secret_settled:
  assumes "20 \<le> length attempts" and "\<forall>raw. Created raw \<in> set attempts \<longrightarrow> length raw = 32"
  shows "\<exists>r. load_secret attempts 0 = Some r \<and> (case r of Inl _ \<Rightarrow> True | Inr s \<Rightarrow> length s = 64 \<and> list_all is_hex s)"
proof -
  have hex: "length (hex_encode raw) = 2 * length raw \<and> list_all is_hex (hex_encode raw)" for raw
  proof
    show "length (hex_encode raw) = 2 * length raw" by (induction raw) (simp_all add: hex_encode_def)
    have "list_all (\<lambda>n. is_hex (hex_digit n)) [0..<16]" by code_simp
    then have "\<forall>n<16. is_hex (hex_digit n)" by (simp add: list_all_iff)
    then show "list_all is_hex (hex_encode raw)" using hex_encode_digits [of raw] by (auto simp: list_all_iff)
  qed
  have "\<exists>r. load_secret as n = Some r \<and> (case r of Inl _ \<Rightarrow> True | Inr s \<Rightarrow> length s = 64 \<and> list_all is_hex s)"
    if "20 \<le> length as + n" "n < 20" "\<forall>raw. Created raw \<in> set as \<longrightarrow> length raw = 32" for as n
    using that by (induction as n rule: load_secret.induct) (auto simp: hex hex_text_def elim!: evenE)
  from this [of attempts 0] assms show ?thesis by simp
qed

lemma secret_settled_witness:
  "\<exists>r. load_secret (Existing (Inr []) # Created (replicate 32 (CHR ''a'')) # replicate 18 (Existing (Inr []))) 0 = Some r
     \<and> (case r of Inl _ \<Rightarrow> True | Inr s \<Rightarrow> length s = 64 \<and> list_all is_hex s)"
  by (rule secret_settled) auto

end
