(* ===== verification/Session_Renew.thy ===== *)
theory Session_Renew
  imports Registry Strconv
begin

text \<open>
  \<^verbatim>\<open>internal/node/daemon/session_renew.go\<close> and \<^verbatim>\<open>internal/node/sessionstate/state.go\<close>: the
  background loop that keeps registered sessions alive, and the durable state beside the registry. What
  the loop decides for a session is \<open>poll_session\<close>; what it then does is \<open>renew_registered_session\<close> and
  \<open>retire_exited_session\<close>, which get the registry as it is when they reach it: other connections may
  have changed it since the session was read. Lemmas: no minted credential is left behind, a session
  that ended stays ended, only a session with a live verified owner is extended, renewal comes in time.
\<close>

section \<open>Durable state\<close>

record session_state =
  st_session_id :: string
  st_handle :: string
  st_ulid :: string
  st_spiffe_id :: string
  st_blueprint :: string
  st_expires_at :: string
  st_owner_pid :: int
  st_owner_managed :: bool
  st_owner_identity :: string
  st_kit :: string
  st_routes :: "runtime_routes option"

text \<open>The files of the \<open>sessions\<close> directory by name; a file is kept as the state it holds.\<close>

type_synonym durable = "(string \<times> session_state) list"

definition id_char :: "char \<Rightarrow> bool" where
  "id_char c \<longleftrightarrow> is_alnum c \<or> c \<in> set ''-_.''"

definition validate_id :: "string \<Rightarrow> unit result" where
  "validate_id sid = fail_if (sid = [] \<or> 128 < length sid \<or> \<not> list_all id_char sid \<or> sid = ''.'' \<or> sid = ''..'') ''invalid session id''"

definition state_file :: "string \<Rightarrow> string result" where
  "state_file sid = bind_result (validate_id sid) (\<lambda>_. Inr (sid @ ''.json''))"

text \<open>
  \<open>Save\<close> writes a temporary file and renames it: a fault before that leaves the old state, one after it
  (the last \<open>Chmod\<close>) is reported though the new state is there.
\<close>

datatype save_fault = Before_Rename string | After_Rename string

definition save_state :: "save_fault option \<Rightarrow> session_state \<Rightarrow> durable \<Rightarrow> unit result \<times> durable" where
  "save_state fault st d =
     (case state_file (st_session_id st) of
        Inl e \<Rightarrow> (Inl e, d)
      | Inr name \<Rightarrow> (case fault of
              Some (Before_Rename e) \<Rightarrow> (Inl e, d)
            | Some (After_Rename e) \<Rightarrow> (Inl e, assoc_set name st d)
            | None \<Rightarrow> (Inr (), assoc_set name st d)))"

definition load_state :: "string \<Rightarrow> durable \<Rightarrow> session_state result" where
  "load_state sid d =
     bind_result (state_file sid) (\<lambda>name.
       case map_of d name of
         None \<Rightarrow> Inl ''no such file''
       | Some st \<Rightarrow> if st_session_id st \<noteq> sid then Inl ''session state id mismatch'' else Inr st)"

text \<open>\<open>Remove\<close>; the caller ignores a missing file.\<close>

definition remove_state :: "string option \<Rightarrow> string \<Rightarrow> durable \<Rightarrow> unit result \<times> durable" where
  "remove_state fault sid d =
     (case state_file sid of
        Inl e \<Rightarrow> (Inl e, d)
      | Inr name \<Rightarrow> (case fault of Some e \<Rightarrow> (Inl e, d) | None \<Rightarrow> (Inr (), filter (\<lambda>(k, _). k \<noteq> name) d)))"

section \<open>When a session is due\<close>

definition session_renew_poll_interval :: int where "session_renew_poll_interval = 30 * second"
definition session_renew_window :: int where "session_renew_window = 5 * minute"
definition session_renew_timeout :: int where "session_renew_timeout = 20 * second"

definition renew_window_of :: "session \<Rightarrow> int \<Rightarrow> int" where
  "renew_window_of s expires_at =
     (let w0 = session_renew_window;
          w1 = (case se_issued_at s of
                  None \<Rightarrow> w0
                | Some i \<Rightarrow> if i < expires_at \<and> (expires_at - i) div 3 < w0 then (expires_at - i) div 3 else w0)
      in if w1 < 10 * second then 10 * second else w1)"

definition session_renewal_due :: "session \<Rightarrow> int \<Rightarrow> bool" where
  "session_renewal_due s now =
     (case parse_rfc3339 (se_expires_at s) of
        None \<Rightarrow> True
      | Some expires_at \<Rightarrow> \<not> now + renew_window_of s expires_at < expires_at)"

section \<open>What a poll decides\<close>

datatype poll_action = Leave | Renew | Retire

text \<open>When each handle's owner was first seen dead.\<close>

type_synonym dead_owners = "(string \<times> int) list"

definition forget_owner :: "string \<Rightarrow> dead_owners \<Rightarrow> dead_owners" where
  "forget_owner h = filter (\<lambda>(k, _). k \<noteq> h)"

definition renew_if_due :: "session \<Rightarrow> int \<Rightarrow> poll_action" where
  "renew_if_due s now = (if session_renewal_due s now then Renew else Leave)"

definition poll_session ::
  "(int \<Rightarrow> string \<Rightarrow> bool result) \<Rightarrow> int \<Rightarrow> session \<Rightarrow> dead_owners \<Rightarrow> poll_action \<times> dead_owners" where
  "poll_session owner_matches now s dead =
     (if \<not> se_owner_managed s then (renew_if_due s now, dead)
      else if se_owner_pid s \<le> 0 \<or> se_owner_identity s = [] then (Leave, dead)
      else case owner_matches (se_owner_pid s) (se_owner_identity s) of
          Inl e \<Rightarrow> (Leave, dead)
        | Inr True \<Rightarrow> (renew_if_due s now, forget_owner (se_handle s) dead)
        | Inr False \<Rightarrow>
            (case map_of dead (se_handle s) of
               None \<Rightarrow> (Leave, (se_handle s, now) # dead)
             | Some first_seen \<Rightarrow>
                 if now - first_seen < session_renew_poll_interval then (Leave, dead)
                 else (Retire, forget_owner (se_handle s) dead)))"

text \<open>One tick: a decision per session of the snapshot, and the observations that stay.\<close>

fun poll_sessions ::
  "(int \<Rightarrow> string \<Rightarrow> bool result) \<Rightarrow> int \<Rightarrow> session list \<Rightarrow> dead_owners \<Rightarrow> (session \<times> poll_action) list \<times> dead_owners" where
  "poll_sessions owner_matches now [] dead = ([], dead)"
| "poll_sessions owner_matches now (s # ss) dead =
     (case poll_session owner_matches now s dead of (a, dead1) \<Rightarrow>
        (case poll_sessions owner_matches now ss dead1 of (rest, dead2) \<Rightarrow> ((s, a) # rest, dead2)))"

definition renewal_tick ::
  "(int \<Rightarrow> string \<Rightarrow> bool result) \<Rightarrow> int \<Rightarrow> registry \<Rightarrow> dead_owners \<Rightarrow> (session \<times> poll_action) list \<times> dead_owners" where
  "renewal_tick owner_matches now reg dead =
     (case poll_sessions owner_matches now (snapshot reg) dead of (acts, dead1) \<Rightarrow>
        (acts, filter (\<lambda>(h, _). h \<in> set (map se_handle (snapshot reg))) dead1))"

section \<open>Renewing and retiring\<close>

definition renewal_agent :: "session \<Rightarrow> string" where
  "renewal_agent s = (if se_agent_id s = [] then se_blueprint s else se_agent_id s)"

text \<open>SHA-256 is a parameter.\<close>

definition renewal_idempotency_key :: "(string \<Rightarrow> string) \<Rightarrow> session \<Rightarrow> string" where
  "renewal_idempotency_key sha256 s = ''renew-'' @ se_ulid s @ ''-'' @ hex_encode (take 8 (sha256 (se_handle s)))"

definition renewal_input :: "(string \<Rightarrow> string) \<Rightarrow> session \<Rightarrow> create_kit_session_input" where
  "renewal_input sha256 s = \<lparr>ci_agent_id = renewal_agent s, ci_session_handle = se_handle s,
     ci_idempotency_key = renewal_idempotency_key sha256 s, ci_agent_runtime = [], ci_replaces_session_id = se_ulid s\<rparr>"

definition renewed_session :: "session \<Rightarrow> kit_session \<Rightarrow> runtime_routes \<Rightarrow> int \<Rightarrow> session" where
  "renewed_session current renewed rs now =
     current\<lparr>se_spiffe_id := ks_spiffe_id renewed, se_svid := ks_kit renewed, se_ulid := ks_session_id renewed,
       se_expires_at := ks_expires_at renewed, se_issued_at := Some now, se_routes := Some rs\<rparr>"

definition persist_renewed ::
  "save_fault option \<Rightarrow> session \<Rightarrow> kit_session \<Rightarrow> runtime_routes \<Rightarrow> durable \<Rightarrow> unit result \<times> durable" where
  "persist_renewed fault current renewed rs d =
     (if se_session_id current = [] then (Inr (), d)
      else save_state fault
        \<lparr>st_session_id = se_session_id current, st_handle = se_handle current, st_ulid = ks_session_id renewed,
         st_spiffe_id = ks_spiffe_id renewed, st_blueprint = se_blueprint current, st_expires_at = ks_expires_at renewed,
         st_owner_pid = se_owner_pid current, st_owner_managed = se_owner_managed current,
         st_owner_identity = se_owner_identity current, st_kit = ks_kit renewed, st_routes = Some rs\<rparr> d)"

text \<open>
  \<open>renewRegisteredSession\<close>: \<open>current\<close> is the session as read at the tick, \<open>reg\<close> and \<open>d\<close> are the
  registry and the files when the swap is reached. Revocations outlive the call's context.
\<close>

definition renew_registered_session ::
  "(string \<Rightarrow> string) \<Rightarrow> save_fault option \<Rightarrow> ctx \<Rightarrow> string \<Rightarrow> session \<Rightarrow> registry \<Rightarrow> durable \<Rightarrow> world
     \<Rightarrow> unit result \<times> registry \<times> durable \<times> world"
where
  "renew_registered_session sha256 fault c base current reg d w =
     (if renewal_agent current = [] \<or> se_handle current = [] \<or> se_ulid current = []
      then (Inl ''registered session is missing renewal identity'', reg, d, w)
      else case create_kit_session c base (renewal_input sha256 current) w of
        (Inl e, w1) \<Rightarrow> (Inl e, reg, d, w1)
      | (Inr renewed, w1) \<Rightarrow>
        (case fetch_runtime_routes c base (ks_kit renewed) w1 of
           (Inl e, w2) \<Rightarrow> (Inl (''fetch renewed runtime routes: '' @ e), reg, d,
             snd (revoke_kit_session None base (ks_session_id renewed) w2))
         | (Inr rs, w2) \<Rightarrow>
           if agent_id (agent rs) \<noteq> renewal_agent current
           then (Inl ''renewed runtime routes agent does not match the session'', reg, d,
             snd (revoke_kit_session None base (ks_session_id renewed) w2))
           else (case replace_with (se_handle current) (se_ulid current) (renewed_session current renewed rs (wd_now w2))
                   (Some (persist_renewed fault current renewed rs)) reg d of
             ((replaced, persisted), reg1, d1) \<Rightarrow>
               if \<not> replaced then
                 (case revoke_kit_session None base (ks_session_id renewed) w2 of
                    (Inl e, w3) \<Rightarrow> (Inl (''session ended during renewal; revoke replacement: '' @ e), reg1, d1, w3)
                  | (Inr _, w3) \<Rightarrow> (Inr (), reg1, d1, w3))
               else (wrap_error ''persist renewed session: '' persisted, reg1, d1, w2))))"

text \<open>\<open>retireExitedSession\<close>: the sessions handed to \<open>onUnregister\<close> come last in the result.\<close>

definition retire_exited_session ::
  "string option \<Rightarrow> ctx \<Rightarrow> string \<Rightarrow> session \<Rightarrow> registry \<Rightarrow> durable \<Rightarrow> world \<Rightarrow> unit result \<times> registry \<times> durable \<times> world \<times> session list" where
  "retire_exited_session fault c base snap reg d w =
     (case take_session (se_handle snap) reg of
        (None, reg1) \<Rightarrow> (Inr (), reg1, d, w, [])
      | (Some current, reg1) \<Rightarrow>
          (case revoke_kit_session c base (se_ulid current) w of
             (Inl e, w1) \<Rightarrow> (Inl (''revoke current KIT: '' @ e), reg1, d, w1, [current])
           | (Inr _, w1) \<Rightarrow>
               if se_session_id current = [] then (Inr (), reg1, d, w1, [current])
               else (case remove_state fault (se_session_id current) d of
                 (r, d1) \<Rightarrow> (wrap_error ''remove durable session state: '' r, reg1, d1, w1, [current]))))"

section \<open>What the calls did\<close>

definition revocation :: "string \<Rightarrow> http_request \<Rightarrow> bool" where
  "revocation ulid rq \<longleftrightarrow> hq_method rq = ''POST'' \<and> u_path (hq_url rq) = ''/runtime/sessions/'' @ ulid @ ''/revoke''"

definition minted :: "kit_session \<Rightarrow> bool" where
  "minted ks \<longleftrightarrow> ulid_pattern (ks_session_id ks) \<and> has_prefix (ks_spiffe_id ks) ''spiffe://'' \<and> ks_kit ks \<noteq> []
     \<and> int (length (ks_kit ks)) \<le> 1024 * 1024"

lemma create_session_ok:
  assumes "create_kit_session c base i w = (Inr ks, w1)"
  shows "minted ks" and "is_ok (base_url (wd_allow_insecure w) base)" and "wd_allow_insecure w1 = wd_allow_insecure w"
proof -
  from assms have "evolves (trusted_request (wd_allow_insecure w) base ''/runtime/'') w w1"
    using safe_create_session [of w base c i] by (simp add: safe_io_def)
  then show "wd_allow_insecure w1 = wd_allow_insecure w" using evolves_env by blast
  show "minted ks" "is_ok (base_url (wd_allow_insecure w) base)"
    using assms unfolding create_kit_session_def
    by (auto simp: minted_def io_lift_def runtime_session_url_def is_ok_iff split: if_splits elim!: io_bind_cases
        dest!: decode_kit_session_ok)
qed

lemma revoke_sends:
  assumes "ulid_pattern ulid" and "is_ok (base_url (wd_allow_insecure w) base)"
    and "\<not> ctx_done c (wd_now w)" and "revoke_kit_session c base ulid w = (r, w1)"
  shows "\<exists>rq. wd_sent w1 = wd_sent w @ [rq] \<and> revocation ulid rq"
proof -
  from assms(2) obtain b where b: "base_url (wd_allow_insecure w) base = Inr b" by (auto simp: is_ok_iff)
  define rq where "rq = \<lparr>hq_method = ''POST'', hq_url = b\<lparr>u_path := ''/runtime/sessions/'' @ ulid @ ''/revoke'',
    u_raw_path := ''/runtime/sessions/'' @ ulid @ ''/revoke'', u_raw_query := [], u_fragment := []\<rparr>, hq_headers = [], hq_body = []\<rparr>"
  obtain x w2 where do: "client_do c rq w = (x, w2)" by (cases "client_do c rq w")
  have "wd_sent w2 = wd_sent w @ [rq]"
    using do assms(3) by (auto simp: client_do_def Let_def split: reply.splits if_splits)
  moreover have "w1 = w2"
    using assms(1,4) b do
    by (auto simp: revoke_kit_session_def io_bind_def io_lift_def runtime_session_url_def rq_def split: sum.splits prod.splits)
  moreover have "revocation ulid rq" by (simp add: revocation_def rq_def)
  ultimately show ?thesis by blast
qed

lemma fetch_routes_ok:
  assumes "fetch_runtime_routes c base token w = (r, w1)"
  shows "wd_allow_insecure w1 = wd_allow_insecure w" and "r = Inr rs \<Longrightarrow> routes_ok rs"
proof -
  from assms have "evolves (trusted_request (wd_allow_insecure w) base ''/v1/runtime/'') w w1"
    using safe_fetch_routes [of w base c token] by (simp add: safe_io_def)
  then show "wd_allow_insecure w1 = wd_allow_insecure w" using evolves_env by blast
  show "r = Inr rs \<Longrightarrow> routes_ok rs"
    using assms unfolding fetch_runtime_routes_def
    by (auto simp: io_lift_def split: if_splits elim!: io_bind_cases dest!: decode_runtime_routes_ok)
qed

lemma replace_with_look:
  "replace_with h ulid next persist reg d = ((replaced, e), reg1, d1) \<Longrightarrow>
     replaced = (map_option se_ulid (lookup_session h reg) = Some ulid)
     \<and> (if replaced then reg1 = assoc_set h next reg else reg1 = reg \<and> d1 = d)"
  by (auto simp: replace_with_def lookup_session_def map_of_assoc_set split: option.splits if_splits prod.splits)

text \<open>The ways a renewal ends once a credential was minted.\<close>

lemma renew_cases:
  assumes "create_kit_session c base (renewal_input sha256 current) w = (Inr renewed, w1)"
    and "renewal_agent current \<noteq> []" and "se_handle current \<noteq> []" and "se_ulid current \<noteq> []"
    and "renew_registered_session sha256 fault c base current reg d w = (r, reg1, d1, w')"
  obtains (Revoked) w2 x where "revoke_kit_session None base (ks_session_id renewed) w2 = (x, w')"
      and "wd_allow_insecure w2 = wd_allow_insecure w" and "reg1 = reg" and "d1 = d"
  | (Replaced) rs now where "routes_ok rs" and "agent_id (agent rs) = renewal_agent current"
      and "map_option se_ulid (lookup_session (se_handle current) reg) = Some (se_ulid current)"
      and "reg1 = assoc_set (se_handle current) (renewed_session current renewed rs now) reg"
proof (cases "fetch_runtime_routes c base (ks_kit renewed) w1")
  case (Pair x w2)
  have env: "wd_allow_insecure w2 = wd_allow_insecure w"
    using fetch_routes_ok(1) [OF Pair] create_session_ok(3) [OF assms(1)] by simp
  obtain y w3 where rev: "revoke_kit_session None base (ks_session_id renewed) w2 = (y, w3)"
    by (cases "revoke_kit_session None base (ks_session_id renewed) w2")
  show thesis
  proof (cases x)
    case (Inl e)
    with Pair assms rev have "w' = w3" "reg1 = reg" "d1 = d" by (simp_all add: renew_registered_session_def)
    with Revoked rev env show thesis by blast
  next
    case (Inr rs)
    obtain replaced pe reg2 d2 where swap: "replace_with (se_handle current) (se_ulid current)
        (renewed_session current renewed rs (wd_now w2)) (Some (persist_renewed fault current renewed rs)) reg d
        = ((replaced, pe), reg2, d2)" by (metis surj_pair)
    show thesis
    proof (cases "agent_id (agent rs) = renewal_agent current \<and> replaced")
      case True
      with Pair Inr assms swap have "reg1 = reg2" by (simp add: renew_registered_session_def)
      with True replace_with_look [OF swap] fetch_routes_ok(2) [OF Pair Inr] show thesis by (intro Replaced) auto
    next
      case False
      with Pair Inr assms swap rev replace_with_look [OF swap]
      have "w' = w3" "reg1 = reg" "d1 = d"
        by (auto simp: renew_registered_session_def split: if_splits sum.splits)
      with Revoked rev env show thesis by blast
    qed
  qed
qed

lemma renew_without_mint:
  assumes "renew_registered_session sha256 fault c base current reg d w = (r, reg1, d1, w')"
    and "\<And>renewed w1. create_kit_session c base (renewal_input sha256 current) w \<noteq> (Inr renewed, w1)
      \<or> renewal_agent current = [] \<or> se_handle current = [] \<or> se_ulid current = []"
  shows "reg1 = reg \<and> d1 = d"
proof (cases "renewal_agent current = [] \<or> se_handle current = [] \<or> se_ulid current = []")
  case True
  with assms(1) show ?thesis by (auto simp: renew_registered_session_def)
next
  case False
  with assms(2) obtain e w1 where "create_kit_session c base (renewal_input sha256 current) w = (Inl e, w1)"
    by (metis sum.exhaust surj_pair)
  with False assms(1) show ?thesis by (simp add: renew_registered_session_def)
qed

text \<open>What a renewal can do to the registry.\<close>

lemma renew_effect:
  assumes run: "renew_registered_session sha256 fault c base current reg d w = (r, reg1, d1, w')"
  shows "(reg1 = reg \<and> d1 = d)
    \<or> (\<exists>live (renewed :: kit_session) rs now. lookup_session (se_handle current) reg = Some live \<and> se_ulid live = se_ulid current
        \<and> routes_ok rs \<and> agent_id (agent rs) = renewal_agent current \<and> minted renewed
        \<and> reg1 = assoc_set (se_handle current) (renewed_session current renewed rs now) reg)"
proof (cases "\<exists>renewed w1. create_kit_session c base (renewal_input sha256 current) w = (Inr renewed, w1)
    \<and> renewal_agent current \<noteq> [] \<and> se_handle current \<noteq> [] \<and> se_ulid current \<noteq> []")
  case False
  with renew_without_mint [OF run] show ?thesis by auto
next
  case True
  then obtain renewed w1 where mint: "create_kit_session c base (renewal_input sha256 current) w = (Inr renewed, w1)"
    and id: "renewal_agent current \<noteq> []" "se_handle current \<noteq> []" "se_ulid current \<noteq> []" by blast
  from mint id run show ?thesis
  proof (cases rule: renew_cases)
    case (Revoked w2 x)
    then show ?thesis by simp
  next
    case (Replaced rs now)
    with create_session_ok(1) [OF mint] show ?thesis by auto
  qed
qed

section \<open>Timing\<close>

lemma renew_window_bounds:
  "se_issued_at s = Some i \<Longrightarrow> 90 * second \<le> expires_at - i \<Longrightarrow>
     30 * second \<le> renew_window_of s expires_at \<and> renew_window_of s expires_at \<le> session_renew_window
     \<and> renew_window_of s expires_at \<le> expires_at - i"
  by (auto simp: renew_window_of_def Let_def session_renew_window_def minute_def second_def)

section \<open>Properties\<close>

text \<open>
  C38. A renewal changes nothing but the session it renews, and never brings one back: whatever happened
  to the registry since the session was read, every lookup afterwards is as before, or the handle still
  had the ULID that was read and now has the replacement, with validated routes of the same agent and
  with everything else, the owner included, as it was read at the tick (an owner set in between is lost).
\<close>

theorem renewal_swaps_or_leaves:
  "case renew_registered_session sha256 fault c base current reg d w of
     (r, reg1, d1, w') \<Rightarrow> (reg1 = reg \<and> d1 = d)
       \<or> (\<exists>live (renewed :: kit_session) rs now. lookup_session (se_handle current) reg = Some live \<and> se_ulid live = se_ulid current
          \<and> routes_ok rs \<and> agent_id (agent rs) = renewal_agent current
          \<and> (\<lambda>h. lookup_session h reg1) = (\<lambda>h. lookup_session h reg)(se_handle current \<mapsto> renewed_session current renewed rs now))"
proof -
  obtain r reg1 d1 w' where run: "renew_registered_session sha256 fault c base current reg d w = (r, reg1, d1, w')"
    by (metis surj_pair)
  have upd: "(\<lambda>h. lookup_session h (assoc_set k s reg)) = (\<lambda>h. lookup_session h reg)(k \<mapsto> s)" for k s
    by (auto simp: lookup_session_def map_of_assoc_set)
  from renew_effect [OF run] run show ?thesis by (fastforce simp: upd)
qed

text \<open>
  C15. No minted credential is left behind: once the control plane has created the replacement session,
  the registry holds exactly it under the handle, or the very last request of the renewal is the
  revocation of it.
\<close>

theorem minted_session_not_leaked:
  assumes "create_kit_session c base (renewal_input sha256 current) w = (Inr renewed, w1)"
    and "renewal_agent current \<noteq> []" and "se_handle current \<noteq> []" and "se_ulid current \<noteq> []"
    and "renew_registered_session sha256 fault c base current reg d w = (r, reg1, d1, w')"
  shows "(\<exists>s. lookup_session (se_handle current) reg1 = Some s \<and> se_ulid s = ks_session_id renewed \<and> se_svid s = ks_kit renewed)
    \<or> (wd_sent w' \<noteq> [] \<and> revocation (ks_session_id renewed) (last (wd_sent w')))"
  using assms
proof (cases rule: renew_cases)
  case (Revoked w2 x)
  have "ulid_pattern (ks_session_id renewed)" "is_ok (base_url (wd_allow_insecure w2) base)"
    using create_session_ok [OF assms(1)] Revoked(2) by (auto simp: minted_def)
  from revoke_sends [OF this _ Revoked(1)] show ?thesis by (auto simp: ctx_done_def)
next
  case (Replaced rs now)
  then show ?thesis by (simp add: renewed_session_def lookup_session_def map_of_assoc_set)
qed

definition minting_world :: world where
  "minting_world = \<lparr>wd_now = 0, wd_calls = 0,
     wd_reply = (\<lambda>n. if n = 0 then Reply 1 200 (Inr (json_object [(''schema_version'', ''1''),
         (''session_id'', json_q (replicate 26 (CHR ''0''))),
         (''kit'', json_object [(''kit_format'', json_q ''jwt_svid''), (''spiffe_id'', json_q ''spiffe://a''),
            (''token'', json_q ''k''), (''expires_at'', json_q ''2000-03-01T01:00:00Z'')])]))
       else Net_Error 1 ''down''),
     wd_sent = [], wd_allow_insecure = False, wd_draws = 0, wd_random = (\<lambda>_. None)\<rparr>"

definition registered :: session where
  "registered = (snd (hd twins))\<lparr>se_ulid := replicate 26 (CHR ''1'')\<rparr>"

lemma minted_session_not_leaked_witness:
  "\<exists>r reg1 d1 w' (renewed :: kit_session). renew_registered_session (\<lambda>s. s) None None ''https://x.io'' registered [] [] minting_world = (r, reg1, d1, w')
     \<and> ((\<exists>s. lookup_session ''a'' reg1 = Some s \<and> se_svid s = ks_kit renewed) \<or> revocation (ks_session_id renewed) (last (wd_sent w')))"
proof -
  have "is_ok (fst (create_kit_session None ''https://x.io'' (renewal_input (\<lambda>s. s) registered) minting_world))" by code_simp
  then obtain renewed w1 where c: "create_kit_session None ''https://x.io'' (renewal_input (\<lambda>s. s) registered) minting_world = (Inr renewed, w1)"
    by (cases "create_kit_session None ''https://x.io'' (renewal_input (\<lambda>s. s) registered) minting_world") (auto simp: is_ok_iff)
  have n: "renewal_agent registered \<noteq> []" "se_handle registered \<noteq> []" "se_ulid registered \<noteq> []" "se_handle registered = ''a''"
    by (simp_all add: registered_def twins_def renewal_agent_def)
  obtain r reg1 d1 w' where run: "renew_registered_session (\<lambda>s. s) None None ''https://x.io'' registered [] [] minting_world = (r, reg1, d1, w')"
    by (metis surj_pair)
  from minted_session_not_leaked [OF c n(1-3) run] n(4)
  have "(\<exists>s. lookup_session ''a'' reg1 = Some s \<and> se_svid s = ks_kit renewed)
    \<or> revocation (ks_session_id renewed) (last (wd_sent w'))" by auto
  with run show ?thesis
    by (intro exI [of _ r] exI [of _ reg1] exI [of _ d1] exI [of _ w'] exI [of _ renewed] conjI)
qed



text \<open>
  C35. Renewal comes in time: for a session that lives at least 90 seconds, with the loop's tick every 30
  seconds, there is a tick at which the session is due and has not expired, at most five minutes before its end.
  (A shorter lifetime gives a window shorter than the poll interval, and the session may expire unrenewed.)
\<close>

theorem renewal_polled_in_time:
  assumes "parse_rfc3339 (se_expires_at s) = Some expires_at" and "se_issued_at s = Some i"
    and "90 * second \<le> expires_at - i" and "tick 0 \<le> i" and "\<And>k. tick (Suc k) = tick k + 30 * second"
  shows "\<exists>k. i \<le> tick k \<and> tick k < expires_at \<and> session_renewal_due s (tick k)
    \<and> expires_at - tick k \<le> 5 * minute"
proof -
  define w where "w = renew_window_of s expires_at"
  have w: "30 * second \<le> w" "w \<le> 5 * minute" "w \<le> expires_at - i"
    using renew_window_bounds [OF assms(2,3)] by (simp_all add: w_def session_renew_window_def)
  have tick: "tick k = tick 0 + int k * (30 * second)" for k
    by (induction k) (simp_all add: assms(5) algebra_simps)
  define k where "k = nat ((expires_at - w - tick 0 + 30 * second - 1) div (30 * second))"
  have pos: "0 < 30 * second" "0 \<le> expires_at - w - tick 0" using w(3) assms(4) by simp_all
  have k: "int k = (expires_at - w - tick 0 + 30 * second - 1) div (30 * second)"
  proof -
    have "0 \<le> expires_at - w - tick 0 + 30 * second - 1" using pos by linarith
    then have "0 \<le> (expires_at - w - tick 0 + 30 * second - 1) div (30 * second)" using pos(1) by (simp only: pos_imp_zdiv_nonneg_iff)
    then show ?thesis by (simp add: k_def)
  qed
  have "(expires_at - w - tick 0 + 30 * second - 1) div (30 * second) * (30 * second)
      + (expires_at - w - tick 0 + 30 * second - 1) mod (30 * second) = expires_at - w - tick 0 + 30 * second - 1"
    by (rule div_mult_mod_eq)
  moreover have "0 \<le> (expires_at - w - tick 0 + 30 * second - 1) mod (30 * second)"
    "(expires_at - w - tick 0 + 30 * second - 1) mod (30 * second) < 30 * second"
    using pos(1) by (auto intro: pos_mod_sign pos_mod_bound)
  ultimately have "expires_at - w \<le> tick k" "tick k \<le> expires_at - w + 30 * second - 1"
    unfolding tick [of k] k by linarith+
  moreover have "session_renewal_due s (tick k)" if "expires_at - w \<le> tick k"
    using that by (simp add: session_renewal_due_def assms(1) w_def)
  ultimately show ?thesis using w by (intro exI [of _ k]) auto
qed

lemma renewal_polled_in_time_witness:
  "\<exists>k. session_renewal_due (registered\<lparr>se_expires_at := ''1970-01-01T01:00:00Z'', se_issued_at := Some 0\<rparr>) (int k * (30 * second))"
proof -
  let ?s = "registered\<lparr>se_expires_at := ''1970-01-01T01:00:00Z'', se_issued_at := Some 0\<rparr>"
  have p: "parse_rfc3339 ''1970-01-01T01:00:00Z'' = Some (3600 * second)" by code_simp
  have "parse_rfc3339 (se_expires_at ?s) = Some (3600 * second)" "se_issued_at ?s = Some 0" "90 * second \<le> 3600 * second - 0"
    by (simp_all add: p second_def)
  from renewal_polled_in_time [OF this, of "\<lambda>k. int k * (30 * second)"] show ?thesis
    by (auto simp: algebra_simps)
qed

text \<open>
  C81. An exited session stays retired, and the credential revoked is the current one: after
  \<open>retireExitedSession\<close> the handle is gone and every other one is as before, whatever the control plane
  answers; if there was a session, its usage is handed over and, where its ULID is valid and the URL trusted, the
  request sent is the revocation of what the registry held (not of the snapshot); the durable state goes only
  after a confirmed revocation.
\<close>

theorem retired_session_gone:
  "case retire_exited_session fault c base snap reg d w of
     (r, reg1, d1, w', flushed) \<Rightarrow>
       (\<lambda>h. lookup_session h reg1) = (\<lambda>h. lookup_session h reg)(se_handle snap := None)
       \<and> (case lookup_session (se_handle snap) reg of
            None \<Rightarrow> flushed = [] \<and> w' = w \<and> d1 = d
          | Some live \<Rightarrow> flushed = [live]
              \<and> (d1 = d \<or> (d1 = snd (remove_state fault (se_session_id live) d)
                  \<and> fst (revoke_kit_session c base (se_ulid live) w) = Inr ()))
              \<and> w' = snd (revoke_kit_session c base (se_ulid live) w))"
proof (cases "lookup_session (se_handle snap) reg")
  case None
  have "(\<lambda>h. lookup_session h reg) = (\<lambda>h. lookup_session h reg)(se_handle snap := None)" using None by auto
  with None show ?thesis by (simp add: retire_exited_session_def take_session_eq)
next
  case (Some live)
  have "(\<lambda>h. lookup_session h (unregister (se_handle snap) reg)) = (\<lambda>h. lookup_session h reg)(se_handle snap := None)"
    by (auto simp: registry.look_drop)
  with Some show ?thesis
    by (auto simp: retire_exited_session_def take_session_eq split: prod.split sum.split)
qed

text \<open>
  C35. A session id never leaves its directory: the file of an accepted id has no separator and is not a
  dot name, two ids never share a file, loading what was saved under an id gives it back, and loading never
  gives the state of another id.
\<close>

theorem state_files_confined:
  assumes "state_file sid = Inr name"
  shows "CHR ''/'' \<notin> set name \<and> CHR 0x5C \<notin> set name \<and> CHR 0x00 \<notin> set name \<and> name \<noteq> ''.'' \<and> name \<noteq> ''..''
    \<and> length name \<le> 133 \<and> (state_file sid' = Inr name) = (sid' = sid)
    \<and> (save_state None st d = (Inr (), d1) \<longrightarrow> st_session_id st = sid \<longrightarrow> load_state sid d1 = Inr st)
    \<and> (load_state sid d = Inr st' \<longrightarrow> st_session_id st' = sid)"
proof -
  have sid: "name = sid @ ''.json''" "sid \<noteq> []" "length sid \<le> 128" "list_all id_char sid"
    using assms by (auto simp: state_file_def validate_id_def)
  have "id_char c \<Longrightarrow> c \<noteq> CHR ''/'' \<and> c \<noteq> CHR 0x5C \<and> c \<noteq> CHR 0x00" for c
    by (auto simp: id_char_def is_alnum_def is_lower_def is_upper_def is_digit_def byte_def)
  with sid(4) have "CHR ''/'' \<notin> set sid" "CHR 0x5C \<notin> set sid" "CHR 0x00 \<notin> set sid" by (auto simp: list_all_iff)
  moreover have "(state_file sid' = Inr name) = (sid' = sid)"
    using assms by (auto simp: state_file_def)
  moreover have "save_state None st d = (Inr (), d1) \<Longrightarrow> st_session_id st = sid \<Longrightarrow> load_state sid d1 = Inr st"
    using assms by (auto simp: save_state_def load_state_def map_of_assoc_set)
  moreover have "load_state sid d = Inr st' \<Longrightarrow> st_session_id st' = sid"
    by (auto simp: load_state_def split: option.splits if_splits)
  ultimately show ?thesis using sid by (cases sid) auto
qed

lemma state_files_confined_witness: "state_file ''a.b'' = Inr ''a.b.json'' \<and> CHR ''/'' \<notin> set ''a.b.json''"
proof -
  have s: "state_file ''a.b'' = Inr ''a.b.json''" by code_simp
  from state_files_confined [OF s] s show ?thesis by simp
qed

end
