(* ===== verification/Session_Life.thy ===== *)
theory Session_Life
  imports Session_Sock Session_Renew
begin

text \<open>
  The life of a session across the socket (\<^verbatim>\<open>sessionsock.go\<close>) and the renewal loop
  (\<^verbatim>\<open>session_renew.go\<close>): both work on one registry, and the loop acts on sessions it read
  earlier. The step relation interleaves lines answered by the socket, polls, renewals and retirements in
  any order; a renewal or a retirement may concern any session that any earlier poll has read. Lemmas: every
  reachable registry is well formed, and a session is there only by an authenticated registration that
  nothing has ended since.
\<close>

section \<open>Steps\<close>

text \<open>The registry, the durable states, and the sessions that polls have read.\<close>

record session_life =
  sl_registry :: registry
  sl_durable :: durable
  sl_polled :: "session list"

definition new_life :: "durable \<Rightarrow> session_life" where
  "new_life d = \<lparr>sl_registry = [], sl_durable = d, sl_polled = []\<rparr>"

datatype life_event =
    Line int string
  | Poll
  | Renewal session
  | Retirement string

text \<open>\<open>world\<close>, faults, contexts and the URL vary from step to step without restriction.\<close>

inductive life_step :: "sock_server \<Rightarrow> session_life \<Rightarrow> life_event \<Rightarrow> session_life \<Rightarrow> bool" for sv where
  Socket: "handle_line sv now line (sl_registry l) = (r, reg, gone) \<Longrightarrow>
    life_step sv l (Line now line) (l\<lparr>sl_registry := reg\<rparr>)"
| Polls: "life_step sv l Poll (l\<lparr>sl_polled := snapshot (sl_registry l) @ sl_polled l\<rparr>)"
| Renews: "current \<in> set (sl_polled l) \<Longrightarrow>
    renew_registered_session sha256 fault c base current (sl_registry l) (sl_durable l) w = (r, reg, d, w') \<Longrightarrow>
    life_step sv l (Renewal current) (l\<lparr>sl_registry := reg, sl_durable := d\<rparr>)"
| Retires: "snap \<in> set (sl_polled l) \<Longrightarrow>
    retire_exited_session fault c base snap (sl_registry l) (sl_durable l) w = (r, reg, d, w', flushed) \<Longrightarrow>
    life_step sv l (Retirement (se_handle snap)) (l\<lparr>sl_registry := reg, sl_durable := d\<rparr>)"

inductive life_run :: "sock_server \<Rightarrow> life_event list \<Rightarrow> session_life \<Rightarrow> bool" for sv where
  Begin: "life_run sv [] (new_life d)"
| Next: "life_run sv es l \<Longrightarrow> life_step sv l e l1 \<Longrightarrow> life_run sv (es @ [e]) l1"

inductive_cases life_step_Line: "life_step sv l (Line now line) l1"
inductive_cases life_step_Poll: "life_step sv l Poll l1"
inductive_cases life_step_Renewal: "life_step sv l (Renewal current) l1"
inductive_cases life_step_Retirement: "life_step sv l (Retirement h) l1"

lemmas life_step_elims = life_step_Line life_step_Poll life_step_Renewal life_step_Retirement

section \<open>Well-formed registries\<close>

definition life_ok :: "session_life \<Rightarrow> bool" where
  "life_ok l \<longleftrightarrow> registry_valid (sl_registry l) \<and> (\<forall>s\<in>set (sl_polled l). valid_session s)"

lemma valid_renewed:
  "valid_session current \<Longrightarrow> minted renewed \<Longrightarrow> routes_ok rs \<Longrightarrow> valid_session (renewed_session current renewed rs now)"
  by (auto simp: valid_session_def minted_def renewed_session_def)

lemma renewal_keeps_valid:
  assumes "renew_registered_session sha256 fault c base current reg d w = (r, reg1, d1, w')"
    and "registry_valid reg" and "valid_session current"
  shows "registry_valid reg1"
  using renew_effect [OF assms(1)]
proof
  assume "\<exists>live (renewed :: kit_session) rs now. lookup_session (se_handle current) reg = Some live \<and> se_ulid live = se_ulid current
    \<and> routes_ok rs \<and> agent_id (agent rs) = renewal_agent current \<and> minted renewed
    \<and> reg1 = assoc_set (se_handle current) (renewed_session current renewed rs now) reg"
  then obtain renewed :: kit_session and rs now where "minted renewed" "routes_ok rs"
    and reg1: "reg1 = assoc_set (se_handle current) (renewed_session current renewed rs now) reg" by blast
  then have "valid_session (renewed_session current renewed rs now)" using valid_renewed assms(3) by blast
  with registry_valid_assoc_set [OF assms(2)] reg1 show ?thesis by (simp add: renewed_session_def)
qed (use assms(2) in simp)

lemma retirement_registry:
  "retire_exited_session fault c base snap reg d w = (r, reg1, d1, w', flushed) \<Longrightarrow>
     reg1 = (if lookup_session (se_handle snap) reg = None then reg else unregister (se_handle snap) reg)"
  by (auto simp: retire_exited_session_def take_session_eq split: option.splits prod.splits sum.splits if_splits)

lemma life_step_ok:
  assumes "life_step sv l e l1" and "life_ok l"
  shows "life_ok l1"
  using assms
proof (induction rule: life_step.induct)
  case (Socket now line l r reg gone)
  then show ?case using handle_line_valid by (auto simp: life_ok_def)
next
  case (Polls l)
  then show ?case by (auto simp: life_ok_def registry_valid_def)
next
  case (Renews current l sha256 fault c base w r reg d w')
  then show ?case using renewal_keeps_valid [OF Renews(2)] by (auto simp: life_ok_def)
next
  case (Retires snap l fault c base w r reg d w' flushed)
  then show ?case using retirement_registry [OF Retires(2)] registry_valid_unregister by (auto simp: life_ok_def)
qed

lemma life_run_ok: "life_run sv es l \<Longrightarrow> life_ok l"
proof (induction rule: life_run.induct)
  case (Begin d)
  show ?case by (simp add: life_ok_def new_life_def registry_valid_def registry_ok_def snapshot_def)
qed (rule life_step_ok)

section \<open>Where a session comes from\<close>

text \<open>An accepted message with the secret; the lines that register and unregister a handle.\<close>

definition accepted :: "sock_server \<Rightarrow> string \<Rightarrow> sock_message \<Rightarrow> bool" where
  "accepted sv line m \<longleftrightarrow> (\<exists>m0. decode_message line = Some m0 \<and> sm_auth m0 = sv_secret sv \<and> validate_message m0 = Inr m)"

definition registers :: "sock_server \<Rightarrow> string \<Rightarrow> life_event \<Rightarrow> bool" where
  "registers sv h e \<longleftrightarrow> (\<exists>now line m. e = Line now line \<and> accepted sv line m \<and> sm_action m = action_register \<and> sm_handle m = h)"

definition ends :: "sock_server \<Rightarrow> string \<Rightarrow> life_event \<Rightarrow> bool" where
  "ends sv h e \<longleftrightarrow> e = Retirement h
     \<or> (\<exists>now line m. e = Line now line \<and> accepted sv line m \<and> sm_action m = action_unregister \<and> sm_handle m = h)"

lemma line_adds_registered:
  assumes "handle_line sv now line reg = (r, reg1, gone)" and "lookup_session h reg = None" and "lookup_session h reg1 \<noteq> None"
  shows "registers sv h (Line now line)"
  using handle_line_cases [OF assms(1)]
proof
  assume "\<exists>m m1. decode_message line = Some m \<and> sm_auth m = sv_secret sv \<and> validate_message m = Inr m1
    \<and> apply_message sv now m1 reg = (r, reg1, gone)"
  then obtain m m1 where "accepted sv line m1" and a: "apply_message sv now m1 reg = (r, reg1, gone)"
    by (auto simp: accepted_def)
  with apply_message_look [OF a assms(2,3)] show ?thesis by (auto simp: registers_def)
qed (use assms(2,3) in auto)

lemma line_ends_unregistered:
  assumes "handle_line sv now line reg = (r, reg1, gone)" and "ends sv h (Line now line)"
  shows "lookup_session h reg1 = None"
proof -
  from assms(2) obtain m m0 where "decode_message line = Some m0" "sm_auth m0 = sv_secret sv" "validate_message m0 = Inr m"
    "sm_action m = action_unregister" "sm_handle m = h" by (auto simp: ends_def accepted_def)
  moreover have "action_unregister \<notin> {action_health, action_register, action_update_owner}" by code_simp
  ultimately show ?thesis using assms(1)
    by (auto simp: handle_line_def answer_message_def apply_message_def take_session_eq registry.look_drop split: if_splits)
qed

text \<open>A renewal neither adds nor removes a handle.\<close>

lemma renewal_keeps_handles:
  assumes "renew_registered_session sha256 fault c base current reg d w = (r, reg1, d1, w')"
  shows "lookup_session h reg1 = None \<longleftrightarrow> lookup_session h reg = None"
  using renew_effect [OF assms] by (auto simp: lookup_session_def map_of_assoc_set split: if_splits)

lemma retirement_look:
  "retire_exited_session fault c base snap reg d w = (r, reg1, d1, w', flushed) \<Longrightarrow>
     lookup_session h reg1 = (if h = se_handle snap then None else lookup_session h reg)"
  by (auto simp: registry.look_drop dest!: retirement_registry)

lemma step_adds: "life_step sv l e l1 \<Longrightarrow> lookup_session h (sl_registry l) = None \<Longrightarrow> lookup_session h (sl_registry l1) \<noteq> None
    \<Longrightarrow> registers sv h e"
  by (induction rule: life_step.induct) (auto simp: retirement_look renewal_keeps_handles dest: line_adds_registered split: if_splits)

lemma step_ends: "life_step sv l e l1 \<Longrightarrow> ends sv h e \<Longrightarrow> lookup_session h (sl_registry l1) = None"
  by (induction rule: life_step.induct) (auto simp: retirement_look ends_def dest: line_ends_unregistered [unfolded ends_def])

lemma present_since_registration:
  assumes "life_run sv es l" and "lookup_session h (sl_registry l) \<noteq> None"
  shows "\<exists>pre e post. es = pre @ e # post \<and> registers sv h e \<and> (\<forall>x\<in>set post. \<not> ends sv h x)"
  using assms
proof (induction rule: life_run.induct)
  case (Begin d)
  then show ?case by (simp add: new_life_def lookup_session_def)
next
  case (Next es l e l1)
  show ?case
  proof (cases "lookup_session h (sl_registry l) = None")
    case True
    with step_adds [OF Next(2)] Next(4) show ?thesis by (intro exI [of _ es] exI [of _ e] exI [of _ "[]"]) auto
  next
    case False
    with Next(3) obtain pre x post where "es = pre @ x # post" "registers sv h x" "\<forall>y\<in>set post. \<not> ends sv h y" by blast
    moreover have "\<not> ends sv h e" using step_ends [OF Next(2), of h] Next(4) by blast
    ultimately show ?thesis by (intro exI [of _ pre] exI [of _ x] exI [of _ "post @ [e]"]) auto
  qed
qed

section \<open>Properties\<close>

text \<open>A line that registers a session, and the run that consists of it and a poll.\<close>

definition demo_line :: string where
  "demo_line = json_object [(''auth'', json_q ''s''), (''action'', json_q ''register''), (''handle'', json_q ''a''),
     (''spiffe_id'', json_q ''i''), (''svid'', json_q ''k''),
     (''routes'', json_object [(''schema_version'', ''1''), (''organization_id'', json_q ''00000000-0000-4000-8000-000000000000''),
        (''agent'', json_object [(''agent_id'', json_q ''00000000-0000-4000-8000-000000000000''), (''display_name'', json_q ''d'')])])]"

definition demo_server :: sock_server where
  "demo_server = \<lparr>sv_secret = ''s'', sv_pid = 7, sv_health = unready_health\<rparr>"

lemma demo_registered: "map_option se_handle (lookup_session ''a'' (fst (snd (handle_line demo_server 0 demo_line [])))) = Some ''a''"
  by code_simp

lemma demo_run:
  "\<exists>l s. life_run demo_server [Line 0 demo_line, Poll] l \<and> lookup_session ''a'' (sl_registry l) = Some s"
proof -
  obtain r reg gone where line: "handle_line demo_server 0 demo_line [] = (r, reg, gone)" by (metis surj_pair)
  with demo_registered obtain s where s: "lookup_session ''a'' reg = Some s" by auto
  have start: "sl_registry (new_life []) = []" by (simp add: new_life_def)
  have "life_step demo_server (new_life []) (Line 0 demo_line) ((new_life [])\<lparr>sl_registry := reg\<rparr>)"
    by (rule Socket) (simp add: start line)
  from life_run.Next [OF life_run.Begin this]
  have one: "life_run demo_server [Line 0 demo_line] ((new_life [])\<lparr>sl_registry := reg\<rparr>)" by simp
  from life_run.Next [OF one Polls] s show ?thesis by (intro exI conjI) auto
qed

text \<open>
  C7. A session is only ever in the registry because a line with the secret registered its handle and nothing
  has ended it since: no interleaving of socket lines, polls, renewals and retirements brings an ended session
  back, though renewals write sessions that were read long before.
\<close>

theorem ended_session_stays_ended:
  assumes "life_run sv es l" and "lookup_session h (sl_registry l) = Some s"
  shows "\<exists>pre e post. es = pre @ e # post \<and> registers sv h e \<and> (\<forall>x\<in>set post. \<not> ends sv h x)"
  using present_since_registration [OF assms(1), of h] assms(2) by simp

lemma ended_session_stays_ended_witness: "\<exists>e\<in>set [Line 0 demo_line, Poll]. registers demo_server ''a'' e"
proof -
  obtain l s where "life_run demo_server [Line 0 demo_line, Poll] l" "lookup_session ''a'' (sl_registry l) = Some s"
    using demo_run by blast
  from ended_session_stays_ended [OF this] obtain pre e post
    where "[Line 0 demo_line, Poll] = pre @ e # post" "registers demo_server ''a'' e" by blast
  then show ?thesis by (metis in_set_conv_decomp)
qed



end
