(* ===== verification/Session_Hook.thy ===== *)
theory Session_Hook
  imports Session_Sock Session_Renew Proxy_Scope
begin

text \<open>
  \<^verbatim>\<open>internal/cli/hook.go\<close> and the session part of \<^verbatim>\<open>internal/cli/scope.go\<close>: how a coding
  session gets its identity (SessionStart) and gives it back (SessionEnd), over the control plane, the
  daemon's socket and the durable state. Lemmas: a start ends either with the minted session registered and
  stored or with its revocation, and an end forgets a session only after the current credential is revoked.
\<close>

section \<open>Environment and state\<close>

text \<open>
  What the hook runs in: the control plane's URL, the selected agent and its runtime name, whether the mTLS
  client could be made, the socket's secret, the daemon behind the socket, the cgroup of the transparent
  planes (\<open>None\<close> elsewhere), the marker of a reset in progress, the printed time, and the faults of the files.
  The client's own timeout of ten seconds is an outcome of the control plane (a network error).
\<close>

record 'd hook_env =
  hk_base :: string
  hk_runtime :: string
  hk_mtls :: "world \<Rightarrow> unit result"
  hk_secret :: "string result"
  hk_transport :: "'d transport"
  hk_cgroup :: "string result option"
  hk_reset :: "world \<Rightarrow> unit result"
  hk_stamp :: "int \<Rightarrow> string"
  hk_save_fault :: "save_fault option"
  hk_remove_fault :: "string option"
  hk_scope_fault :: bool

text \<open>The durable states, the daemon, the control plane, the cached scope and the MCP servers last configured.\<close>

record 'd hook_state =
  hs_durable :: durable
  hs_daemon :: 'd
  hs_world :: world
  hs_scope :: "scope option"
  hs_servers :: "mcp_server_endpoint list"

text \<open>\<open>Config.ResolveAgent\<close>\<close>

definition resolve_agent :: "string \<Rightarrow> string \<Rightarrow> string \<Rightarrow> string \<Rightarrow> string" where
  "resolve_agent flag_agent agent_uuid blueprint policy_uuid =
     (if flag_agent \<noteq> [] then flag_agent else if agent_uuid \<noteq> [] then agent_uuid
      else if blueprint \<noteq> [] then blueprint else policy_uuid)"

section \<open>Calls\<close>

definition new_proxy_token :: "(int \<Rightarrow> string) \<Rightarrow> world \<Rightarrow> string \<times> world" where
  "new_proxy_token stamp w =
     (case wd_random w (wd_draws w) of
        Some value \<Rightarrow> (hex_encode value, w\<lparr>wd_draws := Suc (wd_draws w)\<rparr>)
      | None \<Rightarrow> (''t'' @ stamp (wd_now w), w\<lparr>wd_draws := Suc (wd_draws w)\<rparr>))"

definition hook_call :: "'d hook_env \<Rightarrow> (ctx \<Rightarrow> 'a io) \<Rightarrow> 'a io" where
  "hook_call env call w =
     (case hk_mtls env w of
        Inl e \<Rightarrow> (Inl e, w)
      | Inr _ \<Rightarrow> call (with_timeout None (15 * second) w) w)"

definition mint_instance :: "'d hook_env \<Rightarrow> string \<Rightarrow> string \<Rightarrow> kit_session io" where
  "mint_instance env ag h w =
     (case new_proxy_token (hk_stamp env) w of (tok, w1) \<Rightarrow>
        hook_call env (\<lambda>c. create_kit_session c (hk_base env)
          \<lparr>ci_agent_id = ag, ci_session_handle = h, ci_idempotency_key = ''cli-'' @ tok, ci_agent_runtime = hk_runtime env,
           ci_replaces_session_id = []\<rparr>) w1)"

definition fetch_session_routes :: "'d hook_env \<Rightarrow> string \<Rightarrow> runtime_routes io" where
  "fetch_session_routes env kit = hook_call env (\<lambda>c. fetch_runtime_routes c (hk_base env) kit)"

definition revoke_instance :: "'d hook_env \<Rightarrow> string \<Rightarrow> unit io" where
  "revoke_instance env ulid = hook_call env (\<lambda>c. revoke_kit_session c (hk_base env) ulid)"

definition exchange_authenticated :: "'d hook_env \<Rightarrow> sock_message \<Rightarrow> 'd \<Rightarrow> sock_response result \<times> 'd" where
  "exchange_authenticated env m d =
     (case hk_secret env of
        Inl e \<Rightarrow> (Inl (''session socket auth: '' @ e), d)
      | Inr secret \<Rightarrow> exchange (hk_transport env) (m\<lparr>sm_auth := secret\<rparr>) d)"

definition lookup_registered :: "'d hook_env \<Rightarrow> string \<Rightarrow> 'd \<Rightarrow> session_snapshot result \<times> 'd" where
  "lookup_registered env h d =
     (case exchange_authenticated env (zero_message\<lparr>sm_action := action_lookup, sm_handle := h\<rparr>) d of
        (Inl e, d1) \<Rightarrow> (Inl e, d1)
      | (Inr r, d1) \<Rightarrow>
          (case rs_session r of
             None \<Rightarrow> (Inl ''daemon returned no session'', d1)
           | Some s \<Rightarrow> if sn_svid s = [] then (Inl ''daemon returned no session'', d1) else (Inr s, d1)))"

text \<open>A revocation and a removal on the state; the caller may ignore the result.\<close>

definition revoke_step :: "'d hook_env \<Rightarrow> string \<Rightarrow> 'd hook_state \<Rightarrow> unit result \<times> 'd hook_state" where
  "revoke_step env ulid s =
     (case revoke_instance env ulid (hs_world s) of (r, w) \<Rightarrow> (r, s\<lparr>hs_world := w\<rparr>))"

definition remove_step :: "'d hook_env \<Rightarrow> string \<Rightarrow> 'd hook_state \<Rightarrow> 'd hook_state" where
  "remove_step env sid s = s\<lparr>hs_durable := snd (remove_state (hk_remove_fault env) sid (hs_durable s))\<rparr>"

definition save_step :: "'d hook_env \<Rightarrow> session_state \<Rightarrow> 'd hook_state \<Rightarrow> unit result \<times> 'd hook_state" where
  "save_step env st s =
     (case save_state (hk_save_fault env) st (hs_durable s) of (r, d) \<Rightarrow> (r, s\<lparr>hs_durable := d\<rparr>))"

section \<open>Start\<close>

definition refresh_policy_scope :: "'d hook_env \<Rightarrow> runtime_routes \<Rightarrow> 'd hook_state \<Rightarrow> 'd hook_state" where
  "refresh_policy_scope env rs s =
     (case new_scope mode_selected (managed_origins rs) of
        Inl e \<Rightarrow> s
      | Inr sc \<Rightarrow> if hk_scope_fault env then s else s\<lparr>hs_scope := Some sc\<rparr>)"

definition refresh_mcp_servers :: "runtime_routes \<Rightarrow> 'd hook_state \<Rightarrow> 'd hook_state" where
  "refresh_mcp_servers rs s = s\<lparr>hs_servers := mcp_server_endpoints rs\<rparr>"

definition started_state :: "string \<Rightarrow> string \<Rightarrow> string \<Rightarrow> kit_session \<Rightarrow> runtime_routes \<Rightarrow> session_state" where
  "started_state sid ag h inst rs =
     \<lparr>st_session_id = sid, st_handle = h, st_ulid = ks_session_id inst, st_spiffe_id = ks_spiffe_id inst, st_blueprint = ag,
      st_expires_at = ks_expires_at inst, st_owner_pid = 0, st_owner_managed = False, st_owner_identity = [],
      st_kit = ks_kit inst, st_routes = Some rs\<rparr>"

definition register_message :: "string \<Rightarrow> string \<Rightarrow> string \<Rightarrow> kit_session \<Rightarrow> runtime_routes \<Rightarrow> sock_message" where
  "register_message sid ag h inst rs = zero_message
     \<lparr>sm_action := action_register, sm_handle := h, sm_spiffe_id := ks_spiffe_id inst, sm_svid := ks_kit inst,
      sm_blueprint := ag, sm_ulid := ks_session_id inst, sm_agent_id := ag, sm_expires_at := ks_expires_at inst,
      sm_session_id := sid, sm_routes := Some rs\<rparr>"

text \<open>\<open>hookSessionStart\<close> from the minted instance on: the exit code and the state.\<close>

definition start_minted :: "'d hook_env \<Rightarrow> string \<Rightarrow> string \<Rightarrow> string \<Rightarrow> kit_session \<Rightarrow> 'd hook_state \<Rightarrow> int \<times> 'd hook_state" where
  "start_minted env sid ag h inst s0 =
     (let rollback = (\<lambda>s. snd (revoke_step env (ks_session_id inst) s)) in
      case fetch_session_routes env (ks_kit inst) (hs_world s0) of
        (Inl _, w1) \<Rightarrow> (1, rollback (s0\<lparr>hs_world := w1\<rparr>))
      | (Inr rs, w1) \<Rightarrow>
          let s1 = s0\<lparr>hs_world := w1\<rparr> in
          if agent_id (agent rs) \<noteq> ag then (1, rollback s1)
          else if \<not> is_ok (hk_reset env (hs_world s1)) then (1, rollback s1)
          else let s2 = refresh_mcp_servers rs (refresh_policy_scope env rs s1) in
            (case save_step env (started_state sid ag h inst rs) s2 of
               (Inl _, s3) \<Rightarrow> (1, remove_step env sid (rollback s3))
             | (Inr _, s3) \<Rightarrow>
                 (case exchange_authenticated env (register_message sid ag h inst rs) (hs_daemon s3) of
                    (Inr _, dm) \<Rightarrow> (0, s3\<lparr>hs_daemon := dm\<rparr>)
                  | (Inl _, dm) \<Rightarrow>
                      (case revoke_step env (ks_session_id inst) (s3\<lparr>hs_daemon := dm\<rparr>) of
                         (Inl _, s4) \<Rightarrow> (1, s4)
                       | (Inr _, s4) \<Rightarrow> (1, remove_step env sid s4)))))"

section \<open>End\<close>

text \<open>\<open>hookSessionEnd\<close>: the state as the daemon knows it, and the end from the ULID to revoke on.\<close>

definition current_state :: "session_snapshot \<Rightarrow> session_state \<Rightarrow> session_state" where
  "current_state sn st = st\<lparr>st_ulid := sn_ulid sn, st_spiffe_id := sn_spiffe_id sn, st_kit := sn_svid sn,
     st_expires_at := sn_expires_at sn\<rparr>"

definition unregister_answer :: "string \<Rightarrow> sock_response result \<Rightarrow> session_snapshot option \<times> bool" where
  "unregister_answer sid a =
     (case a of
        Inl _ \<Rightarrow> (None, False)
      | Inr r \<Rightarrow>
          (case rs_session r of
             None \<Rightarrow> (None, True)
           | Some sn \<Rightarrow> if sn_session_id sn \<noteq> [] \<and> sn_session_id sn \<noteq> sid then (None, False) else (Some sn, True)))"

definition hook_session_end :: "'d hook_env \<Rightarrow> string \<Rightarrow> 'd hook_state \<Rightarrow> int \<times> 'd hook_state" where
  "hook_session_end env sid s0 =
     (if \<not> is_ok (validate_id sid) then (1, s0)
      else case load_state sid (hs_durable s0) of
        Inl _ \<Rightarrow> (1, s0)
      | Inr st \<Rightarrow>
          (case exchange_authenticated env (zero_message\<lparr>sm_action := action_unregister, sm_handle := st_handle st\<rparr>) (hs_daemon s0) of
             (a, dm) \<Rightarrow>
               (case unregister_answer sid a of (sn, unregistered) \<Rightarrow>
                  let s1 = s0\<lparr>hs_daemon := dm\<rparr>;
                      ulid = (case sn of None \<Rightarrow> st_ulid st | Some x \<Rightarrow> sn_ulid x);
                      s2 = (case sn of None \<Rightarrow> s1 | Some x \<Rightarrow> snd (save_step env (current_state x st) s1))
                  in (case revoke_step env ulid s2 of
                        (Inl _, s3) \<Rightarrow> (1, s3)
                      | (Inr _, s3) \<Rightarrow> if \<not> unregistered then (1, s3) else (0, remove_step env sid s3)))))"

definition replace_existing :: "'d hook_env \<Rightarrow> string \<Rightarrow> 'd hook_state \<Rightarrow> int \<times> 'd hook_state" where
  "replace_existing env sid s =
     (case load_state sid (hs_durable s) of
        Inr _ \<Rightarrow> hook_session_end env sid s
      | Inl e \<Rightarrow> if e = ''no such file'' then (0, s) else (1, s))"

text \<open>\<open>bindSessionForMode\<close>, and \<open>hookSessionStart\<close> as a whole.\<close>

definition bind_session :: "'d hook_env \<Rightarrow> 'd hook_state \<Rightarrow> string result \<times> 'd hook_state" where
  "bind_session env s =
     (case hk_cgroup env of
        Some r \<Rightarrow> (r, s)
      | None \<Rightarrow> (case new_proxy_token (hk_stamp env) (hs_world s) of (tok, w) \<Rightarrow> (Inr tok, s\<lparr>hs_world := w\<rparr>)))"

definition hook_session_start :: "'d hook_env \<Rightarrow> string \<Rightarrow> string \<Rightarrow> 'd hook_state \<Rightarrow> int \<times> 'd hook_state" where
  "hook_session_start env ag sid s0 =
     (if \<not> is_ok (hk_reset env (hs_world s0)) \<or> \<not> is_ok (validate_id sid) then (1, s0)
      else case replace_existing env sid s0 of (code, s1) \<Rightarrow>
        if code \<noteq> 0 then (code, s1)
        else if ag = [] then (1, s1)
        else case bind_session env s1 of
          (Inl _, s2) \<Rightarrow> (1, s2)
        | (Inr h, s2) \<Rightarrow>
            (case mint_instance env ag h (hs_world s2) of
               (Inl _, w) \<Rightarrow> (1, s2\<lparr>hs_world := w\<rparr>)
             | (Inr inst, w) \<Rightarrow> start_minted env sid ag h inst (s2\<lparr>hs_world := w\<rparr>)))"

section \<open>Owner and scope\<close>

text \<open>\<open>updateSessionOwner\<close>; the identity of a process is what the operating system answers.\<close>

definition update_session_owner ::
  "'d hook_env \<Rightarrow> (int \<Rightarrow> string result) \<Rightarrow> string \<Rightarrow> int \<Rightarrow> bool \<Rightarrow> 'd hook_state \<Rightarrow> 'd hook_state" where
  "update_session_owner env identify sid pid managed_owner s =
     (if pid \<le> 0 then s
      else case load_state sid (hs_durable s) of
        Inl _ \<Rightarrow> s
      | Inr st \<Rightarrow>
          let identity = (if \<not> managed_owner then [] else case identify pid of Inl _ \<Rightarrow> st_owner_identity st | Inr i \<Rightarrow> i);
              st1 = st\<lparr>st_owner_pid := pid, st_owner_managed := managed_owner, st_owner_identity := identity\<rparr>;
              s1 = snd (save_step env st1 s)
          in s1\<lparr>hs_daemon := snd (exchange_authenticated env
               (zero_message\<lparr>sm_action := action_update_owner, sm_handle := st_handle st, sm_owner_pid := pid,
                  sm_owner_managed := managed_owner, sm_owner_identity := identity\<rparr>) (hs_daemon s1))\<rparr>)"

text \<open>\<open>detectPolicyScope\<close>: the deferred revocation runs on every path after the mint.\<close>

definition detected_origins ::
  "'d hook_env \<Rightarrow> string \<Rightarrow> kit_session \<Rightarrow> 'd hook_state \<Rightarrow> string list option \<times> 'd hook_state" where
  "detected_origins env ag inst s =
     (case fetch_session_routes env (ks_kit inst) (hs_world s) of
        (Inl _, w) \<Rightarrow> (None, s\<lparr>hs_world := w\<rparr>)
      | (Inr rs, w) \<Rightarrow>
          if agent_id (agent rs) \<noteq> ag then (None, s\<lparr>hs_world := w\<rparr>)
          else (case new_scope mode_selected (managed_origins rs) of
              Inl _ \<Rightarrow> (None, s\<lparr>hs_world := w\<rparr>)
            | Inr sc \<Rightarrow> if hk_scope_fault env then (None, s\<lparr>hs_world := w\<rparr>)
                else (Some (managed_origins rs), s\<lparr>hs_world := w, hs_scope := Some sc\<rparr>)))"

definition detect_policy_scope :: "'d hook_env \<Rightarrow> string \<Rightarrow> 'd hook_state \<Rightarrow> string list option \<times> 'd hook_state" where
  "detect_policy_scope env ag s0 =
     (case new_proxy_token (hk_stamp env) (hs_world s0) of (h, w0) \<Rightarrow>
       (case mint_instance (env\<lparr>hk_runtime := []\<rparr>) ag h w0 of
          (Inl _, w) \<Rightarrow> (None, s0\<lparr>hs_world := w\<rparr>)
        | (Inr inst, w) \<Rightarrow>
            (case detected_origins env ag inst (s0\<lparr>hs_world := w\<rparr>) of
               (os, s1) \<Rightarrow> (os, snd (revoke_step env (ks_session_id inst) s1)))))"

section \<open>Every call keeps the environment\<close>

text \<open>The client can always be made, and the URL is one the client trusts.\<close>

definition connected :: "'d hook_env \<Rightarrow> world \<Rightarrow> bool" where
  "connected env w \<longleftrightarrow> (\<forall>w. hk_mtls env w = Inr ()) \<and> is_ok (base_url (wd_allow_insecure w) (hk_base env))"

lemma connected_same: "connected env w \<Longrightarrow> wd_allow_insecure w1 = wd_allow_insecure w \<Longrightarrow> connected env w1"
  by (simp add: connected_def)

lemma fetch_session_routes_ok:
  assumes "fetch_session_routes env kit w = (r, w1)"
  shows "wd_allow_insecure w1 = wd_allow_insecure w" and "r = Inr rs \<Longrightarrow> routes_ok rs"
  using assms fetch_routes_ok by (auto simp: fetch_session_routes_def hook_call_def split: sum.splits)

lemma with_timeout_open: "0 < d \<Longrightarrow> \<not> ctx_done (with_timeout None d w) (wd_now w)"
  by (simp add: with_timeout_def ctx_done_def)

lemma revoke_instance_sends:
  assumes "ulid_pattern ulid" and "connected env w" and "revoke_instance env ulid w = (r, w1)"
  shows "wd_sent w1 \<noteq> [] \<and> revocation ulid (last (wd_sent w1))"
proof -
  have "revoke_kit_session (with_timeout None (15 * second) w) (hk_base env) ulid w = (r, w1)"
    using assms(2,3) by (simp add: revoke_instance_def hook_call_def connected_def)
  moreover have "\<not> ctx_done (with_timeout None (15 * second) w) (wd_now w)" by (rule with_timeout_open) (simp add: second_def)
  moreover have "is_ok (base_url (wd_allow_insecure w) (hk_base env))" using assms(2) by (simp add: connected_def)
  ultimately obtain rq where "wd_sent w1 = wd_sent w @ [rq]" "revocation ulid rq"
    using revoke_sends [OF assms(1)] by blast
  then show ?thesis by simp
qed

section \<open>The state of a session on disk\<close>

lemma load_found:
  "load_state sid d = Inr st \<longleftrightarrow> is_ok (validate_id sid) \<and> map_of d (sid @ ''.json'') = Some st \<and> st_session_id st = sid"
  by (cases "validate_id sid") (auto simp: load_state_def state_file_def is_ok_iff split: option.splits if_splits)

lemma save_state_valid:
  "is_ok (validate_id (st_session_id st)) \<Longrightarrow> save_state fault st d =
     (case fault of
        Some (Before_Rename e) \<Rightarrow> (Inl e, d)
      | Some (After_Rename e) \<Rightarrow> (Inl e, assoc_set (st_session_id st @ ''.json'') st d)
      | None \<Rightarrow> (Inr (), assoc_set (st_session_id st @ ''.json'') st d))"
  by (auto simp: save_state_def state_file_def is_ok_iff)

lemma load_saved:
  "is_ok (validate_id sid) \<Longrightarrow> st_session_id st = sid \<Longrightarrow> save_state fault st d = (Inr (), d1) \<Longrightarrow> load_state sid d1 = Inr st"
  by (auto simp: load_found save_state_valid map_of_assoc_set split: option.splits save_fault.splits)

lemma load_kept:
  assumes "st_session_id st = sid" and "is_ok (load_state sid d)"
  shows "is_ok (load_state sid (snd (save_state fault st d)))"
proof -
  from assms(2) obtain st0 where st0: "load_state sid d = Inr st0" by (auto simp: is_ok_iff)
  then have v: "is_ok (validate_id (st_session_id st))" using assms(1) by (simp add: load_found)
  with assms(1) have "load_state sid (assoc_set (sid @ ''.json'') st d) = Inr st" by (simp add: load_found map_of_assoc_set)
  with st0 assms(1) show ?thesis unfolding save_state_valid [OF v]
    by (auto simp: is_ok_iff split: option.split save_fault.split)
qed

lemma load_removed:
  "is_ok (validate_id sid) \<Longrightarrow> load_state sid (snd (remove_state None sid d)) = Inl ''no such file''"
proof -
  have "map_of (filter (\<lambda>(k, _). k \<noteq> name) d) name = None" for name by (induction d) auto
  then show "is_ok (validate_id sid) \<Longrightarrow> ?thesis" by (auto simp: remove_state_def load_state_def state_file_def is_ok_iff)
qed

lemma load_state_id: "load_state sid d = Inr st \<Longrightarrow> st_session_id st = sid \<and> is_ok (validate_id sid)"
  by (simp add: load_found)

section \<open>Rolling back\<close>

text \<open>The minted session has been given up: its revocation was the last request, and its state is gone unless that failed.\<close>

definition given_up :: "'d hook_env \<Rightarrow> string \<Rightarrow> kit_session \<Rightarrow> 'd hook_state \<Rightarrow> bool" where
  "given_up env sid inst s \<longleftrightarrow> wd_sent (hs_world s) \<noteq> [] \<and> revocation (ks_session_id inst) (last (wd_sent (hs_world s)))
     \<and> (is_ok (load_state sid (hs_durable s)) \<longrightarrow> hk_remove_fault env \<noteq> None
          \<or> (\<exists>w e. revoke_instance env (ks_session_id inst) w = (Inl e, hs_world s)))"

lemma revoke_step_sends:
  assumes "revoke_step env (ks_session_id inst) s = (r, s')" and "minted inst" and "connected env (hs_world s)"
  shows "wd_sent (hs_world s') \<noteq> [] \<and> revocation (ks_session_id inst) (last (wd_sent (hs_world s')))"
    and "hs_durable s' = hs_durable s" and "hs_daemon s' = hs_daemon s"
    and "revoke_instance env (ks_session_id inst) (hs_world s) = (r, hs_world s')"
proof -
  obtain w where r: "revoke_instance env (ks_session_id inst) (hs_world s) = (r, w)" and s': "s' = s\<lparr>hs_world := w\<rparr>"
    using assms(1) by (auto simp: revoke_step_def split: prod.splits)
  from revoke_instance_sends [OF _ assms(3) r] assms(2)
  show "wd_sent (hs_world s') \<noteq> [] \<and> revocation (ks_session_id inst) (last (wd_sent (hs_world s')))"
    by (simp add: s' minted_def)
qed (use assms(1) in \<open>auto simp: revoke_step_def split: prod.splits\<close>)

lemma rollback_given_up:
  assumes "minted inst" and "connected env (hs_world s)" and "load_state sid (hs_durable s) = Inl e"
  shows "given_up env sid inst (snd (revoke_step env (ks_session_id inst) s))"
proof -
  obtain r s' where r: "revoke_step env (ks_session_id inst) s = (r, s')" by (cases "revoke_step env (ks_session_id inst) s")
  from revoke_step_sends [OF r assms(1,2)] assms(3) show ?thesis by (simp add: given_up_def r)
qed

lemma removed_given_up:
  assumes "is_ok (validate_id sid)" and "wd_sent (hs_world s) \<noteq> [] \<and> revocation (ks_session_id inst) (last (wd_sent (hs_world s)))"
  shows "given_up env sid inst (remove_step env sid s)"
  using assms load_removed [OF assms(1), of "hs_durable s"]
  by (cases "hk_remove_fault env") (auto simp: given_up_def remove_step_def)

lemma refreshed_same [simp]:
  "hs_world (refresh_mcp_servers rs s) = hs_world s" "hs_durable (refresh_mcp_servers rs s) = hs_durable s"
  "hs_daemon (refresh_mcp_servers rs s) = hs_daemon s"
  "hs_world (refresh_policy_scope env rs s) = hs_world s" "hs_durable (refresh_policy_scope env rs s) = hs_durable s"
  "hs_daemon (refresh_policy_scope env rs s) = hs_daemon s"
  by (auto simp: refresh_mcp_servers_def refresh_policy_scope_def split: sum.split)

lemma save_step_same:
  "save_step env st s = (r, s') \<Longrightarrow> hs_world s' = hs_world s \<and> hs_daemon s' = hs_daemon s
     \<and> save_state (hk_save_fault env) st (hs_durable s) = (r, hs_durable s')"
  by (auto simp: save_step_def split: prod.splits)

text \<open>The registered session: stored under its id, and acknowledged by the daemon as it was sent.\<close>

definition bound :: "'d hook_env \<Rightarrow> string \<Rightarrow> string \<Rightarrow> string \<Rightarrow> kit_session \<Rightarrow> 'd hook_state \<Rightarrow> 'd hook_state \<Rightarrow> bool" where
  "bound env sid ag h inst s0 s \<longleftrightarrow> (\<exists>rs r. routes_ok rs \<and> agent_id (agent rs) = ag
     \<and> load_state sid (hs_durable s) = Inr (started_state sid ag h inst rs)
     \<and> exchange_authenticated env (register_message sid ag h inst rs) (hs_daemon s0) = (Inr r, hs_daemon s) \<and> rs_ok r)"

lemma exchange_acknowledged: "exchange_authenticated env m d = (Inr r, d1) \<Longrightarrow> rs_ok r"
  by (auto simp: exchange_authenticated_def exchange_def split: sum.splits prod.splits option.splits if_splits)

lemma start_minted_outcome:
  assumes "start_minted env sid ag h inst s0 = (code, s')" and "minted inst" and "connected env (hs_world s0)"
    and "is_ok (validate_id sid)" and "load_state sid (hs_durable s0) = Inl e"
  shows "(code = 0 \<and> bound env sid ag h inst s0 s') \<or> (code = 1 \<and> given_up env sid inst s')"
proof -
  obtain r1 w1 where f: "fetch_session_routes env (ks_kit inst) (hs_world s0) = (r1, w1)"
    by (cases "fetch_session_routes env (ks_kit inst) (hs_world s0)")
  note env1 = connected_same [OF assms(3) fetch_session_routes_ok(1) [OF f]]
  have early: "given_up env sid inst (snd (revoke_step env (ks_session_id inst) (s0\<lparr>hs_world := w1\<rparr>)))"
    using rollback_given_up [OF assms(2), of env "s0\<lparr>hs_world := w1\<rparr>" sid e] env1 assms(5) by simp
  show ?thesis
  proof (cases "\<exists>rs. r1 = Inr rs \<and> agent_id (agent rs) = ag \<and> is_ok (hk_reset env w1)")
    case False
    with assms(1) f early show ?thesis by (auto simp: start_minted_def Let_def split: sum.splits if_splits)
  next
    case True
    then obtain rs where rs: "r1 = Inr rs" "agent_id (agent rs) = ag" "is_ok (hk_reset env w1)" by blast
    define s2 where "s2 = refresh_mcp_servers rs (refresh_policy_scope env rs (s0\<lparr>hs_world := w1\<rparr>))"
    obtain r3 s3 where save: "save_step env (started_state sid ag h inst rs) s2 = (r3, s3)"
      by (cases "save_step env (started_state sid ag h inst rs) s2")
    have s3: "hs_world s3 = w1" "hs_daemon s3 = hs_daemon s0" using save_step_same [OF save] by (simp_all add: s2_def)
    have run: "start_minted env sid ag h inst s0 = (case r3 of
        Inl _ \<Rightarrow> (1, remove_step env sid (snd (revoke_step env (ks_session_id inst) s3)))
      | Inr _ \<Rightarrow> (case exchange_authenticated env (register_message sid ag h inst rs) (hs_daemon s3) of
            (Inr _, dm) \<Rightarrow> (0, s3\<lparr>hs_daemon := dm\<rparr>)
          | (Inl _, dm) \<Rightarrow> (case revoke_step env (ks_session_id inst) (s3\<lparr>hs_daemon := dm\<rparr>) of
              (Inl _, s4) \<Rightarrow> (1, s4) | (Inr _, s4) \<Rightarrow> (1, remove_step env sid s4))))"
      using f rs save by (simp add: start_minted_def Let_def s2_def)
    show ?thesis
    proof (cases r3)
      case (Inl x)
      obtain r s4 where rev: "revoke_step env (ks_session_id inst) s3 = (r, s4)" by (cases "revoke_step env (ks_session_id inst) s3")
      from revoke_step_sends(1) [OF rev assms(2)] env1 s3(1) removed_given_up [OF assms(4)] Inl run rev assms(1)
      show ?thesis by auto
    next
      case (Inr u)
      obtain a dm where ex: "exchange_authenticated env (register_message sid ag h inst rs) (hs_daemon s3) = (a, dm)"
        by (cases "exchange_authenticated env (register_message sid ag h inst rs) (hs_daemon s3)")
      show ?thesis
      proof (cases a)
        case (Inr r)
        have "save_state (hk_save_fault env) (started_state sid ag h inst rs) (hs_durable s2) = (Inr (), hs_durable s3)"
          using save_step_same [OF save] \<open>r3 = Inr u\<close> by simp
        from load_saved [OF assms(4) _ this] have "load_state sid (hs_durable s3) = Inr (started_state sid ag h inst rs)"
          by (simp add: started_state_def)
        moreover have "rs_ok r" by (rule exchange_acknowledged [OF ex [unfolded Inr]])
        moreover have "code = 0" "s' = s3\<lparr>hs_daemon := dm\<rparr>" using run \<open>r3 = Inr u\<close> ex Inr assms(1) by simp_all
        ultimately show ?thesis
          using fetch_session_routes_ok(2) [OF f rs(1)] rs(2) ex s3(2) Inr unfolding bound_def by auto
      next
        case (Inl x)
        obtain r s4 where rev: "revoke_step env (ks_session_id inst) (s3\<lparr>hs_daemon := dm\<rparr>) = (r, s4)"
          by (cases "revoke_step env (ks_session_id inst) (s3\<lparr>hs_daemon := dm\<rparr>)")
        note facts = revoke_step_sends [OF rev assms(2)]
        from env1 s3(1) have c: "connected env (hs_world (s3\<lparr>hs_daemon := dm\<rparr>))" by simp
        from run ex Inl rev \<open>r3 = Inr u\<close> assms(1)
        have "(case r of Inl _ \<Rightarrow> (1, s4) | Inr _ \<Rightarrow> (1, remove_step env sid s4)) = (code, s')" by simp
        with facts(1,4) [OF c] removed_given_up [OF assms(4)] show ?thesis
          by (cases r) (auto simp: given_up_def)
      qed
    qed
  qed
qed

section \<open>Properties\<close>

text \<open>
  C19. A session start is all or nothing. From the minted credential on, the hook exits 0 only if the session is
  stored under its id and the daemon has acknowledged the registration of exactly this credential with validated
  routes of the selected agent; it exits 1 otherwise, and then its last request is the revocation of the
  credential, and its state is gone unless that revocation (or removing the file) failed, in which case it is kept to try again.
\<close>

theorem start_commits_or_rolls_back:
  assumes "start_minted env sid ag h inst s0 = (code, s')" and "minted inst" and "connected env (hs_world s0)"
    and "is_ok (validate_id sid)" and "load_state sid (hs_durable s0) = Inl e"
  shows "(code = 0 \<and> (\<exists>rs r. routes_ok rs \<and> agent_id (agent rs) = ag
      \<and> load_state sid (hs_durable s') = Inr (started_state sid ag h inst rs)
      \<and> exchange_authenticated env (register_message sid ag h inst rs) (hs_daemon s0) = (Inr r, hs_daemon s') \<and> rs_ok r))
    \<or> (code = 1 \<and> revocation (ks_session_id inst) (last (wd_sent (hs_world s')))
      \<and> (\<not> is_ok (load_state sid (hs_durable s')) \<or> hk_remove_fault env \<noteq> None
        \<or> (\<exists>w x. revoke_instance env (ks_session_id inst) w = (Inl x, hs_world s'))))"
  using start_minted_outcome [OF assms] unfolding bound_def given_up_def by blast

definition refusing_env :: "unit hook_env" where
  "refusing_env = \<lparr>hk_base = ''https://x.io'', hk_runtime = [], hk_mtls = (\<lambda>_. Inr ()), hk_secret = Inr ''s'',
     hk_transport = (\<lambda>_ d. (Inl ''refused'', d)), hk_cgroup = None, hk_reset = (\<lambda>_. Inr ()), hk_stamp = (\<lambda>_. []),
     hk_save_fault = None, hk_remove_fault = None, hk_scope_fault = False\<rparr>"

definition fresh_state :: "unit hook_state" where
  "fresh_state = \<lparr>hs_durable = [], hs_daemon = (), hs_world = minting_world\<lparr>wd_reply := (\<lambda>n. Net_Error 1 ''down'')\<rparr>,
     hs_scope = None, hs_servers = []\<rparr>"

definition minted_kit :: kit_session where
  "minted_kit = \<lparr>ks_session_id = replicate 26 (CHR ''0''), ks_spiffe_id = ''spiffe://a'', ks_kit = ''k'', ks_expires_at = []\<rparr>"

lemma start_commits_or_rolls_back_witness:
  "\<exists>s'. start_minted refusing_env ''a'' ''g'' ''h'' minted_kit fresh_state = (1, s')
     \<and> revocation (ks_session_id minted_kit) (last (wd_sent (hs_world s')))"
proof -
  have code: "fst (start_minted refusing_env ''a'' ''g'' ''h'' minted_kit fresh_state) = 1" by code_simp
  then obtain s' where run: "start_minted refusing_env ''a'' ''g'' ''h'' minted_kit fresh_state = (1, s')"
    by (metis prod.collapse)
  have facts: "minted minted_kit" "is_ok (validate_id ''a'')" "is_ok (base_url False ''https://x.io'')" by code_simp+
  have "connected refusing_env (hs_world fresh_state)"
    using facts(3) by (simp add: connected_def refusing_env_def fresh_state_def minting_world_def)
  moreover have "load_state ''a'' (hs_durable fresh_state) = Inl ''no such file''"
    using facts(2) by (cases "validate_id ''a''") (auto simp: fresh_state_def load_state_def state_file_def is_ok_iff)
  ultimately show ?thesis using start_commits_or_rolls_back [OF run facts(1) _ facts(2)] run by auto
qed

text \<open>
  C20. A session end forgets only what is revoked: the credential revoked is the one the daemon held, if it
  returned this session's, and otherwise the stored one; the hook exits 0 only after a confirmed revocation
  and a confirmed unregistration, and then the state is gone; on any failure it exits 1 and the state is still there to try again.
\<close>

theorem session_end_revokes_current:
  assumes "hook_session_end env sid s = (code, s')" and "load_state sid (hs_durable s) = Inr st"
  shows "\<exists>a r. fst (exchange_authenticated env (zero_message\<lparr>sm_action := action_unregister, sm_handle := st_handle st\<rparr>) (hs_daemon s)) = a
    \<and> revoke_instance env (case a of Inl _ \<Rightarrow> st_ulid st
        | Inr x \<Rightarrow> (case rs_session x of None \<Rightarrow> st_ulid st
            | Some sn \<Rightarrow> if sn_session_id sn \<noteq> [] \<and> sn_session_id sn \<noteq> sid then st_ulid st else sn_ulid sn)) (hs_world s)
      = (r, hs_world s')
    \<and> (if code = 0 then is_ok a \<and> r = Inr () \<and> (hk_remove_fault env \<noteq> None \<or> load_state sid (hs_durable s') = Inl ''no such file'')
       else code = 1 \<and> is_ok (load_state sid (hs_durable s')))"
proof -
  note st = load_state_id [OF assms(2)]
  obtain a dm where ex: "exchange_authenticated env (zero_message\<lparr>sm_action := action_unregister, sm_handle := st_handle st\<rparr>)
      (hs_daemon s) = (a, dm)" by (metis surj_pair)
  obtain sn un where ans: "unregister_answer sid a = (sn, un)" by (metis surj_pair)
  define ulid where "ulid = (case sn of None \<Rightarrow> st_ulid st | Some x \<Rightarrow> sn_ulid x)"
  define s2 where "s2 = (case sn of None \<Rightarrow> s\<lparr>hs_daemon := dm\<rparr> | Some x \<Rightarrow> snd (save_step env (current_state x st) (s\<lparr>hs_daemon := dm\<rparr>)))"
  obtain r s3 where rev: "revoke_step env ulid s2 = (r, s3)" by (cases "revoke_step env ulid s2")
  have run: "(case r of Inl _ \<Rightarrow> (1, s3) | Inr _ \<Rightarrow> if \<not> un then (1, s3) else (0, remove_step env sid s3)) = (code, s')"
    using assms st ex ans rev by (simp add: hook_session_end_def Let_def ulid_def s2_def)
  have w2: "hs_world s2 = hs_world s"
    by (auto simp: s2_def save_step_def split: option.split prod.split)
  have kept: "is_ok (load_state sid (hs_durable s2))"
  proof (cases sn)
    case (Some x)
    have "st_session_id (current_state x st) = sid" using st by (simp add: current_state_def)
    from load_kept [OF this, of "hs_durable s" "hk_save_fault env"] assms(2) Some show ?thesis
      by (cases "save_state (hk_save_fault env) (current_state x st) (hs_durable s)") (simp add: s2_def save_step_def)
  qed (use assms(2) in \<open>simp add: s2_def is_ok_iff\<close>)
  from rev w2 have s3: "revoke_instance env ulid (hs_world s) = (r, hs_world s3)" "hs_durable s3 = hs_durable s2"
    by (auto simp: revoke_step_def split: prod.splits)
  have ulid: "ulid = (case a of Inl _ \<Rightarrow> st_ulid st
        | Inr x \<Rightarrow> (case rs_session x of None \<Rightarrow> st_ulid st
            | Some sn \<Rightarrow> if sn_session_id sn \<noteq> [] \<and> sn_session_id sn \<noteq> sid then st_ulid st else sn_ulid sn))"
    and un: "un \<Longrightarrow> is_ok a"
    using ans by (auto simp: unregister_answer_def ulid_def split: sum.splits option.splits if_splits)
  show ?thesis
  proof (cases "code = 0")
    case True
    with run have r: "r = Inr ()" "un" "s' = remove_step env sid s3" by (auto split: sum.splits if_splits)
    have "hk_remove_fault env \<noteq> None \<or> load_state sid (hs_durable s') = Inl ''no such file''"
      using load_removed st by (cases "hk_remove_fault env") (simp_all add: r(3) remove_step_def)
    with True r s3 un ex show ?thesis by (simp add: ulid [symmetric] remove_step_def)
  next
    case False
    with run have "code = 1" "s' = s3" by (auto split: sum.splits if_splits)
    with False s3 kept ex show ?thesis by (simp add: ulid [symmetric])
  qed
qed

definition stored_state :: session_state where
  "stored_state = started_state ''a'' ''g'' ''h'' minted_kit zero_routes"

lemma session_end_revokes_current_witness:
  "\<exists>s'. hook_session_end refusing_env ''a'' (fresh_state\<lparr>hs_durable := [(''a.json'', stored_state)]\<rparr>) = (1, s')
     \<and> is_ok (load_state ''a'' (hs_durable s'))"
proof -
  let ?s = "fresh_state\<lparr>hs_durable := [(''a.json'', stored_state)]\<rparr>"
  have code: "fst (hook_session_end refusing_env ''a'' ?s) = 1" by code_simp
  then obtain s' where run: "hook_session_end refusing_env ''a'' ?s = (1, s')" by (metis prod.collapse)
  have "is_ok (validate_id ''a'')" by code_simp
  then have st: "load_state ''a'' (hs_durable ?s) = Inr stored_state"
    by (simp add: load_found stored_state_def started_state_def)
  from session_end_revokes_current [OF run st] run show ?thesis by auto
qed

text \<open>
  Detecting the policy's scope leaves no session behind: once the throwaway session is minted, the
  revocation of it is the last request, whatever else fails; the scope is only replaced by one that manages
  the origins of validated routes of that agent.
\<close>

theorem throwaway_session_revoked:
  assumes "mint_instance (env\<lparr>hk_runtime := []\<rparr>) ag (fst (new_proxy_token (hk_stamp env) (hs_world s0)))
      (snd (new_proxy_token (hk_stamp env) (hs_world s0))) = (Inr inst, w)"
    and "minted inst" and "connected env w" and "detect_policy_scope env ag s0 = (os, s')"
  shows "revocation (ks_session_id inst) (last (wd_sent (hs_world s')))
    \<and> (hs_scope s' = hs_scope s0 \<or> (\<exists>rs sc. hs_scope s' = Some sc \<and> os = Some (managed_origins rs) \<and> routes_ok rs
        \<and> agent_id (agent rs) = ag \<and> new_scope mode_selected (managed_origins rs) = Inr sc))"
proof -
  obtain os1 s1 where det: "detected_origins env ag inst (s0\<lparr>hs_world := w\<rparr>) = (os1, s1)"
    by (cases "detected_origins env ag inst (s0\<lparr>hs_world := w\<rparr>)")
  obtain r w1 where f: "fetch_session_routes env (ks_kit inst) w = (r, w1)" by (cases "fetch_session_routes env (ks_kit inst) w")
  have w1: "hs_world s1 = w1" and sc: "hs_scope s1 = hs_scope s0 \<or> (\<exists>rs sc. r = Inr rs \<and> hs_scope s1 = Some sc
      \<and> os1 = Some (managed_origins rs) \<and> agent_id (agent rs) = ag \<and> new_scope mode_selected (managed_origins rs) = Inr sc)"
    using det f by (auto simp: detected_origins_def split: sum.splits if_splits)
  obtain x s2 where rev: "revoke_step env (ks_session_id inst) s1 = (x, s2)" by (cases "revoke_step env (ks_session_id inst) s1")
  have c: "connected env (hs_world s1)" using connected_same [OF assms(3) fetch_session_routes_ok(1) [OF f]] w1 by simp
  have s': "s' = s2" "os = os1"
    using assms(1,4) det rev by (auto simp: detect_policy_scope_def split: prod.splits)
  have "hs_scope s2 = hs_scope s1" using rev by (auto simp: revoke_step_def split: prod.splits)
  with revoke_step_sends(1) [OF rev assms(2) c] sc fetch_session_routes_ok(2) [OF f] s' show ?thesis by auto
qed

end
