(* ===== verification/Go_Text.thy ===== *)
theory Go_Text
  imports Go_Net Go_Json
begin

text \<open>
  Text functions of Go's library that the configuration writers share: runes, \<open>strings.Count\<close>,
  \<open>strings.CutPrefix\<close>, lines, and \<open>strconv.Quote\<close>.
\<close>

section \<open>Runes\<close>

text \<open>Go strings are bytes; a rune is a well-formed sequence or a single bad byte.\<close>

function runes :: "string \<Rightarrow> string list" where
  "runes [] = []"
| "runes (c # s) = take (max 1 (utf8_size (c # s))) (c # s) # runes (drop (max 1 (utf8_size (c # s))) (c # s))"
  by pat_completeness auto
termination
  by (relation "measure length") auto

definition rune_text :: "string \<Rightarrow> string" where
  "rune_text r = (if utf8_size r = 0 then replacement else r)"

text \<open>
  \<open>strconv.Quote\<close>. Which of the non-ASCII runes are printable is a table of the library; it is the
  first argument.
\<close>

definition hex_escape :: "string \<Rightarrow> string" where
  "hex_escape r = [CHR 0x5C, CHR ''x''] @ hex_encode r"

definition rune_code :: "string \<Rightarrow> nat" where
  "rune_code r =
     (case r of
        [a] \<Rightarrow> byte a
      | [a, b] \<Rightarrow> (byte a - 192) * 64 + (byte b - 128)
      | [a, b, c] \<Rightarrow> (byte a - 224) * 4096 + (byte b - 128) * 64 + (byte c - 128)
      | [a, b, c, d] \<Rightarrow> (byte a - 240) * 262144 + (byte b - 128) * 4096 + (byte c - 128) * 64 + (byte d - 128)
      | _ \<Rightarrow> 0)"

definition long_escape :: "nat \<Rightarrow> string" where
  "long_escape n = [CHR 0x5C, CHR ''U'', hex_digit (n div 268435456 mod 16), hex_digit (n div 16777216 mod 16),
     hex_digit (n div 1048576 mod 16), hex_digit (n div 65536 mod 16), hex_digit (n div 4096 mod 16),
     hex_digit (n div 256 mod 16), hex_digit (n div 16 mod 16), hex_digit (n mod 16)]"

definition quote_rune :: "(string \<Rightarrow> bool) \<Rightarrow> string \<Rightarrow> string" where
  "quote_rune printable r =
     (if utf8_size r = 0 then hex_escape r
      else if r = [CHR 0x22] \<or> r = [CHR 0x5C] then CHR 0x5C # r
      else if rune_code r < 128 \<and> 32 \<le> rune_code r \<and> rune_code r \<noteq> 127 then r
      else if 128 \<le> rune_code r \<and> printable r then r
      else if r = [CHR 0x07] then [CHR 0x5C, CHR ''a''] else if r = [CHR 0x08] then [CHR 0x5C, CHR ''b'']
      else if r = [CHR 0x0C] then [CHR 0x5C, CHR ''f''] else if r = [CHR 0x0A] then [CHR 0x5C, CHR ''n'']
      else if r = [CHR 0x0D] then [CHR 0x5C, CHR ''r''] else if r = [CHR 0x09] then [CHR 0x5C, CHR ''t'']
      else if r = [CHR 0x0B] then [CHR 0x5C, CHR ''v'']
      else if rune_code r < 32 \<or> rune_code r = 127 then hex_escape r
      else if rune_code r < 65536 then u_escape (rune_code r) else long_escape (rune_code r))"

definition go_quote :: "(string \<Rightarrow> bool) \<Rightarrow> string \<Rightarrow> string" where
  "go_quote printable s = CHR 0x22 # concat (map (quote_rune printable) (runes s)) @ [CHR 0x22]"

section \<open>Searching\<close>

text \<open>\<open>strings.Count\<close> of a non-empty text: disjoint occurrences, from the left.\<close>

function count_text :: "string \<Rightarrow> string \<Rightarrow> nat" where
  "count_text p [] = 0"
| "count_text p (c # s) =
     (if p \<noteq> [] \<and> has_prefix (c # s) p then Suc (count_text p (drop (length p) (c # s))) else count_text p s)"
  by pat_completeness auto
termination
  by (relation "measure (length \<circ> snd)") (auto simp: has_prefix_def)

definition cut_prefix :: "string \<Rightarrow> string \<Rightarrow> string option" where
  "cut_prefix s p = (if has_prefix s p then Some (drop (length p) s) else None)"

lemma cut_prefix_eq: "cut_prefix s p = Some t \<longleftrightarrow> s = p @ t"
  by (auto simp: cut_prefix_def has_prefix_iff)

section \<open>Lines\<close>

text \<open>\<open>strings.ReplaceAll(s, "\r\n", "\n")\<close>\<close>

fun unix_lines :: "string \<Rightarrow> string" where
  "unix_lines [] = []"
| "unix_lines [c] = [c]"
| "unix_lines (c # d # s) =
     (if c = CHR 0x0D \<and> d = CHR 0x0A then CHR 0x0A # unix_lines s else c # unix_lines (d # s))"

definition newline :: char where "newline = CHR 0x0A"

text \<open>\<open>strings.TrimRight(s, "\n")\<close>\<close>

definition trim_newlines :: "string \<Rightarrow> string" where
  "trim_newlines s = rev (dropWhile (\<lambda>c. c = newline) (rev s))"

lemma split_on_line: "d \<notin> set l \<Longrightarrow> split_on d (l @ d # s) = l # split_on d s"
  by (induction l) auto

lemma split_on_last: "d \<notin> set l \<Longrightarrow> split_on d l = [l]"
  by (induction l) auto

lemma trim_newlines_newline [simp]: "trim_newlines (s @ [newline]) = trim_newlines s"
  by (simp add: trim_newlines_def)

lemma trim_newlines_line: "l \<noteq> [] \<Longrightarrow> newline \<notin> set l \<Longrightarrow> trim_newlines (s @ l) = s @ l"
  by (cases l rule: rev_cases) (auto simp: trim_newlines_def)

section \<open>Trimming\<close>

text \<open>A byte that no white space contains; trimming stops at it.\<close>

definition ink :: "char \<Rightarrow> bool" where
  "ink c = list_all (\<lambda>w. c \<notin> set w) go_spaces"

lemma trim_loop_ink:
  assumes "list_all (\<lambda>w. c \<notin> set w) ws"
  shows "\<exists>a'. trim_loop n ws (a @ c # b) = a' @ c # b \<and> (a = [] \<longrightarrow> a' = [])"
proof (induction n arbitrary: a)
  case (Suc n)
  show ?case
  proof (cases "find (\<lambda>w. w \<noteq> [] \<and> has_prefix (a @ c # b) w) ws")
    case (Some w)
    then have w: "w \<in> set ws" "w \<noteq> []" "has_prefix (a @ c # b) w" by (auto simp: find_Some_iff)
    with assms have "c \<notin> set w" by (auto simp: list_all_iff)
    with w(3) have "length w \<le> length a"
      by (auto simp: has_prefix_iff append_eq_append_conv2 Cons_eq_append_conv)
    moreover from this w(2) have "a \<noteq> []" by auto
    ultimately show ?thesis using Suc.IH [of "drop (length w) a"] Some by auto
  qed auto
qed auto

lemma ink_rev: "ink c \<Longrightarrow> list_all (\<lambda>w. c \<notin> set w) (map rev go_spaces)"
  by (simp add: ink_def list_all_iff)

lemma trim_left_ink: "ink c \<Longrightarrow> trim_left_of go_spaces (c # s) = c # s"
  using trim_loop_ink [of c go_spaces "Suc (length s)" "[]" s] by (simp add: ink_def trim_left_of_def)

lemma trim_right_ink:
  assumes "ink c"
  shows "\<exists>t. rev (trim_left_of (map rev go_spaces) (rev (s @ c # b))) = s @ c # t \<and> (b = [] \<longrightarrow> t = [])"
proof -
  obtain a' where "trim_loop (length (s @ c # b)) (map rev go_spaces) (rev b @ c # rev s) = a' @ c # rev s"
    and "rev b = [] \<longrightarrow> a' = []"
    using trim_loop_ink [OF ink_rev [OF assms]] by blast
  then have "rev (trim_left_of (map rev go_spaces) (rev (s @ c # b))) = s @ c # rev a' \<and> (b = [] \<longrightarrow> rev a' = [])"
    unfolding trim_left_of_def by (simp del: trim_loop.simps add: add.commute)
  then show ?thesis by blast
qed

text \<open>Text that begins with ink keeps its beginning up to any ink, and all of it if it ends in ink.\<close>

lemma trim_space_keeps:
  assumes "ink (hd (s @ [c]))" and "ink c"
  shows "\<exists>t. trim_space (s @ c # b) = s @ c # t \<and> (b = [] \<longrightarrow> t = [])"
proof -
  obtain d u where du: "s @ [c] = d # u" by (cases s) auto
  then have "s @ c # b = d # (u @ b)" by (cases s) auto
  moreover have "trim_left_of go_spaces (d # (u @ b)) = d # (u @ b)" using assms(1) du trim_left_ink by simp
  ultimately have "trim_left_of go_spaces (s @ c # b) = s @ c # b" by (simp only:)
  then show ?thesis using trim_right_ink [OF assms(2), of s b] unfolding trim_space_def by simp
qed

lemma trim_space_ink: "s \<noteq> [] \<Longrightarrow> ink (hd s) \<Longrightarrow> ink (last s) \<Longrightarrow> trim_space s = s"
  using trim_space_keeps [of "butlast s" "last s" "[]"] by auto

lemma trim_space_blank: "trim_space (CHR 0x20 # s) = trim_space s"
proof -
  have "find (\<lambda>w. w \<noteq> [] \<and> has_prefix (CHR 0x20 # s) w) go_spaces = Some [CHR 0x20]" by (simp add: go_spaces_def)
  then have "trim_left_of go_spaces (CHR 0x20 # s) = trim_left_of go_spaces s" by (simp add: trim_left_of_def)
  then show ?thesis by (simp add: trim_space_def)
qed

lemma slug_ink: "is_lower c \<or> is_digit c \<or> c = CHR ''-'' \<Longrightarrow> ink c"
proof -
  have "list_all (\<lambda>w. list_all (\<lambda>d. \<not> (is_lower d \<or> is_digit d \<or> d = CHR ''-'')) w) go_spaces" by code_simp
  then show "is_lower c \<or> is_digit c \<or> c = CHR ''-'' \<Longrightarrow> ink c"
    by (auto simp: ink_def list_all_iff)
qed

end
