(* ===== verification/Pre_Tool.thy ===== *)
theory Pre_Tool
  imports Session_Hook Go_Text
begin

text \<open>
  \<^verbatim>\<open>internal/cli/pretool.go\<close> and \<^verbatim>\<open>internal/cli/denial_box.go\<close>: the hook that a coding tool
  runs before a shell command. It reads the command from its input, asks the control plane, waits for an
  approval where one is asked for, and answers in the tool's own form. Both tools let a command run when a
  hook fails, so every failure must be an explicit denial. Lemmas: the hook always answers, allows only what
  the control plane allowed for this very command, and in which form.
\<close>

section \<open>The payload\<close>

definition pre_tool_use_timeout :: int where "pre_tool_use_timeout = 5 * second"
definition approval_wait_timeout :: int where "approval_wait_timeout = 10 * minute"
definition max_hook_input_bytes :: int where "max_hook_input_bytes = 10 * 1024 * 1024"
definition commands_authorize_path :: string where "commands_authorize_path = ''/v1/runtime/commands/authorize''"

datatype hook_harness = Harness_Claude | Harness_Codex

record pre_tool_input =
  pi_session_id :: string
  pi_tool_name :: string
  pi_cwd :: string
  pi_command :: string

definition zero_input :: pre_tool_input where
  "zero_input = \<lparr>pi_session_id = [], pi_tool_name = [], pi_cwd = [], pi_command = []\<rparr>"

definition input_fields :: "json \<Rightarrow> pre_tool_input \<Rightarrow> pre_tool_input result" where
  "input_fields = decode_struct False
     [(''session_id'', dec_string (\<lambda>v r. r\<lparr>pi_session_id := v\<rparr>)), (''tool_name'', dec_string (\<lambda>v r. r\<lparr>pi_tool_name := v\<rparr>)),
      (''cwd'', dec_string (\<lambda>v r. r\<lparr>pi_cwd := v\<rparr>)),
      (''tool_input'', decode_struct False [(''command'', dec_string (\<lambda>v r. r\<lparr>pi_command := v\<rparr>))])]"

definition decode_payload :: "string \<Rightarrow> pre_tool_input option" where
  "decode_payload raw =
     (if \<not> is_ok (reject_duplicate_json_keys raw) then None
      else case parse_json raw of None \<Rightarrow> None
      | Some j \<Rightarrow> (case input_fields j zero_input of Inl _ \<Rightarrow> None | Inr i \<Rightarrow> Some i))"

text \<open>The environment variables, and which session they and the payload name.\<close>

record hook_vars =
  hv_session :: string
  hv_owner :: string
  hv_desktop :: string

definition session_owner_run :: string where "session_owner_run = ''keydris-run''"

definition desktop_session_id :: "hook_vars \<Rightarrow> string" where
  "desktop_session_id v = (if hv_owner v = session_owner_run then [] else hv_desktop v)"

definition resolve_hook_session_id :: "hook_vars \<Rightarrow> hook_harness \<Rightarrow> string \<Rightarrow> string" where
  "resolve_hook_session_id v harness payload_id =
     (if harness = Harness_Codex \<or> hv_owner v = session_owner_run then hv_session v
      else if desktop_session_id v \<noteq> [] then desktop_session_id v
      else if payload_id \<noteq> [] then payload_id else hv_session v)"

section \<open>Asking the control plane\<close>

definition command_body :: "string \<Rightarrow> pre_tool_input \<Rightarrow> string" where
  "command_body rid i = json_object
     [(''command'', quote (pi_command i)), (''cwd'', quote (pi_cwd i)), (''request_id'', quote rid),
      (''schema_version'', ''1''), (''tool_name'', quote (pi_tool_name i))]"

text \<open>\<open>authorizeCommandOnce\<close>: the URL is only parsed, and the transport refuses what it cannot speak.\<close>

definition command_request :: "string \<Rightarrow> string \<Rightarrow> string \<Rightarrow> http_request result" where
  "command_request base kit body =
     (case parse_url (base @ commands_authorize_path) of
        None \<Rightarrow> Inl ''parse authorize URL''
      | Some u \<Rightarrow>
          if u_scheme u \<notin> {''http'', ''https''} \<or> u_host u = [] then Inl ''unsupported protocol scheme''
          else Inr \<lparr>hq_method = ''POST'', hq_url = u, hq_headers = json_headers kit, hq_body = body\<rparr>)"

definition authorize_command_once :: "string \<Rightarrow> string \<Rightarrow> string \<Rightarrow> string \<Rightarrow> decision_response io" where
  "authorize_command_once base kit rid body w =
     (let c = with_timeout None pre_tool_use_timeout w in
      io_bind (io_lift (\<lambda>_. command_request base kit body)) (\<lambda>rq.
      io_bind (client_do c rq) (\<lambda>(st, rd). io_lift (\<lambda>_.
        if st < 200 \<or> 300 \<le> st then Inl (''authorize endpoint '' @ itoa st)
        else bind_result (decode_decision_response rd) (\<lambda>out.
          if dr_request_id out \<noteq> rid then Inl ''authorize response request id does not match'' else Inr out)))) w)"

definition authorize_command_with_client ::
  "(int \<Rightarrow> string) \<Rightarrow> string \<Rightarrow> string \<Rightarrow> pre_tool_input \<Rightarrow> world \<Rightarrow> (decision_response result \<times> world) option" where
  "authorize_command_with_client stamp base kit i w0 =
     (case new_proxy_token stamp w0 of (tok, w) \<Rightarrow>
        let rid = ''cli-'' @ tok; body = command_body rid i in
        case authorize_command_once base kit rid body w of
          (Inl e, w1) \<Rightarrow> Some (Inl e, w1)
        | (Inr out, w1) \<Rightarrow>
            if dr_decision out \<noteq> ''approval_required'' then Some (Inr out, w1)
            else (case wait_for_approval (with_timeout None approval_wait_timeout w1) base kit rid w1 of
                None \<Rightarrow> None
              | Some (Inl e, w2) \<Rightarrow> Some (Inl e, w2)
              | Some (Inr _, w2) \<Rightarrow> Some (authorize_command_once base kit rid body w2)))"

definition authorize_command ::
  "'d hook_env \<Rightarrow> string \<Rightarrow> pre_tool_input \<Rightarrow> world \<Rightarrow> (decision_response result \<times> world) option" where
  "authorize_command env kit i w =
     (case hk_mtls env w of
        Inl e \<Rightarrow> Some (Inl e, w)
      | Inr _ \<Rightarrow> authorize_command_with_client (hk_stamp env) (hk_base env) kit i w)"

section \<open>The denial box\<close>

definition truncate_command_for_box :: "string \<Rightarrow> nat \<Rightarrow> string" where
  "truncate_command_for_box command max_runes =
     (if length (runes command) \<le> max_runes then command
      else concat (map rune_text (take (max_runes - 1) (runes command))) @ [CHR 0xE2, CHR 0x80, CHR 0xA6])"

definition denial_box_reason_code :: string where "denial_box_reason_code = ''keydris_policy_denied''"
definition denial_box_min_content_width :: nat where "denial_box_min_content_width = 44"
definition denial_box_max_command_runes :: nat where "denial_box_max_command_runes = 60"

definition denial_box_border :: "nat \<Rightarrow> string \<Rightarrow> string \<Rightarrow> string" where
  "denial_box_border width left right =
     left @ concat (replicate (width + 4) [CHR 0xE2, CHR 0x95, CHR 0x90]) @ right @ [CHR 0x0A]"

definition denial_box_row :: "nat \<Rightarrow> string \<Rightarrow> string" where
  "denial_box_row width row =
     [CHR 0xE2, CHR 0x95, CHR 0x91] @ ''  '' @ row @ replicate (width - length (runes row)) (CHR 0x20) @ ''  ''
     @ [CHR 0xE2, CHR 0x95, CHR 0x91, CHR 0x0A]"

definition denial_rows :: "string \<Rightarrow> string \<Rightarrow> string list" where
  "denial_rows command reason =
     [[CHR 0xE2, CHR 0x9B, CHR 0x94] @ ''  COMMAND DENIED'', [],
      ''Command : '' @ truncate_command_for_box command denial_box_max_command_runes,
      ''Policy  : '' @ reason,
      ''Source  : Keydris policy service'',
      ''Result  : blocked before execution'',
      ''Next    : report the reason; continue permitted work'',
      ''          Do not retry the denied effect through another route.'']"

definition format_policy_denial_box :: "string \<Rightarrow> string \<Rightarrow> string" where
  "format_policy_denial_box command reason =
     (let rows = denial_rows command reason;
          width = foldl max denial_box_min_content_width (map (length \<circ> runes) rows)
      in trim_suffix (denial_box_border width [CHR 0xE2, CHR 0x95, CHR 0x94] [CHR 0xE2, CHR 0x95, CHR 0x97]
           @ denial_box_row width [] @ concat (map (denial_box_row width) rows) @ denial_box_row width []
           @ denial_box_border width [CHR 0xE2, CHR 0x95, CHR 0x9A] [CHR 0xE2, CHR 0x95, CHR 0x9D]) [CHR 0x0A])"

section \<open>The verdict\<close>

definition command_verdict :: "string \<Rightarrow> string \<Rightarrow> string \<Rightarrow> string \<times> string" where
  "command_verdict dec reason0 command =
     (if dec = ''allow'' then (''allow'', ''keydris: allowed by policy'')
      else if dec = ''approval_required'' then (''deny'', ''keydris: approval was not resolved'')
      else let reason = (if reason0 = [] then dec else reason0) in
        if reason = denial_box_reason_code then (''deny'', format_policy_denial_box command reason)
        else (''deny'', ''keydris: denied by policy ('' @ reason @ '')''))"

text \<open>
  \<open>decidePreToolUse\<close>: the daemon's current credential is preferred to the stored one, which serves
  when the daemon cannot be asked.
\<close>

definition hook_kit :: "'d hook_env \<Rightarrow> string \<Rightarrow> session_state \<Rightarrow> 'd \<Rightarrow> string result \<times> 'd" where
  "hook_kit env sid st d =
     (case lookup_registered env (st_handle st) d of
        (Inl _, d1) \<Rightarrow> (Inr (st_kit st), d1)
      | (Inr current, d1) \<Rightarrow>
          if sn_session_id current \<noteq> sid then (Inl ''keydris: daemon session does not match the hook session'', d1)
          else (Inr (sn_svid current), d1))"

definition decide_command ::
  "'d hook_env \<Rightarrow> string \<Rightarrow> pre_tool_input \<Rightarrow> 'd hook_state \<Rightarrow> ((string \<times> string) \<times> 'd hook_state) option" where
  "decide_command env sid i s =
     (case load_state sid (hs_durable s) of
        Inl _ \<Rightarrow> Some ((''deny'', ''keydris: no active Keydris session (run inside `keydris`-configured tooling)''), s)
      | Inr st \<Rightarrow>
          if st_kit st = []
          then Some ((''deny'', ''keydris: no active Keydris session (run inside `keydris`-configured tooling)''), s)
          else (case hook_kit env sid st (hs_daemon s) of
              (Inl e, d1) \<Rightarrow> Some ((''deny'', e), s\<lparr>hs_daemon := d1\<rparr>)
            | (Inr kit, d1) \<Rightarrow>
                (case authorize_command env kit i (hs_world s) of
                   None \<Rightarrow> None
                 | Some (Inl e, w) \<Rightarrow> Some ((''deny'', ''keydris: command authorization unavailable: '' @ e),
                     s\<lparr>hs_daemon := d1, hs_world := w\<rparr>)
                 | Some (Inr out, w) \<Rightarrow> Some (command_verdict (dr_decision out) (dr_reason_code out) (pi_command i),
                     s\<lparr>hs_daemon := d1, hs_world := w\<rparr>))))"

definition decide_pre_tool_use ::
  "'d hook_env \<Rightarrow> hook_vars \<Rightarrow> hook_harness \<Rightarrow> reader \<Rightarrow> 'd hook_state \<Rightarrow> ((string \<times> string) \<times> 'd hook_state) option" where
  "decide_pre_tool_use env v harness stdin s =
     (case stdin of
        Inl _ \<Rightarrow> Some ((''deny'', ''keydris: could not read the hook payload''), s)
      | Inr raw \<Rightarrow>
          if max_hook_input_bytes < int (length raw)
          then Some ((''deny'', ''keydris: hook payload exceeds the size limit''), s)
          else case decode_payload raw of
            None \<Rightarrow> Some ((''deny'', ''keydris: invalid hook payload''), s)
          | Some i \<Rightarrow>
              let sid = resolve_hook_session_id v harness (pi_session_id i) in
              if trim_space (pi_command i) = [] then Some ((''deny'', ''keydris: hook payload carries no command''), s)
              else if sid = [] then Some ((''deny'', ''keydris: no session in the hook payload''), s)
              else if \<not> is_ok (validate_id sid) then Some ((''deny'', ''keydris: invalid session id''), s)
              else decide_command env sid i s)"

section \<open>Answering the tool\<close>

definition pre_tool_verdict_line :: "string \<Rightarrow> string \<Rightarrow> string" where
  "pre_tool_verdict_line verdict reason =
     json_object [(''hookSpecificOutput'', json_object [(''hookEventName'', quote ''PreToolUse''),
       (''permissionDecision'', quote verdict), (''permissionDecisionReason'', quote reason)])] @ [CHR 0x0A]"

definition codex_command_verdict :: "string \<Rightarrow> string \<Rightarrow> string \<times> string" where
  "codex_command_verdict verdict reason0 =
     (if verdict = ''allow'' then (verdict, reason0)
      else let reason1 = (if verdict = ''ask''
             then ''keydris: this command requires policy approval; Codex cannot reliably request that approval, so execution is blocked''
             else reason0)
        in (''deny'', if reason1 = [] then ''keydris: command authorization did not return an allow decision'' else reason1))"

definition codex_pre_tool_output :: "string \<Rightarrow> string \<Rightarrow> string" where
  "codex_pre_tool_output verdict0 reason0 =
     (case codex_command_verdict verdict0 reason0 of
        (verdict, reason) \<Rightarrow> if verdict = ''deny'' then pre_tool_verdict_line verdict reason else [])"

definition codex_permission_output :: "string \<Rightarrow> string \<Rightarrow> string" where
  "codex_permission_output verdict0 reason0 =
     (case codex_command_verdict verdict0 reason0 of
        (verdict, reason) \<Rightarrow>
          json_object [(''hookSpecificOutput'', json_object [
            (''decision'', json_object ((''behavior'', quote verdict) # omit_if (verdict \<noteq> ''deny'') ''message'' (quote reason))),
            (''hookEventName'', quote ''PermissionRequest'')])] @ [CHR 0x0A])"

text \<open>\<open>runPreToolUse\<close> and \<open>runPermissionRequest\<close>: what they print; both always exit 0.\<close>

definition run_pre_tool_use ::
  "'d hook_env \<Rightarrow> hook_vars \<Rightarrow> hook_harness \<Rightarrow> reader \<Rightarrow> 'd hook_state \<Rightarrow> (string \<times> 'd hook_state) option" where
  "run_pre_tool_use env v harness stdin s =
     map_option (\<lambda>((verdict, reason), s1). (if harness = Harness_Codex then codex_pre_tool_output verdict reason
        else pre_tool_verdict_line verdict reason, s1)) (decide_pre_tool_use env v harness stdin s)"

definition run_permission_request ::
  "'d hook_env \<Rightarrow> hook_vars \<Rightarrow> reader \<Rightarrow> 'd hook_state \<Rightarrow> (string \<times> 'd hook_state) option" where
  "run_permission_request env v stdin s =
     map_option (\<lambda>((verdict, reason), s1). (codex_permission_output verdict reason, s1))
       (decide_pre_tool_use env v Harness_Codex stdin s)"

section \<open>One call\<close>

text \<open>An answered authorization: the one request sent, and the validated decision in the reply to it.\<close>

definition command_decided :: "string \<Rightarrow> string \<Rightarrow> string \<Rightarrow> string \<Rightarrow> world \<Rightarrow> world \<Rightarrow> decision_response \<Rightarrow> bool" where
  "command_decided base kit rid body w w1 out \<longleftrightarrow> (\<exists>rq lat status raw. command_request base kit body = Inr rq
     \<and> wd_sent w1 = wd_sent w @ [rq] \<and> wd_calls w1 = Suc (wd_calls w) \<and> wd_reply w (wd_calls w) = Reply lat status (Inr raw)
     \<and> 200 \<le> status \<and> status < 300 \<and> decode_decision_response (Inr raw) = Inr out \<and> dr_request_id out = rid)"

lemma once_decided:
  assumes "authorize_command_once base kit rid body w = (Inr out, w1)"
  shows "command_decided base kit rid body w w1 out"
proof -
  from assms obtain rq st rd where rq: "command_request base kit body = Inr rq"
    and call: "client_do (with_timeout None pre_tool_use_timeout w) rq w = (Inr (st, rd), w1)"
    and ok: "\<not> (st < 200 \<or> 300 \<le> st)" "decode_decision_response rd = Inr out" "dr_request_id out = rid"
    by (auto simp: authorize_command_once_def io_lift_def case_prod_unfold elim!: io_bind_cases split: if_splits)
  from ok(2) obtain raw where "rd = Inr raw" by (cases rd) (auto simp: decode_decision_response_def read_bounded_def)
  with call rq ok show ?thesis
    by (auto simp: command_decided_def client_do_def Let_def split: if_splits reply.splits)
qed

lemma once_world:
  assumes "authorize_command_once base kit rid body w = (r, w1)"
  shows "evolves (\<lambda>_. True) w w1" and "wd_now w1 \<le> wd_now w + 5 * second"
proof -
  let ?c = "with_timeout None pre_tool_use_timeout w"
  have "w1 = w \<or> (\<exists>rq. w1 = snd (client_do ?c rq w))"
  proof (cases "command_request base kit body")
    case Inl
    with assms show ?thesis by (simp add: authorize_command_once_def io_lift_def io_bind_def)
  next
    case (Inr rq)
    obtain r1 w2 where call: "client_do ?c rq w = (r1, w2)" by (cases "client_do ?c rq w")
    from assms have "w1 = w2"
      unfolding authorize_command_once_def io_lift_def io_bind_def Let_def Inr call
      by (cases r1) (auto simp: call split: prod.splits)
    then have "w1 = snd (client_do ?c rq w)" using call by simp
    then show ?thesis by blast
  qed
  moreover have "evolves (\<lambda>_. True) w (snd (client_do ?c rq w))" for rq by (rule evolves_client_do) simp
  moreover have "wd_now (snd (client_do ?c rq w)) \<le> wd_now w + 5 * second" for rq
    by (auto simp: client_do_def Let_def with_timeout_def ctx_done_def pre_tool_use_timeout_def second_def split: reply.splits)
  ultimately show "evolves (\<lambda>_. True) w w1" "wd_now w1 \<le> wd_now w + 5 * second"
    by (auto simp: evolves_refl second_def)
qed

text \<open>The whole authorization: it returns within 610 seconds, and a decision is in the last reply read.\<close>

definition last_decided :: "string \<Rightarrow> string \<Rightarrow> pre_tool_input \<Rightarrow> world \<Rightarrow> world \<Rightarrow> decision_response \<Rightarrow> bool" where
  "last_decided base kit i w w' out \<longleftrightarrow> (\<exists>rid rq n lat status raw. command_request base kit (command_body rid i) = Inr rq
     \<and> wd_sent w' \<noteq> [] \<and> last (wd_sent w') = rq \<and> wd_calls w' = Suc n \<and> wd_reply w n = Reply lat status (Inr raw)
     \<and> 200 \<le> status \<and> status < 300 \<and> decode_decision_response (Inr raw) = Inr out \<and> dr_request_id out = rid)"

lemma decided_last:
  assumes "command_decided base kit rid (command_body rid i) w1 w' out" and "wd_reply w1 = wd_reply w"
  shows "last_decided base kit i w w' out"
  using assms unfolding command_decided_def last_decided_def by fastforce

lemma authorize_outcome:
  "\<exists>r w'. authorize_command_with_client stamp base kit i w = Some (r, w')
     \<and> wd_now w' \<le> wd_now w + 610 * second \<and> (\<forall>out. r = Inr out \<longrightarrow> last_decided base kit i w w' out)"
proof -
  obtain tok w0 where tok: "new_proxy_token stamp w = (tok, w0)" by (cases "new_proxy_token stamp w")
  then have w0: "wd_now w0 = wd_now w" "wd_reply w0 = wd_reply w" by (auto simp: new_proxy_token_def split: option.splits)
  let ?rid = "''cli-'' @ tok"
  let ?body = "command_body ?rid i"
  obtain r1 w1 where one: "authorize_command_once base kit ?rid ?body w0 = (r1, w1)"
    by (cases "authorize_command_once base kit ?rid ?body w0")
  have n1: "wd_now w1 \<le> wd_now w + 5 * second" using once_world(2) [OF one] w0(1) by simp
  have r1: "wd_reply w1 = wd_reply w" using evolves_env [OF once_world(1) [OF one]] w0(2) by simp
  show ?thesis
  proof (cases "\<exists>out. r1 = Inr out \<and> dr_decision out = ''approval_required''")
    case False
    have "\<forall>out. r1 = Inr out \<longrightarrow> last_decided base kit i w w1 out"
      using decided_last [OF once_decided w0(2)] one by blast
    moreover have "authorize_command_with_client stamp base kit i w = Some (r1, w1)"
      using False tok one by (auto simp: authorize_command_with_client_def Let_def split: sum.split)
    moreover have "wd_now w1 \<le> wd_now w + 610 * second" using n1 by (simp add: second_def)
    ultimately show ?thesis by blast
  next
    case True
    then obtain out1 where out1: "r1 = Inr out1" "dr_decision out1 = ''approval_required''" by blast
    have c: "with_timeout None approval_wait_timeout w1 = Some (wd_now w1 + 600 * second)"
      by (simp add: with_timeout_def approval_wait_timeout_def minute_def second_def)
    obtain rw w2 where wait: "wait_for_approval (with_timeout None approval_wait_timeout w1) base kit ?rid w1 = Some (rw, w2)"
      using wait_for_approval_returns c by metis
    have n2: "wd_now w2 \<le> wd_now w1 + 600 * second"
      using wait_for_approval_time wait c by (fastforce simp: second_def)
    have r2: "wd_reply w2 = wd_reply w" using evolves_env [OF evolves_wait_for_approval [OF wait]] r1 by simp
    obtain r3 w3 where two: "authorize_command_once base kit ?rid ?body w2 = (r3, w3)"
      by (cases "authorize_command_once base kit ?rid ?body w2")
    have n3: "wd_now w3 \<le> wd_now w2 + 5 * second" using once_world(2) [OF two] .
    show ?thesis
    proof (cases rw)
      case (Inl e)
      then have "authorize_command_with_client stamp base kit i w = Some (Inl e, w2)"
        using tok one out1 wait by (simp add: authorize_command_with_client_def Let_def)
      moreover have "wd_now w2 \<le> wd_now w + 610 * second" using n1 n2 by (simp add: second_def)
      ultimately show ?thesis by blast
    next
      case (Inr u)
      then have "authorize_command_with_client stamp base kit i w = Some (r3, w3)"
        using tok one out1 wait two by (simp add: authorize_command_with_client_def Let_def)
      moreover have "\<forall>out. r3 = Inr out \<longrightarrow> last_decided base kit i w w3 out"
        using decided_last [OF once_decided r2] two by blast
      moreover have "wd_now w3 \<le> wd_now w + 610 * second" using n1 n2 n3 by (simp add: second_def)
      ultimately show ?thesis by blast
    qed
  qed
qed

lemma command_verdict_allow: "fst (command_verdict dec reason command) = ''allow'' \<longleftrightarrow> dec = ''allow''"
  by (simp add: command_verdict_def Let_def)

lemma command_verdict_two: "fst (command_verdict dec reason command) \<in> {''allow'', ''deny''}"
  by (simp add: command_verdict_def Let_def)

lemma command_verdict_two_pair: "command_verdict dec reason command = (verdict, told) \<Longrightarrow> verdict \<noteq> ''allow'' \<Longrightarrow> verdict = ''deny''"
  using command_verdict_two by (metis fst_conv insertE singletonD)

lemma once_sends:
  assumes "command_request base kit body = Inr rq"
  shows "wd_sent (snd (authorize_command_once base kit rid body w)) = wd_sent w @ [rq]"
proof -
  let ?c = "with_timeout None pre_tool_use_timeout w"
  obtain r1 w2 where call: "client_do ?c rq w = (r1, w2)" by (cases "client_do ?c rq w")
  have "snd (authorize_command_once base kit rid body w) = w2"
    unfolding authorize_command_once_def io_lift_def io_bind_def Let_def assms
    by (cases r1) (auto simp: call split: prod.splits)
  moreover have "wd_sent (snd (client_do ?c rq w)) = wd_sent w @ [rq]"
    by (auto simp: client_do_def Let_def with_timeout_def ctx_done_def pre_tool_use_timeout_def second_def split: reply.splits)
  ultimately show ?thesis by (simp add: call)
qed

lemma decided_verdict:
  assumes "decide_pre_tool_use env v harness stdin s = Some ((verdict, reason), s')"
  shows "(verdict = ''deny'' \<and> hs_world s' = hs_world s)
    \<or> (\<exists>raw i sid. stdin = Inr raw \<and> decode_payload raw = Some i \<and> sid = resolve_hook_session_id v harness (pi_session_id i)
        \<and> decide_command env sid i s = Some ((verdict, reason), s'))"
  using assms by (auto simp: decide_pre_tool_use_def Let_def split: sum.splits if_splits option.splits)

lemma authorize_ends:
  "authorize_command env kit i w \<noteq> None"
  "authorize_command env kit i w = Some (r, w') \<Longrightarrow> wd_now w' \<le> wd_now w + 610 * second"
  "authorize_command env kit i w = Some (Inr out, w') \<Longrightarrow> last_decided (hk_base env) kit i w w' out"
  using authorize_outcome [of "hk_stamp env" "hk_base env" kit i w]
  by (auto simp: authorize_command_def second_def split: sum.splits)

section \<open>Properties\<close>

text \<open>
  C1. The hook lets a command run only if the control plane allowed this very command: the payload was
  decoded, its session is one stored here, the credential is the one the daemon holds now (the stored one
  when the daemon cannot be asked), and the last request sent carries exactly this command under that
  credential and was answered 2xx by a validated decision for the same request id that says allow.
\<close>

theorem only_allowed_commands_run:
  assumes "decide_pre_tool_use env v harness stdin s = Some ((''allow'', reason), s')"
  shows "\<exists>raw i sid st kit out. stdin = Inr raw \<and> decode_payload raw = Some i
    \<and> sid = resolve_hook_session_id v harness (pi_session_id i) \<and> load_state sid (hs_durable s) = Inr st
    \<and> fst (hook_kit env sid st (hs_daemon s)) = Inr kit \<and> last_decided (hk_base env) kit i (hs_world s) (hs_world s') out
    \<and> dr_decision out = ''allow''"
proof -
  from decided_verdict [OF assms] obtain raw i sid where raw: "stdin = Inr raw" "decode_payload raw = Some i"
    and sid: "sid = resolve_hook_session_id v harness (pi_session_id i)"
    and run: "decide_command env sid i s = Some ((''allow'', reason), s')" by auto
  from run obtain st kit d1 out w where st: "load_state sid (hs_durable s) = Inr st"
    and kit: "hook_kit env sid st (hs_daemon s) = (Inr kit, d1)"
    and auth: "authorize_command env kit i (hs_world s) = Some (Inr out, w)" "w = hs_world s'"
    and verdict: "command_verdict (dr_decision out) (dr_reason_code out) (pi_command i) = (''allow'', reason)"
    by (auto simp: decide_command_def split: sum.splits if_splits prod.splits option.splits)
  have "dr_decision out = ''allow''" using command_verdict_allow verdict by (metis fst_conv)
  with raw sid st kit authorize_ends(3) [OF auth(1)] auth(2) show ?thesis
    by (intro exI [of _ raw] exI [of _ i] exI [of _ sid] exI [of _ st] exI [of _ kit] exI [of _ out]) simp
qed

definition shell_payload :: string where
  "shell_payload = json_object [(''tool_input'', json_object [(''command'', quote ''ls'')]), (''session_id'', quote ''a'')]"

definition allowed_text :: string where
  "allowed_text = json_object [(''schema_version'', ''1''), (''decision_id'', quote (''Keydris-'' @ replicate 26 (CHR ''A''))),
     (''request_id'', quote ''cli-t''), (''attempt_id'', quote (replicate 26 (CHR ''A''))),
     (''correlation_id'', quote (replicate 26 (CHR ''A''))), (''decided_at'', quote ''2000-03-01T01:00:00Z''),
     (''obligations'', ''[]''), (''decision'', quote ''allow''), (''reason_code'', quote ''keydris_policy_allowed'')]"

definition allowing_state :: "unit hook_state" where
  "allowing_state = fresh_state\<lparr>hs_durable := [(''a.json'', stored_state)],
     hs_world := minting_world\<lparr>wd_reply := (\<lambda>n. Reply 1 200 (Inr allowed_text))\<rparr>\<rparr>"

definition plain_vars :: hook_vars where
  "plain_vars = \<lparr>hv_session = [], hv_owner = [], hv_desktop = []\<rparr>"

lemma only_allowed_commands_run_witness:
  "\<exists>reason s' i out. decide_pre_tool_use refusing_env plain_vars Harness_Claude (Inr shell_payload) allowing_state = Some ((''allow'', reason), s')
     \<and> decode_payload shell_payload = Some i \<and> last_decided ''https://x.io'' ''k'' i (hs_world allowing_state) (hs_world s') out
     \<and> dr_decision out = ''allow''"
proof -
  let ?i = "zero_input\<lparr>pi_command := ''ls'', pi_session_id := ''a''\<rparr>"
  let ?once = "authorize_command_once ''https://x.io'' ''k'' ''cli-t'' (command_body ''cli-t'' ?i)
      (snd (new_proxy_token (\<lambda>_. []) (hs_world allowing_state)))"
  have payload: "decode_payload shell_payload = Some ?i" by code_simp
  have tok: "fst (new_proxy_token (\<lambda>_. []) (hs_world allowing_state)) = ''t''"
    and kit: "fst (hook_kit refusing_env ''a'' stored_state ()) = Inr ''k''"
    and id: "is_ok (validate_id ''a'')" by code_simp+
  have "case fst ?once of Inl _ \<Rightarrow> False | Inr out \<Rightarrow> dr_decision out = ''allow''" by code_simp
  then obtain out w1 where once: "?once = (Inr out, w1)" and allow: "dr_decision out = ''allow''"
    by (cases ?once; cases "fst ?once") auto
  let ?s = "allowing_state\<lparr>hs_daemon := (), hs_world := w1\<rparr>"
  have guards: "\<not> max_hook_input_bytes < int (length shell_payload)" "trim_space ''ls'' \<noteq> []" by code_simp+
  have stored: "load_state ''a'' (hs_durable allowing_state) = Inr stored_state"
    using id by (simp add: allowing_state_def load_found stored_state_def started_state_def)
  moreover have "authorize_command refusing_env ''k'' ?i (hs_world allowing_state) = Some (Inr out, w1)"
    using once tok allow
    by (cases "new_proxy_token (\<lambda>_. []) (hs_world allowing_state)")
      (simp add: authorize_command_def authorize_command_with_client_def refusing_env_def Let_def)
  moreover have "st_kit stored_state \<noteq> []" by (simp add: stored_state_def started_state_def minted_kit_def)
  moreover have "hook_kit refusing_env ''a'' stored_state (hs_daemon allowing_state) = (Inr ''k'', ())"
    using kit by (cases "hook_kit refusing_env ''a'' stored_state ()") simp
  ultimately have "decide_command refusing_env ''a'' ?i allowing_state
      = Some ((''allow'', ''keydris: allowed by policy''), ?s)"
    using allow by (simp add: decide_command_def command_verdict_def)
  then have decided: "decide_pre_tool_use refusing_env plain_vars Harness_Claude (Inr shell_payload) allowing_state
      = Some ((''allow'', ''keydris: allowed by policy''), ?s)"
    using payload guards id
    by (simp add: decide_pre_tool_use_def Let_def resolve_hook_session_id_def desktop_session_id_def plain_vars_def
        session_owner_run_def zero_input_def)
  from only_allowed_commands_run [OF decided] obtain i sid st kit' out' where used: "decode_payload shell_payload = Some i"
      "sid = resolve_hook_session_id plain_vars Harness_Claude (pi_session_id i)" "load_state sid (hs_durable allowing_state) = Inr st"
      "fst (hook_kit refusing_env sid st (hs_daemon allowing_state)) = Inr kit'"
      "last_decided (hk_base refusing_env) kit' i (hs_world allowing_state) (hs_world ?s) out'" "dr_decision out' = ''allow''" by auto
  from used(1) payload have i: "i = ?i" by simp
  with used(2) have sid: "sid = ''a''"
    by (simp add: resolve_hook_session_id_def desktop_session_id_def plain_vars_def session_owner_run_def zero_input_def)
  from sid used(3,4) stored kit have "kit' = ''k''" by simp
  with used i have "last_decided ''https://x.io'' ''k'' ?i (hs_world allowing_state) (hs_world ?s) out'"
    by (simp add: refusing_env_def)
  with decided payload used(6) show ?thesis by blast
qed


text \<open>
  C32. The hook does not check the scheme of the control plane's address: a plain-text one that every other
  client of the control plane refuses is sent the session's credential.
\<close>

theorem kit_sent_in_cleartext:
  "\<not> is_ok (base_url False ''http://a.io'')
    \<and> (\<exists>rq. wd_sent (snd (authorize_command_once ''http://a.io'' kit rid body w)) = wd_sent w @ [rq]
      \<and> u_scheme (hq_url rq) = ''http'' \<and> hq_headers rq = json_headers kit)"
proof -
  have refused: "\<not> is_ok (base_url False ''http://a.io'')" by code_simp
  have "case parse_url (''http://a.io'' @ commands_authorize_path) of None \<Rightarrow> False
    | Some u \<Rightarrow> u_scheme u = ''http'' \<and> u_host u \<noteq> []" by code_simp
  then obtain u where u: "parse_url (''http://a.io'' @ commands_authorize_path) = Some u" "u_scheme u = ''http''" "u_host u \<noteq> []"
    by (auto split: option.splits)
  let ?rq = "\<lparr>hq_method = ''POST'', hq_url = u, hq_headers = json_headers kit, hq_body = body\<rparr>"
  have "command_request ''http://a.io'' kit body = Inr ?rq" using u by (simp add: command_request_def)
  with once_sends [OF this] u(2) refused show ?thesis by auto
qed

end
