(* ===== verification/Codex_Config.thy ===== *)
theory Codex_Config
  imports Go_Text Runtime_Routes
begin

text \<open>
  \<^verbatim>\<open>internal/node/sandbox/codexmcp.go\<close>: the MCP servers of a policy in Codex's
  \<^verbatim>\<open>config.toml\<close>, a file the user owns, edited as text: only the tables of the governed servers,
  one feature flag and one marker comment are replaced. Lemmas: what stays of the user's tables, what is
  written, and that writing twice is writing once.
\<close>

section \<open>Lines\<close>

definition codex_managed_marker :: string where "codex_managed_marker = ''# keydris-managed-mcp-servers:''"
definition codex_features_table :: string where "codex_features_table = ''features''"
definition codex_rmcp_key :: string where "codex_rmcp_key = ''experimental_use_rmcp_client''"
definition codex_server_prefix :: string where "codex_server_prefix = ''mcp_servers.''"

text \<open>\<open>stripLineComment\<close>; the first argument is the open quote.\<close>

fun strip_comment :: "char option \<Rightarrow> string \<Rightarrow> string" where
  "strip_comment q [] = []"
| "strip_comment (Some d) (c # s) = c # strip_comment (if c = d then None else Some d) s"
| "strip_comment None (c # s) =
     (if c = CHR 0x22 \<or> c = CHR 0x27 then c # strip_comment (Some c) s
      else if c = CHR ''#'' then [] else c # strip_comment None s)"

definition strip_line_comment :: "string \<Rightarrow> string" where
  "strip_line_comment line = strip_comment None line"

definition unquote_key :: "string \<Rightarrow> string" where
  "unquote_key part = trim_set [CHR 0x22, CHR 0x27] (trim_space part)"

definition table_header_key :: "string \<Rightarrow> string option" where
  "table_header_key line =
     (let trimmed = trim_space (strip_line_comment line) in
      if \<not> has_prefix trimmed ''['' \<or> \<not> has_suffix trimmed '']'' \<or> has_prefix trimmed ''[['' then None
      else let inner = trim_space (butlast (tl trimmed)) in
        if inner = [] then None
        else Some (join_with ''.'' (map unquote_key (split_on (CHR ''.'') inner))))"

definition bare_key_of :: "string \<Rightarrow> string" where
  "bare_key_of line =
     (case cut_at (CHR ''='') (strip_line_comment line) of (key, _, found) \<Rightarrow> if found then unquote_key key else [])"

definition multiline_delimiters :: "string list" where
  "multiline_delimiters = [replicate 3 (CHR 0x22), replicate 3 (CHR 0x27)]"

definition open_multiline_delimiter :: "string \<Rightarrow> string" where
  "open_multiline_delimiter line =
     (case find (\<lambda>d. count_text d line mod 2 = 1) multiline_delimiters of None \<Rightarrow> [] | Some d \<Rightarrow> d)"

section \<open>The document\<close>

record toml_section =
  ts_key :: string
  ts_header :: string
  ts_body :: "string list"

type_synonym toml_document = "toml_section list"

definition preamble :: toml_section where
  "preamble = \<lparr>ts_key = [], ts_header = [], ts_body = []\<rparr>"

definition add_line :: "string \<Rightarrow> toml_section \<Rightarrow> toml_section" where
  "add_line line s = s\<lparr>ts_body := ts_body s @ [line]\<rparr>"

text \<open>The loop of \<open>readTOMLDocument\<close>: the section being read, the open delimiter, the lines left.\<close>

fun read_sections :: "toml_section \<Rightarrow> string \<Rightarrow> string list \<Rightarrow> toml_document" where
  "read_sections cur opened [] = [cur]"
| "read_sections cur opened (line # ls) =
     (if opened \<noteq> [] then read_sections (add_line line cur) (if contains line opened then [] else opened) ls
      else case table_header_key line of
          Some key \<Rightarrow> cur # read_sections \<lparr>ts_key = key, ts_header = line, ts_body = []\<rparr> (open_multiline_delimiter line) ls
        | None \<Rightarrow> read_sections (add_line line cur) (open_multiline_delimiter line) ls)"

definition parse_toml_document :: "string \<Rightarrow> toml_document" where
  "parse_toml_document text_data = read_sections preamble [] (split_on newline (unix_lines text_data))"

text \<open>A file: absent or its text; reading may fail for another reason.\<close>

definition read_toml_document :: "string option \<Rightarrow> string option \<Rightarrow> toml_document result" where
  "read_toml_document fault file =
     (case fault of Some e \<Rightarrow> Inl e
      | None \<Rightarrow> (case file of None \<Rightarrow> Inr [preamble] | Some t \<Rightarrow> Inr (parse_toml_document t)))"

section \<open>Editing\<close>

definition server_name :: "toml_section \<Rightarrow> string option" where
  "server_name s = cut_prefix (ts_key s) codex_server_prefix"

definition is_server_of :: "string list \<Rightarrow> toml_section \<Rightarrow> bool" where
  "is_server_of names s = (case server_name s of None \<Rightarrow> False | Some n \<Rightarrow> n \<in> set names)"

definition remove_server_sections :: "string list \<Rightarrow> toml_document \<Rightarrow> toml_document" where
  "remove_server_sections names d = filter (\<lambda>s. \<not> is_server_of names s) d"

fun replace_first :: "(string \<Rightarrow> bool) \<Rightarrow> string \<Rightarrow> string list \<Rightarrow> string list" where
  "replace_first p new [] = []"
| "replace_first p new (l # ls) = (if p l then new # ls else l # replace_first p new ls)"

fun drop_first :: "(string \<Rightarrow> bool) \<Rightarrow> string list \<Rightarrow> string list" where
  "drop_first p [] = []"
| "drop_first p (l # ls) = (if p l then ls else l # drop_first p ls)"

definition new_section :: "string \<Rightarrow> string list \<Rightarrow> toml_section" where
  "new_section key body = \<lparr>ts_key = key, ts_header = CHR ''['' # key @ '']'', ts_body = body\<rparr>"

definition is_flag :: "string \<Rightarrow> bool" where "is_flag l \<longleftrightarrow> bare_key_of l = codex_rmcp_key"
definition flag_line :: string where "flag_line = codex_rmcp_key @ '' = true''"

fun set_feature_flag :: "toml_document \<Rightarrow> toml_document" where
  "set_feature_flag [] = [new_section codex_features_table [flag_line]]"
| "set_feature_flag (s # d) =
     (if ts_key s \<noteq> codex_features_table then s # set_feature_flag d
      else s\<lparr>ts_body := if list_ex is_flag (ts_body s) then replace_first is_flag flag_line (ts_body s)
          else flag_line # ts_body s\<rparr> # d)"

definition is_marker :: "string \<Rightarrow> bool" where
  "is_marker l \<longleftrightarrow> has_prefix (trim_space l) codex_managed_marker"

definition has_marker :: "toml_section \<Rightarrow> bool" where
  "has_marker s = list_ex is_marker (ts_body s)"

definition marker_names :: "string \<Rightarrow> string list" where
  "marker_names l = filter (\<lambda>n. n \<noteq> []) (map trim_space (split_on (CHR '','')
     (drop (length codex_managed_marker) (trim_space l))))"

definition codex_managed_names :: "toml_document \<Rightarrow> string list" where
  "codex_managed_names d =
     (case find is_marker (concat (map ts_body d)) of None \<Rightarrow> [] | Some l \<Rightarrow> marker_names l)"

fun edit_marker :: "(string list \<Rightarrow> string list) \<Rightarrow> toml_document \<Rightarrow> toml_document" where
  "edit_marker f [] = []"
| "edit_marker f (s # d) = (if has_marker s then s\<lparr>ts_body := f (ts_body s)\<rparr> # d else s # edit_marker f d)"

definition marker_line :: "string list \<Rightarrow> string" where
  "marker_line names = codex_managed_marker @ '' '' @ join_with '','' names"

definition set_managed_names :: "string list \<Rightarrow> toml_document \<Rightarrow> toml_document" where
  "set_managed_names names d =
     (if list_ex has_marker d
      then edit_marker (if names = [] then drop_first is_marker else replace_first is_marker (marker_line names)) d
      else if names = [] then d
      else case d of [] \<Rightarrow> [] | s # rest \<Rightarrow> s\<lparr>ts_body := marker_line names # ts_body s\<rparr> # rest)"

section \<open>Rendering\<close>

definition end_line :: "string \<Rightarrow> string" where
  "end_line out = (if out = [] then [] else out @ [newline])"

definition render_section :: "string \<Rightarrow> toml_section \<Rightarrow> string" where
  "render_section out s =
     (if ts_header s \<noteq> [] then end_line (trim_newlines out) @ ts_header s @ [newline] else out)
     @ concat (map (\<lambda>l. l @ [newline]) (ts_body s))"

definition render_toml :: "toml_document \<Rightarrow> string" where
  "render_toml d = end_line (trim_newlines (foldl render_section [] d))"

text \<open>\<open>writeTOMLDocument\<close>: the new text is staged beside the file and renamed, so any fault leaves the old one.\<close>

definition write_text_file :: "string option \<Rightarrow> string \<Rightarrow> string option \<Rightarrow> unit result \<times> string option" where
  "write_text_file fault t file = (case fault of Some e \<Rightarrow> (Inl e, file) | None \<Rightarrow> (Inr (), Some t))"

section \<open>Configuring and removing\<close>

definition sorted_names :: "string list \<Rightarrow> string list" where
  "sorted_names names = sort_on id (remdups names)"

definition server_section :: "(string \<Rightarrow> bool) \<Rightarrow> mcp_server_endpoint \<Rightarrow> toml_section" where
  "server_section printable s =
     new_section (codex_server_prefix @ endpoint_name s) [''url = '' @ go_quote printable (endpoint_url s)]"

definition configure_codex :: "(string \<Rightarrow> bool) \<Rightarrow> mcp_server_endpoint list \<Rightarrow> toml_document \<Rightarrow> toml_document" where
  "configure_codex printable servers d0 =
     (let governed = map endpoint_name servers;
          d1 = remove_server_sections (codex_managed_names d0 @ governed) d0;
          d2 = (if governed \<noteq> [] then set_feature_flag d1 else d1)
      in set_managed_names (sorted_names governed) (d2 @ map (server_section printable) servers))"

definition configure_codex_mcp_servers ::
  "(string \<Rightarrow> bool) \<Rightarrow> string option \<Rightarrow> string option \<Rightarrow> mcp_server_endpoint list \<Rightarrow> string option
    \<Rightarrow> unit result \<times> string option" where
  "configure_codex_mcp_servers printable read_fault write_fault servers file =
     (case read_toml_document read_fault file of
        Inl e \<Rightarrow> (Inl e, file)
      | Inr d \<Rightarrow> write_text_file write_fault (render_toml (configure_codex printable servers d)) file)"

definition remove_managed_codex_mcp_servers ::
  "string option \<Rightarrow> string option \<Rightarrow> string option \<Rightarrow> bool \<times> unit result \<times> string option" where
  "remove_managed_codex_mcp_servers read_fault write_fault file =
     (if file = None \<and> read_fault = None then (False, Inr (), None)
      else case read_toml_document read_fault file of
        Inl e \<Rightarrow> (False, Inl e, file)
      | Inr d \<Rightarrow>
          let managed = codex_managed_names d in
          if managed = [] then (False, Inr (), file)
          else (True, write_text_file write_fault
            (render_toml (set_managed_names [] (remove_server_sections managed d))) file))"

section \<open>Markers and flags\<close>

lemma flag_texts: "is_flag flag_line" "\<not> is_flag []" "\<not> is_marker []" "\<not> is_marker flag_line"
proof -
  show "is_flag flag_line" "\<not> is_flag []" "\<not> is_marker []" "\<not> is_marker flag_line" by code_simp+
qed

lemma marker_not_flag: "\<not> is_flag (marker_line names)"
  by (simp add: is_flag_def bare_key_of_def strip_line_comment_def codex_rmcp_key_def marker_line_def codex_managed_marker_def)

lemma marker_begins: "ink (hd codex_managed_marker)" "ink (last codex_managed_marker)" "codex_managed_marker \<noteq> []"
proof -
  show "ink (hd codex_managed_marker)" "ink (last codex_managed_marker)" "codex_managed_marker \<noteq> []" by code_simp+
qed

lemma marker_line_is_marker: "is_marker (marker_line names)"
proof -
  note m = append_butlast_last_id [OF marker_begins(3)]
  have "ink (hd (butlast codex_managed_marker @ [last codex_managed_marker]))" using marker_begins(1) m by simp
  from trim_space_keeps [OF this marker_begins(2), of "'' '' @ join_with '','' names"] obtain t
    where "trim_space (butlast codex_managed_marker @ [last codex_managed_marker] @ '' '' @ join_with '','' names)
      = butlast codex_managed_marker @ [last codex_managed_marker] @ t" by auto
  then have "trim_space (marker_line names) = codex_managed_marker @ t"
    by (simp only: marker_line_def m append_assoc [symmetric])
  then show ?thesis by (simp add: is_marker_def)
qed

lemma url_line_plain: "\<not> is_marker (''url = '' @ s)"
proof -
  have "ink (CHR ''u'')" "ink (CHR ''='')" by code_simp+
  with trim_space_keeps [of "''url ''" "CHR ''=''" "CHR 0x20 # s"] have "\<exists>t. trim_space (''url = '' @ s) = ''url ='' @ t" by auto
  then show ?thesis by (auto simp: is_marker_def codex_managed_marker_def)
qed

section \<open>Operations on the document\<close>

lemma has_marker_servers: "\<not> list_ex has_marker (map (server_section printable) servers)"
  by (auto simp: list_ex_iff has_marker_def server_section_def new_section_def url_line_plain [simplified])

lemma server_section_name: "server_name (server_section printable s) = Some (endpoint_name s)"
  by (simp add: server_name_def server_section_def new_section_def cut_prefix_eq)

lemma edit_marker_append: "edit_marker f (d @ e) = (if list_ex has_marker d then edit_marker f d @ e else d @ edit_marker f e)"
  by (induction d) auto

lemma edit_marker_none: "\<not> list_ex has_marker d \<Longrightarrow> edit_marker f d = d"
  by (induction d) auto

lemma set_managed_append:
  assumes "\<not> list_ex has_marker e" and "d \<noteq> []"
  shows "set_managed_names names (d @ e) = set_managed_names names d @ e"
  using assms by (cases d) (auto simp: set_managed_names_def edit_marker_append edit_marker_none)

section \<open>What stays\<close>

text \<open>The lines of a section that are not Keydris's: neither a marker nor, among the features, the flag.\<close>

definition own_line :: "toml_section \<Rightarrow> string \<Rightarrow> bool" where
  "own_line s l \<longleftrightarrow> \<not> is_marker l \<and> \<not> (ts_key s = codex_features_table \<and> is_flag l)"

definition user_section :: "toml_section \<Rightarrow> string \<times> string \<times> string list" where
  "user_section s = (ts_key s, ts_header s, filter (own_line s) (ts_body s))"

lemma own_line_body [simp]: "own_line (s\<lparr>ts_body := b\<rparr>) = own_line s"
  by (rule ext) (simp add: own_line_def)

lemma filter_replace_first:
  "\<not> q new \<Longrightarrow> (\<And>l. p l \<Longrightarrow> \<not> q l) \<Longrightarrow> filter q (replace_first p new ls) = filter q ls"
  by (induction ls) auto

lemma filter_drop_first: "(\<And>l. p l \<Longrightarrow> \<not> q l) \<Longrightarrow> filter q (drop_first p ls) = filter q ls"
  by (induction ls) auto

lemma own_replaced:
  "filter (own_line s) (replace_first is_marker (marker_line names) ls) = filter (own_line s) ls"
  "filter (own_line s) (drop_first is_marker ls) = filter (own_line s) ls"
  "ts_key s = codex_features_table \<Longrightarrow> filter (own_line s) (replace_first is_flag flag_line ls) = filter (own_line s) ls"
  by (rule filter_replace_first filter_drop_first; simp add: own_line_def marker_line_is_marker flag_texts)+

lemma user_edit:
  "(\<And>s. filter (own_line s) (f (ts_body s)) = filter (own_line s) (ts_body s))
    \<Longrightarrow> map user_section (edit_marker f d) = map user_section d"
  by (induction d) (auto simp: user_section_def)

lemma user_managed: "map user_section (set_managed_names names d) = map user_section d"
  by (cases d) (auto simp: set_managed_names_def user_edit own_replaced user_section_def own_line_def marker_line_is_marker)

lemma user_feature:
  "map user_section (set_feature_flag d) = map user_section d @ (if codex_features_table \<in> ts_key ` set d then []
     else [(codex_features_table, ''[features]'', [])])"
  by (induction d)
    (auto simp: user_section_def own_replaced new_section_def codex_features_table_def own_line_def flag_texts)

text \<open>Whether a section is a server's shows in its key.\<close>

lemma server_filter_view:
  "map user_section (filter (is_server_of names) d)
    = filter (\<lambda>(k, _). case cut_prefix k codex_server_prefix of None \<Rightarrow> False | Some n \<Rightarrow> n \<in> set names) (map user_section d)"
  by (induction d) (auto simp: is_server_of_def server_name_def user_section_def)

lemma other_filter_view:
  "map user_section (filter (\<lambda>s. \<not> is_server_of names s) d)
    = filter (\<lambda>(k, _). \<not> (case cut_prefix k codex_server_prefix of None \<Rightarrow> False | Some n \<Rightarrow> n \<in> set names)) (map user_section d)"
  by (induction d) (auto simp: is_server_of_def server_name_def user_section_def)

lemma features_kept:
  "codex_features_table \<in> ts_key ` set (remove_server_sections names d) \<longleftrightarrow> codex_features_table \<in> ts_key ` set d"
proof -
  have "cut_prefix codex_features_table codex_server_prefix = None" by code_simp
  then have "\<not> is_server_of names s" if "ts_key s = codex_features_table" for s
    using that by (simp add: is_server_of_def server_name_def)
  then show ?thesis by (force simp: remove_server_sections_def)
qed

lemma user_configured:
  "map user_section (configure_codex printable servers d)
    = map user_section (remove_server_sections (codex_managed_names d @ map endpoint_name servers) d)
      @ (if servers = [] \<or> codex_features_table \<in> ts_key ` set d then [] else [(codex_features_table, ''[features]'', [])])
      @ map (user_section \<circ> server_section printable) servers"
  by (auto simp: configure_codex_def Let_def user_managed user_feature features_kept)

lemma servers_first:
  assumes "\<And>s. s \<in> set d \<Longrightarrow> \<not> is_server_of names s"
  shows "filter (is_server_of names) (set_managed_names ns d) = []"
proof -
  have "map user_section (filter (is_server_of names) (set_managed_names ns d)) = map user_section (filter (is_server_of names) d)"
    by (simp add: server_filter_view user_managed)
  moreover have "filter (is_server_of names) d = []" using assms by (simp add: filter_empty_conv)
  ultimately show ?thesis by simp
qed

lemma feature_keys:
  "list_all (\<lambda>s. p (ts_key s)) d \<Longrightarrow> p codex_features_table \<Longrightarrow> list_all (\<lambda>s. p (ts_key s)) (set_feature_flag d)"
  by (induction d) (auto simp: new_section_def)

lemma feature_servers:
  assumes "\<And>s. s \<in> set d \<Longrightarrow> \<not> is_server_of names s" and "s \<in> set (set_feature_flag d)"
  shows "\<not> is_server_of names s"
proof -
  have "cut_prefix codex_features_table codex_server_prefix = None" by code_simp
  with feature_keys [of "\<lambda>k. \<not> (case cut_prefix k codex_server_prefix of None \<Rightarrow> False | Some n \<Rightarrow> n \<in> set names)" d] assms
  show ?thesis by (auto simp: is_server_of_def server_name_def list_all_iff)
qed

text \<open>What is written before the servers, and the result as a whole.\<close>

definition cleared :: "mcp_server_endpoint list \<Rightarrow> toml_document \<Rightarrow> toml_document" where
  "cleared servers d =
     (let d1 = remove_server_sections (codex_managed_names d @ map endpoint_name servers) d
      in if servers \<noteq> [] then set_feature_flag d1 else d1)"

lemma set_feature_nonempty [simp]: "set_feature_flag d \<noteq> []"
  by (cases d) auto

lemma configure_cleared:
  assumes "servers \<noteq> []"
  shows "configure_codex printable servers d
    = set_managed_names (sorted_names (map endpoint_name servers)) (cleared servers d) @ map (server_section printable) servers"
  using assms set_managed_append [OF has_marker_servers, of "cleared servers d"]
  by (simp add: configure_codex_def cleared_def Let_def)

lemma cleared_no_servers:
  assumes "s \<in> set (cleared servers d)"
  shows "\<not> is_server_of (codex_managed_names d @ map endpoint_name servers) s"
proof -
  let ?n = "codex_managed_names d @ map endpoint_name servers"
  have gone: "\<not> is_server_of ?n x" if "x \<in> set (remove_server_sections ?n d)" for x
    using that unfolding remove_server_sections_def by simp
  show ?thesis
  proof (cases "servers = []")
    case True
    with assms gone show ?thesis unfolding cleared_def Let_def by simp
  next
    case False
    with assms have "s \<in> set (set_feature_flag (remove_server_sections ?n d))" unfolding cleared_def Let_def by simp
    from feature_servers [OF gone this] show ?thesis .
  qed
qed

lemma configured_servers:
  "filter (is_server_of (codex_managed_names d @ map endpoint_name servers)) (configure_codex printable servers d)
    = map (server_section printable) servers"
proof (cases "servers = []")
  case True
  then have "configure_codex printable servers d = set_managed_names [] (cleared servers d)"
    by (simp add: configure_codex_def cleared_def sorted_names_def sort_on_def)
  then show ?thesis using servers_first [OF cleared_no_servers, of "cleared servers d" servers d] True by simp
next
  case False
  have "is_server_of (codex_managed_names d @ map endpoint_name servers) (server_section printable s)" if "s \<in> set servers" for s
    using that by (auto simp: is_server_of_def server_section_name)
  then have "filter (is_server_of (codex_managed_names d @ map endpoint_name servers)) (map (server_section printable) servers)
      = map (server_section printable) servers" by (auto simp: filter_id_conv)
  then show ?thesis using configure_cleared [OF False] servers_first [OF cleared_no_servers] by simp
qed

section \<open>The marker read back\<close>

definition codex_name :: "string \<Rightarrow> bool" where
  "codex_name n \<longleftrightarrow> n \<noteq> [] \<and> list_all (\<lambda>c. is_alnum c \<or> c = CHR ''-'') n"

lemma name_char:
  assumes "is_alnum c \<or> c = CHR ''-''"
  shows "ink c" "c \<notin> set [CHR '','', CHR ''.'', CHR 0x22, CHR 0x27, CHR ''#'', CHR 0x0A, CHR 0x0D]"
proof -
  have "list_all (\<lambda>w. list_all (\<lambda>d. \<not> (is_alnum d \<or> d = CHR ''-'')) w) go_spaces"
    "list_all (\<lambda>d. \<not> (is_alnum d \<or> d = CHR ''-'')) [CHR '','', CHR ''.'', CHR 0x22, CHR 0x27, CHR ''#'', CHR 0x0A, CHR 0x0D]"
    by code_simp+
  with assms show "ink c" "c \<notin> set [CHR '','', CHR ''.'', CHR 0x22, CHR 0x27, CHR ''#'', CHR 0x0A, CHR 0x0D]"
    unfolding ink_def list_all_iff by blast+
qed

lemma codex_name_ink: "codex_name n \<Longrightarrow> n \<noteq> [] \<and> ink (hd n) \<and> ink (last n) \<and> CHR '','' \<notin> set n"
  unfolding codex_name_def list_all_iff
proof (elim conjE)
  assume n: "n \<noteq> []" "\<forall>c\<in>set n. is_alnum c \<or> c = CHR ''-''"
  have "ink c" "c \<noteq> CHR '',''" if "c \<in> set n" for c using n(2) that name_char [of c] by auto
  with n(1) show "n \<noteq> [] \<and> ink (hd n) \<and> ink (last n) \<and> CHR '','' \<notin> set n" by auto
qed

lemma split_join:
  assumes "names \<noteq> []" and "list_all (\<lambda>n. d \<notin> set n) names"
  shows "split_on d (join_with [d] names) = names"
  using assms
proof (induction names)
  case (Cons n ns)
  show ?case
  proof (cases ns)
    case Nil
    with Cons show ?thesis by (simp add: join_with_def split_on_last)
  next
    case (Cons m ms)
    then have "join_with [d] (n # ns) = n @ d # join_with [d] ns" by (simp add: join_with_def)
    with Cons Cons.prems Cons.IH show ?thesis by (simp add: split_on_line)
  qed
qed simp

lemma last_join: "names \<noteq> [] \<Longrightarrow> last names \<noteq> [] \<Longrightarrow> join_with sep names \<noteq> [] \<and> last (join_with sep names) = last (last names)"
proof (induction names)
  case (Cons n ns)
  show ?case
  proof (cases ns)
    case Nil
    with Cons show ?thesis by (simp add: join_with_def)
  next
    case (Cons m ms)
    then have "join_with sep (n # ns) = n @ sep @ join_with sep ns" by (simp add: join_with_def)
    with Cons Cons.prems Cons.IH show ?thesis by simp
  qed
qed simp

lemma marker_read_back:
  assumes "names \<noteq> []" and "list_all codex_name names"
  shows "marker_names (marker_line names) = names"
proof -
  from assms have lastn: "codex_name (last names)" by (simp add: list_all_iff)
  with codex_name_ink have l: "last names \<noteq> []" "ink (last (last names))" by auto
  note j = last_join [OF assms(1) l(1), of "'',''"]
  have "trim_space (marker_line names) = marker_line names"
    using marker_begins j l(2) by (intro trim_space_ink) (auto simp: marker_line_def hd_append)
  moreover obtain n ns where names: "names = n # ns" using assms(1) by (cases names) auto
  have s: "split_on (CHR '','') (join_with '','' names) = names"
    using assms codex_name_ink by (intro split_join) (auto simp: list_all_iff)
  then have "split_on (CHR '','') ('' '' @ join_with '','' names) = (CHR 0x20 # n) # ns" using names by simp
  moreover have "trim_space (CHR 0x20 # n) = n" "map trim_space ns = ns" "filter (\<lambda>m. m \<noteq> []) names = names"
    using assms(2) names codex_name_ink trim_space_ink
    by (auto simp: trim_space_blank list_all_iff map_idI filter_id_conv)
  ultimately show ?thesis by (simp add: marker_names_def marker_line_def names)
qed

lemma find_marker_set:
  assumes "names \<noteq> []" and "d \<noteq> []"
  shows "find is_marker (concat (map ts_body (set_managed_names names d))) = Some (marker_line names)"
proof (cases "list_ex has_marker d")
  case True
  have none: "find is_marker b = None \<longleftrightarrow> \<not> list_ex is_marker b" for b by (auto simp: find_None_iff list_ex_iff)
  have one: "list_ex is_marker b \<Longrightarrow> find is_marker (replace_first is_marker (marker_line names) b @ r) = Some (marker_line names)" for b r
    by (induction b) (auto simp: marker_line_is_marker)
  have skip: "\<not> list_ex is_marker b \<Longrightarrow> find is_marker (b @ r) = find is_marker r" for b r by (induction b) auto
  from True have "find is_marker (concat (map ts_body (edit_marker (replace_first is_marker (marker_line names)) d))) = Some (marker_line names)"
    by (induction d) (auto simp: has_marker_def one skip)
  with True assms show ?thesis by (simp add: set_managed_names_def)
next
  case False
  with assms show ?thesis by (cases d) (simp_all add: set_managed_names_def marker_line_is_marker)
qed

lemma configured_names:
  assumes "servers \<noteq> []" and "list_all (codex_name \<circ> endpoint_name) servers"
  shows "codex_managed_names (configure_codex printable servers d) = sorted_names (map endpoint_name servers)"
proof -
  let ?names = "sorted_names (map endpoint_name servers)"
  have n: "?names \<noteq> []" using assms(1) by (simp add: sorted_names_def flip: set_empty)
  have good: "list_all codex_name ?names" using assms(2) by (auto simp: sorted_names_def list_all_iff)
  have "cleared servers d @ map (server_section printable) servers \<noteq> []" using assms(1) by simp
  from find_marker_set [OF n this] have "find is_marker (concat (map ts_body (configure_codex printable servers d)))
      = Some (marker_line ?names)"
    using assms(1) by (simp add: configure_codex_def cleared_def Let_def)
  with marker_read_back [OF n good] show ?thesis by (simp add: codex_managed_names_def)
qed

end
