(* ===== verification/Codex_Twice.thy ===== *)
theory Codex_Twice
  imports Codex_Config
begin

text \<open>
  Writing the servers of a policy into Codex's configuration again changes nothing: the document, and the
  text it is rendered to, are fixed points of the writer. The reader and the renderer are inverse up to the
  blank lines at the end of a table, which the writer removes.
\<close>

section \<open>The document is a fixed point\<close>

lemma trim_loop_dropped: "\<exists>a. s = a @ trim_loop n ws s \<and> set a \<subseteq> \<Union> (set ` set ws)"
proof (induction n arbitrary: s)
  case (Suc n)
  show ?case
  proof (cases "find (\<lambda>w. w \<noteq> [] \<and> has_prefix s w) ws")
    case (Some w)
    then have w: "w \<in> set ws" "has_prefix s w" by (auto simp: find_Some_iff)
    obtain a where a: "drop (length w) s = a @ trim_loop n ws (drop (length w) s)" "set a \<subseteq> \<Union> (set ` set ws)"
      using Suc.IH by blast
    from w(2) have "s = w @ drop (length w) s" by (auto simp: has_prefix_iff)
    then have "s = (w @ a) @ trim_loop n ws (drop (length w) s)" using a(1) by simp
    with Some a(2) w(1) show ?thesis by (intro exI [of _ "w @ a"]) auto
  qed auto
qed auto

lemma trim_space_around: "\<exists>a b. s = a @ trim_space s @ b \<and> set a \<subseteq> \<Union> (set ` set go_spaces)"
proof -
  let ?m = "trim_left_of go_spaces s"
  obtain a where a: "s = a @ ?m" "set a \<subseteq> \<Union> (set ` set go_spaces)"
    using trim_loop_dropped [of s "length s" go_spaces] by (auto simp: trim_left_of_def)
  obtain b where "rev ?m = b @ trim_left_of (map rev go_spaces) (rev ?m)"
    using trim_loop_dropped [of "rev ?m" "length (rev ?m)" "map rev go_spaces"] unfolding trim_left_of_def by blast
  then have "?m = trim_space s @ rev b" unfolding trim_space_def by (metis rev_append rev_rev_ident)
  with a show ?thesis by (intro exI [of _ a] exI [of _ "rev b"]) simp
qed

lemma strip_spaces: "set a \<inter> {CHR 0x22, CHR 0x27, CHR ''#''} = {} \<Longrightarrow> strip_comment None (a @ CHR ''#'' # b) = a"
  by (induction a) auto

lemma marker_no_flag:
  assumes "is_marker l"
  shows "\<not> is_flag l"
proof -
  obtain a b where l: "l = a @ trim_space l @ b" and a: "set a \<subseteq> \<Union> (set ` set go_spaces)" using trim_space_around by blast
  from assms obtain t where "trim_space l = CHR ''#'' # t"
    by (auto simp: is_marker_def has_prefix_iff codex_managed_marker_def)
  with l have l: "l = a @ CHR ''#'' # (t @ b)" by simp
  have "list_all (\<lambda>w. list_all (\<lambda>c. c \<notin> {CHR 0x22, CHR 0x27, CHR ''#'', CHR ''=''}) w) go_spaces" by code_simp
  with a have free: "set a \<inter> {CHR 0x22, CHR 0x27, CHR ''#''} = {}" "CHR ''='' \<notin> set a" by (auto simp: list_all_iff)
  have "strip_line_comment l = a" unfolding l strip_line_comment_def using strip_spaces [OF free(1)] .
  moreover obtain x y f where c: "cut_at (CHR ''='') a = (x, y, f)" by (cases "cut_at (CHR ''='') a")
  moreover have "\<not> f" using cut_at_found [OF c] free(2) by (auto split: if_splits)
  ultimately show ?thesis by (simp add: is_flag_def bare_key_of_def codex_rmcp_key_def)
qed

fun flag_set :: "toml_document \<Rightarrow> bool" where
  "flag_set [] \<longleftrightarrow> False"
| "flag_set (s # d) \<longleftrightarrow> (if ts_key s = codex_features_table then find is_flag (ts_body s) = Some flag_line else flag_set d)"

lemma find_replaced: "p new \<Longrightarrow> list_ex p b \<Longrightarrow> find p (replace_first p new b) = Some new"
  by (induction b) auto

lemma flag_set_feature: "flag_set (set_feature_flag d)"
  by (induction d) (auto simp: new_section_def flag_texts find_replaced)

lemma replace_found: "find p b = Some new \<Longrightarrow> replace_first p new b = b \<and> list_ex p b"
  by (induction b) (auto split: if_splits)

lemma flag_set_fixed: "flag_set d \<Longrightarrow> set_feature_flag d = d"
  by (induction d) (auto split: if_splits simp: replace_found)

lemma find_other: "(\<And>l. p l \<Longrightarrow> \<not> q l) \<Longrightarrow> \<not> q new \<Longrightarrow> find q (replace_first p new b) = find q b"
  by (induction b) auto

lemma flag_set_edit: "flag_set d \<Longrightarrow> flag_set (edit_marker (replace_first is_marker (marker_line ns)) d)"
  by (induction d) (auto simp: find_other marker_no_flag marker_not_flag)

lemma flag_set_managed:
  assumes "flag_set d" and "ns \<noteq> []"
  shows "flag_set (set_managed_names ns d)"
  using assms marker_not_flag marker_no_flag
  by (cases d) (auto simp: set_managed_names_def flag_set_edit find_other)

lemma replace_twice: "p new \<Longrightarrow> replace_first p new (replace_first p new b) = replace_first p new b"
  by (induction b) auto

lemma managed_twice:
  assumes "ns \<noteq> []"
  shows "set_managed_names ns (set_managed_names ns d) = set_managed_names ns d"
proof (cases "list_ex has_marker d")
  case True
  have some: "list_ex is_marker b \<Longrightarrow> list_ex is_marker (replace_first is_marker (marker_line ns) b)" for b
    by (induction b) (auto simp: marker_line_is_marker)
  let ?e = "edit_marker (replace_first is_marker (marker_line ns))"
  from True have "list_ex has_marker (?e d)" by (induction d) (auto simp: has_marker_def some)
  moreover have "?e (?e d) = ?e d"
    by (induction d) (auto simp: has_marker_def some replace_twice marker_line_is_marker)
  ultimately show ?thesis using assms True by (simp add: set_managed_names_def)
next
  case False
  with assms show ?thesis by (cases d) (auto simp: set_managed_names_def has_marker_def marker_line_is_marker)
qed

lemma managed_keys:
  "list_all (\<lambda>s. p (ts_key s)) (set_managed_names ns d) = list_all (\<lambda>s. p (ts_key s)) d"
proof -
  have "list_all (\<lambda>s. p (ts_key s)) (edit_marker f d) = list_all (\<lambda>s. p (ts_key s)) d" for f by (induction d) auto
  then show ?thesis by (cases d) (auto simp: set_managed_names_def)
qed

lemma configured_again:
  assumes "servers \<noteq> []" and "list_all (codex_name \<circ> endpoint_name) servers"
  shows "configure_codex printable servers (configure_codex printable servers d) = configure_codex printable servers d"
proof -
  let ?ns = "sorted_names (map endpoint_name servers)"
  let ?m = "set_managed_names ?ns (cleared servers d)"
  let ?s = "map (server_section printable) servers"
  have ns: "?ns \<noteq> []" "set ?ns = endpoint_name ` set servers" using assms(1) by (auto simp: sorted_names_def simp flip: set_empty)
  have conf: "configure_codex printable servers d = ?m @ ?s" using configure_cleared [OF assms(1)] .
  have names: "codex_managed_names (?m @ ?s) = ?ns" using configured_names [OF assms] by (simp flip: conf)
  let ?own = "\<lambda>k. case cut_prefix k codex_server_prefix of None \<Rightarrow> False | Some n \<Rightarrow> n \<in> endpoint_name ` set servers"
  have "list_all (\<lambda>s. \<not> ?own (ts_key s)) (cleared servers d)"
    using cleared_no_servers by (fastforce simp: list_all_iff is_server_of_def server_name_def split: option.splits)
  then have "list_all (\<lambda>s. \<not> ?own (ts_key s)) ?m" using managed_keys [of "\<lambda>k. \<not> ?own k"] by blast
  moreover have "is_server_of (?ns @ map endpoint_name servers) s = ?own (ts_key s)" for s
    by (simp add: is_server_of_def server_name_def ns(2) split: option.split)
  ultimately have "remove_server_sections (?ns @ map endpoint_name servers) ?m = ?m"
    by (simp add: remove_server_sections_def filter_id_conv list_all_iff)
  moreover have "remove_server_sections (?ns @ map endpoint_name servers) ?s = []"
    by (auto simp: remove_server_sections_def filter_empty_conv is_server_of_def server_section_name)
  ultimately have "remove_server_sections (codex_managed_names (?m @ ?s) @ map endpoint_name servers) (?m @ ?s) = ?m"
    by (simp add: names remove_server_sections_def)
  then have "cleared servers (?m @ ?s) = set_feature_flag ?m" using assms(1) by (simp add: cleared_def Let_def)
  also have "\<dots> = ?m"
    using assms(1) ns(1) by (intro flag_set_fixed flag_set_managed) (simp_all add: cleared_def Let_def flag_set_feature)
  finally have "configure_codex printable servers (?m @ ?s) = set_managed_names ?ns ?m @ ?s"
    using configure_cleared [OF assms(1)] by simp
  then show ?thesis using conf managed_twice [OF ns(1)] by simp
qed

section \<open>Blank lines at the end of a table\<close>

definition strip_blanks :: "string list \<Rightarrow> string list" where
  "strip_blanks b = rev (dropWhile (\<lambda>l. l = []) (rev b))"

lemma strip_append: "strip_blanks (a @ b) = (if strip_blanks b = [] then strip_blanks a else a @ strip_blanks b)"
  by (auto simp: strip_blanks_def dropWhile_append)

lemma strip_Cons: "strip_blanks (l # b) = (if strip_blanks b = [] then (if l = [] then [] else [l]) else l # strip_blanks b)"
  using strip_append [of "[l]" b] by (auto simp: strip_blanks_def)

lemma strip_Nil [simp]: "strip_blanks [] = []"
  by (simp add: strip_blanks_def)

lemma strip_idem [simp]: "strip_blanks (strip_blanks b) = strip_blanks b"
  by (induction b) (auto simp: strip_Cons)

lemma set_strip: "set (strip_blanks b) \<subseteq> set b"
  by (induction b) (auto simp: strip_Cons)

lemma last_strip: "strip_blanks b \<noteq> [] \<Longrightarrow> last (strip_blanks b) \<noteq> []"
  by (induction b) (auto simp: strip_Cons split: if_splits)

lemma list_ex_strip: "\<not> p [] \<Longrightarrow> list_ex p (strip_blanks b) = list_ex p b"
proof (induction b)
  case (Cons l b)
  then show ?case by (cases "strip_blanks b = []") (auto simp: strip_Cons)
qed simp

lemma find_strip: "\<not> p [] \<Longrightarrow> find p (strip_blanks b) = find p b"
proof (induction b)
  case (Cons l b)
  then show ?case by (cases "strip_blanks b = []") (auto simp: strip_Cons)
qed simp

lemma replace_strip: "\<not> p [] \<Longrightarrow> new \<noteq> [] \<Longrightarrow> strip_blanks (replace_first p new b) = replace_first p new (strip_blanks b)"
proof (induction b)
  case (Cons l b)
  have "replace_first p new c = [] \<longleftrightarrow> c = []" for c by (cases c) auto
  with Cons show ?case by (auto simp: strip_Cons)
qed simp

definition bare :: "toml_section \<Rightarrow> toml_section" where
  "bare s = s\<lparr>ts_body := strip_blanks (ts_body s)\<rparr>"

lemma bare_simps [simp]: "ts_key (bare s) = ts_key s" "ts_header (bare s) = ts_header s"
  "ts_body (bare s) = strip_blanks (ts_body s)" "bare (bare s) = bare s"
  by (simp_all add: bare_def)

lemma bare_markers: "has_marker (bare s) = has_marker s"
  by (simp add: has_marker_def list_ex_strip flag_texts)

lemma flag_line_nonempty: "flag_line \<noteq> []" "marker_line ns \<noteq> []"
  by (simp_all add: flag_line_def codex_rmcp_key_def marker_line_def codex_managed_marker_def)

lemma strip_flag_line: "strip_blanks [flag_line] = [flag_line]" "strip_blanks (flag_line # b) = flag_line # strip_blanks b"
  "strip_blanks (marker_line ns # b) = marker_line ns # strip_blanks b"
  by (simp_all add: strip_Cons flag_line_nonempty)

lemma bare_feature: "map bare (set_feature_flag d) = set_feature_flag (map bare d)"
  by (induction d) (auto simp: bare_def new_section_def strip_flag_line list_ex_strip replace_strip flag_texts flag_line_nonempty)

lemma bare_edit:
  "(\<And>b. strip_blanks (f b) = f (strip_blanks b)) \<Longrightarrow> map bare (edit_marker f d) = edit_marker f (map bare d)"
  using bare_markers by (induction d) (auto simp: bare_def)

lemma list_ex_bare: "list_ex has_marker (map bare d) = list_ex has_marker d"
  by (induction d) (auto simp: bare_markers)

lemma bare_managed:
  assumes "names \<noteq> []"
  shows "map bare (set_managed_names names d) = set_managed_names names (map bare d)"
proof -
  have "map bare (edit_marker (replace_first is_marker (marker_line names)) d)
      = edit_marker (replace_first is_marker (marker_line names)) (map bare d)"
    by (rule bare_edit) (simp add: replace_strip flag_texts flag_line_nonempty)
  then show ?thesis
    using assms by (cases d) (auto simp: set_managed_names_def list_ex_bare bare_markers, simp_all add: bare_def strip_flag_line)
qed

lemma bare_names: "codex_managed_names (map bare d) = codex_managed_names d"
proof -
  have skip: "find p (a @ b) = (case find p a of None \<Rightarrow> find p b | Some x \<Rightarrow> Some x)" for p :: "string \<Rightarrow> bool" and a b
    by (induction a) auto
  have "find is_marker (concat (map ts_body (map bare d))) = find is_marker (concat (map ts_body d))"
    by (induction d) (simp_all add: skip find_strip flag_texts del: map_map split: option.split)
  then show ?thesis by (simp add: codex_managed_names_def)
qed

lemma bare_removed: "map bare (remove_server_sections names d) = remove_server_sections names (map bare d)"
  by (induction d) (auto simp: remove_server_sections_def is_server_of_def server_name_def)

lemma bare_servers: "map bare (map (server_section printable) servers) = map (server_section printable) servers"
  by (simp add: bare_def server_section_def new_section_def strip_Cons)

lemma bare_configured:
  assumes "servers \<noteq> []"
  shows "map bare (configure_codex printable servers d) = configure_codex printable servers (map bare d)"
proof -
  have "sorted_names (map endpoint_name servers) \<noteq> []" using assms by (simp add: sorted_names_def flip: set_empty)
  then show ?thesis using assms bare_servers
    by (simp add: configure_cleared bare_managed cleared_def Let_def bare_feature bare_removed bare_names)
qed

section \<open>Rendering and reading\<close>

definition line_plain :: "string \<Rightarrow> bool" where
  "line_plain l \<longleftrightarrow> table_header_key l = None \<and> open_multiline_delimiter l = [] \<and> newline \<notin> set l \<and> CHR 0x0D \<notin> set l"

definition table_plain :: "toml_section \<Rightarrow> bool" where
  "table_plain s \<longleftrightarrow> table_header_key (ts_header s) = Some (ts_key s) \<and> open_multiline_delimiter (ts_header s) = []
     \<and> newline \<notin> set (ts_header s) \<and> CHR 0x0D \<notin> set (ts_header s) \<and> list_all line_plain (ts_body s)"

definition document_plain :: "toml_document \<Rightarrow> bool" where
  "document_plain d \<longleftrightarrow> (case d of [] \<Rightarrow> False
     | s # rest \<Rightarrow> ts_key s = [] \<and> ts_header s = [] \<and> list_all line_plain (ts_body s) \<and> list_all table_plain rest)"

definition out_lines :: "string list \<Rightarrow> string" where
  "out_lines ls = concat (map (\<lambda>l. l @ [newline]) ls)"

definition lines_of :: "toml_section \<Rightarrow> string list" where
  "lines_of s = (if ts_header s = [] then [] else [ts_header s]) @ strip_blanks (ts_body s)"

lemma out_lines_append [simp]: "out_lines (a @ b) = out_lines a @ out_lines b" "out_lines [] = []"
  "out_lines (l # b) = l @ newline # out_lines b"
  by (simp_all add: out_lines_def)

lemma trim_line: "l \<noteq> [] \<Longrightarrow> newline \<notin> set l \<Longrightarrow> end_line (trim_newlines (x @ l @ [newline])) = x @ l @ [newline]"
proof -
  assume "l \<noteq> []" "newline \<notin> set l"
  then have "trim_newlines (x @ l) = x @ l" by (rule trim_newlines_line)
  moreover have "trim_newlines (x @ l @ [newline]) = trim_newlines (x @ l)" using trim_newlines_newline [of "x @ l"] by simp
  ultimately show ?thesis using \<open>l \<noteq> []\<close> by (simp add: end_line_def)
qed

lemma trim_body:
  assumes "list_all (\<lambda>l. newline \<notin> set l) b"
  shows "end_line (trim_newlines (x @ out_lines b)) = (if strip_blanks b = [] then end_line (trim_newlines x) else x @ out_lines (strip_blanks b))"
  using assms
proof (induction b rule: rev_induct)
  case (snoc l b)
  show ?case
  proof (cases "l = []")
    case True
    then have "strip_blanks (b @ [l]) = strip_blanks b" by (simp add: strip_blanks_def)
    moreover have "trim_newlines (x @ out_lines (b @ [l])) = trim_newlines (x @ out_lines b)"
      using True trim_newlines_newline [of "x @ out_lines b"] by simp
    ultimately show ?thesis using snoc by simp
  next
    case False
    then have "strip_blanks (b @ [l]) = b @ [l]" by (simp add: strip_blanks_def)
    with False snoc.prems trim_line [of l "x @ out_lines b"] show ?thesis by simp
  qed
qed simp

lemma newline_plain: "list_all line_plain b \<Longrightarrow> list_all (\<lambda>l. newline \<notin> set l) b"
  by (auto simp: list_all_iff line_plain_def)

lemma header_nonempty: "table_plain s \<Longrightarrow> ts_header s \<noteq> []"
proof -
  have "table_header_key [] = None" by code_simp
  then show "table_plain s \<Longrightarrow> ts_header s \<noteq> []" by (auto simp: table_plain_def)
qed

lemma render_rest:
  assumes "list_all table_plain d"
  shows "end_line (trim_newlines (foldl render_section x d)) = end_line (trim_newlines x) @ out_lines (concat (map lines_of d))"
  using assms
proof (induction d arbitrary: x)
  case (Cons s d)
  let ?y = "end_line (trim_newlines x) @ ts_header s @ [newline]"
  from Cons.prems have s: "table_plain s" "ts_header s \<noteq> []" "newline \<notin> set (ts_header s)"
    "list_all (\<lambda>l. newline \<notin> set l) (ts_body s)"
    using header_nonempty newline_plain by (auto simp: table_plain_def)
  have "end_line (trim_newlines (render_section x s)) = ?y @ out_lines (strip_blanks (ts_body s))"
    using trim_body [OF s(4), of ?y] trim_line [OF s(2,3), of "end_line (trim_newlines x)"] s(2)
    by (auto simp: render_section_def out_lines_def)
  with Cons s(2) show ?case by (simp add: lines_of_def)
qed simp

lemma render_plain:
  assumes "document_plain d"
  shows "render_toml d = out_lines (concat (map lines_of d))"
proof -
  from assms obtain s rest where d: "d = s # rest" "ts_header s = []" "list_all line_plain (ts_body s)" "list_all table_plain rest"
    by (auto simp: document_plain_def split: list.splits)
  have "end_line (trim_newlines (render_section [] s)) = out_lines (strip_blanks (ts_body s))"
    using trim_body [OF newline_plain [OF d(3)], of "[]"] d(2)
    by (auto simp: render_section_def trim_newlines_def end_line_def simp flip: out_lines_def)
  with d render_rest [OF d(4)] show ?thesis by (simp add: render_toml_def lines_of_def)
qed

lemma split_lines:
  "list_all (\<lambda>l. newline \<notin> set l) ls \<Longrightarrow> split_on newline (out_lines ls) = ls @ [[]]"
  by (induction ls) (auto simp: split_on_line)

lemma unix_plain: "CHR 0x0D \<notin> set s \<Longrightarrow> unix_lines s = s"
  by (induction s rule: unix_lines.induct) auto

lemma read_body:
  "list_all line_plain b \<Longrightarrow> read_sections cur [] (b @ ls) = read_sections (cur\<lparr>ts_body := ts_body cur @ b\<rparr>) [] ls"
  by (induction b arbitrary: cur) (auto simp: line_plain_def add_line_def)

text \<open>What is read back: every table without its last blank lines, and the empty text after the last newline.\<close>

fun ended :: "toml_document \<Rightarrow> toml_document" where
  "ended [] = []"
| "ended [s] = [s\<lparr>ts_body := strip_blanks (ts_body s) @ [[]]\<rparr>]"
| "ended (s # t # d) = bare s # ended (t # d)"

lemma strip_plain: "list_all line_plain b \<Longrightarrow> list_all line_plain (strip_blanks b)"
  using set_strip by (fastforce simp: list_all_iff)

lemma empty_line: "line_plain []"
proof -
  show ?thesis by code_simp
qed

lemma read_rest:
  "list_all table_plain d \<Longrightarrow> list_all line_plain (ts_body cur)
    \<Longrightarrow> read_sections (cur\<lparr>ts_body := strip_blanks (ts_body cur)\<rparr>) [] (concat (map lines_of d) @ [[]]) = ended (cur # d)"
proof (induction d arbitrary: cur)
  case Nil
  then show ?case using empty_line by (simp add: line_plain_def add_line_def)
next
  case (Cons s d)
  then have s: "table_header_key (ts_header s) = Some (ts_key s)" "open_multiline_delimiter (ts_header s) = []"
    "list_all line_plain (ts_body s)" "ts_header s \<noteq> []"
    using header_nonempty by (auto simp: table_plain_def)
  have "read_sections (cur\<lparr>ts_body := strip_blanks (ts_body cur)\<rparr>) [] (concat (map lines_of (s # d)) @ [[]])
      = bare cur # read_sections \<lparr>ts_key = ts_key s, ts_header = ts_header s, ts_body = []\<rparr> []
          (strip_blanks (ts_body s) @ (concat (map lines_of d) @ [[]]))"
    using s by (simp add: lines_of_def bare_def)
  also have "\<dots> = bare cur # read_sections (s\<lparr>ts_body := strip_blanks (ts_body s)\<rparr>) [] (concat (map lines_of d) @ [[]])"
    using read_body [OF strip_plain [OF s(3)], of "\<lparr>ts_key = ts_key s, ts_header = ts_header s, ts_body = []\<rparr>"]
    by (cases s) simp
  finally show ?case using Cons s(3) by simp
qed

lemma lines_plain:
  assumes "document_plain d" and "l \<in> set (concat (map lines_of d))"
  shows "newline \<notin> set l \<and> CHR 0x0D \<notin> set l"
proof -
  from assms obtain s where s: "s \<in> set d" "l \<in> set (lines_of s)" by auto
  have plain: "newline \<notin> set k \<and> CHR 0x0D \<notin> set k" if "k \<in> set b" "list_all line_plain b" for k b
    using that by (auto simp: list_all_iff line_plain_def)
  obtain s0 rest where d: "d = s0 # rest" "ts_header s0 = []" "list_all line_plain (ts_body s0)" "list_all table_plain rest"
    using assms(1) by (auto simp: document_plain_def split: list.splits)
  consider "s = s0" | "s \<in> set rest" using s(1) d(1) by auto
  then show ?thesis
  proof cases
    case 1
    with s(2) d(2) have "l \<in> set (strip_blanks (ts_body s0))" by (simp add: lines_of_def)
    from plain [OF this strip_plain [OF d(3)]] show ?thesis .
  next
    case 2
    with d(4) have t: "table_plain s" by (simp add: list_all_iff)
    from s(2) consider "l = ts_header s" | "l \<in> set (strip_blanks (ts_body s))" by (auto simp: lines_of_def split: if_splits)
    then show ?thesis
    proof cases
      case 1
      with t show ?thesis by (simp add: table_plain_def)
    next
      case 2
      from t have "list_all line_plain (ts_body s)" by (simp add: table_plain_def)
      from plain [OF 2 strip_plain [OF this]] show ?thesis .
    qed
  qed
qed

lemma parse_rendered:
  assumes "document_plain d"
  shows "parse_toml_document (render_toml d) = ended d"
proof -
  let ?ls = "concat (map lines_of d)"
  from assms obtain s rest where d: "d = s # rest" "ts_key s = []" "ts_header s = []" "list_all line_plain (ts_body s)"
    "list_all table_plain rest" by (auto simp: document_plain_def split: list.splits)
  have free: "list_all (\<lambda>l. newline \<notin> set l) ?ls" "CHR 0x0D \<notin> set (out_lines ?ls)"
    using lines_plain [OF assms] by (auto simp: list_all_iff out_lines_def newline_def)
  have p: "preamble = s\<lparr>ts_body := []\<rparr>" using d(2,3) by (simp add: preamble_def)
  have "parse_toml_document (render_toml d) = read_sections preamble [] (?ls @ [[]])"
    using render_plain [OF assms] split_lines [OF free(1)] unix_plain [OF free(2)] by (simp add: parse_toml_document_def)
  also have "\<dots> = read_sections (s\<lparr>ts_body := []\<rparr>) [] (strip_blanks (ts_body s) @ concat (map lines_of rest) @ [[]])"
    unfolding p using d(1,3) by (simp add: lines_of_def)
  also have "\<dots> = read_sections (s\<lparr>ts_body := strip_blanks (ts_body s)\<rparr>) [] (concat (map lines_of rest) @ [[]])"
    using read_body [OF strip_plain [OF d(4)], of "s\<lparr>ts_body := []\<rparr>"] by simp
  finally show ?thesis using read_rest [OF d(5,4)] d(1) by simp
qed

lemma ended_bare: "map bare (ended d) = map bare d"
proof (induction d rule: ended.induct)
  case (2 s)
  have "strip_blanks (strip_blanks (ts_body s) @ [[]]) = strip_blanks (ts_body s)" by (simp add: strip_append strip_Cons)
  then show ?case by (simp add: bare_def)
qed auto

lemma render_bare:
  assumes "document_plain a" and "document_plain b" and "map bare a = map bare b"
  shows "render_toml a = render_toml b"
proof -
  have "lines_of s = lines_of (bare s)" for s by (simp add: lines_of_def)
  then have "map lines_of d = map lines_of (map bare d)" for d by simp
  with assms show ?thesis by (metis render_plain)
qed

section \<open>Plain documents stay plain\<close>

lemma strip_free: "set s \<inter> {CHR 0x22, CHR 0x27, CHR ''#''} = {} \<Longrightarrow> strip_line_comment s = s"
proof -
  have "set s \<inter> {CHR 0x22, CHR 0x27, CHR ''#''} = {} \<Longrightarrow> strip_comment None s = s" by (induction s) auto
  then show "set s \<inter> {CHR 0x22, CHR 0x27, CHR ''#''} = {} \<Longrightarrow> strip_line_comment s = s"
    by (simp add: strip_line_comment_def)
qed

lemma count_absent: "p \<noteq> [] \<Longrightarrow> hd p \<notin> set s \<Longrightarrow> count_text p s = 0"
proof (induction s)
  case (Cons c s)
  then have "\<not> has_prefix (c # s) p" by (cases p) auto
  with Cons show ?case by simp
qed simp

lemma no_delimiter: "set s \<inter> {CHR 0x22, CHR 0x27} = {} \<Longrightarrow> open_multiline_delimiter s = []"
  by (auto simp: open_multiline_delimiter_def multiline_delimiters_def count_absent)

lemma split_no_newline: "list_all (\<lambda>l. d \<notin> set l) (split_on d s)"
  by (induction s) (auto split: list.splits)

lemma read_plain:
  "list_all (\<lambda>l. open_multiline_delimiter l = [] \<and> newline \<notin> set l \<and> CHR 0x0D \<notin> set l) ls \<Longrightarrow> list_all line_plain (ts_body cur)
    \<Longrightarrow> \<exists>b rest. read_sections cur [] ls = cur\<lparr>ts_body := b\<rparr> # rest \<and> list_all line_plain b \<and> list_all table_plain rest"
proof (induction ls arbitrary: cur)
  case Nil
  then show ?case by (intro exI [of _ "ts_body cur"]) simp
next
  case (Cons l ls)
  show ?case
  proof (cases "table_header_key l")
    case None
    with Cons.prems have "list_all line_plain (ts_body (add_line l cur))" by (simp add: add_line_def line_plain_def [of l])
    with Cons.IH [of "add_line l cur"] Cons.prems None show ?thesis by (auto simp: add_line_def)
  next
    case (Some key)
    from Cons.IH [of "\<lparr>ts_key = key, ts_header = l, ts_body = []\<rparr>"] Cons.prems obtain b rest
      where "read_sections \<lparr>ts_key = key, ts_header = l, ts_body = []\<rparr> [] ls = \<lparr>ts_key = key, ts_header = l, ts_body = b\<rparr> # rest"
        and "list_all line_plain b" and "list_all table_plain rest" by auto
    with Some Cons.prems show ?thesis by (intro exI [of _ "ts_body cur"])
        (simp add: table_plain_def [of "\<lparr>ts_key = key, ts_header = l, ts_body = b\<rparr>"])
  qed
qed

definition closed_text :: "string \<Rightarrow> bool" where
  "closed_text t = list_all (\<lambda>l. open_multiline_delimiter l = [] \<and> CHR 0x0D \<notin> set l) (split_on newline (unix_lines t))"

lemma parse_plain:
  assumes "closed_text t"
  shows "document_plain (parse_toml_document t)"
proof -
  have "list_all (\<lambda>l. open_multiline_delimiter l = [] \<and> newline \<notin> set l \<and> CHR 0x0D \<notin> set l) (split_on newline (unix_lines t))"
    using assms split_no_newline [of newline "unix_lines t"] by (auto simp: list_all_iff closed_text_def)
  from read_plain [OF this, of preamble] obtain b rest where "parse_toml_document t = preamble\<lparr>ts_body := b\<rparr> # rest"
    "list_all line_plain b" "list_all table_plain rest" by (auto simp: parse_toml_document_def preamble_def)
  then show ?thesis by (simp add: document_plain_def preamble_def)
qed

lemma replace_plain: "list_all line_plain b \<Longrightarrow> line_plain new \<Longrightarrow> list_all line_plain (replace_first p new b)"
  by (induction b) auto

lemma flag_plain: "line_plain flag_line" "table_plain (new_section codex_features_table [flag_line])"
proof -
  show "line_plain flag_line" "table_plain (new_section codex_features_table [flag_line])" by code_simp+
qed

lemma feature_plain: "list_all table_plain d \<Longrightarrow> list_all table_plain (set_feature_flag d)"
  by (induction d) (auto simp: flag_plain, simp_all add: table_plain_def replace_plain flag_plain)

lemma edit_plain:
  "list_all table_plain d \<Longrightarrow> line_plain new \<Longrightarrow> list_all table_plain (edit_marker (replace_first is_marker new) d)"
  by (induction d) (auto simp: table_plain_def replace_plain)

lemma managed_plain:
  assumes "document_plain d" and "line_plain (marker_line names)" and "names \<noteq> []"
  shows "document_plain (set_managed_names names d)"
  using assms edit_plain
  by (cases d) (auto simp: document_plain_def set_managed_names_def replace_plain)

lemma marker_plain:
  assumes "list_all codex_name names"
  shows "line_plain (marker_line names)"
proof -
  have free: "set n \<inter> {CHR 0x22, CHR 0x27, newline, CHR 0x0D} = {}" if "n \<in> set names" for n
    using assms that name_char by (fastforce simp: list_all_iff codex_name_def newline_def)
  have "set (join_with '','' names) \<subseteq> {CHR '',''} \<union> \<Union> (set ` set names)"
    by (auto simp: join_with_def split: list.splits)
  with free have "set (marker_line names) \<inter> {CHR 0x22, CHR 0x27, newline, CHR 0x0D} = {}"
    by (fastforce simp: marker_line_def codex_managed_marker_def newline_def)
  moreover have "table_header_key (marker_line names) = None"
  proof -
    have "strip_line_comment (marker_line names) = []"
      by (simp add: strip_line_comment_def marker_line_def codex_managed_marker_def)
    moreover have "trim_space [] = []" by code_simp
    ultimately show ?thesis by (simp add: table_header_key_def)
  qed
  ultimately show ?thesis using no_delimiter by (auto simp: line_plain_def)
qed

text \<open>The URLs whose quoted form is themselves between quotes.\<close>

definition tidy_url :: "string \<Rightarrow> bool" where
  "tidy_url u = list_all (\<lambda>c. 33 \<le> byte c \<and> byte c \<le> 126 \<and> c \<notin> {CHR 0x22, CHR 0x27, CHR 0x5C}) u"

lemma quote_tidy: "tidy_url u \<Longrightarrow> go_quote printable u = CHR 0x22 # u @ [CHR 0x22]"
proof -
  have "tidy_url u \<Longrightarrow> concat (map (quote_rune printable) (runes u)) = u"
    by (induction u) (auto simp: tidy_url_def quote_rune_def rune_code_def Let_def)
  then show "tidy_url u \<Longrightarrow> go_quote printable u = CHR 0x22 # u @ [CHR 0x22]" by (simp add: go_quote_def)
qed

lemma count_few: "length (filter (\<lambda>x. x = c) s) < n \<Longrightarrow> count_text (replicate n c) s = 0"
proof (induction s)
  case (Cons d s)
  have "\<not> has_prefix (d # s) (replicate n c)"
  proof
    assume "has_prefix (d # s) (replicate n c)"
    then obtain t where "d # s = replicate n c @ t" by (auto simp: has_prefix_iff)
    with Cons.prems show False by (metis (mono_tags, lifting) filter_append filter_replicate length_append length_replicate not_add_less1)
  qed
  with Cons show ?case by (auto split: if_splits)
qed simp

lemma strip_between:
  "CHR 0x22 \<notin> set u \<Longrightarrow> strip_comment (Some (CHR 0x22)) (u @ CHR 0x22 # r) = u @ CHR 0x22 # strip_comment None r"
  by (induction u) auto

lemma url_plain:
  assumes "tidy_url u"
  shows "line_plain (''url = '' @ go_quote printable u)"
proof -
  let ?l = "''url = '' @ CHR 0x22 # u @ [CHR 0x22]"
  have byte: "33 \<le> byte c \<and> c \<noteq> CHR 0x22 \<and> c \<noteq> CHR 0x27" if "c \<in> set u" for c
    using assms that by (auto simp: tidy_url_def list_all_iff)
  moreover have "\<not> 33 \<le> byte newline" "\<not> 33 \<le> byte (CHR 0x0D)" by (simp_all add: byte_def newline_def)
  ultimately have free: "CHR 0x22 \<notin> set u" "CHR 0x27 \<notin> set u" "newline \<notin> set u" "CHR 0x0D \<notin> set u" by blast+
  have "filter (\<lambda>x. x = CHR 0x22) u = []" using free(1) by (auto simp: filter_empty_conv)
  then have "count_text (replicate 3 (CHR 0x22)) ?l = 0" by (intro count_few) simp
  moreover have "count_text (replicate 3 (CHR 0x27)) ?l = 0" using free(2) by (intro count_absent) (auto simp: numeral_3_eq_3)
  ultimately have "open_multiline_delimiter ?l = []" by (simp add: open_multiline_delimiter_def multiline_delimiters_def)
  moreover have "table_header_key ?l = None"
  proof -
    have "strip_line_comment ?l = ?l" using strip_between [OF free(1), of "[]"] by (simp add: strip_line_comment_def)
    moreover have "\<exists>t. trim_space ?l = ''url ='' @ t"
    proof -
      have "ink (CHR ''u'')" "ink (CHR ''='')" by code_simp+
      with trim_space_keeps [of "''url ''" "CHR ''=''" "CHR 0x20 # CHR 0x22 # u @ [CHR 0x22]"] show ?thesis by auto
    qed
    ultimately show ?thesis by (auto simp: table_header_key_def)
  qed
  moreover have "newline \<notin> set ?l" "CHR 0x0D \<notin> set ?l" using free(3,4) by (auto simp: newline_def)
  ultimately show ?thesis using quote_tidy [OF assms, of printable] by (simp add: line_plain_def)
qed

lemma trim_set_id: "(\<And>c. c \<in> set s \<Longrightarrow> c \<notin> set cs) \<Longrightarrow> trim_set cs s = s"
proof -
  have drop: "(\<And>c. c \<in> set x \<Longrightarrow> \<not> p c) \<Longrightarrow> dropWhile p x = x" for p and x :: string by (cases x) auto
  assume "\<And>c. c \<in> set s \<Longrightarrow> c \<notin> set cs"
  then have "dropWhile (\<lambda>c. c \<in> set cs) s = s" "dropWhile (\<lambda>c. c \<in> set cs) (rev s) = rev s" by (auto intro!: drop)
  then show ?thesis by (simp add: trim_set_def)
qed

lemma header_plain:
  assumes "codex_name n"
  shows "table_header_key (CHR ''['' # (codex_server_prefix @ n) @ '']'') = Some (codex_server_prefix @ n)"
proof -
  have free: "c \<notin> {CHR ''.'', CHR 0x22, CHR 0x27, CHR ''#''}" "ink c" if "c \<in> set n" for c
    using assms that name_char [of c] by (auto simp: codex_name_def list_all_iff)
  note n = codex_name_ink [OF assms]
  have i: "ink (CHR ''['')" "ink (CHR '']'')" "ink (CHR ''m'')" "ink (CHR ''s'')" "\<not> has_prefix ''['' ''[[''" by code_simp+
  let ?h = "CHR ''['' # (codex_server_prefix @ n) @ '']''"
  have h: "strip_line_comment ?h = ?h" using free by (intro strip_free) (auto simp: codex_server_prefix_def)
  have t: "trim_space ?h = ?h" using i by (intro trim_space_ink) auto
  have inner: "trim_space (codex_server_prefix @ n) = codex_server_prefix @ n"
    using i n by (intro trim_space_ink) (auto simp: codex_server_prefix_def)
  have "CHR 0x22 \<notin> set n" "CHR 0x27 \<notin> set n" using free by auto
  then have key: "trim_set [CHR 0x22, CHR 0x27] n = n" by (intro trim_set_id) auto
  have "split_on (CHR ''.'') (codex_server_prefix @ n) = [''mcp_servers'', n]"
    using split_on_line [of "CHR ''.''" "''mcp_servers''" n] split_on_last [of "CHR ''.''" n] free by (auto simp: codex_server_prefix_def)
  moreover have "unquote_key ''mcp_servers'' = ''mcp_servers''" by code_simp
  moreover have "unquote_key n = n" using key trim_space_ink n by (simp add: unquote_key_def)
  moreover have "\<not> has_prefix ?h ''[[''" "has_suffix ?h '']''" by (auto simp: codex_server_prefix_def has_suffix_def)
  moreover have "codex_server_prefix @ n \<noteq> []" by (simp add: codex_server_prefix_def)
  ultimately show ?thesis
    using h t inner by (simp add: table_header_key_def Let_def butlast_append join_with_def) (simp add: codex_server_prefix_def)
qed

lemma server_plain:
  assumes "codex_name (endpoint_name s)" and "tidy_url (endpoint_url s)"
  shows "table_plain (server_section printable s)"
proof -
  let ?h = "CHR ''['' # (codex_server_prefix @ endpoint_name s) @ '']''"
  have free: "c \<notin> {CHR 0x22, CHR 0x27, newline, CHR 0x0D}" if "c \<in> set (endpoint_name s)" for c
    using assms(1) that name_char [of c] by (auto simp: codex_name_def list_all_iff newline_def)
  then have "set ?h \<inter> {CHR 0x22, CHR 0x27, newline, CHR 0x0D} = {}" by (auto simp: codex_server_prefix_def newline_def)
  with no_delimiter [of ?h] header_plain [OF assms(1)] url_plain [OF assms(2)] show ?thesis
    by (auto simp: server_section_def new_section_def table_plain_def)
qed

definition tidy_server :: "mcp_server_endpoint \<Rightarrow> bool" where
  "tidy_server s \<longleftrightarrow> codex_name (endpoint_name s) \<and> tidy_url (endpoint_url s)"

lemma configured_plain:
  assumes "document_plain d" and "servers \<noteq> []" and "list_all tidy_server servers"
  shows "document_plain (configure_codex printable servers d)"
proof -
  from assms(1) obtain s0 rest where d: "d = s0 # rest" "ts_key s0 = []" "ts_header s0 = []" "list_all line_plain (ts_body s0)"
    "list_all table_plain rest" by (auto simp: document_plain_def split: list.splits)
  let ?ns = "sorted_names (map endpoint_name servers)"
  have ns: "?ns \<noteq> []" "list_all codex_name ?ns"
    using assms(2,3) by (auto simp: sorted_names_def list_all_iff tidy_server_def simp flip: set_empty)
  have "cut_prefix [] codex_server_prefix = None" by code_simp
  then have "remove_server_sections names d = s0 # remove_server_sections names rest" for names
    using d by (simp add: remove_server_sections_def is_server_of_def server_name_def)
  moreover have "[] \<noteq> codex_features_table" by (simp add: codex_features_table_def)
  ultimately have c: "cleared servers d = s0 # set_feature_flag (remove_server_sections (codex_managed_names d @ map endpoint_name servers) rest)"
    using d(2) assms(2) by (simp add: cleared_def Let_def)
  have "list_all table_plain (remove_server_sections names rest)" for names
    using d(5) by (auto simp: remove_server_sections_def list_all_iff)
  with c d have "document_plain (cleared servers d)" by (simp add: document_plain_def feature_plain)
  then have "document_plain (set_managed_names ?ns (cleared servers d))" using managed_plain marker_plain ns by blast
  moreover have "list_all table_plain (map (server_section printable) servers)"
    using assms(3) server_plain by (auto simp: list_all_iff tidy_server_def)
  ultimately show ?thesis using configure_cleared [OF assms(2)]
    by (auto simp: document_plain_def split: list.splits)
qed

lemma ended_plain: "document_plain d \<Longrightarrow> document_plain (ended d)"
proof -
  have rest: "list_all table_plain e \<Longrightarrow> list_all table_plain (ended e)" for e
    by (induction e rule: ended.induct) (auto simp: table_plain_def strip_plain empty_line)
  assume "document_plain d"
  then show ?thesis using rest
    by (cases d rule: ended.cases) (auto simp: document_plain_def strip_plain empty_line)
qed

section \<open>A comment that swallows the file\<close>

text \<open>A line that opens a multi-line string which nothing closes, and the tables the writer adds.\<close>

definition unclosed :: "string \<Rightarrow> bool" where
  "unclosed q \<longleftrightarrow> open_multiline_delimiter q \<noteq> [] \<and> table_header_key q = None \<and> \<not> is_marker q \<and> newline \<notin> set q \<and> CHR 0x0D \<notin> set q"

definition added_tables :: "(string \<Rightarrow> bool) \<Rightarrow> mcp_server_endpoint list \<Rightarrow> toml_document" where
  "added_tables printable servers = new_section codex_features_table [flag_line] # map (server_section printable) servers"

lemma read_open:
  "opened \<noteq> [] \<Longrightarrow> list_all (\<lambda>l. \<not> contains l opened) ls
    \<Longrightarrow> read_sections cur opened ls = [cur\<lparr>ts_body := ts_body cur @ ls\<rparr>]"
  by (induction ls arbitrary: cur) (auto simp: add_line_def)

lemma configure_swallowed:
  assumes "servers \<noteq> []" and "list_all tidy_server servers" and "\<not> list_ex is_marker b"
  shows "configure_codex printable servers [preamble\<lparr>ts_body := b\<rparr>]
      = preamble\<lparr>ts_body := marker_line (sorted_names (map endpoint_name servers)) # b\<rparr> # added_tables printable servers"
    and "configure_codex printable servers [preamble\<lparr>ts_body := marker_line (sorted_names (map endpoint_name servers)) # b\<rparr>]
      = preamble\<lparr>ts_body := marker_line (sorted_names (map endpoint_name servers)) # b\<rparr> # added_tables printable servers"
proof -
  have "cut_prefix [] codex_server_prefix = None" "[] \<noteq> codex_features_table" by code_simp+
  then have c: "cleared servers [preamble\<lparr>ts_body := x\<rparr>] = [preamble\<lparr>ts_body := x\<rparr>, new_section codex_features_table [flag_line]]" for x
    using assms(1) by (simp add: cleared_def remove_server_sections_def is_server_of_def server_name_def preamble_def)
  have "sorted_names (map endpoint_name servers) \<noteq> []" using assms(1) by (simp add: sorted_names_def flip: set_empty)
  then show "configure_codex printable servers [preamble\<lparr>ts_body := b\<rparr>]
      = preamble\<lparr>ts_body := marker_line (sorted_names (map endpoint_name servers)) # b\<rparr> # added_tables printable servers"
    "configure_codex printable servers [preamble\<lparr>ts_body := marker_line (sorted_names (map endpoint_name servers)) # b\<rparr>]
      = preamble\<lparr>ts_body := marker_line (sorted_names (map endpoint_name servers)) # b\<rparr> # added_tables printable servers"
    using assms(3) by (auto simp: configure_cleared [OF assms(1)] c set_managed_names_def has_marker_def new_section_def flag_texts
        marker_line_is_marker added_tables_def)
qed

lemma added_plain:
  "list_all tidy_server servers \<Longrightarrow> list_all table_plain (added_tables printable servers)"
  using flag_plain(2) server_plain by (auto simp: added_tables_def list_all_iff tidy_server_def)

lemma render_preamble:
  assumes "list_all (\<lambda>l. newline \<notin> set l) b" and "list_all table_plain d"
  shows "render_toml (preamble\<lparr>ts_body := b\<rparr> # d) = out_lines (strip_blanks b @ concat (map lines_of d))"
proof -
  have "end_line (trim_newlines (render_section [] (preamble\<lparr>ts_body := b\<rparr>))) = out_lines (strip_blanks b)"
    using trim_body [OF assms(1), of "[]"]
    by (auto simp: render_section_def preamble_def trim_newlines_def end_line_def simp flip: out_lines_def)
  with render_rest [OF assms(2)] show ?thesis by (simp add: render_toml_def)
qed

lemma strip_last: "x \<noteq> [] \<Longrightarrow> last x \<noteq> [] \<Longrightarrow> strip_blanks x = x"
  by (cases x rule: rev_cases) (auto simp: strip_blanks_def)

lemma swallowed_tables:
  assumes "unclosed q" and "servers \<noteq> []" and "list_all tidy_server servers"
    and "a = concat (map lines_of (added_tables printable servers))" and "list_all (\<lambda>l. \<not> contains l (open_multiline_delimiter q)) a"
    and "\<not> list_ex is_marker a" and "list_all (\<lambda>l. newline \<notin> set l \<and> CHR 0x0D \<notin> set l) a" and "a \<noteq> [] \<and> last a \<noteq> []"
  shows "configure_codex_mcp_servers printable None None servers (Some (out_lines (marker_line (sorted_names (map endpoint_name servers)) # q # a)))
    = (Inr (), Some (out_lines (marker_line (sorted_names (map endpoint_name servers)) # q # a @ a)))"
    and "configure_codex_mcp_servers printable None None servers (Some q)
    = (Inr (), Some (out_lines (marker_line (sorted_names (map endpoint_name servers)) # q # a)))"
proof -
  let ?ns = "sorted_names (map endpoint_name servers)"
  let ?m = "marker_line ?ns"
  have ns: "list_all codex_name ?ns" using assms(3) by (auto simp: sorted_names_def list_all_iff tidy_server_def)
  note m = marker_plain [OF ns] and al = assms(7) and last_a = assms(8)
  have q: "open_multiline_delimiter q \<noteq> []" "table_header_key q = None" "\<not> is_marker q" "newline \<notin> set q" "CHR 0x0D \<notin> set q" "q \<noteq> []"
    using assms(1) empty_line by (auto simp: unclosed_def line_plain_def)
  have plain: "list_all table_plain (added_tables printable servers)" using added_plain [OF assms(3)] .
  have nomark: "\<not> list_ex is_marker (q # a @ [[]])" using q(3) flag_texts assms(6) by (auto simp: list_ex_iff)
  have "parse_toml_document q = [preamble\<lparr>ts_body := [q]\<rparr>]"
    using q by (simp add: parse_toml_document_def unix_plain split_on_last add_line_def preamble_def)
  then show "configure_codex_mcp_servers printable None None servers (Some q) = (Inr (), Some (out_lines (?m # q # a)))"
    using configure_swallowed(1) [OF assms(2,3), of "[q]"] q m render_preamble [OF _ plain, of "[?m, q]"] assms(4)
    by (simp add: configure_codex_mcp_servers_def read_toml_document_def write_text_file_def strip_last line_plain_def)
  have "CHR 0x0D \<notin> set (out_lines (?m # q # a))"
    using m q al by (auto simp: out_lines_def line_plain_def list_all_iff newline_def)
  moreover have "list_all (\<lambda>l. newline \<notin> set l) (?m # q # a)" using m q al by (auto simp: line_plain_def list_all_iff)
  ultimately have "parse_toml_document (out_lines (?m # q # a)) = read_sections preamble [] (?m # q # a @ [[]])"
    using split_lines [of "?m # q # a"] unix_plain unfolding parse_toml_document_def by simp
  also have "\<dots> = [preamble\<lparr>ts_body := ?m # q # a @ [[]]\<rparr>]"
    using read_open [OF q(1), of "a @ [[]]"] assms(5) m q(1,2) by (simp add: line_plain_def add_line_def preamble_def)
  finally have p: "parse_toml_document (out_lines (?m # q # a)) = [preamble\<lparr>ts_body := ?m # q # a @ [[]]\<rparr>]" .
  have "strip_blanks ((?m # q # a) @ [[]]) = ?m # q # a" using last_a strip_last [of "?m # q # a"] strip_append [of "?m # q # a" "[[]]"] by (simp add: strip_Cons)
  then show "configure_codex_mcp_servers printable None None servers (Some (out_lines (?m # q # a)))
    = (Inr (), Some (out_lines (?m # q # a @ a)))"
    using configure_swallowed(2) [OF assms(2,3) nomark] p m q al render_preamble [OF _ plain, of "?m # q # a @ [[]]"] assms(4)
    by (simp add: configure_codex_mcp_servers_def read_toml_document_def write_text_file_def line_plain_def list_all_iff)
qed

section \<open>Properties\<close>


text \<open>
  C36. Writing the same servers again leaves the file as it is, for a file in which no line opens a multi-line
  string (or a carriage return is left inside a line) and servers with plain names and URLs.
\<close>

theorem codex_configured_twice:
  assumes "servers \<noteq> []" and "list_all tidy_server servers" and "case before of None \<Rightarrow> True | Some t \<Rightarrow> closed_text t"
    and "configure_codex_mcp_servers printable None None servers before = (r, Some t1)"
  shows "configure_codex_mcp_servers printable None None servers (Some t1) = (Inr (), Some t1)"
proof -
  obtain d where d: "read_toml_document None before = Inr d" "document_plain d"
    using assms(3) parse_plain
    by (cases before) (auto simp: read_toml_document_def document_plain_def preamble_def)
  let ?e = "configure_codex printable servers d"
  have t1: "t1 = render_toml ?e"
    using assms(4) d(1) by (simp add: configure_codex_mcp_servers_def write_text_file_def)
  have plain: "document_plain ?e" using configured_plain [OF d(2) assms(1,2)] .
  have names: "list_all (codex_name \<circ> endpoint_name) servers" using assms(2) by (auto simp: list_all_iff tidy_server_def)
  have "document_plain (configure_codex printable servers (ended ?e))"
    using configured_plain [OF ended_plain [OF plain] assms(1,2)] .
  moreover have "map bare (configure_codex printable servers (ended ?e)) = map bare (configure_codex printable servers ?e)"
    using bare_configured [OF assms(1)] ended_bare by metis
  ultimately have "render_toml (configure_codex printable servers (ended ?e)) = t1"
    using render_bare plain t1 configured_again [OF assms(1) names] by metis
  moreover have "read_toml_document None (Some t1) = Inr (ended ?e)"
    using parse_rendered [OF plain] t1 by (simp add: read_toml_document_def)
  ultimately show ?thesis by (simp add: configure_codex_mcp_servers_def write_text_file_def)
qed

definition one_server :: "mcp_server_endpoint list" where
  "one_server = [\<lparr>endpoint_name = ''a'', endpoint_url = ''https://a.io''\<rparr>]"

definition codex_text :: "mcp_server_endpoint list \<Rightarrow> string \<Rightarrow> string" where
  "codex_text servers t = the (snd (configure_codex_mcp_servers (\<lambda>_. True) None None servers (Some t)))"

lemma codex_configured_twice_witness:
  "snd (configure_codex_mcp_servers (\<lambda>_. True) None None one_server (Some (codex_text one_server ''x = 1'')))
    = Some (codex_text one_server ''x = 1'')"
proof -
  have "one_server \<noteq> []" "list_all tidy_server one_server" "closed_text ''x = 1''" by code_simp+
  moreover have "configure_codex_mcp_servers (\<lambda>_. True) None None one_server (Some ''x = 1'')
      = (Inr (), Some (codex_text one_server ''x = 1''))"
    by (simp add: codex_text_def configure_codex_mcp_servers_def read_toml_document_def write_text_file_def)
  ultimately show ?thesis
    using codex_configured_twice [of one_server "Some ''x = 1''" "\<lambda>_. True" "Inr ()" "codex_text one_server ''x = 1''"] by simp
qed

text \<open>
  C40. The scan for multi-line strings counts quotes in comments too: with three quotes in a comment the rest
  of the file passes for text, its tables are not seen, and every session adds another copy of each server's table.
\<close>

theorem quoted_comment_duplicates_tables:
  "length (filter (\<lambda>l. l = ''[mcp_servers.a]'')
     (split_on newline (codex_text one_server (codex_text one_server (''# '' @ replicate 3 (CHR 0x22)))))) = 2"
proof -
  let ?q = "''# '' @ replicate 3 (CHR 0x22)"
  let ?a = "[''[features]'', flag_line, ''[mcp_servers.a]'', ''url = '' @ CHR 0x22 # ''https://a.io'' @ [CHR 0x22]]"
  let ?m = "marker_line (sorted_names (map endpoint_name one_server))"
  have facts: "unclosed ?q" "one_server \<noteq> []" "list_all tidy_server one_server" "tidy_url ''https://a.io''"
    "list_all (\<lambda>l. \<not> contains l (open_multiline_delimiter ?q)) ?a" "\<not> list_ex is_marker ?a" "?a \<noteq> [] \<and> last ?a \<noteq> []"
    "list_all (\<lambda>l. newline \<notin> set l \<and> CHR 0x0D \<notin> set l) ?a" "\<not> is_marker ''[mcp_servers.a]''"
    "newline \<notin> set ?q" "?q \<noteq> ''[mcp_servers.a]''" "flag_line \<noteq> ''[mcp_servers.a]''" by code_simp+
  have a: "?a = concat (map lines_of (added_tables (\<lambda>_. True) one_server))"
    using quote_tidy [OF facts(4)]
    by (simp add: added_tables_def lines_of_def new_section_def server_section_def one_server_def strip_Cons
        flag_line_nonempty codex_features_table_def codex_server_prefix_def)
  note s = swallowed_tables [OF facts(1-3) a facts(5,6,8,7)]
  have written: "codex_text one_server (codex_text one_server ?q) = out_lines (?m # ?q # ?a @ ?a)" unfolding codex_text_def s(2) by (simp only: s(1) snd_conv option.sel)
  have "list_all codex_name (sorted_names (map endpoint_name one_server))"
    using facts(3) by (auto simp: sorted_names_def list_all_iff tidy_server_def)
  then have "newline \<notin> set ?m" using marker_plain by (auto simp: line_plain_def)
  with facts have "split_on newline (out_lines (?m # ?q # ?a @ ?a)) = (?m # ?q # ?a @ ?a) @ [[]]"
    by (intro split_lines) (simp add: list_all_iff)
  moreover have "?m \<noteq> ''[mcp_servers.a]''" using marker_line_is_marker facts(9) by metis
  ultimately show ?thesis unfolding written using facts(12) by simp
qed

text \<open>
  C84. Servers of equal names are written as tables of equal names, which a reader of the format refuses.
\<close>

theorem equal_names_written_twice:
  "filter (\<lambda>s. ts_key s = codex_server_prefix @ n) (configure_codex printable [\<lparr>endpoint_name = n, endpoint_url = u\<rparr>, \<lparr>endpoint_name = n, endpoint_url = v\<rparr>] d)
    = map (server_section printable) [\<lparr>endpoint_name = n, endpoint_url = u\<rparr>, \<lparr>endpoint_name = n, endpoint_url = v\<rparr>]"
proof -
  let ?s = "[\<lparr>endpoint_name = n, endpoint_url = u\<rparr>, \<lparr>endpoint_name = n, endpoint_url = v\<rparr>]"
  let ?c = "configure_codex printable ?s d"
  have key: "ts_key s = codex_server_prefix @ n \<longleftrightarrow> server_name s = Some n" for s by (simp add: server_name_def cut_prefix_eq)
  then have "filter (\<lambda>s. ts_key s = codex_server_prefix @ n) ?c
      = filter (\<lambda>s. server_name s = Some n) (filter (is_server_of (codex_managed_names d @ map endpoint_name ?s)) ?c)"
    by (auto simp: is_server_of_def intro!: filter_cong)
  then show ?thesis unfolding configured_servers by (simp add: server_section_name)
qed

definition owned_table :: string where "owned_table = ''[mcp_servers.a]''"
definition users_array :: string where "users_array = ''[[x]]''"

text \<open>
  C40. An array of tables does not end the table above it: one that the user put below a table Keydris owns goes
  when that table is rewritten, and the file becomes the one that it would be without it.
\<close>

theorem array_below_owned_table_deleted:
  "codex_text one_server (owned_table @ [newline] @ users_array) = codex_text one_server owned_table
    \<and> table_header_key users_array = None"
proof -
  let ?s = "\<lambda>b. \<lparr>ts_key = codex_server_prefix @ ''a'', ts_header = owned_table, ts_body = b\<rparr>"
  have parsed: "parse_toml_document (owned_table @ [newline] @ users_array) = [preamble, ?s [users_array]]"
    "parse_toml_document owned_table = [preamble, ?s []]" "table_header_key users_array = None" by code_simp+
  have names: "codex_managed_names [preamble, ?s [users_array]] = []" "codex_managed_names [preamble, ?s []] = []" by code_simp+
  have "is_server_of [''a''] (?s b)" for b by (simp add: is_server_of_def server_name_def cut_prefix_def)
  then have "remove_server_sections [''a''] [preamble, ?s [users_array]] = remove_server_sections [''a''] [preamble, ?s []]"
    by (simp add: remove_server_sections_def)
  then have "configure_codex (\<lambda>_. True) one_server [preamble, ?s [users_array]] = configure_codex (\<lambda>_. True) one_server [preamble, ?s []]"
    by (simp add: configure_codex_def names one_server_def)
  then show ?thesis
    by (simp only: codex_text_def configure_codex_mcp_servers_def read_toml_document_def parsed option.case sum.case)
      (simp add: write_text_file_def)
qed

end
