(* ===== verification/Hook_Command.thy ===== *)
theory Hook_Command
  imports Go_Text
begin

text \<open>
  The command lines of the hooks: \<^verbatim>\<open>shellQuote\<close> and \<^verbatim>\<open>hookExecutable\<close> of
  \<^verbatim>\<open>internal/cli/session_hook.go\<close>, which write them, and \<^verbatim>\<open>isKeydrisCommand\<close> of
  \<^verbatim>\<open>internal/node/sandbox/deconfigure.go\<close>, which recognizes them. Lemmas: what is written is
  read back, for every path.
\<close>

section \<open>Writing\<close>

datatype goos = Linux | Darwin | Windows

fun quote_single :: "string \<Rightarrow> string" where
  "quote_single [] = []"
| "quote_single (c # s) =
     (if c = CHR 0x27 then [CHR 0x27, CHR 0x22, CHR 0x27, CHR 0x22, CHR 0x27] @ quote_single s else c # quote_single s)"

definition shell_quote :: "string \<Rightarrow> string" where
  "shell_quote value = CHR 0x27 # quote_single value @ [CHR 0x27]"

definition to_slash :: "string \<Rightarrow> string" where
  "to_slash s = map (\<lambda>c. if c = CHR 0x5C then CHR ''/'' else c) s"

text \<open>\<open>hookExecutable\<close>, from the absolute path of the executable.\<close>

definition hook_executable :: "goos \<Rightarrow> string \<Rightarrow> string result" where
  "hook_executable os executable =
     (if os = Windows then
        if contains_any executable [CHR ''%'', CHR ''!'', CHR ''$'', CHR 0x60, CHR 0x0D, CHR 0x0A, CHR 0x22]
        then Inl ''hook executable path contains unsupported shell characters''
        else Inr (CHR 0x22 # to_slash executable @ [CHR 0x22])
      else Inr (shell_quote executable))"

section \<open>Reading\<close>

text \<open>The loop of \<open>isKeydrisCommand\<close>: the open quote, the text left, the executable so far.\<close>

function first_word :: "char option \<Rightarrow> string \<Rightarrow> string \<Rightarrow> string \<times> char option" where
  "first_word q [] out = (out, q)"
| "first_word q (c # s) out =
     (if q = None \<and> c \<in> {CHR 0x20, CHR 0x09, CHR 0x0D, CHR 0x0A} then (out, q)
      else if (c = CHR 0x27 \<or> c = CHR 0x22) \<and> q = None then first_word (Some c) s out
      else if (c = CHR 0x27 \<or> c = CHR 0x22) \<and> q = Some c then first_word None s out
      else if c = CHR 0x5C \<and> q \<noteq> Some (CHR 0x27) \<and> s \<noteq> [] \<and> hd s \<in> {CHR 0x27, CHR 0x22, CHR 0x5C, CHR 0x20}
      then first_word q (tl s) (out @ [hd s])
      else first_word q s (out @ [c]))"
  by pat_completeness auto
termination
  by (relation "measure (\<lambda>(q, s, out). length s)") auto

text \<open>\<open>filepath.Base\<close> with forward slashes\<close>

definition path_base :: "string \<Rightarrow> string" where
  "path_base p =
     (let q = rev (dropWhile (\<lambda>c. c = CHR ''/'') (rev p)) in
      if p = [] then ''.'' else if q = [] then ''/'' else rev (takeWhile (\<lambda>c. c \<noteq> CHR ''/'') (rev q)))"

definition is_keydris_executable :: "string \<Rightarrow> bool" where
  "is_keydris_executable executable \<longleftrightarrow> to_lower (path_base (to_slash executable)) \<in> {''keydris'', ''keydris.exe''}"

definition is_keydris_command :: "string \<Rightarrow> bool" where
  "is_keydris_command command =
     (case first_word None (trim_space (trim_prefix (trim_space command) ''& '')) [] of
        (executable, q) \<Rightarrow> q = None \<and> is_keydris_executable executable)"

section \<open>What is written is read back\<close>

lemma trim_loop_suffix: "\<exists>k. trim_loop n ws s = drop k s"
proof (induction n arbitrary: s)
  case 0
  show ?case by (intro exI [of _ 0]) simp
next
  case (Suc n)
  show ?case
  proof (cases "find (\<lambda>w. w \<noteq> [] \<and> has_prefix s w) ws")
    case None
    then show ?thesis by (intro exI [of _ 0]) simp
  next
    case (Some w)
    with Suc [of "drop (length w) s"] show ?thesis by (auto simp: add.commute)
  qed
qed

lemma take_beginning: "p @ t = take n (p @ b) \<Longrightarrow> \<exists>k. t = take k b"
proof -
  assume eq: "p @ t = take n (p @ b)"
  then have "length p + length t = min n (length p + length b)" by (metis length_append length_take min.commute)
  then have "length p \<le> n" by linarith
  with eq show ?thesis by auto
qed

text \<open>Trimming a text that begins with ink up to some ink leaves a beginning of the rest.\<close>

lemma trim_space_beginning:
  assumes "ink (hd (s @ [c]))" and "ink c"
  shows "\<exists>k. trim_space (s @ c # b) = s @ c # take k b"
proof -
  obtain t where t: "trim_space (s @ c # b) = s @ c # t" using trim_space_keeps [OF assms] by blast
  have left: "trim_left_of go_spaces (s @ c # b) = s @ c # b"
    using assms(1) trim_left_ink by (cases s) auto
  obtain k where "trim_left_of (map rev go_spaces) (rev (s @ c # b)) = drop k (rev (s @ c # b))"
    using trim_loop_suffix unfolding trim_left_of_def by blast
  moreover have "rev (drop k (rev x)) = take (length x - k) x" for x :: string by (simp add: rev_drop)
  ultimately have "trim_space (s @ c # b) = take (length (s @ c # b) - k) (s @ c # b)"
    unfolding trim_space_def left by metis
  then have "(s @ [c]) @ t = take (length (s @ c # b) - k) ((s @ [c]) @ b)" using t by (simp del: take_append length_append)
  from take_beginning [OF this] obtain m where "t = take m b" by blast
  with t show ?thesis by blast
qed

lemma first_word_single:
  "first_word (Some (CHR 0x27)) (quote_single s @ CHR 0x27 # r) out = first_word None r (out @ s)"
  by (induction s arbitrary: out) auto

definition ends_word :: "string \<Rightarrow> bool" where
  "ends_word r \<longleftrightarrow> r = [] \<or> hd r \<in> {CHR 0x20, CHR 0x09, CHR 0x0D, CHR 0x0A}"

lemma first_word_ends: "ends_word r \<Longrightarrow> first_word None r out = (out, None)"
  by (cases r) (auto simp: ends_word_def)

lemma quote_ink: "ink (CHR 0x27)" "ink (CHR 0x22)" "ink (CHR ''&'')"
proof -
  show "ink (CHR 0x27)" "ink (CHR 0x22)" "ink (CHR ''&'')" by code_simp+
qed

lemma first_word_double:
  "CHR 0x22 \<notin> set s \<Longrightarrow> CHR 0x5C \<notin> set s \<Longrightarrow>
     first_word (Some (CHR 0x22)) (s @ CHR 0x22 # r) out = first_word None r (out @ s)"
  by (induction s arbitrary: out) auto

text \<open>A quoted executable, as \<open>hookExecutable\<close> returns it, is one word.\<close>

definition quoted_word :: "char \<Rightarrow> string \<Rightarrow> string \<Rightarrow> bool" where
  "quoted_word c body exe \<longleftrightarrow> c \<in> {CHR 0x27, CHR 0x22} \<and> (\<forall>r. ends_word r \<longrightarrow> first_word None ((c # body) @ c # r) [] = (exe, None))"

lemma hook_executable_word:
  assumes "hook_executable os exe = Inr q"
  shows "\<exists>c body. q = c # body @ [c] \<and> quoted_word c body (if os = Windows then to_slash exe else exe)"
proof (cases "os = Windows")
  case True
  with assms have q: "q = CHR 0x22 # to_slash exe @ [CHR 0x22]" "CHR 0x22 \<notin> set exe"
    by (auto simp: hook_executable_def contains_any_def split: if_splits)
  then have "CHR 0x22 \<notin> set (to_slash exe)" "CHR 0x5C \<notin> set (to_slash exe)" by (auto simp: to_slash_def)
  with first_word_double first_word_ends have "quoted_word (CHR 0x22) (to_slash exe) (to_slash exe)" by (simp add: quoted_word_def)
  with q(1) True show ?thesis by auto
next
  case False
  with assms have "q = CHR 0x27 # quote_single exe @ [CHR 0x27]" by (simp add: hook_executable_def shell_quote_def)
  moreover have "quoted_word (CHR 0x27) (quote_single exe) exe"
    using first_word_single first_word_ends by (simp add: quoted_word_def)
  ultimately show ?thesis using False by auto
qed

lemma word_read:
  assumes "quoted_word c body exe" and "p = [] \<or> p = ''& ''"
  shows "first_word None (trim_space (trim_prefix (trim_space (p @ (c # body) @ c # CHR 0x20 # args)) ''& '')) [] = (exe, None)"
proof -
  from assms(1) have c: "ink c" "c \<noteq> CHR ''&''" using quote_ink by (auto simp: quoted_word_def)
  have keep: "\<exists>k. trim_space ((c # body) @ c # b) = (c # body) @ c # take k b" for b
    using trim_space_beginning [of "c # body" c b] c by simp
  have "ink (hd (p @ (c # body) @ [c]))" using assms(2) c(1) quote_ink by auto
  then have "\<exists>k. trim_space ((p @ c # body) @ c # b) = (p @ c # body) @ c # take k b" for b
    using trim_space_beginning [of "p @ c # body" c b] c(1) by simp
  then obtain k where k: "trim_space (p @ (c # body) @ c # CHR 0x20 # args) = p @ (c # body) @ c # take k (CHR 0x20 # args)"
    by (metis append_assoc)
  obtain m where m: "trim_space ((c # body) @ c # take k (CHR 0x20 # args)) = (c # body) @ c # take m (take k (CHR 0x20 # args))"
    using keep by blast
  have "trim_prefix (p @ (c # body) @ x) ''& '' = (c # body) @ x" for x
    using assms(2) c(2) by (auto simp: trim_prefix_def)
  then have "trim_space (trim_prefix (trim_space (p @ (c # body) @ c # CHR 0x20 # args)) ''& '')
      = (c # body) @ c # take m (take k (CHR 0x20 # args))" unfolding k using m by simp
  moreover have "ends_word (take m (take k (CHR 0x20 # args)))" by (cases m; cases k) (simp_all add: ends_word_def)
  ultimately show ?thesis using assms(1) by (simp add: quoted_word_def)
qed

lemma to_slash_idem: "is_keydris_executable (to_slash exe) = is_keydris_executable exe"
proof -
  have "to_slash (to_slash exe) = to_slash exe" by (simp add: to_slash_def)
  then show ?thesis by (simp add: is_keydris_executable_def)
qed

lemma hook_command_read:
  assumes "hook_executable os exe = Inr q" and "p = [] \<or> p = ''& ''"
  shows "is_keydris_command (p @ q @ CHR 0x20 # args) = is_keydris_executable exe"
proof -
  from hook_executable_word [OF assms(1)] obtain c body where "q = c # body @ [c]"
    and w: "quoted_word c body (if os = Windows then to_slash exe else exe)" by blast
  with word_read [OF w assms(2), of args] to_slash_idem show ?thesis
    unfolding is_keydris_command_def by (simp split: if_splits)
qed

lemma keydris_in_directory: "is_keydris_executable (dir @ ''/keydris'')"
proof -
  have "rev (takeWhile (\<lambda>c. c \<noteq> CHR ''/'') (rev (to_slash (dir @ ''/keydris'')))) = ''keydris''" by (simp add: to_slash_def)
  moreover have "to_lower ''keydris'' = ''keydris''" by code_simp
  ultimately show ?thesis by (simp add: is_keydris_executable_def path_base_def to_slash_def)
qed

section \<open>Properties\<close>

text \<open>
  C38. Every hook command that init writes is recognized when the hooks are removed, whatever the path of the
  executable (blanks, quotes and backslashes included) and the arguments: it counts as Keydris's exactly when
  the file's name is keydris or keydris.exe, also behind PowerShell's call operator.
\<close>

theorem hook_commands_recognized:
  assumes "hook_executable os exe = Inr q"
  shows "is_keydris_command (q @ CHR 0x20 # args) = is_keydris_executable exe
    \<and> is_keydris_command (''& '' @ q @ CHR 0x20 # args) = is_keydris_executable exe"
  using hook_command_read [OF assms, of "[]"] hook_command_read [OF assms, of "''& ''"] by simp

lemma hook_commands_recognized_witness:
  "is_keydris_command (shell_quote ''/o'' @ CHR 0x20 # ''x'') = False
    \<and> is_keydris_command (shell_quote ''/it's here/keydris'' @ CHR 0x20 # ''__session-end'') = True"
proof -
  have "hook_executable Linux ''/o'' = Inr (shell_quote ''/o'')"
    "hook_executable Linux ''/it's here/keydris'' = Inr (shell_quote ''/it's here/keydris'')" by (simp_all add: hook_executable_def)
  from this [THEN hook_commands_recognized] have "is_keydris_command (shell_quote ''/o'' @ CHR 0x20 # ''x'') = is_keydris_executable ''/o''"
    "is_keydris_command (shell_quote ''/it's here/keydris'' @ CHR 0x20 # ''__session-end'') = is_keydris_executable ''/it's here/keydris''"
    by blast+
  moreover have "\<not> is_keydris_executable ''/o''" "is_keydris_executable ''/it's here/keydris''" by code_simp+
  ultimately show ?thesis by simp
qed

end
