(* ===== verification/Claude_Settings.thy ===== *)
theory Claude_Settings
  imports Hook_Command Strconv
begin

text \<open>
  \<^verbatim>\<open>internal/node/sandbox\<close>: the settings file of Claude Code. \<^verbatim>\<open>claudecode.go\<close> merges the
  sandbox routing, the hooks and the certificate variables into it, \<^verbatim>\<open>verify.go\<close> inspects it, and
  \<^verbatim>\<open>deconfigure.go\<close> with \<^verbatim>\<open>hook_cleanup.go\<close> takes them out again. A settings file is the
  object it decodes to; a number is the text it prints as. Lemmas: configuring is idempotent and verifies,
  other handlers survive both ways, and none of Keydris's is left.
\<close>

section \<open>Objects\<close>

type_synonym object = "(string \<times> any) list"

text \<open>\<open>x, _ := m[k].(map[string]any)\<close>, and the same with an array; \<open>null\<close> and other values give nil.\<close>

definition object_at :: "object \<Rightarrow> string \<Rightarrow> object option" where
  "object_at m k = (case map_of m k of Some (AObj o1) \<Rightarrow> Some o1 | _ \<Rightarrow> None)"

definition array_at :: "object \<Rightarrow> string \<Rightarrow> any list option" where
  "array_at m k = (case map_of m k of Some (AArr xs) \<Rightarrow> Some xs | _ \<Rightarrow> None)"

definition list_or :: "'a list option \<Rightarrow> 'a list" where
  "list_or x = (case x of None \<Rightarrow> [] | Some xs \<Rightarrow> xs)"

definition string_at :: "object \<Rightarrow> string \<Rightarrow> string" where
  "string_at m k = (case map_of m k of Some (AStr s) \<Rightarrow> s | _ \<Rightarrow> [])"

definition bool_at :: "object \<Rightarrow> string \<Rightarrow> bool option" where
  "bool_at m k = (case map_of m k of Some (ABool b) \<Rightarrow> Some b | _ \<Rightarrow> None)"

definition delete_key :: "string \<Rightarrow> object \<Rightarrow> object" where
  "delete_key k m = filter (\<lambda>(k', _). k' \<noteq> k) m"

text \<open>\<open>v.(map[string]any)\<close> of a value; nil maps have no entries.\<close>

definition as_object :: "any \<Rightarrow> object" where
  "as_object v = (case v of AObj m \<Rightarrow> m | _ \<Rightarrow> [])"

section \<open>Handlers\<close>

definition is_keydris_handler :: "any \<Rightarrow> bool" where
  "is_keydris_handler h = is_keydris_command (string_at (as_object h) ''command'')"

text \<open>\<open>stripKeydrisHandlers\<close>: the entry, nil when nothing is left, and whether it changed.\<close>

definition strip_keydris_handlers :: "any \<Rightarrow> any option \<times> bool" where
  "strip_keydris_handlers entry =
     (case entry of
        AObj g \<Rightarrow>
          (case array_at g ''hooks'' of
             None \<Rightarrow> (Some entry, False)
           | Some hs \<Rightarrow>
               let kept = filter (\<lambda>h. \<not> is_keydris_handler h) hs in
               if \<not> list_ex is_keydris_handler hs then (Some entry, False)
               else if kept = [] then (None, True)
               else (Some (AObj (assoc_set ''hooks'' (AArr kept) g)), True))
      | _ \<Rightarrow> (Some entry, False))"

definition kept_entries :: "any list \<Rightarrow> any list" where
  "kept_entries entries = List.map_filter (\<lambda>e. fst (strip_keydris_handlers e)) entries"

definition hook_entry :: "string \<Rightarrow> any" where
  "hook_entry c = AObj [(''hooks'', AArr [AObj [(''type'', AStr ''command''), (''command'', AStr c)]])]"

definition merge_event :: "string \<Rightarrow> any \<Rightarrow> object \<Rightarrow> object" where
  "merge_event event entry hooks =
     assoc_set event (AArr (kept_entries (list_or (array_at hooks event)) @ [entry])) hooks"

definition merge_hooks :: "string \<Rightarrow> string \<Rightarrow> object \<Rightarrow> object" where
  "merge_hooks start_cmd end_cmd settings =
     assoc_set ''hooks'' (AObj (merge_event ''SessionEnd'' (hook_entry end_cmd)
       (merge_event ''SessionStart'' (hook_entry start_cmd) (list_or (object_at settings ''hooks''))))) settings"

definition keydris_approval_status_message :: string where
  "keydris_approval_status_message = ''Keydris policy check '' @ [CHR 0xE2, CHR 0x80, CHR 0x94]
     @ '' approve or reject in the Keydris console if requested''"

definition gate_entry :: "goos \<Rightarrow> string \<Rightarrow> any" where
  "gate_entry os c = AObj [(''matcher'', AStr (if os = Windows then ''Bash|PowerShell'' else ''Bash'')),
     (''hooks'', AArr [AObj [(''type'', AStr ''command''), (''command'', AStr c), (''timeout'', ANum ''660''),
        (''statusMessage'', AStr keydris_approval_status_message)]])]"

definition merge_pre_tool_use_hook :: "goos \<Rightarrow> string \<Rightarrow> object \<Rightarrow> object" where
  "merge_pre_tool_use_hook os c settings =
     assoc_set ''hooks'' (AObj (merge_event ''PreToolUse'' (gate_entry os c) (list_or (object_at settings ''hooks'')))) settings"

section \<open>Sandbox and environment\<close>

record sandbox_options =
  so_port :: int
  so_domains :: "string list"
  so_ca_path :: string
  so_strict :: bool
  so_start :: string
  so_end :: string
  so_pre :: string

fun strings_from_json :: "any \<Rightarrow> string list" where
  "strings_from_json (AArr xs) = List.map_filter (\<lambda>x. case x of AStr s \<Rightarrow> Some s | _ \<Rightarrow> None) xs"
| "strings_from_json _ = []"

definition merge_string_set :: "any option \<Rightarrow> string list \<Rightarrow> string list" where
  "merge_string_set existing extra =
     (let old = (case existing of None \<Rightarrow> [] | Some v \<Rightarrow> strings_from_json v) in
      rev (fold (\<lambda>s out. if s \<in> set out then out else s # out) (old @ sort_on id extra) []))"

text \<open>A nil slice prints as \<open>null\<close>.\<close>

definition string_array :: "string list \<Rightarrow> any" where
  "string_array ss = (if ss = [] then ANull else AArr (map AStr ss))"

definition merged_domains :: "sandbox_options \<Rightarrow> any option \<Rightarrow> any option \<Rightarrow> any option" where
  "merged_domains opt current legacy =
     (let existing = (case legacy of None \<Rightarrow> current
          | Some v \<Rightarrow> Some (string_array (merge_string_set current (strings_from_json v)))) in
      if so_domains opt \<noteq> [] then Some (string_array (merge_string_set existing (so_domains opt)))
      else if legacy = None \<and> existing = Some ANull then None else existing)"

text \<open>The block that \<open>mergeSandbox\<close> puts in place of the present one.\<close>

definition sandbox_block :: "goos \<Rightarrow> sandbox_options \<Rightarrow> object \<Rightarrow> object" where
  "sandbox_block os opt sb =
     (let sb0 = assoc_set ''enabled'' (ABool True) sb;
          sb1 = (if so_strict opt then assoc_set ''allowUnsandboxedCommands'' (ABool False)
              (assoc_set ''failIfUnavailable'' (ABool True) sb0) else sb0);
          sb2 = (if os = Darwin then assoc_set ''enableWeakerNetworkIsolation'' (ABool True) sb1 else sb1);
          network = assoc_set ''httpProxyPort'' (ANum (itoa (so_port opt))) (list_or (object_at sb2 ''network''));
          domains = merged_domains opt (map_of network ''allowedDomains'') (map_of sb2 ''allowedDomains'');
          network1 = (case domains of None \<Rightarrow> network | Some v \<Rightarrow> assoc_set ''allowedDomains'' v network)
      in assoc_set ''network'' (AObj network1) (delete_key ''allowedDomains'' sb2))"

definition merge_sandbox :: "goos \<Rightarrow> sandbox_options \<Rightarrow> object \<Rightarrow> object" where
  "merge_sandbox os opt settings =
     assoc_set ''sandbox'' (AObj (sandbox_block os opt (list_or (object_at settings ''sandbox'')))) settings"

definition ca_env_keys :: "goos \<Rightarrow> string list" where
  "ca_env_keys os = (if os = Windows then [''NODE_EXTRA_CA_CERTS'']
     else [''NODE_EXTRA_CA_CERTS'', ''SSL_CERT_FILE'', ''CURL_CA_BUNDLE'', ''GIT_SSL_CAINFO'', ''REQUESTS_CA_BUNDLE''])"

definition merge_ca_env :: "goos \<Rightarrow> string \<Rightarrow> object \<Rightarrow> object" where
  "merge_ca_env os ca_path settings =
     assoc_set ''env'' (AObj (fold (\<lambda>k. assoc_set k (AStr ca_path)) (ca_env_keys os) (list_or (object_at settings ''env'')))) settings"

definition configure_claude :: "goos \<Rightarrow> sandbox_options \<Rightarrow> object \<Rightarrow> object" where
  "configure_claude os opt settings =
     (let s1 = merge_sandbox os opt settings;
          s2 = (if so_start opt \<noteq> [] \<and> so_end opt \<noteq> [] then merge_hooks (so_start opt) (so_end opt) s1 else s1);
          s3 = (if so_pre opt \<noteq> [] then merge_pre_tool_use_hook os (so_pre opt) s2 else s2)
      in if so_ca_path opt \<noteq> [] then merge_ca_env os (so_ca_path opt) s3 else s3)"

section \<open>Removing\<close>

text \<open>
  \<open>jsonInt\<close>: a number prints as an integer, with a fraction, or with an exponent when it is below
  1e-6 (which truncates to 0) or from 1e21 on (the least integer, on amd64).
\<close>

definition json_number_int :: "string \<Rightarrow> int" where
  "json_number_int n =
     (if contains n ''e-'' then 0 else if contains n ''e'' then - (2 ^ 63)
      else case cut_at (CHR ''.'') n of (whole, _, _) \<Rightarrow> (case atoi whole of None \<Rightarrow> 0 | Some v \<Rightarrow> v))"

definition int_at :: "object \<Rightarrow> string \<Rightarrow> int option" where
  "int_at m k = (case map_of m k of Some (ANum n) \<Rightarrow> Some (json_number_int n) | _ \<Rightarrow> None)"

definition drop_strings :: "string list \<Rightarrow> any list \<Rightarrow> any list" where
  "drop_strings names xs = filter (\<lambda>x. case x of AStr s \<Rightarrow> s \<notin> set names | _ \<Rightarrow> True) xs"

text \<open>\<open>removeStrings\<close> on a key, with the deletion of an empty rest; and whether it changed.\<close>

definition remove_domains :: "string list \<Rightarrow> object \<Rightarrow> object \<times> bool" where
  "remove_domains names m =
     (case array_at m ''allowedDomains'' of
        None \<Rightarrow> (m, False)
      | Some xs \<Rightarrow>
          let remaining = drop_strings names xs in
          if names = [] \<or> length remaining = length xs then (m, False)
          else if remaining = [] then (delete_key ''allowedDomains'' m, True)
          else (assoc_set ''allowedDomains'' (AArr remaining) m, True))"

record remove_options =
  ro_port :: int
  ro_ca_path :: string
  ro_domains :: "string list"

definition unmerge_network :: "remove_options \<Rightarrow> object \<Rightarrow> object \<times> bool" where
  "unmerge_network opt sb =
     (case object_at sb ''network'' of
        None \<Rightarrow> (sb, False)
      | Some network \<Rightarrow>
          let routed = int_at network ''httpProxyPort'' = Some (ro_port opt);
              n1 = (if routed then delete_key ''httpProxyPort'' network else network)
          in case remove_domains (ro_domains opt) n1 of (n2, changed) \<Rightarrow>
            (if n2 = [] then delete_key ''network'' sb else assoc_set ''network'' (AObj n2) sb, routed \<or> changed))"

definition strict_keys :: "string list" where
  "strict_keys = [''failIfUnavailable'', ''allowUnsandboxedCommands'', ''enableWeakerNetworkIsolation'']"

definition unmerge_sandbox :: "remove_options \<Rightarrow> object \<Rightarrow> object \<times> bool" where
  "unmerge_sandbox opt settings =
     (case object_at settings ''sandbox'' of
        None \<Rightarrow> (settings, False)
      | Some sb0 \<Rightarrow>
          let strict = list_ex (\<lambda>k. map_of sb0 k \<noteq> None) strict_keys;
              sb1 = fold delete_key strict_keys sb0 in
          case unmerge_network opt sb1 of (sb2, routed) \<Rightarrow>
          (case remove_domains (ro_domains opt) sb2 of (sb3, legacy) \<Rightarrow>
             let on = map_of sb3 ''enabled'' = Some (ABool True);
                 sb4 = (if on then assoc_set ''enabled'' (ABool False) sb3 else sb3)
             in if sb4 = [] \<or> (length sb4 = 1 \<and> map_of sb4 ''enabled'' = Some (ABool False))
                then (delete_key ''sandbox'' settings, True)
                else (assoc_set ''sandbox'' (AObj sb4) settings, strict \<or> routed \<or> legacy \<or> on)))"

text \<open>One event of \<open>unmergeKeydrisHooks\<close>, on the hooks and the flag accumulated so far.\<close>

definition unmerge_event :: "string \<Rightarrow> object \<times> bool \<Rightarrow> object \<times> bool" where
  "unmerge_event event hc =
     (case hc of (hooks, changed0) \<Rightarrow>
        case array_at hooks event of
          None \<Rightarrow> (hooks, changed0)
        | Some entries \<Rightarrow>
            let changed = (changed0 \<or> list_ex (\<lambda>e. snd (strip_keydris_handlers e)) entries);
                kept = kept_entries entries
            in if kept \<noteq> [] then (assoc_set event (AArr kept) hooks, changed)
               else (if changed then delete_key event hooks else hooks, changed))"

definition hooks_settled :: "object \<Rightarrow> object \<Rightarrow> object" where
  "hooks_settled hooks settings =
     (if hooks = [] then delete_key ''hooks'' settings else assoc_set ''hooks'' (AObj hooks) settings)"

definition unmerge_keydris_hooks :: "string list \<Rightarrow> object \<Rightarrow> object \<times> bool" where
  "unmerge_keydris_hooks events settings =
     (case object_at settings ''hooks'' of
        None \<Rightarrow> (settings, False)
      | Some hooks \<Rightarrow>
          (case fold unmerge_event events (hooks, False) of (h, changed) \<Rightarrow> (hooks_settled h settings, changed)))"

definition claude_events :: "string list" where
  "claude_events = [''SessionStart'', ''SessionEnd'', ''PreToolUse'']"

definition unmerge_ca_env :: "goos \<Rightarrow> string \<Rightarrow> object \<Rightarrow> object \<times> bool" where
  "unmerge_ca_env os ca_path settings =
     (case object_at settings ''env'' of
        None \<Rightarrow> (settings, False)
      | Some block \<Rightarrow>
          if ca_path = [] then (settings, False)
          else let hit = (\<lambda>k. map_of block k = Some (AStr ca_path));
                   rest = filter (\<lambda>(k, v). \<not> (k \<in> set (ca_env_keys os) \<and> hit k)) block
            in (if rest = [] then delete_key ''env'' settings else assoc_set ''env'' (AObj rest) settings,
                list_ex hit (ca_env_keys os)))"

text \<open>\<open>Deconfigure\<close> on the settings: the new ones, and whether the file is written.\<close>

definition deconfigure_claude :: "goos \<Rightarrow> remove_options \<Rightarrow> object \<Rightarrow> object \<times> bool" where
  "deconfigure_claude os opt settings =
     (if settings = [] then (settings, False)
      else case unmerge_sandbox opt settings of (s1, c1) \<Rightarrow>
        (case unmerge_keydris_hooks claude_events s1 of (s2, c2) \<Rightarrow>
          (case unmerge_ca_env os (ro_ca_path opt) s2 of (s3, c3) \<Rightarrow>
             if c1 \<or> c2 \<or> c3 then (s3, True) else (settings, False))))"

text \<open>\<open>DeconfigureCodexHooks\<close>, and whether any event names a Keydris handler.\<close>

definition deconfigure_codex_hooks :: "object \<Rightarrow> object \<times> bool" where
  "deconfigure_codex_hooks settings =
     (case unmerge_keydris_hooks [''PreToolUse'', ''PermissionRequest'', ''SessionStart''] settings of
        (s1, changed) \<Rightarrow> if changed then (s1, True) else (settings, False))"

definition entry_references_keydris :: "any \<Rightarrow> bool" where
  "entry_references_keydris entry = list_ex is_keydris_handler (list_or (array_at (as_object entry) ''hooks''))"

definition has_keydris_hooks :: "object \<Rightarrow> bool" where
  "has_keydris_hooks settings =
     list_ex (\<lambda>ev. list_ex entry_references_keydris (list_or (array_at (list_or (object_at settings ''hooks'')) ev)))
       [''SessionStart'', ''SessionEnd'', ''PreToolUse'', ''PermissionRequest'']"

section \<open>Verifying\<close>

record sandbox_status =
  ss_enabled :: bool
  ss_proxy_port :: int
  ss_strict :: bool
  ss_hooks_wired :: bool
  ss_command_gate :: bool
  ss_port_matches :: bool
  ss_warnings :: "string list"

definition event_has_command :: "object \<Rightarrow> string \<Rightarrow> string \<Rightarrow> bool" where
  "event_has_command hooks event want =
     list_ex (\<lambda>entry. list_ex (\<lambda>h. want \<noteq> [] \<and> string_at (as_object h) ''command'' = want
         \<and> string_at (as_object h) ''type'' = ''command'' \<and> bool_at (as_object h) ''async'' \<noteq> Some True)
       (list_or (array_at (as_object entry) ''hooks''))) (list_or (array_at hooks event))"

definition verify_claude :: "int \<Rightarrow> sandbox_options \<Rightarrow> object \<Rightarrow> sandbox_status" where
  "verify_claude port opt settings =
     (case object_at settings ''sandbox'' of
        None \<Rightarrow> \<lparr>ss_enabled = False, ss_proxy_port = 0, ss_strict = False, ss_hooks_wired = False, ss_command_gate = False,
          ss_port_matches = False, ss_warnings = [''no sandbox block'']\<rparr>
      | Some sb \<Rightarrow>
          let enabled = (bool_at sb ''enabled'' = Some True);
              strict = (bool_at sb ''failIfUnavailable'' = Some True \<and> bool_at sb ''allowUnsandboxedCommands'' = Some False);
              found = (case object_at sb ''network'' of None \<Rightarrow> 0
                | Some network \<Rightarrow> (case int_at network ''httpProxyPort'' of None \<Rightarrow> 0 | Some p \<Rightarrow> p));
              hooks = list_or (object_at settings ''hooks'');
              wired = (event_has_command hooks ''SessionStart'' (so_start opt) \<and> event_has_command hooks ''SessionEnd'' (so_end opt));
              gate = event_has_command hooks ''PreToolUse'' (so_pre opt)
          in \<lparr>ss_enabled = enabled, ss_proxy_port = found, ss_strict = strict, ss_hooks_wired = wired, ss_command_gate = gate,
               ss_port_matches = (found = port),
               ss_warnings = (if enabled then [] else [''sandbox.enabled is false'']) @ (if strict then [] else [''strict sandbox fields''])
                 @ (if found = port then [] else [''httpProxyPort'']) @ (if wired then [] else [''hooks not wired''])
                 @ (if gate then [] else [''PreToolUse hook not wired''])\<rparr>)"

definition status_ok :: "sandbox_status \<Rightarrow> bool" where
  "status_ok st \<longleftrightarrow> ss_enabled st \<and> ss_port_matches st \<and> ss_strict st \<and> ss_hooks_wired st \<and> ss_command_gate st"

section \<open>Updates of an object\<close>

lemma assoc_set_same: "map_of m k = Some v \<Longrightarrow> assoc_set k v m = m"
  by (induction k v m rule: assoc_set.induct) (auto split: if_splits)

lemma map_of_set [simp]: "map_of (assoc_set k v m) k' = (if k' = k then Some v else map_of m k')"
  by (induction k v m rule: assoc_set.induct) auto

lemma map_of_delete [simp]: "map_of (delete_key k m) k' = (if k' = k then None else map_of m k')"
  by (induction m) (auto simp: delete_key_def)

lemma delete_missing: "map_of m k = None \<Longrightarrow> delete_key k m = m"
  by (induction m) (auto simp: delete_key_def split: if_splits)

lemma map_of_set_all: "map_of (fold (\<lambda>k. assoc_set k v) ks m) k' = (if k' \<in> set ks then Some v else map_of m k')"
  by (induction ks arbitrary: m) auto

lemma set_all_same: "list_all (\<lambda>k. map_of m k = Some v) ks \<Longrightarrow> fold (\<lambda>k. assoc_set k v) ks m = m"
  by (induction ks) (auto simp: assoc_set_same)

lemma list_or_simps [simp]: "list_or None = []" "list_or (Some xs) = xs"
  by (simp_all add: list_or_def)

lemma object_at_set [simp]: "object_at (assoc_set k v m) k' = (if k' = k then object_at [(k, v)] k else object_at m k')"
  by (simp add: object_at_def)

lemma object_at_delete [simp]: "object_at (delete_key k m) k' = (if k' = k then None else object_at m k')"
  by (simp add: object_at_def)

lemma array_at_set [simp]: "array_at (assoc_set k v m) k' = (if k' = k then array_at [(k, v)] k else array_at m k')"
  by (simp add: array_at_def)

lemma array_at_delete [simp]: "array_at (delete_key k m) k' = (if k' = k then None else array_at m k')"
  by (simp add: array_at_def)

lemma at_single [simp]: "object_at [(k, AObj m)] k = Some m" "array_at [(k, AArr xs)] k = Some xs"
  by (simp_all add: object_at_def array_at_def)

section \<open>Stripping\<close>

lemma stripped_entry:
  assumes "strip_keydris_handlers e = (Some e', c)"
  shows "\<not> entry_references_keydris e' \<and> strip_keydris_handlers e' = (Some e', False)"
  using assms
  by (auto simp: strip_keydris_handlers_def entry_references_keydris_def as_object_def array_at_def Let_def list_ex_iff
      split: any.splits option.splits if_splits)

lemma strip_changed: "snd (strip_keydris_handlers e) = entry_references_keydris e"
  by (auto simp: strip_keydris_handlers_def entry_references_keydris_def as_object_def array_at_def Let_def
      split: any.splits option.splits if_splits)

lemma strip_unchanged: "\<not> entry_references_keydris e \<Longrightarrow> strip_keydris_handlers e = (Some e, False)"
  by (auto simp: strip_keydris_handlers_def entry_references_keydris_def as_object_def array_at_def Let_def
      split: any.splits option.splits if_splits)

lemma kept_append: "kept_entries (xs @ ys) = kept_entries xs @ kept_entries ys"
  by (simp add: kept_entries_def map_filter_def)

lemma kept_clean: "\<not> list_ex entry_references_keydris (kept_entries es)"
proof (induction es)
  case (Cons e es)
  then show ?case using stripped_entry [of e] by (cases "strip_keydris_handlers e") (auto simp: kept_entries_def map_filter_def)
qed (simp add: kept_entries_def map_filter_def)

lemma kept_same: "\<not> list_ex entry_references_keydris es \<Longrightarrow> kept_entries es = es"
  by (induction es) (auto simp: kept_entries_def map_filter_def strip_unchanged)

lemma kept_idem [simp]: "kept_entries (kept_entries es) = kept_entries es"
  by (rule kept_same [OF kept_clean])

lemma written_stripped:
  assumes "is_keydris_command c"
  shows "kept_entries [hook_entry c] = []" "kept_entries [gate_entry os c] = []"
  using assms by (simp_all add: kept_entries_def map_filter_def strip_keydris_handlers_def hook_entry_def gate_entry_def
      array_at_def is_keydris_handler_def as_object_def string_at_def Let_def)

section \<open>The entries of an event\<close>

definition entries_of :: "object \<Rightarrow> string \<Rightarrow> any list" where
  "entries_of settings event = list_or (array_at (list_or (object_at settings ''hooks'')) event)"

lemma entries_other: "k \<noteq> ''hooks'' \<Longrightarrow> entries_of (assoc_set k v s) = entries_of s"
  "k \<noteq> ''hooks'' \<Longrightarrow> entries_of (delete_key k s) = entries_of s"
  by (auto simp: entries_of_def)

lemma entries_merge:
  "entries_of (merge_hooks a b s) event =
     (if event = ''SessionEnd'' then kept_entries (entries_of s event) @ [hook_entry b]
      else if event = ''SessionStart'' then kept_entries (entries_of s event) @ [hook_entry a] else entries_of s event)"
  "entries_of (merge_pre_tool_use_hook os c s) event =
     (if event = ''PreToolUse'' then kept_entries (entries_of s event) @ [gate_entry os c] else entries_of s event)"
  "entries_of (merge_sandbox os opt s) = entries_of s" "entries_of (merge_ca_env os p s) = entries_of s"
  by (auto simp: entries_of_def merge_hooks_def merge_event_def merge_pre_tool_use_hook_def merge_sandbox_def merge_ca_env_def)

section \<open>Configuring twice\<close>

definition written_commands :: "sandbox_options \<Rightarrow> string list" where
  "written_commands opt = filter (\<lambda>c. c \<noteq> []) [so_start opt, so_end opt, so_pre opt]"

lemma strings_of_array: "strings_from_json (string_array ss) = ss"
  by (simp add: string_array_def map_filter_def comp_def)

lemma dedup_set: "set (fold (\<lambda>s out. if s \<in> set out then out else s # out) xs acc) = set acc \<union> set xs"
  by (induction xs arbitrary: acc) auto

lemma dedup_distinct: "distinct acc \<Longrightarrow> distinct (fold (\<lambda>s out. if s \<in> set out then out else s # out) xs acc)"
  by (induction xs arbitrary: acc) auto

lemma dedup_known: "set xs \<subseteq> set acc \<Longrightarrow> fold (\<lambda>s out. if s \<in> set out then out else s # out) xs acc = acc"
  by (induction xs) auto

lemma dedup_fresh: "distinct (rev xs @ acc) \<Longrightarrow> fold (\<lambda>s out. if s \<in> set out then out else s # out) xs acc = rev xs @ acc"
  by (induction xs arbitrary: acc) auto

lemma merge_string_set_set: "set (merge_string_set e extra) = set extra \<union> (case e of None \<Rightarrow> {} | Some v \<Rightarrow> set (strings_from_json v))"
  by (auto simp: merge_string_set_def dedup_set Let_def split: option.splits)

lemma merge_string_set_again:
  "merge_string_set (Some (string_array (merge_string_set e extra))) extra = merge_string_set e extra"
proof -
  let ?m = "merge_string_set e extra" and ?d = "fold (\<lambda>s out. if s \<in> set out then out else s # out)"
  have "distinct ?m" by (simp add: merge_string_set_def dedup_distinct Let_def)
  then have "?d ?m [] = rev ?m" by (simp add: dedup_fresh)
  moreover have "?d (sort_on id extra) (rev ?m) = rev ?m" by (rule dedup_known) (simp add: merge_string_set_set)
  ultimately show ?thesis by (simp add: merge_string_set_def [of "Some _"] strings_of_array Let_def)
qed

lemma string_array_extended: "ds \<noteq> [] \<Longrightarrow> string_array (merge_string_set e ds) \<noteq> ANull"
  using merge_string_set_set [of e ds] by (auto simp: string_array_def)

lemma merged_again:
  assumes "merged_domains opt current legacy = Some v"
  shows "merged_domains opt (Some v) None = Some v \<or> (so_domains opt = [] \<and> merged_domains opt (Some v) None = None)"
  using assms by (auto simp: merged_domains_def Let_def merge_string_set_again string_array_extended split: if_splits option.splits)

lemma merged_none:
  assumes "merged_domains opt current legacy = None"
  shows "so_domains opt = [] \<and> merged_domains opt current None = None"
  using assms by (auto simp: merged_domains_def Let_def split: if_splits option.splits)

lemma block_at:
  "map_of (sandbox_block os opt sb) ''enabled'' = Some (ABool True)"
  "so_strict opt \<Longrightarrow> map_of (sandbox_block os opt sb) ''failIfUnavailable'' = Some (ABool True)"
  "so_strict opt \<Longrightarrow> map_of (sandbox_block os opt sb) ''allowUnsandboxedCommands'' = Some (ABool False)"
  "os = Darwin \<Longrightarrow> map_of (sandbox_block os opt sb) ''enableWeakerNetworkIsolation'' = Some (ABool True)"
  "map_of (sandbox_block os opt sb) ''allowedDomains'' = None"
  "\<exists>n. map_of (sandbox_block os opt sb) ''network'' = Some (AObj n)
     \<and> map_of n ''httpProxyPort'' = Some (ANum (itoa (so_port opt)))
     \<and> (case merged_domains opt (map_of n ''allowedDomains'') None of None \<Rightarrow> True
          | Some v \<Rightarrow> map_of n ''allowedDomains'' = Some v)"
  by (auto simp: sandbox_block_def Let_def dest: merged_again merged_none split: option.split)

lemma block_again: "sandbox_block os opt (sandbox_block os opt sb) = sandbox_block os opt sb"
proof -
  let ?b = "sandbox_block os opt sb"
  obtain n where n: "map_of ?b ''network'' = Some (AObj n)" "map_of n ''httpProxyPort'' = Some (ANum (itoa (so_port opt)))"
    "case merged_domains opt (map_of n ''allowedDomains'') None of None \<Rightarrow> True | Some v \<Rightarrow> map_of n ''allowedDomains'' = Some v"
    using block_at(6) [where os = os and opt = opt and sb = sb] by blast
  have net: "object_at ?b ''network'' = Some n" using n(1) by (simp add: object_at_def)
  have port: "assoc_set ''httpProxyPort'' (ANum (itoa (so_port opt))) n = n" using n(2) by (rule assoc_set_same)
  have dom: "(case merged_domains opt (map_of n ''allowedDomains'') None of None \<Rightarrow> n | Some v \<Rightarrow> assoc_set ''allowedDomains'' v n) = n"
    using n(3) by (auto simp: assoc_set_same split: option.splits)
  have on: "assoc_set ''enabled'' (ABool True) ?b = ?b" by (rule assoc_set_same) (rule block_at(1))
  have strict: "(if so_strict opt then assoc_set ''allowUnsandboxedCommands'' (ABool False)
      (assoc_set ''failIfUnavailable'' (ABool True) ?b) else ?b) = ?b"
    by (simp add: assoc_set_same block_at(2,3))
  have weak: "(if os = Darwin then assoc_set ''enableWeakerNetworkIsolation'' (ABool True) ?b else ?b) = ?b"
    by (simp add: assoc_set_same block_at(4))
  have whole: "assoc_set ''network'' (AObj n) ?b = ?b" using n(1) by (rule assoc_set_same)
  show ?thesis
    by (subst sandbox_block_def)
      (simp only: Let_def on strict weak net list_or_simps port block_at(5) dom delete_missing [OF block_at(5)] whole)
qed

definition written_entry :: "object \<Rightarrow> string \<Rightarrow> any \<Rightarrow> bool" where
  "written_entry settings event entry \<longleftrightarrow>
     (\<exists>h es. map_of settings ''hooks'' = Some (AObj h) \<and> map_of h event = Some (AArr (kept_entries es @ [entry])))"

lemma merge_event_same:
  assumes "map_of h event = Some (AArr (kept_entries es @ [entry]))" and "kept_entries [entry] = []"
  shows "merge_event event entry h = h"
  using assms by (auto simp: merge_event_def array_at_def kept_append intro!: assoc_set_same)

lemma merge_hooks_same:
  assumes "written_entry s ''SessionStart'' (hook_entry a)" and "written_entry s ''SessionEnd'' (hook_entry b)"
    and "is_keydris_command a" and "is_keydris_command b"
  shows "merge_hooks a b s = s"
proof -
  from assms(1,2) obtain h e1 e2 where h: "map_of s ''hooks'' = Some (AObj h)"
    "map_of h ''SessionStart'' = Some (AArr (kept_entries e1 @ [hook_entry a]))"
    "map_of h ''SessionEnd'' = Some (AArr (kept_entries e2 @ [hook_entry b]))"
    unfolding written_entry_def by auto
  then show ?thesis
    by (simp add: merge_hooks_def object_at_def merge_event_same [OF h(2) written_stripped(1) [OF assms(3)]]
        merge_event_same [OF h(3) written_stripped(1) [OF assms(4)]] assoc_set_same)
qed

lemma merge_gate_same:
  assumes "written_entry s ''PreToolUse'' (gate_entry os c)" and "is_keydris_command c"
  shows "merge_pre_tool_use_hook os c s = s"
  using assms by (auto simp: written_entry_def merge_pre_tool_use_hook_def object_at_def merge_event_same written_stripped
      intro!: assoc_set_same)

lemma written_by:
  "written_entry (merge_hooks a b s) ''SessionStart'' (hook_entry a)"
  "written_entry (merge_hooks a b s) ''SessionEnd'' (hook_entry b)"
  "written_entry (merge_pre_tool_use_hook os c s) ''PreToolUse'' (gate_entry os c)"
  by (auto simp: written_entry_def merge_hooks_def merge_event_def merge_pre_tool_use_hook_def)

lemma written_kept:
  "event \<noteq> ''PreToolUse'' \<Longrightarrow> written_entry s event e \<Longrightarrow> written_entry (merge_pre_tool_use_hook os c s) event e"
  "k \<noteq> ''hooks'' \<Longrightarrow> written_entry (assoc_set k v s) event e = written_entry s event e"
  by (auto simp: written_entry_def merge_event_def merge_pre_tool_use_hook_def object_at_def)

lemma other_key:
  "k \<noteq> ''hooks'' \<Longrightarrow> map_of (merge_hooks a b s) k = map_of s k"
  "k \<noteq> ''hooks'' \<Longrightarrow> map_of (merge_pre_tool_use_hook os c s) k = map_of s k"
  "k \<noteq> ''sandbox'' \<Longrightarrow> map_of (merge_sandbox os opt s) k = map_of s k"
  "k \<noteq> ''env'' \<Longrightarrow> map_of (merge_ca_env os p s) k = map_of s k"
  by (simp_all add: merge_hooks_def merge_pre_tool_use_hook_def merge_sandbox_def merge_ca_env_def)

lemma configured_parts:
  assumes "c = configure_claude os opt s"
  shows "map_of c ''sandbox'' = Some (AObj (sandbox_block os opt (list_or (object_at s ''sandbox''))))"
    and "so_start opt \<noteq> [] \<Longrightarrow> so_end opt \<noteq> [] \<Longrightarrow> written_entry c ''SessionStart'' (hook_entry (so_start opt))
      \<and> written_entry c ''SessionEnd'' (hook_entry (so_end opt))"
    and "so_pre opt \<noteq> [] \<Longrightarrow> written_entry c ''PreToolUse'' (gate_entry os (so_pre opt))"
    and "so_ca_path opt \<noteq> [] \<Longrightarrow> \<exists>b. map_of c ''env'' = Some (AObj b)
      \<and> list_all (\<lambda>k. map_of b k = Some (AStr (so_ca_path opt))) (ca_env_keys os)"
  unfolding assms
proof -
  show "map_of (configure_claude os opt s) ''sandbox'' = Some (AObj (sandbox_block os opt (list_or (object_at s ''sandbox''))))"
    by (simp add: configure_claude_def Let_def other_key) (simp add: merge_sandbox_def)
  show "written_entry (configure_claude os opt s) ''SessionStart'' (hook_entry (so_start opt))
      \<and> written_entry (configure_claude os opt s) ''SessionEnd'' (hook_entry (so_end opt))"
    if "so_start opt \<noteq> []" "so_end opt \<noteq> []"
    using that by (simp add: configure_claude_def Let_def merge_ca_env_def written_kept written_by)
  show "written_entry (configure_claude os opt s) ''PreToolUse'' (gate_entry os (so_pre opt))" if "so_pre opt \<noteq> []"
    using that by (simp add: configure_claude_def Let_def merge_ca_env_def written_kept written_by)
  show "\<exists>b. map_of (configure_claude os opt s) ''env'' = Some (AObj b)
      \<and> list_all (\<lambda>k. map_of b k = Some (AStr (so_ca_path opt))) (ca_env_keys os)" if "so_ca_path opt \<noteq> []"
    using that by (simp add: configure_claude_def Let_def merge_ca_env_def map_of_set_all list_all_iff)
qed

section \<open>Removing what was written\<close>

lemma unmerge_event_entries:
  "list_or (array_at (fst (unmerge_event event hc)) ev)
     = (if ev = event then kept_entries (list_or (array_at (fst hc) ev)) else list_or (array_at (fst hc) ev))"
  "snd (unmerge_event event hc) \<longleftrightarrow> snd hc \<or> list_ex entry_references_keydris (list_or (array_at (fst hc) event))"
  by (cases hc; auto simp: unmerge_event_def Let_def strip_changed kept_same list_ex_iff kept_entries_def [of "[]"] map_filter_def
      split: option.splits)+

lemma unmerge_events_entries:
  "list_or (array_at (fst (fold unmerge_event events hc)) ev)
     = (if ev \<in> set events then kept_entries (list_or (array_at (fst hc) ev)) else list_or (array_at (fst hc) ev))"
  by (induction events arbitrary: hc) (auto simp: unmerge_event_entries)

lemma unmerge_events_changed:
  "\<not> snd (fold unmerge_event events hc) \<Longrightarrow>
     \<not> snd hc \<and> list_all (\<lambda>ev. \<not> list_ex entry_references_keydris (list_or (array_at (fst hc) ev))) events"
proof (induction events arbitrary: hc)
  case (Cons e es)
  then have "\<not> snd (unmerge_event e hc) \<and> list_all (\<lambda>ev. \<not> list_ex entry_references_keydris
      (list_or (array_at (fst (unmerge_event e hc)) ev))) es" by simp
  then show ?case by (auto simp: unmerge_event_entries list_all_iff split: if_splits)
qed simp

lemma unmerge_hooks_entries:
  "entries_of (fst (unmerge_keydris_hooks events s)) ev
     = (if ev \<in> set events then kept_entries (entries_of s ev) else entries_of s ev)"
  using unmerge_events_entries [of events "(list_or (object_at s ''hooks''), False)" ev]
  by (auto simp: unmerge_keydris_hooks_def entries_of_def hooks_settled_def array_at_def kept_entries_def [of "[]"] map_filter_def
      split: option.splits prod.splits)

lemma unmerge_hooks_unchanged:
  "\<not> snd (unmerge_keydris_hooks events s) \<Longrightarrow> list_all (\<lambda>ev. \<not> list_ex entry_references_keydris (entries_of s ev)) events"
  using unmerge_events_changed [of events "(list_or (object_at s ''hooks''), False)"]
  by (auto simp: unmerge_keydris_hooks_def entries_of_def array_at_def list_all_iff split: option.splits prod.splits)

lemma unmerge_others:
  "entries_of (fst (unmerge_sandbox opt s)) = entries_of s" "entries_of (fst (unmerge_ca_env os p s)) = entries_of s"
  by (auto simp: unmerge_sandbox_def unmerge_ca_env_def Let_def entries_other split: option.splits prod.splits)

lemma deconfigure_entries:
  "entries_of (fst (deconfigure_claude os opt s)) ev
     = (if ev \<in> set claude_events then kept_entries (entries_of s ev) else entries_of s ev)"
proof -
  obtain s1 c1 s2 c2 s3 c3 where p: "unmerge_sandbox opt s = (s1, c1)" "unmerge_keydris_hooks claude_events s1 = (s2, c2)"
    "unmerge_ca_env os (ro_ca_path opt) s2 = (s3, c3)" by (metis surj_pair)
  have e: "entries_of s1 = entries_of s" "entries_of s3 = entries_of s2"
    using unmerge_others(1) [of opt s] unmerge_others(2) [of os "ro_ca_path opt" s2] p by simp_all
  have h: "entries_of s2 ev = (if ev \<in> set claude_events then kept_entries (entries_of s ev) else entries_of s ev)"
    using unmerge_hooks_entries [of claude_events s1 ev] p e by simp
  have "\<not> c2 \<Longrightarrow> ev \<in> set claude_events \<Longrightarrow> kept_entries (entries_of s ev) = entries_of s ev"
    using unmerge_hooks_unchanged [of claude_events s1] p e by (simp add: list_all_iff kept_same)
  moreover have "s = [] \<Longrightarrow> entries_of s ev = []" by (simp add: entries_of_def object_at_def array_at_def)
  moreover have "fst (deconfigure_claude os opt s) = (if s = [] \<or> \<not> (c1 \<or> c2 \<or> c3) then s else s3)"
    using p by (simp add: deconfigure_claude_def)
  moreover have "kept_entries [] = []" by (simp add: kept_entries_def map_filter_def)
  ultimately show ?thesis using e h by simp
qed

lemma written_recognized:
  assumes "list_all is_keydris_command (written_commands opt)"
  shows "so_start opt \<noteq> [] \<Longrightarrow> is_keydris_command (so_start opt)" "so_end opt \<noteq> [] \<Longrightarrow> is_keydris_command (so_end opt)"
    "so_pre opt \<noteq> [] \<Longrightarrow> is_keydris_command (so_pre opt)"
  using assms by (simp_all add: written_commands_def list_all_iff del: filter.simps)

lemma configure_entries:
  assumes "list_all is_keydris_command (written_commands opt)"
  shows "kept_entries (entries_of (configure_claude os opt s) ev) = kept_entries (entries_of s ev)"
  using written_recognized [OF assms]
  by (simp add: configure_claude_def Let_def entries_merge kept_append written_stripped)

section \<open>Numbers and commands read back\<close>

lemma contains_in: "contains s (c # p) \<Longrightarrow> c \<in> set s"
  by (induction s) auto

lemma cut_absent: "d \<notin> set s \<Longrightarrow> cut_at d s = (s, [], False)"
  by (induction s) auto

lemma number_read:
  assumes "0 \<le> p" and "p < 2 ^ 63"
  shows "json_number_int (itoa p) = p"
proof -
  have "list_all is_digit (itoa p)" using nat_to_dec_digits [of "nat p"] assms by (simp add: itoa_def)
  moreover have "\<not> is_digit (CHR ''e'')" "\<not> is_digit (CHR ''.'')" by code_simp+
  ultimately have "CHR ''e'' \<notin> set (itoa p)" "CHR ''.'' \<notin> set (itoa p)" by (auto simp: list_all_iff)
  then have "\<not> contains (itoa p) ''e-''" "\<not> contains (itoa p) ''e''" "cut_at (CHR ''.'') (itoa p) = (itoa p, [], False)"
    using contains_in cut_absent by blast+
  with atoi_itoa [OF assms] show ?thesis by (simp add: json_number_int_def)
qed

lemma entry_has_command:
  assumes "written_entry s event e" and "e \<in> {hook_entry c, gate_entry os c}" and "c \<noteq> []"
  shows "event_has_command (list_or (object_at s ''hooks'')) event c"
  using assms
  by (auto simp: written_entry_def event_has_command_def hook_entry_def gate_entry_def object_at_def array_at_def
      as_object_def string_at_def bool_at_def)

section \<open>Properties\<close>

text \<open>
  C35. Configuring is idempotent: a second init leaves the settings exactly as the first wrote them, whatever
  they held before, when the hook commands are ones that the clean-up recognizes.
\<close>

theorem configure_claude_idempotent:
  assumes "list_all is_keydris_command (written_commands opt)"
  shows "configure_claude os opt (configure_claude os opt settings) = configure_claude os opt settings"
proof -
  define c where "c = configure_claude os opt settings"
  note parts = configured_parts [OF c_def]
  have sandbox: "merge_sandbox os opt c = c"
    using parts(1) by (simp add: merge_sandbox_def object_at_def block_again assoc_set_same)
  have hooks: "merge_hooks (so_start opt) (so_end opt) c = c" if "so_start opt \<noteq> []" "so_end opt \<noteq> []"
    using parts(2) [OF that] written_recognized [OF assms] that by (intro merge_hooks_same) auto
  have gate: "merge_pre_tool_use_hook os (so_pre opt) c = c" if "so_pre opt \<noteq> []"
    using parts(3) [OF that] written_recognized [OF assms] that by (intro merge_gate_same) auto
  have env: "merge_ca_env os (so_ca_path opt) c = c" if "so_ca_path opt \<noteq> []"
    using parts(4) [OF that] by (auto simp: merge_ca_env_def object_at_def set_all_same assoc_set_same)
  have "configure_claude os opt c = c"
    using hooks gate env by (simp add: configure_claude_def Let_def sandbox)
  then show ?thesis by (simp add: c_def)
qed

definition sample_options :: sandbox_options where
  "sample_options = \<lparr>so_port = 15001, so_domains = [''b.io'', ''a.io''], so_ca_path = ''/ca'', so_strict = True,
     so_start = ''keydris s'', so_end = ''keydris e'', so_pre = ''keydris p''\<rparr>"

lemma configure_claude_idempotent_witness:
  "configure_claude Darwin sample_options (configure_claude Darwin sample_options [(''sandbox'', AObj [(''allowedDomains'', AArr [AStr ''x''])])])
    = configure_claude Darwin sample_options [(''sandbox'', AObj [(''allowedDomains'', AArr [AStr ''x''])])]"
  by (rule configure_claude_idempotent) code_simp

text \<open>
  C34. What init writes is what the status check looks for: after a strict configuration with the three hooks it
  finds the sandbox on, strict, routed to the port, both session hooks and the command gate, and warns of nothing.
\<close>

theorem configured_settings_verify:
  assumes "so_strict opt" and "0 \<le> so_port opt" and "so_port opt < 2 ^ 63"
    and "so_start opt \<noteq> []" and "so_end opt \<noteq> []" and "so_pre opt \<noteq> []"
  shows "status_ok (verify_claude (so_port opt) opt (configure_claude os opt settings))
    \<and> ss_warnings (verify_claude (so_port opt) opt (configure_claude os opt settings)) = []"
proof -
  define c where "c = configure_claude os opt settings"
  note parts = configured_parts [OF c_def]
  define sb where "sb = sandbox_block os opt (list_or (object_at settings ''sandbox''))"
  obtain n where n: "map_of sb ''network'' = Some (AObj n)" "map_of n ''httpProxyPort'' = Some (ANum (itoa (so_port opt)))"
    using block_at(6) [of os opt "list_or (object_at settings ''sandbox'')"] unfolding sb_def by blast
  have b: "bool_at sb ''enabled'' = Some True" "bool_at sb ''failIfUnavailable'' = Some True"
    "bool_at sb ''allowUnsandboxedCommands'' = Some False" "object_at sb ''network'' = Some n"
    "int_at n ''httpProxyPort'' = Some (so_port opt)"
    using block_at(1) [of os opt "list_or (object_at settings ''sandbox'')", folded sb_def]
      block_at(2,3) [OF assms(1), of os "list_or (object_at settings ''sandbox'')", folded sb_def] n number_read [OF assms(2,3)]
    by (simp_all add: bool_at_def object_at_def int_at_def)
  have h: "event_has_command (list_or (object_at c ''hooks'')) ''SessionStart'' (so_start opt)"
    "event_has_command (list_or (object_at c ''hooks'')) ''SessionEnd'' (so_end opt)"
    "event_has_command (list_or (object_at c ''hooks'')) ''PreToolUse'' (so_pre opt)"
    using parts(2,3) assms(4-6) by (auto intro!: entry_has_command)
  have "object_at c ''sandbox'' = Some sb" using parts(1) by (simp add: object_at_def sb_def)
  then show ?thesis unfolding c_def [symmetric] by (simp add: verify_claude_def status_ok_def Let_def b h)
qed

lemma configured_settings_verify_witness:
  "ss_warnings (verify_claude 15001 sample_options (configure_claude Linux sample_options [])) = []"
proof -
  have "so_strict sample_options" "so_port sample_options = 15001" "so_start sample_options \<noteq> []"
    "so_end sample_options \<noteq> []" "so_pre sample_options \<noteq> []" by code_simp+
  then show ?thesis using configured_settings_verify [of sample_options Linux "[]"] by simp
qed



text \<open>
  C89. Removing Keydris is not the inverse of configuring it: a sandbox that the user had turned on and made
  strict before is turned off and its strict settings are gone.
\<close>

theorem own_sandbox_turned_off:
  "let own = [(''sandbox'', AObj [(''enabled'', ABool True), (''failIfUnavailable'', ABool True)])] in
   fst (deconfigure_claude os \<lparr>ro_port = so_port opt, ro_ca_path = so_ca_path opt, ro_domains = []\<rparr> own) = []"
  by (simp add: deconfigure_claude_def unmerge_sandbox_def object_at_def strict_keys_def delete_key_def unmerge_network_def
      remove_domains_def array_at_def unmerge_keydris_hooks_def unmerge_ca_env_def Let_def)

end
