(* ===== verification/Codex_Launch.thy ===== *)
theory Codex_Launch
  imports Pre_Tool Claude_Settings
begin

text \<open>
  The launch of Codex under governance: the hooks passed as \<^verbatim>\<open>-c\<close> values
  (\<^verbatim>\<open>internal/node/sandbox/codexhooks.go\<close>), the listing by which the codex binary confirms that it
  trusts them (\<^verbatim>\<open>internal/cli/codex_hooks.go\<close>), the probe of the hooks (\<^verbatim>\<open>codex_probe.go\<close>) and the
  command line (\<^verbatim>\<open>run.go\<close>). The codex binary and the shell are parameters: what they print.
  Lemmas: the values of the user are read before Keydris's and none of them turns the hooks off; nothing is
  launched unless both hooks deny the probe and the binary reports every hook trusted and enabled.
\<close>

section \<open>The hooks as values\<close>

record codex_hook_options =
  co_pre :: string
  co_permission :: string
  co_start :: string

definition codex_hooks :: "goos \<Rightarrow> string \<Rightarrow> codex_hook_options" where
  "codex_hooks os quoted0 =
     (let quoted = (if os = Windows then ''& '' @ quoted0 else quoted0) in
      \<lparr>co_pre = quoted @ '' __pretool-use --codex'', co_permission = quoted @ '' __permission-request'',
        co_start = quoted @ '' __agent-context''\<rparr>)"

definition codex_shell_matcher :: string where "codex_shell_matcher = ''^Bash$''"
definition codex_hook_timeout_seconds :: int where "codex_hook_timeout_seconds = 30"
definition codex_approval_hook_timeout_seconds :: int where "codex_approval_hook_timeout_seconds = 660"

definition hook_group :: "(string \<Rightarrow> bool) \<Rightarrow> string \<Rightarrow> string \<Rightarrow> int \<Rightarrow> string \<Rightarrow> string" where
  "hook_group printable matcher command seconds status =
     (let handler = ''{type='' @ go_quote printable ''command'' @ '',command='' @ go_quote printable command @ '',timeout='' @ itoa seconds
            @ (if status \<noteq> [] then '',statusMessage='' @ go_quote printable status else []) @ ''}''
      in if matcher = [] then ''[{hooks=['' @ handler @ '']}]''
         else ''[{matcher='' @ go_quote printable matcher @ '',hooks=['' @ handler @ '']}]'')"

definition codex_hook_overrides :: "(string \<Rightarrow> bool) \<Rightarrow> codex_hook_options \<Rightarrow> string list" where
  "codex_hook_overrides printable opt =
     [''hooks.PreToolUse='' @ hook_group printable codex_shell_matcher (co_pre opt)
        codex_approval_hook_timeout_seconds keydris_approval_status_message,
      ''hooks.PermissionRequest='' @ hook_group printable codex_shell_matcher (co_permission opt)
        codex_approval_hook_timeout_seconds keydris_approval_status_message]
     @ (if co_start opt \<noteq> [] then [''hooks.SessionStart='' @ hook_group printable [] (co_start opt) codex_hook_timeout_seconds []]
        else [])"

definition codex_enforcement_overrides :: "string list" where
  "codex_enforcement_overrides =
     [''features.hooks=true'', ''sandbox_workspace_write.network_access=true'', ''features.network_proxy.enabled=true'',
      ''features.network_proxy.domains={'' @ join_with '','' (map (\<lambda>h. CHR 0x22 # h @ [CHR 0x22, CHR ''='', CHR 0x22] @ ''allow'' @ [CHR 0x22])
         [''*'', ''127.0.0.1'', ''localhost'']) @ ''}'']"

section \<open>The arguments of the user\<close>

definition disables_codex_hooks :: "string \<Rightarrow> bool" where
  "disables_codex_hooks value =
     list_ex (\<lambda>f. trim_space f \<in> {''hooks'', ''codex_hooks''}) (split_on (CHR '','') (to_lower value))"

definition overrides_codex_enforcement :: "goos \<Rightarrow> string \<Rightarrow> bool" where
  "overrides_codex_enforcement os value =
     (let a = filter (\<lambda>c. c \<notin> {CHR 0x20, CHR 0x09, CHR 0x0D, CHR 0x0A, CHR 0x22, CHR 0x27}) (to_lower value) in
      if os = Windows \<and> (has_prefix a ''windows.sandbox='' \<or> has_prefix a ''windows='') then True
      else if has_prefix a ''features.hooks='' \<or> has_prefix a ''features.codex_hooks='' then True
      else if has_prefix a ''features={'' then
        let body = trim_prefix a ''features={'' in
        has_prefix body ''hooks='' \<or> has_prefix body ''codex_hooks='' \<or> contains body '',hooks='' \<or> contains body '',codex_hooks=''
      else False)"

definition config_flag :: "string \<Rightarrow> bool" where
  "config_flag a \<longleftrightarrow> a = ''-c'' \<or> a = ''--config''"

definition disabled_error :: string where "disabled_error = ''hooks cannot be disabled in a governed session''"
definition reserved_error :: string where "reserved_error = ''hook and Windows sandbox settings are reserved by `keydris codex`''"

fun validate_codex_hook_args :: "goos \<Rightarrow> string list \<Rightarrow> unit result" where
  "validate_codex_hook_args os [] = Inr ()"
| "validate_codex_hook_args os (a # rest) =
     (if a = ''--disable'' then
        if rest \<noteq> [] \<and> disables_codex_hooks (hd rest) then Inl disabled_error
        else validate_codex_hook_args os rest
      else if has_prefix a ''--disable='' \<and> disables_codex_hooks (trim_prefix a ''--disable='')
      then Inl disabled_error
      else if config_flag a then
        (case rest of
           [] \<Rightarrow> Inr ()
         | v # rest1 \<Rightarrow>
             if overrides_codex_enforcement os v then Inl reserved_error
             else validate_codex_hook_args os rest1)
      else if has_prefix a ''-c'' \<and> overrides_codex_enforcement os (trim_prefix a ''-c'')
      then Inl reserved_error
      else if has_prefix a ''--config='' \<and> overrides_codex_enforcement os (trim_prefix a ''--config='')
      then Inl reserved_error
      else validate_codex_hook_args os rest)"

text \<open>\<open>withCodexConfig\<close>: the index and \<open>last + 1\<close> of its loop, then the command line.\<close>

fun config_end :: "nat \<Rightarrow> nat \<Rightarrow> string list \<Rightarrow> nat" where
  "config_end i e [] = e"
| "config_end i e (a # rest) =
     (if a = ''--'' then e
      else if config_flag a then (case rest of [] \<Rightarrow> e | v # rest1 \<Rightarrow> config_end (i + 2) (i + 2) rest1)
      else if has_prefix a ''-c'' \<or> has_prefix a ''--config='' then config_end (i + 1) (i + 1) rest
      else config_end (i + 1) e rest)"

definition with_codex_config :: "string list \<Rightarrow> string list \<Rightarrow> string list" where
  "with_codex_config args values =
     (let e = config_end 0 0 args in take e args @ concat (map (\<lambda>v. [''-c'', v]) values) @ drop e args)"

definition codex_command_args :: "goos \<Rightarrow> string list \<Rightarrow> string list \<Rightarrow> string list" where
  "codex_command_args os args overrides =
     with_codex_config args (overrides @ (if os = Windows
       then [''windows.sandbox='' @ CHR 0x22 # ''elevated'' @ [CHR 0x22]] else []))"

section \<open>Listing the hooks\<close>

record codex_listed_hook =
  lh_key :: string
  lh_event :: string
  lh_source :: string
  lh_hash :: string
  lh_trust :: string
  lh_enabled :: bool

definition zero_listed :: codex_listed_hook where
  "zero_listed = \<lparr>lh_key = [], lh_event = [], lh_source = [], lh_hash = [], lh_trust = [], lh_enabled = False\<rparr>"

definition listed_fields :: "json \<Rightarrow> codex_listed_hook \<Rightarrow> codex_listed_hook result" where
  "listed_fields = decode_struct False
     [(''key'', dec_string (\<lambda>v r. r\<lparr>lh_key := v\<rparr>)), (''eventName'', dec_string (\<lambda>v r. r\<lparr>lh_event := v\<rparr>)),
      (''source'', dec_string (\<lambda>v r. r\<lparr>lh_source := v\<rparr>)), (''currentHash'', dec_string (\<lambda>v r. r\<lparr>lh_hash := v\<rparr>)),
      (''trustStatus'', dec_string (\<lambda>v r. r\<lparr>lh_trust := v\<rparr>)), (''enabled'', dec_bool (\<lambda>v r. r\<lparr>lh_enabled := v\<rparr>))]"

record codex_message =
  cm_id :: "int option"
  cm_method :: string
  cm_result :: string
  cm_error :: "string option"

definition decode_codex_message :: "string \<Rightarrow> codex_message option" where
  "decode_codex_message line =
     (case parse_json line of
        None \<Rightarrow> None
      | Some j \<Rightarrow>
          (case decode_struct False
             [(''id'', dec_pointer (\<lambda>v r. r\<lparr>cm_id := v\<rparr>) cm_id 0 (dec_int (\<lambda>v _. v))), (''method'', dec_string (\<lambda>v r. r\<lparr>cm_method := v\<rparr>)),
              (''result'', dec_raw (\<lambda>v r. r\<lparr>cm_result := v\<rparr>)),
              (''error'', dec_pointer (\<lambda>v r. r\<lparr>cm_error := v\<rparr>) cm_error [] (decode_struct False [(''message'', dec_string (\<lambda>v _. v))]))]
             j \<lparr>cm_id = None, cm_method = [], cm_result = [], cm_error = None\<rparr> of
             Inl _ \<Rightarrow> None | Inr m \<Rightarrow> Some m))"

text \<open>\<open>codexResponse\<close>, on the lines the scanner yields and the error it ends with; it leaves the lines after.\<close>

fun codex_response :: "string option \<Rightarrow> int \<Rightarrow> string list \<Rightarrow> (string \<times> string list) result" where
  "codex_response fault want [] = Inl (case fault of Some e \<Rightarrow> e | None \<Rightarrow> ''unexpected EOF'')"
| "codex_response fault want (line # rest) =
     (case decode_codex_message line of
        None \<Rightarrow> codex_response fault want rest
      | Some m \<Rightarrow>
          if cm_method m \<noteq> [] \<or> cm_id m \<noteq> Some want then codex_response fault want rest
          else (case cm_error m of Some e \<Rightarrow> Inl e | None \<Rightarrow> Inr (cm_result m, rest)))"

record listed_entry =
  le_hooks :: "codex_listed_hook list"
  le_errors :: "string list"

definition decode_listing :: "string \<Rightarrow> listed_entry list result" where
  "decode_listing raw =
     (case parse_json raw of
        None \<Rightarrow> Inl ''hooks/list: invalid JSON''
      | Some j \<Rightarrow> wrap_error ''hooks/list: '' (decode_struct False
          [(''data'', dec_list (\<lambda>v _. v) (\<lambda>r. r) \<lparr>le_hooks = [], le_errors = []\<rparr> (decode_struct False
             [(''hooks'', dec_list (\<lambda>v r. r\<lparr>le_hooks := v\<rparr>) le_hooks zero_listed listed_fields),
              (''errors'', dec_list (\<lambda>v r. r\<lparr>le_errors := v\<rparr>) le_errors [] (decode_struct False [(''message'', dec_string (\<lambda>v _. v))]))]))] j []))"

definition listing_hooks :: "listed_entry list \<Rightarrow> codex_listed_hook list result" where
  "listing_hooks entries =
     (case find (\<lambda>e. le_errors e \<noteq> []) entries of
        Some e \<Rightarrow> Inl (''hooks/list: '' @ hd (le_errors e))
      | None \<Rightarrow> Inr (concat (map le_hooks entries)))"

text \<open>\<open>listCodexHooks\<close>: three messages are written, each of which may fail, and two responses awaited.\<close>

definition list_codex_hooks :: "(nat \<Rightarrow> unit result) \<Rightarrow> string option \<Rightarrow> string list \<Rightarrow> codex_listed_hook list result" where
  "list_codex_hooks send fault lines =
     bind_result (send 0) (\<lambda>_.
     bind_result (wrap_error ''initialize: '' (codex_response fault 1 lines)) (\<lambda>(_, lines1).
     bind_result (send 1) (\<lambda>_.
     bind_result (send 2) (\<lambda>_.
     bind_result (wrap_error ''hooks/list: '' (codex_response fault 2 lines1)) (\<lambda>(raw, _).
     bind_result (decode_listing raw) listing_hooks)))))"

section \<open>Trust\<close>

definition session_flag_hooks :: "codex_listed_hook list \<Rightarrow> codex_listed_hook list" where
  "session_flag_hooks hooks = filter (\<lambda>h. lh_source h = ''sessionFlags'') hooks"

definition codex_hook_trust_override :: "(string \<Rightarrow> bool) \<Rightarrow> codex_listed_hook list \<Rightarrow> string" where
  "codex_hook_trust_override printable hooks =
     ''hooks.state={'' @ join_with '','' (sort_on id (map (\<lambda>h. go_quote printable (lh_key h) @ ''={trusted_hash=''
       @ go_quote printable (lh_hash h) @ '',enabled=true}'') hooks)) @ ''}''"

definition loaded_error :: "nat \<Rightarrow> nat \<Rightarrow> string" where
  "loaded_error n want = ''Codex loaded '' @ itoa (int n) @ '' of '' @ itoa (int want) @ '' Keydris hooks''"

definition hook_ready :: "codex_listed_hook \<Rightarrow> unit result" where
  "hook_ready h =
     (if lh_trust h \<noteq> ''trusted'' then Inl (''Codex reports the Keydris '' @ lh_event h @ '' hook as '' @ lh_trust h)
      else if \<not> lh_enabled h then Inl (''Codex reports the Keydris '' @ lh_event h @ '' hook as disabled'') else Inr ())"

definition keydris_hooks_ready :: "codex_listed_hook list \<Rightarrow> nat \<Rightarrow> unit result" where
  "keydris_hooks_ready listed want =
     (let ours = session_flag_hooks listed in
      if length ours \<noteq> want then Inl (loaded_error (length ours) want)
      else for_each (\<lambda>h _. hook_ready h) ours ())"

definition governed_codex_overrides ::
  "(string \<Rightarrow> bool) \<Rightarrow> (string list \<Rightarrow> codex_listed_hook list result) \<Rightarrow> codex_hook_options \<Rightarrow> string list result" where
  "governed_codex_overrides printable listing opt =
     (let hooks = codex_hook_overrides printable opt; overrides = codex_enforcement_overrides @ hooks in
      bind_result (wrap_error ''load the Keydris hooks into Codex: '' (listing overrides)) (\<lambda>listed.
        let ours = session_flag_hooks listed in
        if length ours \<noteq> length hooks then Inl (loaded_error (length ours) (length hooks))
        else let trusted = overrides @ [codex_hook_trust_override printable ours] in
          bind_result (wrap_error ''trust the Keydris hooks in Codex: '' (listing trusted)) (\<lambda>listed1.
          bind_result (keydris_hooks_ready listed1 (length hooks)) (\<lambda>_. Inr trusted))))"

section \<open>The probe\<close>

definition codex_probe_input :: string where
  "codex_probe_input = json_object [(''tool_name'', quote ''Bash''),
     (''tool_input'', json_object [(''command'', quote ''keydris-hook-probe'')])]"

record probe_result =
  pb_event :: string
  pb_permission :: string
  pb_behavior :: string

definition is_codex_probe_denial :: "string \<Rightarrow> string \<Rightarrow> bool" where
  "is_codex_probe_denial output event =
     (is_ok (reject_duplicate_json_keys output) \<and>
      (case parse_json output of
         None \<Rightarrow> False
       | Some j \<Rightarrow>
           (case decode_struct False [(''hookSpecificOutput'', decode_struct False
               [(''hookEventName'', dec_string (\<lambda>v r. r\<lparr>pb_event := v\<rparr>)), (''permissionDecision'', dec_string (\<lambda>v r. r\<lparr>pb_permission := v\<rparr>)),
                (''decision'', decode_struct False [(''behavior'', dec_string (\<lambda>v r. r\<lparr>pb_behavior := v\<rparr>))])])]
               j \<lparr>pb_event = [], pb_permission = [], pb_behavior = []\<rparr> of
              Inl _ \<Rightarrow> False
            | Inr r \<Rightarrow> pb_event r = event \<and>
                (if event = ''PreToolUse'' then pb_permission r = ''deny''
                 else event = ''PermissionRequest'' \<and> pb_behavior r = ''deny''))))"

definition probe_hook :: "(string \<Rightarrow> string result) \<Rightarrow> string \<times> string \<Rightarrow> unit \<Rightarrow> unit result" where
  "probe_hook run hook u =
     (case hook of (event, command) \<Rightarrow>
        bind_result (wrap_error (event @ '' hook could not execute: '') (run command)) (\<lambda>output.
          if is_codex_probe_denial output event then Inr ()
          else Inl (event @ '' hook did not return an explicit denial for the sessionless probe'')))"

definition verify_codex_hook_runner :: "codex_hook_options \<Rightarrow> (string \<Rightarrow> string result) \<Rightarrow> unit result" where
  "verify_codex_hook_runner opt run =
     for_each (probe_hook run) [(''PreToolUse'', co_pre opt), (''PermissionRequest'', co_permission opt)] ()"

section \<open>The launch\<close>

text \<open>
  What \<open>runCodex\<close> finds: the resolved codex binary, whether the hooks file of an earlier release names
  Keydris, whether init recorded the integration, the quoted path of Keydris, what a hook command prints for
  the probe, and the listing of the codex binary. It gives the command line of the session, or the error.
\<close>

record codex_host =
  ch_os :: goos
  ch_executable :: "string result"
  ch_legacy :: "bool result"
  ch_configured :: bool
  ch_hook_executable :: "string result"
  ch_probe :: "string \<Rightarrow> string result"
  ch_listing :: "string list \<Rightarrow> codex_listed_hook list result"
  ch_printable :: "string \<Rightarrow> bool"

definition run_codex :: "codex_host \<Rightarrow> string list \<Rightarrow> string list result" where
  "run_codex h args =
     bind_result (ch_executable h) (\<lambda>executable.
     bind_result (validate_codex_hook_args (ch_os h) args) (\<lambda>_.
     bind_result (ch_legacy h) (\<lambda>legacy.
       if legacy then Inl ''still holds Keydris hooks from an earlier release''
       else if \<not> ch_configured h then Inl ''run `keydris init codex <agent-id>` first''
       else bind_result (ch_hook_executable h) (\<lambda>quoted.
         let opt = codex_hooks (ch_os h) quoted in
         bind_result (verify_codex_hook_runner opt (ch_probe h)) (\<lambda>_.
         bind_result (governed_codex_overrides (ch_printable h) (ch_listing h) opt) (\<lambda>overrides.
           Inr ([''--'', executable] @ codex_command_args (ch_os h) args overrides)))))))"

section \<open>What the command line says\<close>

text \<open>The values of the configuration options before any \<^verbatim>\<open>--\<close>, the other arguments, and the values of \<^verbatim>\<open>--disable\<close>.\<close>

fun config_values :: "string list \<Rightarrow> string list" where
  "config_values [] = []"
| "config_values (a # rest) =
     (if a = ''--'' then []
      else if config_flag a then (case rest of [] \<Rightarrow> [] | v # rest1 \<Rightarrow> v # config_values rest1)
      else if has_prefix a ''-c'' then drop 2 a # config_values rest
      else if has_prefix a ''--config='' then drop 9 a # config_values rest
      else config_values rest)"

fun other_args :: "string list \<Rightarrow> string list" where
  "other_args [] = []"
| "other_args (a # rest) =
     (if a = ''--'' then a # rest
      else if config_flag a then (case rest of [] \<Rightarrow> [a] | v # rest1 \<Rightarrow> other_args rest1)
      else if has_prefix a ''-c'' \<or> has_prefix a ''--config='' then other_args rest
      else a # other_args rest)"

fun disable_values :: "string list \<Rightarrow> string list" where
  "disable_values [] = []"
| "disable_values (a # rest) =
     (if a = ''--disable'' then (case rest of [] \<Rightarrow> [] | v # _ \<Rightarrow> v # disable_values rest)
      else if config_flag a then (case rest of [] \<Rightarrow> [] | v # rest1 \<Rightarrow> disable_values rest1)
      else if has_prefix a ''--disable='' then drop 10 a # disable_values rest
      else disable_values rest)"

lemma flags_read:
  "config_values (concat (map (\<lambda>v. [''-c'', v]) vs) @ args) = vs @ config_values args"
  "other_args (concat (map (\<lambda>v. [''-c'', v]) vs) @ args) = other_args args"
  by (induction vs) (auto simp: config_flag_def)

fun config_len :: "string list \<Rightarrow> nat" where
  "config_len [] = 0"
| "config_len (a # rest) =
     (if a = ''--'' then 0
      else if config_flag a then (case rest of [] \<Rightarrow> 0 | v # rest1 \<Rightarrow> 2 + config_len rest1)
      else if has_prefix a ''-c'' \<or> has_prefix a ''--config='' then 1 + config_len rest
      else if config_values rest = [] then 0 else 1 + config_len rest)"

lemma config_len_none: "config_values args = [] \<Longrightarrow> config_len args = 0"
  by (induction args rule: config_len.induct) (auto split: if_splits list.splits)

lemma config_end_len: "config_end i e args = (if config_values args = [] then e else i + config_len args)"
  by (induction i e args rule: config_end.induct) (auto simp: config_len_none split: list.splits)

lemma with_config_len:
  "with_codex_config args vs = take (config_len args) args @ concat (map (\<lambda>v. [''-c'', v]) vs) @ drop (config_len args) args"
  by (simp add: with_codex_config_def config_end_len config_len_none Let_def)

lemma governed_values_last:
  "config_values (with_codex_config args vs) = config_values args @ vs \<and> other_args (with_codex_config args vs) = other_args args"
  unfolding with_config_len
proof (induction args rule: config_len.induct)
  case (2 a rest)
  let ?x = "take (config_len rest) rest @ concat (map (\<lambda>v. [''-c'', v]) vs) @ drop (config_len rest) rest"
  have none: ?case if "config_values (a # rest) = []"
    using that by (simp only: config_len_none take_0 drop_0 append_Nil flags_read append_Nil2 simp_thms)
  consider "a = ''--'' \<or> (config_flag a \<and> rest = [])" | "a \<noteq> ''--''" "\<not> config_flag a" "\<not> has_prefix a ''-c''"
      "\<not> has_prefix a ''--config=''" "config_values rest = []"
    | v r where "config_flag a" "a \<noteq> ''--''" "rest = v # r"
    | "\<not> config_flag a" "a \<noteq> ''--''" "has_prefix a ''-c'' \<or> has_prefix a ''--config=''"
    | "\<not> config_flag a" "a \<noteq> ''--''" "\<not> has_prefix a ''-c''" "\<not> has_prefix a ''--config=''" "config_values rest \<noteq> []"
    by (cases rest) blast+
  then show ?case
  proof cases
    case 1
    then show ?thesis by (intro none) auto
  next
    case 2
    then show ?thesis by (intro none) simp
  next
    case (3 v r)
    with "2.IH"(1) [of v r] show ?thesis by simp
  next
    case 4
    with "2.IH"(2) have "config_values ?x = config_values rest @ vs \<and> other_args ?x = other_args rest" by blast
    moreover have "config_len (a # rest) = Suc (config_len rest)" using 4 by simp
    ultimately show ?thesis using 4 by (simp del: config_len.simps)
  next
    case 5
    with "2.IH"(3) have "config_values ?x = config_values rest @ vs \<and> other_args ?x = other_args rest" by blast
    moreover have "config_len (a # rest) = Suc (config_len rest)" using 5 by simp
    ultimately show ?thesis using 5 by (simp del: config_len.simps)
  qed
qed (simp add: flags_read [of vs "[]", simplified])

lemma validated_step:
  assumes "validate_codex_hook_args os (a # rest) = Inr ()"
  shows "a = ''--disable'' \<longrightarrow> (rest = [] \<or> \<not> disables_codex_hooks (hd rest)) \<and> validate_codex_hook_args os rest = Inr ()"
    and "a \<noteq> ''--disable'' \<longrightarrow> has_prefix a ''--disable='' \<longrightarrow> \<not> disables_codex_hooks (drop 10 a)"
    and "a \<noteq> ''--disable'' \<longrightarrow> config_flag a \<longrightarrow>
      rest = [] \<or> (\<not> overrides_codex_enforcement os (hd rest) \<and> validate_codex_hook_args os (tl rest) = Inr ())"
    and "a \<noteq> ''--disable'' \<longrightarrow> \<not> config_flag a \<longrightarrow> validate_codex_hook_args os rest = Inr ()
      \<and> (has_prefix a ''-c'' \<longrightarrow> \<not> overrides_codex_enforcement os (drop 2 a))
      \<and> (has_prefix a ''--config='' \<longrightarrow> \<not> overrides_codex_enforcement os (drop 9 a))"
proof -
  have t: "has_prefix a p \<Longrightarrow> trim_prefix a p = drop (length p) a" for p by (simp add: trim_prefix_def)
  have l: "length ''--disable='' = 10" "length ''-c'' = 2" "length ''--config='' = 9" by simp_all
  show "a = ''--disable'' \<longrightarrow> (rest = [] \<or> \<not> disables_codex_hooks (hd rest)) \<and> validate_codex_hook_args os rest = Inr ()"
    using assms unfolding validate_codex_hook_args.simps(2) by (metis sum.distinct(1))
  show "a \<noteq> ''--disable'' \<longrightarrow> has_prefix a ''--disable='' \<longrightarrow> \<not> disables_codex_hooks (drop 10 a)"
    using assms t [of "''--disable=''"] unfolding validate_codex_hook_args.simps(2) l by (metis sum.distinct(1))
  show "a \<noteq> ''--disable'' \<longrightarrow> config_flag a \<longrightarrow>
      rest = [] \<or> (\<not> overrides_codex_enforcement os (hd rest) \<and> validate_codex_hook_args os (tl rest) = Inr ())"
    using assms unfolding validate_codex_hook_args.simps(2)
    by (cases rest) (simp_all del: validate_codex_hook_args.simps split: if_splits)
  show "a \<noteq> ''--disable'' \<longrightarrow> \<not> config_flag a \<longrightarrow> validate_codex_hook_args os rest = Inr ()
      \<and> (has_prefix a ''-c'' \<longrightarrow> \<not> overrides_codex_enforcement os (drop 2 a))
      \<and> (has_prefix a ''--config='' \<longrightarrow> \<not> overrides_codex_enforcement os (drop 9 a))"
    using assms t [of "''-c''"] t [of "''--config=''"] unfolding validate_codex_hook_args.simps(2) l
    by (metis sum.distinct(1))
qed

lemma validated_values:
  "validate_codex_hook_args os args = Inr () \<Longrightarrow>
     list_all (\<lambda>v. \<not> overrides_codex_enforcement os v) (config_values args) \<and> list_all (\<lambda>v. \<not> disables_codex_hooks v) (disable_values args)"
proof (induction "length args" arbitrary: args rule: less_induct)
  case less
  show ?case
  proof (cases args)
    case (Cons a rest)
    note step = validated_step [OF less.prems [unfolded Cons]]
    have rest: "validate_codex_hook_args os x = Inr () \<Longrightarrow> length x \<le> length rest \<Longrightarrow>
      list_all (\<lambda>v. \<not> overrides_codex_enforcement os v) (config_values x) \<and> list_all (\<lambda>v. \<not> disables_codex_hooks v) (disable_values x)" for x
      using less.hyps [of x] by (simp add: Cons)
    consider "a = ''--disable''" | "a \<noteq> ''--disable''" "config_flag a" | "a \<noteq> ''--disable''" "\<not> config_flag a" by blast
    then show ?thesis
    proof cases
      case 1
      with step(1) rest [of rest] have "rest = [] \<or> \<not> disables_codex_hooks (hd rest)"
        "list_all (\<lambda>v. \<not> overrides_codex_enforcement os v) (config_values rest)"
        "list_all (\<lambda>v. \<not> disables_codex_hooks v) (disable_values rest)" by auto
      moreover have "\<not> config_flag a" "\<not> has_prefix a ''-c''" "\<not> has_prefix a ''--config=''" using 1 by (simp_all add: config_flag_def)
      moreover have "disable_values (a # rest) = (if rest = [] then [] else hd rest # disable_values rest)"
        using 1 by (cases rest) simp_all
      ultimately show ?thesis unfolding Cons using 1 by (simp del: disable_values.simps) blast
    next
      case 2
      show ?thesis
      proof (cases rest)
        case Nil
        with 2 show ?thesis by (simp add: Cons)
      next
        case (Cons v r)
        with step(3) 2 have "\<not> overrides_codex_enforcement os v" "validate_codex_hook_args os r = Inr ()" by auto
        with rest [of r] 2 Cons \<open>args = a # rest\<close> show ?thesis by auto
      qed
    next
      case 3
      with step(4) rest [of rest] have r: "list_all (\<lambda>v. \<not> overrides_codex_enforcement os v) (config_values rest)"
        "list_all (\<lambda>v. \<not> disables_codex_hooks v) (disable_values rest)"
        "has_prefix a ''-c'' \<Longrightarrow> \<not> overrides_codex_enforcement os (drop 2 a)"
        "has_prefix a ''--config='' \<Longrightarrow> \<not> overrides_codex_enforcement os (drop 9 a)" by blast+
      moreover have "has_prefix a ''--disable='' \<Longrightarrow> \<not> disables_codex_hooks (drop 10 a)" using 3 step(2) by blast
      ultimately show ?thesis unfolding Cons using 3 by simp
    qed
  qed simp
qed

section \<open>What a launch has checked\<close>

lemma for_each_ready: "for_each (\<lambda>x _. f x) xs () = Inr () \<longleftrightarrow> list_all (\<lambda>x. f x = Inr ()) xs"
  by (induction xs) (auto split: sum.splits)

lemma wrap_ok: "wrap_error p r = Inr x \<longleftrightarrow> r = Inr x"
  by (cases r) simp_all

lemma governed_listed:
  assumes "governed_codex_overrides printable listing opt = Inr governed"
  shows "\<exists>listed ours. governed = codex_enforcement_overrides @ codex_hook_overrides printable opt @ [codex_hook_trust_override printable ours]
    \<and> listing governed = Inr listed \<and> length (session_flag_hooks listed) = length (codex_hook_overrides printable opt)
    \<and> list_all (\<lambda>h. lh_trust h = ''trusted'' \<and> lh_enabled h) (session_flag_hooks listed)"
proof -
  have ready: "hook_ready h = Inr () \<longleftrightarrow> lh_trust h = ''trusted'' \<and> lh_enabled h" for h
    by (simp add: hook_ready_def)
  from assms obtain ours listed where "governed = codex_enforcement_overrides @ codex_hook_overrides printable opt @ [codex_hook_trust_override printable ours]"
    "listing governed = Inr listed" "keydris_hooks_ready listed (length (codex_hook_overrides printable opt)) = Inr ()"
    by (auto simp: governed_codex_overrides_def Let_def  wrap_ok split: if_splits)
  then show ?thesis
    by (auto simp: keydris_hooks_ready_def Let_def for_each_ready ready split: if_splits)
qed

lemma probed:
  assumes "verify_codex_hook_runner opt run = Inr ()"
  shows "(case run (co_pre opt) of Inl _ \<Rightarrow> False | Inr out \<Rightarrow> is_codex_probe_denial out ''PreToolUse'')"
    and "(case run (co_permission opt) of Inl _ \<Rightarrow> False | Inr out \<Rightarrow> is_codex_probe_denial out ''PermissionRequest'')"
  using assms
  by (auto simp: verify_codex_hook_runner_def probe_hook_def  wrap_ok split: if_splits)

section \<open>Properties\<close>


definition trusting_codex :: codex_host where
  "trusting_codex = \<lparr>ch_os = Linux, ch_executable = Inr ''/codex'', ch_legacy = Inr False, ch_configured = True,
     ch_hook_executable = Inr ''k'', ch_probe = (\<lambda>c. Inr (if c = ''k __permission-request'' then codex_permission_output ''deny'' ''x''
       else codex_pre_tool_output ''deny'' ''x'')),
     ch_listing = (\<lambda>_. Inr (replicate 3 (zero_listed\<lparr>lh_source := ''sessionFlags'', lh_trust := ''trusted'', lh_enabled := True\<rparr>))),
     ch_printable = (\<lambda>_. True)\<rparr>"


text \<open>
  C36. The hooks of this program pass the probe in every environment and state: without a session the command
  hook and the permission hook print an explicit denial for it, and neither asks the daemon nor the control plane.
\<close>

theorem own_hooks_deny_probe:
  "case (run_pre_tool_use env \<lparr>hv_session = [], hv_owner = owner, hv_desktop = desktop\<rparr> Harness_Codex (Inr codex_probe_input) s,
         run_permission_request env \<lparr>hv_session = [], hv_owner = owner, hv_desktop = desktop\<rparr> (Inr codex_probe_input) s) of
     (Some (out1, s1), Some (out2, s2)) \<Rightarrow> s1 = s \<and> s2 = s
       \<and> is_codex_probe_denial out1 ''PreToolUse'' \<and> is_codex_probe_denial out2 ''PermissionRequest''
   | _ \<Rightarrow> False"
proof -
  have facts: "decode_payload codex_probe_input = Some \<lparr>pi_session_id = [], pi_tool_name = ''Bash'', pi_cwd = [], pi_command = ''keydris-hook-probe''\<rparr>"
    "\<not> max_hook_input_bytes < int (length codex_probe_input)" "trim_space ''keydris-hook-probe'' \<noteq> []" by code_simp+
  have denials: "is_codex_probe_denial (codex_pre_tool_output ''deny'' ''keydris: no session in the hook payload'') ''PreToolUse''"
    "is_codex_probe_denial (codex_permission_output ''deny'' ''keydris: no session in the hook payload'') ''PermissionRequest''" by code_simp+
  have "decide_pre_tool_use env \<lparr>hv_session = [], hv_owner = owner, hv_desktop = desktop\<rparr> Harness_Codex (Inr codex_probe_input) s
      = Some ((''deny'', ''keydris: no session in the hook payload''), s)"
    by (simp add: decide_pre_tool_use_def facts resolve_hook_session_id_def)
  with denials show ?thesis by (simp add: run_pre_tool_use_def run_permission_request_def)
qed

end
