(* ===== verification/Session_Entry.thy ===== *)
theory Session_Entry
  imports Session_Hook Pre_Tool Hook_Command
begin

text \<open>
  Where sessions are opened and closed: the hooks of Claude Code (\<^verbatim>\<open>internal/cli/session_hook.go\<close>), which
  mint a session unless a launcher owns one, and \<^verbatim>\<open>keydris run\<close> (\<^verbatim>\<open>internal/cli/run.go\<close>), which wraps
  a command in one. Lemmas: a hook inside an owned session changes nothing of it; the ids that start and end
  resolve agree when anything names the session; a wrapped command never outlives its session.
\<close>

section \<open>Texts\<close>

definition agent_runtime_for_command :: "string \<Rightarrow> string" where
  "agent_runtime_for_command command =
     (let name = path_base (to_slash (to_lower (trim_space command)));
          base = trim_suffix (trim_suffix (trim_suffix name ''.exe'') ''.cmd'') ''.bat''
      in if base = ''claude'' then ''claude_code'' else if base = ''codex'' then ''codex'' else [])"

definition proxy_auth_url :: "int \<Rightarrow> string \<Rightarrow> string" where
  "proxy_auth_url port tok =
     (if tok = [] then ''http://127.0.0.1:'' @ itoa port else ''http://keydris:'' @ tok @ ''@127.0.0.1:'' @ itoa port)"

fun split_dash_dash :: "string list \<Rightarrow> string list \<times> string list" where
  "split_dash_dash [] = ([], [])"
| "split_dash_dash (a # rest) =
     (if a = ''--'' then ([], rest) else case split_dash_dash rest of (flags, cmd) \<Rightarrow> (a # flags, cmd))"

definition append_proxy_environment :: "goos \<Rightarrow> string list \<Rightarrow> string \<Rightarrow> string \<Rightarrow> string list" where
  "append_proxy_environment os env proxy_url ca =
     env @ [''HTTP_PROXY='' @ proxy_url, ''HTTPS_PROXY='' @ proxy_url, ''http_proxy='' @ proxy_url, ''https_proxy='' @ proxy_url,
       ''NODE_EXTRA_CA_CERTS='' @ ca, ''CODEX_CA_CERTIFICATE='' @ ca]
     @ (if os = Windows then [] else [''CURL_CA_BUNDLE='' @ ca, ''SSL_CERT_FILE='' @ ca, ''GIT_SSL_CAINFO='' @ ca, ''REQUESTS_CA_BUNDLE='' @ ca])"

definition uses_cgroup_binding :: "string \<Rightarrow> bool" where
  "uses_cgroup_binding plane \<longleftrightarrow> plane \<in> {''transparent'', ''linux''}"

section \<open>The session's id\<close>

text \<open>\<open>stdinSessionID\<close>: nothing from a terminal, otherwise the first MiB of the payload.\<close>

definition stdin_session_id :: "reader option \<Rightarrow> string" where
  "stdin_session_id stdin =
     (case stdin of
        None \<Rightarrow> []
      | Some (Inl _) \<Rightarrow> []
      | Some (Inr raw) \<Rightarrow>
          (case parse_json (take_int (2 ^ 20) raw) of
             None \<Rightarrow> []
           | Some j \<Rightarrow> (case decode_struct False [(''session_id'', dec_string (\<lambda>v _. v))] j [] of Inl _ \<Rightarrow> [] | Inr sid \<Rightarrow> sid)))"

text \<open>\<open>sessionID\<close>: the flag, the two variables, the payload; then a generated id or the default.\<close>

definition named_session :: "string \<Rightarrow> string \<Rightarrow> string \<Rightarrow> reader option \<Rightarrow> string" where
  "named_session flag_val keydris claude stdin =
     (if flag_val \<noteq> [] then flag_val else if keydris \<noteq> [] then keydris else if claude \<noteq> [] then claude else stdin_session_id stdin)"

definition session_id :: "(int \<Rightarrow> string) \<Rightarrow> bool \<Rightarrow> string \<Rightarrow> string \<Rightarrow> string \<Rightarrow> reader option \<Rightarrow> world \<Rightarrow> string \<times> world" where
  "session_id stamp generate flag_val keydris claude stdin w =
     (let sid = named_session flag_val keydris claude stdin in
      if sid \<noteq> [] then (sid, w)
      else if generate then (case new_proxy_token stamp w of (tok, w1) \<Rightarrow> (''hook-'' @ tok, w1))
      else (''default'', w))"

section \<open>The hooks\<close>

text \<open>
  What an entry point runs in: the flags (or a usage error), the verdict on the configured paths, the
  variables, the configuration it reads, the payload, the parent process, whether the briefing could be
  printed, the bundle of certificates and the environment file it appends to.
\<close>

record 'd entry_env =
  en_hook :: "'d hook_env"
  en_flags :: "(string \<times> string) result"
  en_paths :: "unit result"
  en_vars :: hook_vars
  en_claude_session :: string
  en_stdin :: "reader option"
  en_agent_uuid :: string
  en_blueprint :: string
  en_policy_uuid :: string
  en_os :: goos
  en_plane :: string
  en_http_port :: int
  en_port :: int
  en_ca :: string
  en_bundle :: string
  en_build :: "unit result"
  en_env_file :: string
  en_open :: "unit result"
  en_parent :: int
  en_identify :: "int \<Rightarrow> string result"
  en_briefing :: "unit result"

record 'd entry_state =
  es_hook :: "'d hook_state"
  es_file :: string

definition export_line :: "string \<Rightarrow> string \<Rightarrow> string" where
  "export_line name value = ''export '' @ name @ ''='' @ value @ [CHR 0x0A]"

definition exports :: "goos \<Rightarrow> string \<Rightarrow> string \<Rightarrow> string" where
  "exports os proxy ca =
     concat (map (\<lambda>n. export_line n (shell_quote proxy)) [''HTTP_PROXY'', ''HTTPS_PROXY'', ''http_proxy'', ''https_proxy''])
     @ export_line ''NODE_EXTRA_CA_CERTS'' (shell_quote ca)
     @ (if os = Windows then [] else concat (map (\<lambda>n. export_line n (shell_quote ca))
          [''CURL_CA_BUNDLE'', ''SSL_CERT_FILE'', ''GIT_SSL_CAINFO'', ''REQUESTS_CA_BUNDLE'']))"

definition write_claude_proxy_env :: "'d entry_env \<Rightarrow> string \<Rightarrow> 'd entry_state \<Rightarrow> 'd entry_state" where
  "write_claude_proxy_env env sid s =
     (if en_env_file env = [] \<or> uses_cgroup_binding (en_plane env) then s
      else case load_state sid (hs_durable (es_hook s)) of
        Inl _ \<Rightarrow> s
      | Inr st \<Rightarrow>
          if st_handle st = [] then s
          else let port = (if en_plane env = ''proxyenv'' then en_port env else en_http_port env);
                   bundle = (if en_bundle env = [] then en_ca env else en_bundle env)
            in if (en_bundle env \<noteq> [] \<and> \<not> is_ok (en_build env)) \<or> \<not> is_ok (en_open env) then s
               else s\<lparr>es_file := es_file s @ exports (en_os env) (proxy_auth_url port (st_handle st)) bundle\<rparr>)"

definition briefing_code :: "'d entry_env \<Rightarrow> int" where
  "briefing_code env = (if is_ok (en_briefing env) then 0 else 1)"

text \<open>A start inside a session that a launcher owns: its state must be there, and is only read.\<close>

definition attach_session :: "'d entry_env \<Rightarrow> string \<Rightarrow> 'd entry_state \<Rightarrow> int \<times> 'd entry_state" where
  "attach_session env sid s =
     (if \<not> is_ok (validate_id sid) \<or> \<not> is_ok (load_state sid (hs_durable (es_hook s))) then (1, s)
      else (briefing_code env, write_claude_proxy_env env sid s))"

definition on_hook :: "('d hook_state \<Rightarrow> int \<times> 'd hook_state) \<Rightarrow> 'd entry_state \<Rightarrow> int \<times> 'd entry_state" where
  "on_hook f s = (case f (es_hook s) of (code, h) \<Rightarrow> (code, s\<lparr>es_hook := h\<rparr>))"

definition entry_session :: "'d entry_env \<Rightarrow> bool \<Rightarrow> string \<Rightarrow> 'd entry_state \<Rightarrow> string \<times> 'd entry_state" where
  "entry_session env generate flag_val s =
     (case session_id (hk_stamp (en_hook env)) generate flag_val (hv_session (en_vars env)) (en_claude_session env) (en_stdin env)
         (hs_world (es_hook s)) of
        (sid, w) \<Rightarrow> (sid, s\<lparr>es_hook := (es_hook s)\<lparr>hs_world := w\<rparr>\<rparr>))"

definition session_start_hook :: "'d entry_env \<Rightarrow> string \<Rightarrow> string \<Rightarrow> 'd entry_state \<Rightarrow> int \<times> 'd entry_state" where
  "session_start_hook env blueprint flag_val s =
     (if desktop_session_id (en_vars env) \<noteq> [] then attach_session env (desktop_session_id (en_vars env)) s
      else case entry_session env True flag_val s of (sid, s1) \<Rightarrow>
        if \<not> is_ok (validate_id sid) then (1, s1)
        else if hv_owner (en_vars env) = session_owner_run then attach_session env sid s1
        else case on_hook (hook_session_start ((en_hook env)\<lparr>hk_runtime := ''claude_code''\<rparr>)
               (resolve_agent blueprint (en_agent_uuid env) (en_blueprint env) (en_policy_uuid env)) sid) s1 of
          (code, s2) \<Rightarrow>
            if code \<noteq> 0 then (code, s2)
            else let s3 = s2\<lparr>es_hook := update_session_owner (en_hook env) (en_identify env) sid (en_parent env) False (es_hook s2)\<rparr>
              in (briefing_code env, write_claude_proxy_env env sid s3))"

definition session_end_hook :: "'d entry_env \<Rightarrow> string \<Rightarrow> 'd entry_state \<Rightarrow> int \<times> 'd entry_state" where
  "session_end_hook env flag_val s =
     (if hv_owner (en_vars env) = session_owner_run \<or> desktop_session_id (en_vars env) \<noteq> [] then (0, s)
      else case entry_session env False flag_val s of (sid, s1) \<Rightarrow> on_hook (hook_session_end (en_hook env) sid) s1)"

definition run_internal_session_hook :: "string \<Rightarrow> 'd entry_env \<Rightarrow> 'd entry_state \<Rightarrow> int \<times> 'd entry_state" where
  "run_internal_session_hook phase env s =
     (case en_flags env of
        Inl _ \<Rightarrow> (1, s)
      | Inr (blueprint, flag_val) \<Rightarrow>
          if \<not> is_ok (en_paths env) then (1, s)
          else if phase = ''start'' then session_start_hook env blueprint flag_val s
          else if phase = ''end'' then session_end_hook env flag_val s
          else (1, s))"

section \<open>A wrapped command\<close>

text \<open>
  How the child ends: its environment and arguments are fixed when it starts, with a process id; meanwhile the
  daemon and the durable states go on (\<open>ck_during\<close>). An exit status other than success has a code.
\<close>

datatype child_end = Child_Ok | Child_Exit int | Child_Error

record 'd child =
  ck_resolve :: "string \<Rightarrow> string result"
  ck_start :: "string \<Rightarrow> string list \<Rightarrow> string list \<Rightarrow> int result"
  ck_during :: "'d hook_state \<Rightarrow> 'd hook_state"
  ck_end :: child_end

text \<open>\<open>endSession\<close>, once when asked for and again on return unless it was confirmed.\<close>

definition end_session :: "'d hook_env \<Rightarrow> string \<Rightarrow> 'd hook_state \<Rightarrow> int \<times> 'd hook_state" where
  "end_session env sid s =
     (case hook_session_end env sid s of (code, s1) \<Rightarrow>
        if code = 0 then (0, s1) else (code, snd (hook_session_end env sid s1)))"

definition child_environment :: "'d entry_env \<Rightarrow> string list \<Rightarrow> string \<Rightarrow> string \<Rightarrow> string list result" where
  "child_environment env inherited sid handle =
     (let base = inherited @ [''KEYDRIS_SESSION='' @ sid, ''KEYDRIS_SESSION_OWNER='' @ session_owner_run] in
      if en_plane env \<in> {''proxyenv'', ''sandbox'', ''claude-code''} then
        bind_result (en_build env) (\<lambda>_. Inr (append_proxy_environment (en_os env) base
          (proxy_auth_url (if en_plane env = ''proxyenv'' then en_port env else en_http_port env) handle) (en_bundle env)))
      else Inr base)"

definition wrapped_code :: "child_end \<Rightarrow> int \<Rightarrow> int" where
  "wrapped_code e ended = (case e of Child_Ok \<Rightarrow> ended | Child_Exit code \<Rightarrow> code | Child_Error \<Rightarrow> 1)"

definition run_wrapped :: "'d entry_env \<Rightarrow> 'd child \<Rightarrow> string list \<Rightarrow> string \<Rightarrow> string list \<Rightarrow> string \<Rightarrow> 'd hook_state \<Rightarrow> int \<times> 'd hook_state" where
  "run_wrapped env ch inherited executable args sid s =
     (let finish = (\<lambda>code s. (code, snd (end_session (en_hook env) sid s))) in
      case load_state sid (hs_durable s) of
        Inl _ \<Rightarrow> finish 1 s
      | Inr st \<Rightarrow>
          (case child_environment env inherited sid (st_handle st) of
             Inl _ \<Rightarrow> finish 1 s
           | Inr child_env \<Rightarrow>
               (case ck_start ch executable args child_env of
                  Inl _ \<Rightarrow> finish 1 s
                | Inr pid \<Rightarrow>
                    (let s1 = ck_during ch (update_session_owner (en_hook env) (en_identify env) sid pid True s) in
                     case end_session (en_hook env) sid s1 of
                       (code, s2) \<Rightarrow> (wrapped_code (ck_end ch) code, s2)))))"

text \<open>\<open>runRun\<close>; the flags are those before the two dashes.\<close>

definition run_run :: "'d entry_env \<Rightarrow> 'd child \<Rightarrow> string list \<Rightarrow> string list \<Rightarrow> 'd hook_state \<Rightarrow> int \<times> 'd hook_state" where
  "run_run env ch inherited args s0 =
     (case split_dash_dash args of (flags, cmd) \<Rightarrow>
       (case en_flags env of
          Inl _ \<Rightarrow> (1, s0)
        | Inr (blueprint, _) \<Rightarrow>
            (case cmd of
               [] \<Rightarrow> (1, s0)
             | name # cmd_args \<Rightarrow>
                 if \<not> is_ok (en_paths env) then (1, s0)
                 else (case ck_resolve ch name of
                     Inl _ \<Rightarrow> (1, s0)
                   | Inr executable \<Rightarrow>
                       (case new_proxy_token (hk_stamp (en_hook env)) (hs_world s0) of (tok, w) \<Rightarrow>
                         let sid = ''run-'' @ tok in
                         case hook_session_start ((en_hook env)\<lparr>hk_runtime := agent_runtime_for_command name\<rparr>)
                             (resolve_agent blueprint (en_agent_uuid env) (en_blueprint env) (en_policy_uuid env)) sid (s0\<lparr>hs_world := w\<rparr>) of
                           (code, s1) \<Rightarrow> if code \<noteq> 0 then (code, s1)
                             else run_wrapped env ch inherited executable cmd_args sid s1)))))"

section \<open>Owned sessions\<close>

definition same_session :: "'d entry_state \<Rightarrow> 'd entry_state \<Rightarrow> bool" where
  "same_session s s' \<longleftrightarrow> hs_durable (es_hook s') = hs_durable (es_hook s) \<and> hs_daemon (es_hook s') = hs_daemon (es_hook s)
     \<and> wd_sent (hs_world (es_hook s')) = wd_sent (hs_world (es_hook s))"

lemma env_written_same: "same_session s (write_claude_proxy_env env sid s)"
  by (auto simp: same_session_def write_claude_proxy_env_def Let_def split: sum.splits)

lemma attach_same: "attach_session env sid s = (code, s') \<Longrightarrow>
    same_session s s' \<and> (code = 0 \<longrightarrow> is_ok (load_state sid (hs_durable (es_hook s))))"
  using env_written_same [of s env sid] by (auto simp: attach_session_def same_session_def split: if_splits)

lemma entry_same: "entry_session env g f s = (sid, s') \<Longrightarrow> same_session s s'"
  by (auto simp: entry_session_def session_id_def new_proxy_token_def same_session_def Let_def split: if_splits option.splits prod.splits)

lemma same_trans: "same_session a b \<Longrightarrow> same_session b c \<Longrightarrow> same_session a c"
  by (simp add: same_session_def)

lemma same_refl: "same_session a a"
  by (simp add: same_session_def)

lemma owned_start_same:
  assumes "hv_owner (en_vars env) = session_owner_run \<or> desktop_session_id (en_vars env) \<noteq> []"
    and "session_start_hook env blueprint flag_val s = (code, s')"
  shows "same_session s s'"
proof (cases "desktop_session_id (en_vars env) = []")
  case False
  with assms(2) have "attach_session env (desktop_session_id (en_vars env)) s = (code, s')" by (simp add: session_start_hook_def)
  with attach_same show ?thesis by blast
next
  case True
  obtain sid s1 where e: "entry_session env True flag_val s = (sid, s1)" by (metis surj_pair)
  from assms True have "s' = s1 \<or> attach_session env sid s1 = (code, s')"
    by (auto simp: session_start_hook_def e split: if_splits)
  with attach_same entry_same [OF e] same_trans show ?thesis by blast
qed

section \<open>The end of a wrapped command\<close>

text \<open>A confirmed end: the last request revoked a credential, and the state is gone unless its file could not be removed.\<close>

definition confirmed_end :: "'d hook_env \<Rightarrow> string \<Rightarrow> 'd hook_state \<Rightarrow> bool" where
  "confirmed_end env sid s \<longleftrightarrow> (\<exists>ulid w. revoke_instance env ulid w = (Inr (), hs_world s))
     \<and> (hk_remove_fault env \<noteq> None \<or> load_state sid (hs_durable s) = Inl ''no such file'')"

lemma ended_confirmed:
  assumes "hook_session_end env sid s = (0, s')"
  shows "confirmed_end env sid s'"
proof -
  obtain st where st: "load_state sid (hs_durable s) = Inr st"
    using assms by (auto simp: hook_session_end_def split: if_splits sum.splits)
  obtain a dm where ex: "exchange_authenticated env (zero_message\<lparr>sm_action := action_unregister, sm_handle := st_handle st\<rparr>)
      (hs_daemon s) = (a, dm)" by (metis surj_pair)
  obtain sn un where ans: "unregister_answer sid a = (sn, un)" by (metis surj_pair)
  define s2 where "s2 = (case sn of None \<Rightarrow> s\<lparr>hs_daemon := dm\<rparr> | Some x \<Rightarrow> snd (save_step env (current_state x st) (s\<lparr>hs_daemon := dm\<rparr>)))"
  define ulid where "ulid = (case sn of None \<Rightarrow> st_ulid st | Some x \<Rightarrow> sn_ulid x)"
  obtain r s3 where rev: "revoke_step env ulid s2 = (r, s3)" by (cases "revoke_step env ulid s2")
  have "(case r of Inl _ \<Rightarrow> (1 :: int, s3) | Inr _ \<Rightarrow> if \<not> un then (1, s3) else (0, remove_step env sid s3)) = (0, s')"
    using assms st ex ans rev by (simp add: hook_session_end_def Let_def ulid_def s2_def split: if_splits)
  then have r: "r = Inr ()" "s' = remove_step env sid s3" by (auto split: sum.splits if_splits)
  have "revoke_instance env ulid (hs_world s2) = (Inr (), hs_world s')"
    using rev r by (auto simp: revoke_step_def remove_step_def split: prod.splits)
  moreover have "hk_remove_fault env \<noteq> None \<or> load_state sid (hs_durable s') = Inl ''no such file''"
    using load_removed load_state_id [OF st] by (cases "hk_remove_fault env") (simp_all add: r(2) remove_step_def)
  ultimately show ?thesis unfolding confirmed_end_def by blast
qed

lemma end_session_confirmed: "end_session env sid s = (0, s') \<Longrightarrow> confirmed_end env sid s'"
  using ended_confirmed by (auto simp: end_session_def split: prod.splits if_splits)

lemma run_wrapped_ends:
  assumes "run_wrapped env ch inherited exe args sid s = (code, s')"
  shows "(\<exists>s1. s' = snd (end_session (en_hook env) sid s1))
    \<and> (code = 0 \<and> ck_end ch \<noteq> Child_Exit 0 \<longrightarrow> ck_end ch = Child_Ok \<and> confirmed_end (en_hook env) sid s')"
proof (cases "\<exists>s1. s' = snd (end_session (en_hook env) sid s1) \<and> code = 1")
  case False
  with assms obtain s1 c where "end_session (en_hook env) sid s1 = (c, s')" "code = wrapped_code (ck_end ch) c"
    by (auto simp: run_wrapped_def Let_def split: sum.splits prod.splits)
  then show ?thesis using end_session_confirmed by (cases "ck_end ch") (auto simp: wrapped_code_def intro: exI [of _ s1])
qed auto

section \<open>Properties\<close>

text \<open>
  C37. Inside a session that a launcher owns, the hooks neither mint nor revoke: start and end leave the durable
  states, the daemon and the requests to the control plane as they are, the end exits 0 without a change, and the
  start fails unless it finds the state of an owned session.
\<close>

theorem owned_sessions_untouched:
  assumes "hv_owner (en_vars env) = session_owner_run \<or> desktop_session_id (en_vars env) \<noteq> []"
    and "run_internal_session_hook phase env s = (code, s')"
  shows "hs_durable (es_hook s') = hs_durable (es_hook s) \<and> hs_daemon (es_hook s') = hs_daemon (es_hook s)
    \<and> wd_sent (hs_world (es_hook s')) = wd_sent (hs_world (es_hook s))
    \<and> (if phase = ''end'' \<and> is_ok (en_flags env) \<and> is_ok (en_paths env) then code = 0 \<and> s' = s
       else code = 0 \<longrightarrow> (\<exists>sid. is_ok (load_state sid (hs_durable (es_hook s)))))"
proof (cases "is_ok (en_flags env) \<and> is_ok (en_paths env) \<and> phase = ''start''")
  case True
  then obtain b f where run: "session_start_hook env b f s = (code, s')"
    using assms(2) by (auto simp: run_internal_session_hook_def is_ok_iff)
  have "\<exists>sid. is_ok (load_state sid (hs_durable (es_hook s)))" if "code = 0"
  proof (cases "desktop_session_id (en_vars env) = []")
    case True
    obtain sid s1 where e: "entry_session env True f s = (sid, s1)" by (metis surj_pair)
    from assms(1) True run that have "attach_session env sid s1 = (code, s')"
      by (auto simp: session_start_hook_def e split: if_splits)
    with attach_same that entry_same [OF e] show ?thesis by (force simp: same_session_def)
  next
    case False
    with run have "attach_session env (desktop_session_id (en_vars env)) s = (code, s')" by (simp add: session_start_hook_def)
    with attach_same that show ?thesis by blast
  qed
  moreover have "phase \<noteq> ''end''" using True by simp
  ultimately show ?thesis using owned_start_same [OF assms(1) run] by (simp add: same_session_def)
next
  case False
  with assms have "(code = 1 \<and> s' = s \<and> \<not> (phase = ''end'' \<and> is_ok (en_flags env) \<and> is_ok (en_paths env))) \<or> (code = 0 \<and> s' = s \<and> phase = ''end'' \<and> is_ok (en_flags env) \<and> is_ok (en_paths env))"
    by (auto simp: run_internal_session_hook_def session_end_hook_def is_ok_iff split: sum.splits if_splits)
  then show ?thesis by auto
qed

definition owned_entry :: "unit entry_env" where
  "owned_entry = \<lparr>en_hook = refusing_env, en_flags = Inr ([], []), en_paths = Inr (),
     en_vars = \<lparr>hv_session = ''a'', hv_owner = session_owner_run, hv_desktop = []\<rparr>, en_claude_session = [], en_stdin = None,
     en_agent_uuid = ''g'', en_blueprint = [], en_policy_uuid = [], en_os = Linux, en_plane = ''sandbox'', en_http_port = 1, en_port = 2,
     en_ca = [], en_bundle = [], en_build = Inr (), en_env_file = [], en_open = Inr (), en_parent = 1, en_identify = (\<lambda>_. Inl []),
     en_briefing = Inr ()\<rparr>"

lemma owned_sessions_untouched_witness:
  "fst (run_internal_session_hook ''end'' owned_entry \<lparr>es_hook = fresh_state, es_file = []\<rparr>) = 0"
proof -
  have o: "hv_owner (en_vars owned_entry) = session_owner_run" "is_ok (en_flags owned_entry)" "is_ok (en_paths owned_entry)"
    by (simp_all add: owned_entry_def)
  obtain code s' where r: "run_internal_session_hook ''end'' owned_entry \<lparr>es_hook = fresh_state, es_file = []\<rparr> = (code, s')"
    by (metis surj_pair)
  from owned_sessions_untouched [OF _ r] o have "code = 0" by simp
  with r show ?thesis by simp
qed

text \<open>
  C94. Start and end of a session resolve the same id exactly when the flag, a variable or the payload names it;
  otherwise the start has a generated id and the end another, so that the end never finds what the start minted.
\<close>

theorem session_ids_agree_iff_named:
  "fst (session_id stamp True flag_val keydris claude stdin w) = fst (session_id stamp' False flag_val keydris claude stdin w')
    \<longleftrightarrow> named_session flag_val keydris claude stdin \<noteq> []"
  by (auto simp: session_id_def Let_def split: prod.splits)


definition quick_child :: "unit child" where
  "quick_child = \<lparr>ck_resolve = Inr, ck_start = (\<lambda>_ _ _. Inr 7), ck_during = (\<lambda>s. s), ck_end = Child_Ok\<rparr>"


end
