(* ===== verification/Claude_Desktop.thy ===== *)
theory Claude_Desktop
  imports Claude_Settings Session_Entry
begin

text \<open>
  The launch of Claude Desktop: \<^verbatim>\<open>internal/node/sandbox/claudedesktop.go\<close>, which pins the proxy of the
  embedded engine and of the app, and \<^verbatim>\<open>internal/cli/claude_desktop.go\<close>, which keeps a record of what the
  files were, launches the app in a session of its own and puts the files back. A file system is what its
  files hold, with the faults of each operation; the record file is the record. Lemmas: the pins are
  undone exactly, and a launch that ends leaves the files as they were or the record to restore them from.
\<close>

section \<open>Files\<close>

text \<open>A write may fail before the file is touched or leave it torn, as \<open>os.WriteFile\<close> does.\<close>

record file_system =
  fs_files :: "string \<Rightarrow> string option"
  fs_read :: "string \<Rightarrow> string option"
  fs_write :: "string \<Rightarrow> (string \<times> string option) option"
  fs_remove :: "string \<Rightarrow> string option"

definition read_path :: "string \<Rightarrow> file_system \<Rightarrow> string option result" where
  "read_path p fs = (case fs_read fs p of Some e \<Rightarrow> Inl e | None \<Rightarrow> Inr (fs_files fs p))"

definition put_path :: "string \<Rightarrow> string option \<Rightarrow> file_system \<Rightarrow> file_system" where
  "put_path p v fs = fs\<lparr>fs_files := (fs_files fs)(p := v)\<rparr>"

definition write_path :: "string \<Rightarrow> string \<Rightarrow> file_system \<Rightarrow> unit result \<times> file_system" where
  "write_path p t fs =
     (case fs_write fs p of
        None \<Rightarrow> (Inr (), put_path p (Some t) fs)
      | Some (e, None) \<Rightarrow> (Inl e, fs)
      | Some (e, Some torn) \<Rightarrow> (Inl e, put_path p (Some torn) fs))"

definition remove_path :: "string \<Rightarrow> file_system \<Rightarrow> unit result \<times> file_system" where
  "remove_path p fs =
     (if fs_files fs p = None then (Inr (), fs)
      else case fs_remove fs p of Some e \<Rightarrow> (Inl e, fs) | None \<Rightarrow> (Inr (), put_path p None fs))"

definition restore_file :: "string \<Rightarrow> string option \<Rightarrow> file_system \<Rightarrow> unit result \<times> file_system" where
  "restore_file p previous fs = (case previous of None \<Rightarrow> remove_path p fs | Some t \<Rightarrow> write_path p t fs)"

text \<open>\<open>json.Unmarshal\<close> into a map: no file or no bytes give an empty one, \<open>null\<close> gives a nil one.\<close>

definition parse_settings :: "string option \<Rightarrow> object option result" where
  "parse_settings file =
     (case file of
        None \<Rightarrow> Inr (Some [])
      | Some t \<Rightarrow>
          if t = [] then Inr (Some [])
          else case parse_json t of None \<Rightarrow> Inl ''parse existing'' | Some j \<Rightarrow> decode_object j)"

section \<open>The engine's settings\<close>

record desktop_options =
  do_proxy :: string
  do_ca :: string
  do_start :: string
  do_end :: string
  do_pre :: string

definition desktop_proxy_env_keys :: "string list" where
  "desktop_proxy_env_keys = [''HTTP_PROXY'', ''HTTPS_PROXY'', ''http_proxy'', ''https_proxy'']"

definition merge_desktop_proxy_env :: "string \<Rightarrow> object \<Rightarrow> object" where
  "merge_desktop_proxy_env proxy settings =
     assoc_set ''env'' (AObj (fold (\<lambda>k. assoc_set k (AStr proxy)) desktop_proxy_env_keys (list_or (object_at settings ''env'')))) settings"

definition desktop_settings :: "goos \<Rightarrow> desktop_options \<Rightarrow> object \<Rightarrow> object" where
  "desktop_settings os opt settings =
     (let s1 = (if do_proxy opt \<noteq> [] then merge_desktop_proxy_env (do_proxy opt) settings else settings);
          s2 = (if do_ca opt \<noteq> [] then merge_ca_env os (do_ca opt) s1 else s1);
          s3 = (if do_start opt \<noteq> [] \<and> do_end opt \<noteq> [] then merge_hooks (do_start opt) (do_end opt) s2 else s2)
      in if do_pre opt \<noteq> [] then merge_pre_tool_use_hook os (do_pre opt) s3 else s3)"

text \<open>
  \<open>ApplyDesktopEngineSettings\<close>, with the encoder of settings; a directory is a path that cannot be read.
  Assigning into a nil map panics.
\<close>

definition apply_desktop_engine_settings ::
  "(object \<Rightarrow> string) \<Rightarrow> goos \<Rightarrow> string \<Rightarrow> desktop_options \<Rightarrow> file_system \<Rightarrow> string option result \<times> file_system" where
  "apply_desktop_engine_settings enc os path opt fs =
     (if trim_space path = [] then (Inl ''settings path is empty'', fs)
      else case read_path path fs of
        Inl e \<Rightarrow> (Inl e, fs)
      | Inr previous \<Rightarrow>
          (case parse_settings previous of
             Inl e \<Rightarrow> (Inl e, fs)
           | Inr None \<Rightarrow> (Inl ''assignment to entry in nil map'', fs)
           | Inr (Some settings) \<Rightarrow>
               (case write_path path (enc (desktop_settings os opt settings)) fs of
                  (Inl e, fs1) \<Rightarrow> (Inl e, fs1)
                | (Inr _, fs1) \<Rightarrow> (Inr previous, fs1))))"

definition restore_desktop_engine_settings :: "string \<Rightarrow> string option \<Rightarrow> file_system \<Rightarrow> unit result \<times> file_system" where
  "restore_desktop_engine_settings path previous fs =
     (if trim_space path = [] then (Inl ''settings path is empty'', fs) else restore_file path previous fs)"

section \<open>The app's egress\<close>

record egress_snapshot =
  eg_meta :: "string option"
  eg_config :: "string option"
  eg_name :: string

definition no_egress :: egress_snapshot where
  "no_egress = \<lparr>eg_meta = None, eg_config = None, eg_name = []\<rparr>"

definition join_path :: "string \<Rightarrow> string \<Rightarrow> string" where
  "join_path dir name = dir @ CHR ''/'' # name"

definition meta_path :: "string \<Rightarrow> string" where "meta_path dir = join_path dir ''_meta.json''"

definition applied_id_char :: "char \<Rightarrow> bool" where
  "applied_id_char c \<longleftrightarrow> c \<in> set ''abcdef0123456789-''"

definition applied_id :: "string option \<Rightarrow> string" where
  "applied_id meta =
     (case meta of
        None \<Rightarrow> []
      | Some t \<Rightarrow>
          (case parse_json t of
             None \<Rightarrow> []
           | Some j \<Rightarrow>
               (case decode_object j of
                  Inr (Some m) \<Rightarrow> (let i = string_at m ''appliedId'' in
                    if length i = 36 \<and> list_all applied_id_char i then i else [])
                | _ \<Rightarrow> [])))"

text \<open>\<open>newUUIDv4\<close>, from sixteen random bytes.\<close>

definition new_uuid_v4 :: "string \<Rightarrow> string" where
  "new_uuid_v4 raw =
     (let b = raw[6 := char_of ((of_char (raw ! 6) :: nat) mod 16 + 64), 8 := char_of ((of_char (raw ! 8) :: nat) mod 64 + 128)];
          part = (\<lambda>i n. hex_encode (take n (drop i b)))
      in part 0 4 @ ''-'' @ part 4 2 @ ''-'' @ part 6 2 @ ''-'' @ part 8 2 @ ''-'' @ part 10 6)"

definition pin_applied :: "(object \<Rightarrow> string) \<Rightarrow> string \<Rightarrow> string \<Rightarrow> string option \<Rightarrow> string \<Rightarrow> file_system
    \<Rightarrow> egress_snapshot result \<times> file_system" where
  "pin_applied enc dir url meta i fs =
     (let name = i @ ''.json''; path = join_path dir name in
      case read_path path fs of
        Inl e \<Rightarrow> (Inl e, fs)
      | Inr config \<Rightarrow>
          (case parse_settings config of
             Inl e \<Rightarrow> (Inl (''parse existing '' @ path), fs)
           | Inr None \<Rightarrow> (Inl ''assignment to entry in nil map'', fs)
           | Inr (Some doc) \<Rightarrow>
               (case write_path path (enc (assoc_set ''egressProxyUrl'' (AStr url) doc)) fs of
                  (Inl e, fs1) \<Rightarrow> (Inl e, fs1)
                | (Inr _, fs1) \<Rightarrow> (Inr \<lparr>eg_meta = meta, eg_config = config, eg_name = name\<rparr>, fs1))))"

definition pin_created :: "(object \<Rightarrow> string) \<Rightarrow> string result \<Rightarrow> string \<Rightarrow> string \<Rightarrow> string option \<Rightarrow> file_system
    \<Rightarrow> egress_snapshot result \<times> file_system" where
  "pin_created enc random dir url meta fs =
     (case random of
        Inl e \<Rightarrow> (Inl e, fs)
      | Inr raw \<Rightarrow>
          let i = new_uuid_v4 raw; name = i @ ''.json'' in
          (case write_path (join_path dir name) (enc [(''egressProxyUrl'', AStr url)]) fs of
             (Inl e, fs1) \<Rightarrow> (Inl e, fs1)
           | (Inr _, fs1) \<Rightarrow>
               (case write_path (meta_path dir) (enc [(''appliedId'', AStr i),
                    (''entries'', AArr [AObj [(''id'', AStr i), (''name'', AStr ''Keydris session'')]])]) fs1 of
                  (Inl e, fs2) \<Rightarrow> (Inl e, fs2)
                | (Inr _, fs2) \<Rightarrow> (Inr \<lparr>eg_meta = meta, eg_config = None, eg_name = name\<rparr>, fs2))))"

definition apply_egress_proxy_pin :: "(object \<Rightarrow> string) \<Rightarrow> string result \<Rightarrow> string \<Rightarrow> string \<Rightarrow> file_system
    \<Rightarrow> egress_snapshot result \<times> file_system" where
  "apply_egress_proxy_pin enc random dir url fs =
     (if CHR 0x40 \<in> set url then (Inl ''egress proxy URL must not contain userinfo'', fs)
      else case read_path (meta_path dir) fs of
        Inl e \<Rightarrow> (Inl e, fs)
      | Inr meta \<Rightarrow>
          let i = applied_id meta in
          if i \<noteq> [] then pin_applied enc dir url meta i fs else pin_created enc random dir url meta fs)"

definition restore_egress_proxy_pin :: "string \<Rightarrow> egress_snapshot \<Rightarrow> file_system \<Rightarrow> unit result \<times> file_system" where
  "restore_egress_proxy_pin dir snap fs =
     (if eg_name snap = [] then (Inl ''egress snapshot ConfigName is empty'', fs)
      else case restore_file (meta_path dir) (eg_meta snap) fs of
        (Inl e, fs1) \<Rightarrow> (Inl e, fs1)
      | (Inr _, fs1) \<Rightarrow> restore_file (join_path dir (eg_name snap)) (eg_config snap) fs1)"

section \<open>The launch record\<close>

record desktop_record =
  dk_pid :: int
  dk_session :: string
  dk_settings :: string
  dk_previous :: "string option"
  dk_library :: string
  dk_egress :: egress_snapshot

record 'd desktop_state =
  ds_fs :: file_system
  ds_record :: "desktop_record option"
  ds_hook :: "'d hook_state"

text \<open>
  What a launch runs in: its arguments and host, the settings path, the verdicts of the checks, the forwarder's
  address, the library of the app, the process of the launcher and which processes live, the app (its process id,
  what it does to the files meanwhile, its exit code), and the faults of the record file.
\<close>

record 'd desktop_env =
  dn_entry :: "'d entry_env"
  dn_args :: "string list"
  dn_running :: bool
  dn_settings :: string
  dn_encode :: "object \<Rightarrow> string"
  dn_proxy :: int
  dn_forwarder :: "string result"
  dn_library :: "string result"
  dn_random :: "string result"
  dn_self :: int
  dn_alive :: "int \<Rightarrow> bool"
  dn_app :: "int result"
  dn_during :: "'d desktop_state \<Rightarrow> 'd desktop_state"
  dn_code :: int
  dn_record_read :: "string option"
  dn_record_write :: "string option"
  dn_record_remove :: "string option"

definition on_files :: "(file_system \<Rightarrow> 'a \<times> file_system) \<Rightarrow> 'd desktop_state \<Rightarrow> 'a \<times> 'd desktop_state" where
  "on_files f s = (case f (ds_fs s) of (r, fs) \<Rightarrow> (r, s\<lparr>ds_fs := fs\<rparr>))"

text \<open>\<open>finishDesktopLaunch\<close>: both restorations are tried, and the record goes only when both succeed.\<close>

definition finish_desktop_launch :: "'d desktop_env \<Rightarrow> desktop_record \<Rightarrow> 'd desktop_state \<Rightarrow> unit result \<times> 'd desktop_state" where
  "finish_desktop_launch env rec s =
     (case (if dk_settings rec \<noteq> [] then on_files (restore_desktop_engine_settings (dk_settings rec) (dk_previous rec)) s else (Inr (), s)) of
        (r1, s1) \<Rightarrow>
          (case (if dk_library rec \<noteq> [] \<and> eg_name (dk_egress rec) \<noteq> []
                then on_files (restore_egress_proxy_pin (dk_library rec) (dk_egress rec)) s1 else (Inr (), s1)) of
             (r2, s2) \<Rightarrow>
               (case bind_result r1 (\<lambda>_. r2) of
                  Inl e \<Rightarrow> (Inl e, s2)
                | Inr _ \<Rightarrow>
                    if ds_record s2 = None then (Inr (), s2)
                    else (case dn_record_remove env of Some e \<Rightarrow> (Inl e, s2) | None \<Rightarrow> (Inr (), s2\<lparr>ds_record := None\<rparr>)))))"

definition end_desktop :: "'d desktop_env \<Rightarrow> string \<Rightarrow> 'd desktop_state \<Rightarrow> 'd desktop_state" where
  "end_desktop env sid s = s\<lparr>ds_hook := snd (hook_session_end (en_hook (dn_entry env)) sid (ds_hook s))\<rparr>"

definition sweep_desktop_launch :: "'d desktop_env \<Rightarrow> 'd desktop_state \<Rightarrow> unit result \<times> 'd desktop_state" where
  "sweep_desktop_launch env s =
     (case dn_record_read env of
        Some e \<Rightarrow> (Inl e, s)
      | None \<Rightarrow>
          (case ds_record s of
             None \<Rightarrow> (Inr (), s)
           | Some rec \<Rightarrow>
               if 0 < dk_pid rec \<and> dn_alive env (dk_pid rec) then (Inr (), s)
               else (case finish_desktop_launch env rec s of
                   (Inl e, s1) \<Rightarrow> (Inl e, s1)
                 | (Inr _, s1) \<Rightarrow> (Inr (), if dk_session rec \<noteq> [] then end_desktop env (dk_session rec) s1 else s1))))"

section \<open>The launch\<close>

text \<open>The steps after the session is minted; the deferred end of the session follows them on every path.\<close>

definition launch_recorded :: "'d desktop_env \<Rightarrow> string \<Rightarrow> desktop_record \<Rightarrow> 'd desktop_state \<Rightarrow> int \<times> 'd desktop_state" where
  "launch_recorded env sid rec s =
     (case dn_app env of
        Inl _ \<Rightarrow> (1, snd (finish_desktop_launch env rec s))
      | Inr pid \<Rightarrow>
          let s1 = s\<lparr>ds_hook := update_session_owner (en_hook (dn_entry env)) (en_identify (dn_entry env)) sid pid True (ds_hook s)\<rparr>;
              s2 = dn_during env s1
          in (case finish_desktop_launch env rec s2 of
                (Inl _, s3) \<Rightarrow> (if dn_code env = 0 then 1 else dn_code env, s3)
              | (Inr _, s3) \<Rightarrow> (dn_code env, s3)))"

definition launch_pinned :: "'d desktop_env \<Rightarrow> string \<Rightarrow> string \<Rightarrow> string option \<Rightarrow> 'd desktop_state \<Rightarrow> int \<times> 'd desktop_state" where
  "launch_pinned env sid address previous s =
     (let undo = (\<lambda>s. snd (on_files (restore_desktop_engine_settings (dn_settings env) previous) s)) in
      case dn_library env of
        Inl _ \<Rightarrow> (1, undo s)
      | Inr library \<Rightarrow>
          (case on_files (apply_egress_proxy_pin (dn_encode env) (dn_random env) library (''http://'' @ address)) s of
             (Inl _, s1) \<Rightarrow> (1, undo s1)
           | (Inr egress, s1) \<Rightarrow>
               (case dn_record_write env of
                  Some _ \<Rightarrow> (1, undo (snd (on_files (restore_egress_proxy_pin library egress) s1)))
                | None \<Rightarrow>
                    let rec = \<lparr>dk_pid = dn_self env, dk_session = sid, dk_settings = dn_settings env, dk_previous = previous,
                      dk_library = library, dk_egress = egress\<rparr>
                    in launch_recorded env sid rec (s1\<lparr>ds_record := Some rec\<rparr>))))"

definition launch_started :: "'d desktop_env \<Rightarrow> string \<Rightarrow> 'd desktop_state \<Rightarrow> int \<times> 'd desktop_state" where
  "launch_started env sid s =
     (case load_state sid (hs_durable (ds_hook s)) of
        Inl _ \<Rightarrow> (1, s)
      | Inr st \<Rightarrow>
          if st_handle st = [] then (1, s)
          else (case dn_forwarder env of
              Inl _ \<Rightarrow> (1, s)
            | Inr address \<Rightarrow>
                (case on_files (apply_desktop_engine_settings (dn_encode env) Darwin (dn_settings env)
                     \<lparr>do_proxy = proxy_auth_url (en_http_port (dn_entry env)) (st_handle st), do_ca = [], do_start = [], do_end = [], do_pre = []\<rparr>) s of
                   (Inl _, s1) \<Rightarrow> (1, s1)
                 | (Inr previous, s1) \<Rightarrow> launch_pinned env sid address previous s1)))"

definition settings_present :: "'d desktop_env \<Rightarrow> 'd desktop_state \<Rightarrow> bool" where
  "settings_present env s =
     (case read_path (dn_settings env) (ds_fs s) of
        Inl _ \<Rightarrow> False
      | Inr file \<Rightarrow> (case parse_settings file of Inr (Some m) \<Rightarrow> has_keydris_hooks m | _ \<Rightarrow> False))"

definition run_claude_desktop :: "'d desktop_env \<Rightarrow> 'd desktop_state \<Rightarrow> int \<times> 'd desktop_state" where
  "run_claude_desktop env s0 =
     (if dn_args env \<noteq> [] then (2, s0)
      else if en_os (dn_entry env) \<noteq> Darwin \<or> dn_running env \<or> \<not> is_ok (en_paths (dn_entry env)) then (1, s0)
      else case sweep_desktop_launch env s0 of
        (Inl _, s1) \<Rightarrow> (1, s1)
      | (Inr _, s1) \<Rightarrow>
          if \<not> settings_present env s1 then (1, s1)
          else if dn_proxy env \<noteq> 0 then (dn_proxy env, s1)
          else (case new_proxy_token (hk_stamp (en_hook (dn_entry env))) (hs_world (ds_hook s1)) of (tok, w) \<Rightarrow>
            let sid = ''desktop-'' @ tok; e = dn_entry env in
            case hook_session_start ((en_hook e)\<lparr>hk_runtime := ''claude_desktop''\<rparr>)
                (resolve_agent [] (en_agent_uuid e) (en_blueprint e) (en_policy_uuid e)) sid ((ds_hook s1)\<lparr>hs_world := w\<rparr>) of
              (code, h) \<Rightarrow>
                let s2 = s1\<lparr>ds_hook := h\<rparr> in
                if code \<noteq> 0 then (code, s2)
                else (case launch_started env sid s2 of (c, s3) \<Rightarrow> (c, end_desktop env sid s3))))"

section \<open>Undoing\<close>

definition clean :: "file_system \<Rightarrow> bool" where
  "clean fs \<longleftrightarrow> fs_read fs = (\<lambda>_. None) \<and> fs_write fs = (\<lambda>_. None) \<and> fs_remove fs = (\<lambda>_. None)"

lemma put_same: "fs_files fs p = v \<Longrightarrow> put_path p v fs = fs"
  by (simp add: put_path_def fun_upd_idem)

lemma put_twice: "put_path p v (put_path p w fs) = put_path p v fs"
  by (simp add: put_path_def)

lemma put_swap: "p \<noteq> q \<Longrightarrow> put_path p v (put_path q w fs) = put_path q w (put_path p v fs)"
  by (simp add: put_path_def fun_upd_twist)

lemma put_files [simp]: "fs_files (put_path p v fs) q = (if q = p then v else fs_files fs q)"
  by (simp add: put_path_def)

lemma clean_put [simp]: "clean (put_path p v fs) = clean fs"
  by (simp add: clean_def put_path_def)

lemma clean_ops:
  assumes "clean fs"
  shows "read_path p fs = Inr (fs_files fs p)" and "write_path p t fs = (Inr (), put_path p (Some t) fs)"
    and "restore_file p v fs = (Inr (), put_path p v fs)"
  using assms put_same [of fs p None]
  by (auto simp: clean_def read_path_def write_path_def restore_file_def remove_path_def split: option.split)

lemma config_not_meta: "CHR ''-'' \<in> set name \<Longrightarrow> join_path dir name \<noteq> meta_path dir"
  by (auto simp: join_path_def meta_path_def)

lemma applied_config_not_meta: "applied_id meta \<noteq> [] \<Longrightarrow> join_path dir (applied_id meta @ ''.json'') \<noteq> meta_path dir"
proof -
  assume "applied_id meta \<noteq> []"
  then have "length (applied_id meta @ ''.json'') = 41"
    by (auto simp: applied_id_def Let_def split: option.splits sum.splits if_splits)
  moreover have "length ''_meta.json'' = 10" by simp
  ultimately have "applied_id meta @ ''.json'' \<noteq> ''_meta.json''" by (metis numeral_eq_iff semiring_norm(85,88,89))
  then show ?thesis by (simp add: join_path_def meta_path_def)
qed

text \<open>A snapshot that holds what the two files of the library were.\<close>

definition snapshot_of :: "string \<Rightarrow> egress_snapshot \<Rightarrow> file_system \<Rightarrow> bool" where
  "snapshot_of dir snap fs \<longleftrightarrow> eg_name snap \<noteq> [] \<and> join_path dir (eg_name snap) \<noteq> meta_path dir
     \<and> eg_meta snap = fs_files fs (meta_path dir) \<and> eg_config snap = fs_files fs (join_path dir (eg_name snap))"

definition differ_at :: "string set \<Rightarrow> file_system \<Rightarrow> file_system \<Rightarrow> bool" where
  "differ_at ps fs fs' \<longleftrightarrow> fs_read fs' = fs_read fs \<and> fs_write fs' = fs_write fs \<and> fs_remove fs' = fs_remove fs
     \<and> (\<forall>p. p \<notin> ps \<longrightarrow> fs_files fs' p = fs_files fs p)"

lemma differ_put: "differ_at (insert p ps) fs fs' \<Longrightarrow> v = fs_files fs p \<Longrightarrow> differ_at ps fs (put_path p v fs')"
  by (auto simp: differ_at_def put_path_def)

lemma differ_none: "differ_at {} fs fs' \<Longrightarrow> fs' = fs"
  by (auto simp: differ_at_def intro!: file_system.equality ext)

lemma differ_clean: "differ_at ps fs fs' \<Longrightarrow> clean fs' = clean fs"
  by (simp add: differ_at_def clean_def)

lemma differ_more: "differ_at ps fs fs' \<Longrightarrow> v = v' \<Longrightarrow> differ_at (insert p ps) fs (put_path p v fs')"
  by (auto simp: differ_at_def put_path_def)

lemma differ_refl: "differ_at ps fs fs"
  by (simp add: differ_at_def)

lemma restore_egress_clean:
  assumes "clean fs" and "snapshot_of dir snap fs" and "differ_at (insert (meta_path dir) (insert (join_path dir (eg_name snap)) ps)) fs fs'"
  shows "\<exists>fs''. restore_egress_proxy_pin dir snap fs' = (Inr (), fs'') \<and> differ_at ps fs fs''"
proof -
  let ?m = "meta_path dir" and ?c = "join_path dir (eg_name snap)"
  have c: "clean fs'" using differ_clean [OF assms(3)] assms(1) by simp
  have "differ_at (insert ?c ps) fs (put_path ?m (eg_meta snap) fs')"
    using assms(3) by (rule differ_put) (use assms(2) in \<open>simp add: snapshot_of_def\<close>)
  then have "differ_at ps fs (put_path ?c (eg_config snap) (put_path ?m (eg_meta snap) fs'))"
    by (rule differ_put) (use assms(2) in \<open>simp add: snapshot_of_def\<close>)
  with assms(2) c show ?thesis
    by (simp add: restore_egress_proxy_pin_def snapshot_of_def clean_ops)
qed

lemma applied_snapshot:
  assumes "apply_egress_proxy_pin enc random dir url fs = (Inr snap, fs')" and "clean fs"
    and "\<And>raw. random = Inr raw \<Longrightarrow> fs_files fs (join_path dir (new_uuid_v4 raw @ ''.json'')) = None"
  shows "snapshot_of dir snap fs \<and> differ_at {meta_path dir, join_path dir (eg_name snap)} fs fs'"
proof (cases "applied_id (fs_files fs (meta_path dir)) = []")
  case True
  with assms(1,2) have "pin_created enc random dir url (fs_files fs (meta_path dir)) fs = (Inr snap, fs')"
    by (simp add: apply_egress_proxy_pin_def clean_ops split: if_splits)
  then obtain raw where raw: "random = Inr raw" and
    r: "snap = \<lparr>eg_meta = fs_files fs (meta_path dir), eg_config = None, eg_name = new_uuid_v4 raw @ ''.json''\<rparr>"
    "\<exists>a b. fs' = put_path (meta_path dir) (Some a) (put_path (join_path dir (new_uuid_v4 raw @ ''.json'')) (Some b) fs)"
    using assms(2) by (auto simp: pin_created_def Let_def clean_ops split: sum.splits)
  have "CHR ''-'' \<in> set (new_uuid_v4 raw @ ''.json'')" by (simp add: new_uuid_v4_def Let_def)
  from config_not_meta [OF this] assms(3) [OF raw] r show ?thesis
    by (auto simp: snapshot_of_def differ_at_def put_path_def)
next
  case False
  let ?i = "applied_id (fs_files fs (meta_path dir))"
  from False assms(1,2) have "pin_applied enc dir url (fs_files fs (meta_path dir)) ?i fs = (Inr snap, fs')"
    by (simp add: apply_egress_proxy_pin_def clean_ops split: if_splits)
  then have r: "snap = \<lparr>eg_meta = fs_files fs (meta_path dir), eg_config = fs_files fs (join_path dir (?i @ ''.json'')), eg_name = ?i @ ''.json''\<rparr>"
    "\<exists>b. fs' = put_path (join_path dir (?i @ ''.json'')) (Some b) fs"
    using assms(2) by (auto simp: pin_applied_def Let_def clean_ops split: sum.splits option.splits)
  with applied_config_not_meta [OF False] show ?thesis
    by (auto simp: snapshot_of_def differ_at_def put_path_def)
qed

lemma failed_egress:
  assumes "apply_egress_proxy_pin enc random dir url fs = (Inl e, fs')" and "clean fs"
  shows "fs' = fs"
  using assms
  by (auto simp: apply_egress_proxy_pin_def pin_created_def pin_applied_def clean_ops Let_def split: if_splits sum.splits option.splits)

lemma failed_engine:
  assumes "apply_desktop_engine_settings enc os path opt fs = (Inl e, fs')" and "clean fs"
  shows "fs' = fs"
  using assms by (auto simp: apply_desktop_engine_settings_def clean_ops split: if_splits sum.splits option.splits)

lemma applied_engine:
  assumes "apply_desktop_engine_settings enc os path opt fs = (Inr previous, fs')" and "clean fs"
  shows "trim_space path \<noteq> [] \<and> previous = fs_files fs path \<and> differ_at {path} fs fs'"
  using assms
  by (auto simp: apply_desktop_engine_settings_def clean_ops differ_at_def put_path_def split: if_splits sum.splits option.splits)

lemma restore_engine_clean:
  assumes "clean fs" and "differ_at {path} fs fs'" and "trim_space path \<noteq> []"
  shows "restore_desktop_engine_settings path (fs_files fs path) fs' = (Inr (), fs)"
  using assms differ_clean [OF assms(2)] differ_none [OF differ_put [OF assms(2) refl]]
  by (simp add: restore_desktop_engine_settings_def clean_ops)

section \<open>The launch leaves the files\<close>

text \<open>
  The files of a launch: the settings are not in the library of the app, the document that a new library gets
  is not there yet, and the app writes none but the pinned files and leaves the record alone.
\<close>

definition tame_launch :: "'d desktop_env \<Rightarrow> 'd desktop_state \<Rightarrow> bool" where
  "tame_launch env s \<longleftrightarrow> clean (ds_fs s) \<and> dn_record_read env = None \<and> dn_record_remove env = None
     \<and> (\<forall>lib. dn_library env = Inr lib \<longrightarrow> lib \<noteq> [] \<and> (\<forall>n. dn_settings env \<noteq> join_path lib n)
          \<and> (\<forall>raw. dn_random env = Inr raw \<longrightarrow> fs_files (ds_fs s) (join_path lib (new_uuid_v4 raw @ ''.json'')) = None))
     \<and> (\<forall>t. ds_record (dn_during env t) = ds_record t \<and> (\<forall>rec. ds_record t = Some rec \<longrightarrow>
          differ_at {meta_path (dk_library rec), join_path (dk_library rec) (eg_name (dk_egress rec)), dk_settings rec} (ds_fs t) (ds_fs (dn_during env t))))"

lemma finish_clean:
  assumes "clean fs" and "snapshot_of (dk_library rec) (dk_egress rec) fs" and "dk_previous rec = fs_files fs (dk_settings rec)"
    and "trim_space (dk_settings rec) \<noteq> []" and "dk_library rec \<noteq> []" and "dn_record_remove env = None"
    and "differ_at {meta_path (dk_library rec), join_path (dk_library rec) (eg_name (dk_egress rec)), dk_settings rec} fs (ds_fs s)"
  shows "\<exists>s'. finish_desktop_launch env rec s = (Inr (), s') \<and> ds_fs s' = fs \<and> ds_record s' = None"
proof -
  let ?m = "meta_path (dk_library rec)" and ?c = "join_path (dk_library rec) (eg_name (dk_egress rec))"
  define fs1 where "fs1 = put_path (dk_settings rec) (dk_previous rec) (ds_fs s)"
  have "trim_space [] = []" by code_simp
  with assms(4) have ne: "dk_settings rec \<noteq> []" by metis
  have c: "clean (ds_fs s)" using differ_clean [OF assms(7)] assms(1) by simp
  have one: "on_files (restore_desktop_engine_settings (dk_settings rec) (dk_previous rec)) s = (Inr (), s\<lparr>ds_fs := fs1\<rparr>)"
    using assms(4) by (simp add: on_files_def restore_desktop_engine_settings_def clean_ops [OF c] fs1_def)
  have "differ_at (insert (dk_settings rec) {?m, ?c}) fs (ds_fs s)" using assms(7) by (simp add: insert_commute)
  then have "differ_at {?m, ?c} fs fs1" unfolding fs1_def by (rule differ_put) (rule assms(3))
  from restore_egress_clean [OF assms(1,2) this] obtain fs2 where
    two: "restore_egress_proxy_pin (dk_library rec) (dk_egress rec) fs1 = (Inr (), fs2)" "differ_at {} fs fs2" by blast
  have "fs2 = fs" using differ_none two(2) by blast
  moreover have "eg_name (dk_egress rec) \<noteq> []" using assms(2) by (simp add: snapshot_of_def)
  ultimately show ?thesis using ne one two(1) assms(5,6)
    by (simp add: finish_desktop_launch_def on_files_def)
qed

lemma launch_recorded_clean:
  assumes "launch_recorded env sid rec s = (code, s')" and "ds_record s = Some rec"
    and "\<And>t. ds_record (dn_during env t) = ds_record t \<and> (\<forall>rec. ds_record t = Some rec \<longrightarrow>
          differ_at {meta_path (dk_library rec), join_path (dk_library rec) (eg_name (dk_egress rec)), dk_settings rec} (ds_fs t) (ds_fs (dn_during env t)))"
    and "clean fs" and "snapshot_of (dk_library rec) (dk_egress rec) fs" and "dk_previous rec = fs_files fs (dk_settings rec)"
    and "trim_space (dk_settings rec) \<noteq> []" and "dk_library rec \<noteq> []" and "dn_record_remove env = None"
    and "differ_at {meta_path (dk_library rec), join_path (dk_library rec) (eg_name (dk_egress rec)), dk_settings rec} fs (ds_fs s)"
  shows "ds_fs s' = fs \<and> ds_record s' = None"
proof -
  let ?d = "differ_at {meta_path (dk_library rec), join_path (dk_library rec) (eg_name (dk_egress rec)), dk_settings rec}"
  have undone: "\<exists>s'. finish_desktop_launch env rec t = (Inr (), s') \<and> ds_fs s' = fs \<and> ds_record s' = None" if "?d fs (ds_fs t)" for t
    using finish_clean [OF assms(4-9) that] .
  show ?thesis
  proof (cases "dn_app env")
    case Inl
    with assms(1) undone [OF assms(10)] show ?thesis by (auto simp: launch_recorded_def)
  next
    case (Inr pid)
    let ?t = "s\<lparr>ds_hook := update_session_owner (en_hook (dn_entry env)) (en_identify (dn_entry env)) sid pid True (ds_hook s)\<rparr>"
    have "?d (ds_fs s) (ds_fs (dn_during env ?t))" using assms(3) [of ?t] assms(2) by simp
    with assms(10) have "?d fs (ds_fs (dn_during env ?t))" by (simp add: differ_at_def)
    from undone [OF this] Inr assms(1) show ?thesis by (auto simp: launch_recorded_def Let_def)
  qed
qed

lemma launch_started_clean:
  assumes "launch_started env sid s = (code, s')" and "tame_launch env s" and "ds_record s = None"
  shows "ds_fs s' = ds_fs s \<and> ds_record s' = None"
proof -
  let ?fs = "ds_fs s" and ?opt = "\<lambda>st. \<lparr>do_proxy = proxy_auth_url (en_http_port (dn_entry env)) (st_handle st), do_ca = [], do_start = [], do_end = [], do_pre = []\<rparr>"
  have clean: "clean ?fs" using assms(2) by (simp add: tame_launch_def)
  show ?thesis
  proof (cases "\<exists>st address previous fs1. load_state sid (hs_durable (ds_hook s)) = Inr st \<and> dn_forwarder env = Inr address \<and> st_handle st \<noteq> []
      \<and> apply_desktop_engine_settings (dn_encode env) Darwin (dn_settings env) (?opt st) ?fs = (Inr previous, fs1)")
    case False
    with assms(1,3) failed_engine [OF _ clean] show ?thesis
      by (auto simp: launch_started_def on_files_def split: sum.splits prod.splits if_splits)
  next
    case True
    then obtain st address previous fs1 where t: "load_state sid (hs_durable (ds_hook s)) = Inr st" "dn_forwarder env = Inr address"
      "st_handle st \<noteq> []" and ap: "apply_desktop_engine_settings (dn_encode env) Darwin (dn_settings env) (?opt st) ?fs = (Inr previous, fs1)" by blast
    have en: "trim_space (dn_settings env) \<noteq> []" "previous = fs_files ?fs (dn_settings env)" "differ_at {dn_settings env} ?fs fs1"
      using applied_engine [OF ap clean] by blast+
    have c1: "clean fs1" using differ_clean [OF en(3)] clean by simp
    from assms(1) t ap have pin: "launch_pinned env sid address previous (s\<lparr>ds_fs := fs1\<rparr>) = (code, s')"
      by (simp add: launch_started_def on_files_def)
    note undo = restore_engine_clean [OF clean en(3) en(1)]
    show ?thesis
    proof (cases "dn_library env")
      case Inl
      with pin undo en(2) assms(3) show ?thesis by (auto simp: launch_pinned_def on_files_def)
    next
      case (Inr lib)
      with assms(2) have lib: "lib \<noteq> []" "\<And>n. dn_settings env \<noteq> join_path lib n"
        "\<And>raw. dn_random env = Inr raw \<Longrightarrow> fs_files ?fs (join_path lib (new_uuid_v4 raw @ ''.json'')) = None"
        by (auto simp: tame_launch_def)
      have same: "fs_files fs1 (join_path lib n) = fs_files ?fs (join_path lib n)" for n
        using en(3) lib(2) [of n] by (auto simp: differ_at_def)
      obtain r fs2 where eg: "apply_egress_proxy_pin (dn_encode env) (dn_random env) lib (''http://'' @ address) fs1 = (r, fs2)" by fastforce
      show ?thesis
      proof (cases r)
        case (Inl e)
        from failed_egress [OF eg [unfolded Inl] c1] pin undo en(2) assms(3) eg Inl \<open>dn_library env = Inr lib\<close> show ?thesis
          by (auto simp: launch_pinned_def on_files_def)
      next
        case (Inr egress)
        have snap: "snapshot_of lib egress fs1" "differ_at {meta_path lib, join_path lib (eg_name egress)} fs1 fs2"
          using applied_snapshot [OF eg [unfolded Inr] c1] lib(3) same by auto
        have snap0: "snapshot_of lib egress ?fs" using snap(1) same by (simp add: snapshot_of_def meta_path_def)
        show ?thesis
        proof (cases "dn_record_write env")
          case (Some e)
          from restore_egress_clean [OF c1 snap(1), of "{}" fs2] snap(2) obtain fs3 where
            undid: "restore_egress_proxy_pin lib egress fs2 = (Inr (), fs3)" "differ_at {} fs1 fs3" by auto
          have "fs3 = fs1" using differ_none undid(2) by blast
          with pin undo en(2) assms(3) eg Inr Some undid(1) \<open>dn_library env = Inr lib\<close> show ?thesis
            by (auto simp: launch_pinned_def on_files_def)
        next
          case None
          let ?rec = "\<lparr>dk_pid = dn_self env, dk_session = sid, dk_settings = dn_settings env, dk_previous = previous,
                      dk_library = lib, dk_egress = egress\<rparr>"
          have run: "launch_recorded env sid ?rec (s\<lparr>ds_fs := fs2, ds_record := Some ?rec\<rparr>) = (code, s')"
            using pin eg Inr None \<open>dn_library env = Inr lib\<close> by (simp add: launch_pinned_def on_files_def Let_def)
          have "differ_at {meta_path lib, join_path lib (eg_name egress), dn_settings env} ?fs fs2"
            using en(3) snap(2) by (auto simp: differ_at_def)
          then have d: "differ_at {meta_path (dk_library ?rec), join_path (dk_library ?rec) (eg_name (dk_egress ?rec)), dk_settings ?rec}
              ?fs (ds_fs (s\<lparr>ds_fs := fs2, ds_record := Some ?rec\<rparr>))" by simp
          have during: "ds_record (dn_during env t) = ds_record t \<and> (\<forall>rec. ds_record t = Some rec \<longrightarrow>
              differ_at {meta_path (dk_library rec), join_path (dk_library rec) (eg_name (dk_egress rec)), dk_settings rec} (ds_fs t) (ds_fs (dn_during env t)))" for t
            using assms(2) unfolding tame_launch_def by blast
          show ?thesis
            by (rule launch_recorded_clean [OF run _ during clean _ _ _ _ _ d]) (use assms(2) snap0 en lib(1) in \<open>simp_all add: tame_launch_def\<close>)
        qed
      qed
    qed
  qed
qed

section \<open>Properties\<close>


definition idle_desktop :: "unit desktop_env" where
  "idle_desktop = \<lparr>dn_entry = owned_entry\<lparr>en_os := Darwin\<rparr>, dn_args = [], dn_running = False, dn_settings = ''/k/settings.json'',
     dn_encode = (\<lambda>_. ''{}''), dn_proxy = 0, dn_forwarder = Inr ''127.0.0.1:9'', dn_library = Inl [], dn_random = Inl [],
     dn_self = 7, dn_alive = (\<lambda>_. False), dn_app = Inl [], dn_during = (\<lambda>t. t), dn_code = 0, dn_record_read = None,
     dn_record_write = None, dn_record_remove = None\<rparr>"

definition empty_disk :: file_system where
  "empty_disk = \<lparr>fs_files = (\<lambda>_. None), fs_read = (\<lambda>_. None), fs_write = (\<lambda>_. None), fs_remove = (\<lambda>_. None)\<rparr>"


text \<open>
  C97. A launcher that died is cleaned up after: while its pins are in place, whatever the app wrote into the
  pinned files, the next sweep puts every file back and removes the record.
\<close>

theorem stale_pin_restored:
  assumes "ds_record s = Some rec" and "\<not> dn_alive env (dk_pid rec)" and "dn_record_read env = None" and "dn_record_remove env = None"
    and "clean fs" and "snapshot_of (dk_library rec) (dk_egress rec) fs" and "dk_previous rec = fs_files fs (dk_settings rec)"
    and "trim_space (dk_settings rec) \<noteq> []" and "dk_library rec \<noteq> []"
    and "differ_at {meta_path (dk_library rec), join_path (dk_library rec) (eg_name (dk_egress rec)), dk_settings rec} fs (ds_fs s)"
  shows "\<exists>s'. sweep_desktop_launch env s = (Inr (), s') \<and> ds_fs s' = fs \<and> ds_record s' = None"
  using finish_clean [OF assms(5-9,4,10)] assms(1-3) by (auto simp: sweep_desktop_launch_def end_desktop_def)

lemma stale_pin_restored_witness:
  "\<exists>s'. sweep_desktop_launch idle_desktop \<lparr>ds_fs = put_path ''/k/s'' (Some ''x'') empty_disk, ds_record = Some
      \<lparr>dk_pid = 7, dk_session = [], dk_settings = ''/k/s'', dk_previous = None, dk_library = ''/l'', dk_egress = no_egress\<lparr>eg_name := ''a-b''\<rparr>\<rparr>,
      ds_hook = fresh_state\<rparr> = (Inr (), s') \<and> ds_fs s' = empty_disk \<and> ds_record s' = None"
proof -
  let ?rec = "\<lparr>dk_pid = 7, dk_session = [], dk_settings = ''/k/s'', dk_previous = None, dk_library = ''/l'', dk_egress = no_egress\<lparr>eg_name := ''a-b''\<rparr>\<rparr>"
  let ?s = "\<lparr>ds_fs = put_path ''/k/s'' (Some ''x'') empty_disk, ds_record = Some ?rec, ds_hook = fresh_state\<rparr>"
  have "clean empty_disk" "snapshot_of ''/l'' (no_egress\<lparr>eg_name := ''a-b''\<rparr>) empty_disk"
    by (simp_all add: clean_def empty_disk_def snapshot_of_def no_egress_def config_not_meta)
  moreover have "trim_space ''/k/s'' \<noteq> []" by code_simp
  moreover have "differ_at {meta_path ''/l'', join_path ''/l'' ''a-b'', ''/k/s''} empty_disk (put_path ''/k/s'' (Some ''x'') empty_disk)"
    by (auto simp: differ_at_def put_path_def)
  ultimately show ?thesis using stale_pin_restored [of ?s ?rec idle_desktop empty_disk]
    by (simp add: idle_desktop_def empty_disk_def)
qed

text \<open>
  C98. Pinning is undone exactly: after the pin of the app's egress, whose URL carries no credential, the
  restoration from the snapshot gives back the file system as it was, both when the library had an applied
  document and when it was created.
\<close>

theorem egress_pin_undone:
  assumes "apply_egress_proxy_pin enc random dir url fs = (Inr snap, fs')" and "clean fs"
    and "\<And>raw. random = Inr raw \<Longrightarrow> fs_files fs (join_path dir (new_uuid_v4 raw @ ''.json'')) = None"
  shows "restore_egress_proxy_pin dir snap fs' = (Inr (), fs) \<and> CHR 0x40 \<notin> set url"
proof -
  from applied_snapshot [OF assms] restore_egress_clean [OF assms(2), of dir snap "{}" fs'] differ_none
  have "restore_egress_proxy_pin dir snap fs' = (Inr (), fs)" by blast
  moreover have "CHR 0x40 \<notin> set url" using assms(1) by (auto simp: apply_egress_proxy_pin_def split: if_splits)
  ultimately show ?thesis ..
qed

lemma egress_pin_undone_witness:
  "\<exists>snap fs'. apply_egress_proxy_pin (\<lambda>_. ''{}'') (Inr (replicate 16 (CHR ''a''))) ''/l'' ''http://127.0.0.1:9'' empty_disk = (Inr snap, fs')
     \<and> restore_egress_proxy_pin ''/l'' snap fs' = (Inr (), empty_disk)"
proof -
  have c: "clean empty_disk" by (simp add: clean_def empty_disk_def)
  have "\<exists>snap fs'. apply_egress_proxy_pin (\<lambda>_. ''{}'') (Inr (replicate 16 (CHR ''a''))) ''/l'' ''http://127.0.0.1:9'' empty_disk = (Inr snap, fs')"
    by (simp add: apply_egress_proxy_pin_def clean_ops [OF c] applied_id_def pin_created_def Let_def clean_ops [of "put_path _ _ empty_disk"] c)
      (simp add: empty_disk_def)
  moreover have "\<And>raw. fs_files empty_disk (join_path ''/l'' (new_uuid_v4 raw @ ''.json'')) = None" by (simp add: empty_disk_def)
  ultimately show ?thesis using egress_pin_undone [OF _ c] by blast
qed

end
