(* ===== verification/Go_Path.thy ===== *)
theory Go_Path
  imports Go_Text "HOL-Library.Sublist"
begin

text \<open>
  What the source uses of \<^verbatim>\<open>path/filepath\<close>, with forward slashes: \<open>Clean\<close>, \<open>Join\<close>, \<open>Dir\<close>, \<open>IsAbs\<close> and
  \<open>Rel\<close>; and \<open>withinPath\<close> of \<^verbatim>\<open>internal/cli/path_safety.go\<close> with \<open>pathWithinRoot\<close> of
  \<^verbatim>\<open>internal/node/sandbox/mcpinventory.go\<close>, which rest on it. Lemmas: a path within an absolute root is
  one whose parts extend the root's.
\<close>

section \<open>Clean\<close>

definition slash :: char where "slash = CHR ''/''"

definition is_abs :: "string \<Rightarrow> bool" where
  "is_abs p \<longleftrightarrow> has_prefix p [slash]"

text \<open>One element, on the reversed elements so far.\<close>

definition clean_step :: "bool \<Rightarrow> string \<Rightarrow> string list \<Rightarrow> string list" where
  "clean_step rooted c st =
     (if c = [] \<or> c = ''.'' then st
      else if c = ''..'' then
        (case st of [] \<Rightarrow> if rooted then [] else [''..''] | t # rest \<Rightarrow> if t = ''..'' then ''..'' # st else rest)
      else c # st)"

definition path_parts :: "string \<Rightarrow> string list" where
  "path_parts p = rev (fold (clean_step (is_abs p)) (split_on slash p) [])"

definition path_clean :: "string \<Rightarrow> string" where
  "path_clean p =
     (if is_abs p then slash # join_with [slash] (path_parts p)
      else if path_parts p = [] then ''.'' else join_with [slash] (path_parts p))"

definition path_join :: "string list \<Rightarrow> string" where
  "path_join elems = (let xs = filter (\<lambda>x. x \<noteq> []) elems in if xs = [] then [] else path_clean (join_with [slash] xs))"

definition path_dir :: "string \<Rightarrow> string" where
  "path_dir p = path_clean (rev (dropWhile (\<lambda>c. c \<noteq> slash) (rev p)))"

text \<open>\<open>filepath.Abs\<close>, from the working directory.\<close>

definition path_abs :: "string \<Rightarrow> string \<Rightarrow> string" where
  "path_abs wd p = (if is_abs p then path_clean p else path_join [wd, p])"

section \<open>Rel\<close>

fun drop_common :: "string list \<Rightarrow> string list \<Rightarrow> string list \<times> string list" where
  "drop_common (b # bs) (t # ts) = (if b = t then drop_common bs ts else (b # bs, t # ts))"
| "drop_common bs ts = (bs, ts)"

definition path_rel :: "string \<Rightarrow> string \<Rightarrow> string result" where
  "path_rel base targ =
     (if path_clean base = path_clean targ then Inr ''.''
      else if is_abs base \<noteq> is_abs targ then Inl ''Rel: can't make relative''
      else case drop_common (path_parts base) (path_parts targ) of
        (bs, ts) \<Rightarrow> if bs \<noteq> [] \<and> hd bs = ''..'' then Inl ''Rel: can't make relative''
          else Inr (join_with [slash] (replicate (length bs) ''..'' @ ts)))"

definition within_path :: "string \<Rightarrow> string \<Rightarrow> bool" where
  "within_path root p =
     (case path_rel root p of
        Inl _ \<Rightarrow> False
      | Inr rel \<Rightarrow> rel \<noteq> ''..'' \<and> \<not> has_prefix rel ''../'' \<and> \<not> is_abs rel)"

section \<open>Parts\<close>

definition plain_part :: "string \<Rightarrow> bool" where
  "plain_part c \<longleftrightarrow> c \<noteq> [] \<and> c \<noteq> ''.'' \<and> c \<noteq> ''..'' \<and> slash \<notin> set c"

lemma split_no_delim: "c \<in> set (split_on d s) \<Longrightarrow> d \<notin> set c"
  by (induction s arbitrary: c) (auto split: list.splits if_splits)

lemma clean_step_plain:
  "list_all plain_part st \<Longrightarrow> slash \<notin> set c \<Longrightarrow> list_all plain_part (clean_step True c st)"
  by (auto simp: clean_step_def plain_part_def split: list.splits)

lemma fold_clean_plain:
  "list_all plain_part st \<Longrightarrow> list_all (\<lambda>c. slash \<notin> set c) cs \<Longrightarrow> list_all plain_part (fold (clean_step True) cs st)"
  by (induction cs arbitrary: st) (auto intro: clean_step_plain)

lemma abs_parts_plain: "is_abs p \<Longrightarrow> list_all plain_part (path_parts p)"
  using fold_clean_plain [of "[]" "split_on slash p"] split_no_delim [of _ slash p]
  by (simp add: path_parts_def list_all_iff)

lemma join_simps [simp]:
  "join_with d [] = []" "join_with d [c] = c" "join_with d (c # b # cs) = c @ d @ join_with d (b # cs)"
  by (simp_all add: join_with_def)

lemma join_cons: "cs \<noteq> [] \<Longrightarrow> join_with [slash] (c # cs) = c @ slash # join_with [slash] cs"
  by (cases cs) simp_all

lemma split_joined_parts:
  "list_all (\<lambda>c. slash \<notin> set c) cs \<Longrightarrow> cs \<noteq> [] \<Longrightarrow> split_on slash (join_with [slash] cs) = cs"
proof (induction cs)
  case (Cons c cs)
  then show ?case by (cases "cs = []") (simp_all add: split_on_last join_cons split_on_line)
qed simp

lemma fold_plain: "list_all plain_part cs \<Longrightarrow> fold (clean_step r) cs st = rev cs @ st"
  by (induction cs arbitrary: st) (auto simp: clean_step_def plain_part_def)

lemma join_plain_not_abs: "list_all plain_part cs \<Longrightarrow> \<not> is_abs (join_with [slash] cs)"
proof (cases cs)
  case (Cons c r)
  assume "list_all plain_part cs"
  with Cons have "c \<noteq> []" "slash \<notin> set c" by (auto simp: plain_part_def)
  with Cons show ?thesis by (cases r; cases c) (auto simp: is_abs_def)
qed (simp add: is_abs_def)

text \<open>A cleaned absolute path has the same parts, so cleaning is idempotent and injective on parts.\<close>

lemma clean_abs: "is_abs p \<Longrightarrow> is_abs (path_clean p)"
  by (simp add: path_clean_def is_abs_def)

lemma parts_clean:
  assumes "is_abs p"
  shows "path_parts (path_clean p) = path_parts p"
proof -
  note pl = abs_parts_plain [OF assms]
  have "split_on slash (slash # join_with [slash] (path_parts p)) = [] # split_on slash (join_with [slash] (path_parts p))"
    by (cases "split_on slash (join_with [slash] (path_parts p))") simp_all
  moreover have "fold (clean_step True) (split_on slash (join_with [slash] (path_parts p))) [] = rev (path_parts p)"
  proof (cases "path_parts p = []")
    case True
    then show ?thesis by (simp add: clean_step_def)
  next
    case False
    have "list_all (\<lambda>c. slash \<notin> set c) (path_parts p)" using pl by (auto simp: list_all_iff plain_part_def)
    from split_joined_parts [OF this False] fold_plain [OF pl] show ?thesis by simp
  qed
  moreover have "clean_step True [] [] = []" by (simp add: clean_step_def)
  moreover have "is_abs (slash # s)" for s by (simp add: is_abs_def)
  moreover have "path_clean p = slash # join_with [slash] (path_parts p)" using assms by (simp add: path_clean_def)
  ultimately show ?thesis by (simp add: path_parts_def [of "slash # join_with [slash] (path_parts p)"])
qed

lemma clean_idem: "is_abs p \<Longrightarrow> path_clean (path_clean p) = path_clean p"
  by (simp add: path_clean_def [of "path_clean p"] parts_clean clean_abs) (simp add: path_clean_def)

lemma clean_eq_parts: "is_abs a \<Longrightarrow> is_abs b \<Longrightarrow> path_clean a = path_clean b \<longleftrightarrow> path_parts a = path_parts b"
  by (metis parts_clean path_clean_def)

section \<open>Within\<close>

lemma drop_common_prefix: "drop_common bs ts = ([], r) \<longleftrightarrow> ts = bs @ r"
  by (induction bs ts rule: drop_common.induct) auto

lemma drop_common_suffix: "drop_common bs ts = (b, t) \<Longrightarrow> set b \<subseteq> set bs \<and> set t \<subseteq> set ts"
  by (induction bs ts rule: drop_common.induct) (auto split: if_splits)

lemma up_prefix: "join_with [slash] (replicate (Suc n) ''..'' @ ts) = ''..'' \<or> has_prefix (join_with [slash] (replicate (Suc n) ''..'' @ ts)) ''../''"
  by (cases "replicate n ''..'' @ ts") (simp_all add: slash_def)

lemma plain_not_up:
  assumes "list_all plain_part ts" and "ts \<noteq> []"
  shows "join_with [slash] ts \<noteq> ''..'' \<and> \<not> has_prefix (join_with [slash] ts) ''../''"
proof -
  have sp: "split_on slash (join_with [slash] ts) = ts"
    using assms by (intro split_joined_parts) (auto simp: list_all_iff plain_part_def)
  have "hd ts \<noteq> ''..''" using assms by (cases ts) (auto simp: plain_part_def)
  moreover have "split_on slash ''..'' = [''..'']" by (simp add: slash_def)
  moreover have "hd (split_on slash (''../'' @ s)) = ''..''" for s by (simp add: slash_def split: list.split)
  moreover have "has_prefix x ''../'' \<Longrightarrow> \<exists>s. x = ''../'' @ s" for x
    by (auto simp: has_prefix_iff)
  ultimately show ?thesis using sp by (metis list.sel(1))
qed

lemma within_abs:
  assumes "is_abs root" and "is_abs p"
  shows "within_path root p \<longleftrightarrow> prefix (path_parts root) (path_parts p)"
proof -
  obtain bs ts where d: "drop_common (path_parts root) (path_parts p) = (bs, ts)" by (metis surj_pair)
  have pl: "list_all plain_part bs" "list_all plain_part ts"
    using drop_common_suffix [OF d] abs_parts_plain [OF assms(1)] abs_parts_plain [OF assms(2)] by (auto simp: list_all_iff)
  show ?thesis
  proof (cases "path_parts root = path_parts p")
    case True
    then have "path_rel root p = Inr ''.''" using clean_eq_parts [OF assms] by (simp add: path_rel_def)
    moreover have "\<not> has_prefix ''.'' ''../''" "\<not> is_abs ''.''" by code_simp+
    ultimately show ?thesis using True by (simp add: within_path_def)
  next
    case False
    have "\<not> (bs \<noteq> [] \<and> hd bs = ''..'')" using pl(1) by (cases bs) (auto simp: plain_part_def)
    then have rel: "path_rel root p = Inr (join_with [slash] (replicate (length bs) ''..'' @ ts))"
      using False clean_eq_parts [OF assms] assms d by (simp add: path_rel_def)
    show ?thesis
    proof (cases bs)
      case Nil
      with d have e: "path_parts p = path_parts root @ ts" by (simp add: drop_common_prefix)
      with False have "ts \<noteq> []" by auto
      with plain_not_up [OF pl(2)] join_plain_not_abs [OF pl(2)] rel Nil e show ?thesis by (simp add: within_path_def)
    next
      case (Cons b r)
      then have "\<not> within_path root p" using rel up_prefix [of "length r" ts] by (auto simp: within_path_def)
      moreover have "\<not> prefix (path_parts root) (path_parts p)"
        using d Cons by (auto simp: prefix_def) (metis drop_common_prefix list.distinct(1) prod.inject)
      ultimately show ?thesis by simp
    qed
  qed
qed

lemma rel_not_abs:
  assumes "is_abs root" and "is_abs p" and "path_rel root p = Inr rel"
  shows "\<not> is_abs rel"
proof -
  obtain bs ts where d: "drop_common (path_parts root) (path_parts p) = (bs, ts)" by (metis surj_pair)
  have pl: "list_all plain_part ts" using drop_common_suffix [OF d] abs_parts_plain [OF assms(2)] by (auto simp: list_all_iff)
  have dot: "\<not> is_abs ''.''" by code_simp
  from assms(3) d have "rel = ''.'' \<or> rel = join_with [slash] (replicate (length bs) ''..'' @ ts)"
    by (auto simp: path_rel_def split: if_splits)
  moreover have "\<not> is_abs (join_with [slash] (replicate (length bs) ''..'' @ ts))"
  proof (cases bs)
    case (Cons b r)
    then show ?thesis using up_prefix [of "length r" ts] by (auto simp: is_abs_def slash_def has_prefix_iff)
  qed (simp add: join_plain_not_abs [OF pl])
  ultimately show ?thesis using dot by auto
qed

section \<open>Absolute paths\<close>

lemma join_starts: "is_abs a \<Longrightarrow> is_abs (join_with d (a # xs))"
  by (cases a; cases xs) (simp_all add: is_abs_def)

lemma join_abs: "is_abs a \<Longrightarrow> is_abs (path_join (a # xs))"
proof -
  assume a: "is_abs a"
  then have "a \<noteq> []" by (auto simp: is_abs_def)
  with a show ?thesis by (simp add: path_join_def clean_abs join_starts)
qed

lemma drop_to_root: "\<exists>ys. dropWhile (\<lambda>c. c \<noteq> slash) (xs @ [slash]) = ys @ [slash]"
  by (induction xs) auto

lemma dir_abs: "is_abs p \<Longrightarrow> is_abs (path_dir p)"
proof -
  assume "is_abs p"
  then obtain r where "p = slash # r" by (cases p) (auto simp: is_abs_def)
  with drop_to_root [of "rev r"] have "is_abs (rev (dropWhile (\<lambda>c. c \<noteq> slash) (rev p)))" by (auto simp: is_abs_def)
  then show ?thesis by (simp add: path_dir_def clean_abs)
qed

end
