(* ===== verification/Config.thy ===== *)
theory Config
  imports Go_Path Proxy_Scope
begin

text \<open>
  \<^verbatim>\<open>internal/config\<close>: the layered configuration. \<^verbatim>\<open>toml.go\<close> and \<open>loadDotEnv\<close> seed the environment from
  files, \<^verbatim>\<open>config.go\<close> reads the settings from it, \<^verbatim>\<open>paths.go\<close> anchors and checks the paths and
  \<^verbatim>\<open>managed_scope.go\<close> keeps the derived scope. The process environment is an association list, a file its
  text. Lemmas: the first non-empty source of a variable wins, project files count only when the process asked
  for them, and validated settings hold absolute paths.
\<close>

section \<open>The environment\<close>

type_synonym environ = "(string \<times> string) list"

definition getenv :: "environ \<Rightarrow> string \<Rightarrow> string" where
  "getenv e k = (case map_of e k of None \<Rightarrow> [] | Some v \<Rightarrow> v)"

text \<open>\<open>os.Setenv\<close> refuses NUL bytes, an empty name and one with an equals sign; the callers ignore that.\<close>

definition setenv :: "string \<Rightarrow> string \<Rightarrow> environ \<Rightarrow> environ" where
  "setenv k v e =
     (if k = [] \<or> CHR ''='' \<in> set k \<or> CHR 0x00 \<in> set k \<or> CHR 0x00 \<in> set v then e else (k, v) # e)"

definition env_or :: "environ \<Rightarrow> string \<Rightarrow> string \<Rightarrow> string" where
  "env_or e k dflt = (if getenv e k \<noteq> [] then getenv e k else dflt)"

definition env_int :: "environ \<Rightarrow> string \<Rightarrow> int \<Rightarrow> int" where
  "env_int e k dflt = (if getenv e k = [] then dflt else case atoi (getenv e k) of None \<Rightarrow> dflt | Some n \<Rightarrow> n)"

definition env_list :: "environ \<Rightarrow> string \<Rightarrow> string list" where
  "env_list e k =
     (if getenv e k = [] then [] else filter (\<lambda>p. p \<noteq> []) (map trim_space (split_on (CHR '','') (getenv e k))))"

definition env_disabled :: "environ \<Rightarrow> string \<Rightarrow> bool" where
  "env_disabled e k \<longleftrightarrow> to_lower (trim_space (getenv e k)) \<in> {''off'', ''0'', ''false'', ''no''}"

section \<open>Files\<close>

text \<open>\<open>bufio.Scanner\<close>: lines without their end, up to the first that does not fit its buffer.\<close>

definition config_lines :: "string \<Rightarrow> string list" where
  "config_lines t =
     (let ls = split_on (CHR 0x0A) t; body = (if last ls = [] then butlast ls else ls)
      in map (\<lambda>l. if l \<noteq> [] \<and> last l = CHR 0x0D then butlast l else l) (takeWhile (\<lambda>l. int (length l) < 65536) body))"

definition path_keys :: "string list" where
  "path_keys = [''KEYDRIS_DATA_DIR'', ''KEYDRIS_IDENTITY_DIR'', ''KEYDRIS_CA_PATH'', ''KEYDRIS_CA_KEY_PATH'',
     ''KEYDRIS_CA_BUNDLE_PATH'', ''KEYDRIS_SESSION_SOCKET'', ''KEYDRIS_SESSION_AUTH_FILE'',
     ''KEYDRIS_CLAUDE_SETTINGS'', ''KEYDRIS_CLAUDE_MCP_CONFIG'', ''KEYDRIS_CODEX_HOOKS'',
     ''KEYDRIS_SIGNING_KEY'', ''KEYDRIS_LEDGER_PATH'', ''KEYDRIS_CLIENT_CA_PATH'',
     ''KEYDRIS_CLIENT_CA_KEY_PATH'', ''KEYDRIS_MTLS_SERVER_CA'', ''KEYDRIS_GRANTS_SEED'']"

definition from_home :: "string \<Rightarrow> bool" where
  "from_home v \<longleftrightarrow> v = ''~'' \<or> has_prefix v ''~/'' \<or> has_prefix v [CHR ''~'', CHR 0x5C]"

definition trim_slashes :: "string \<Rightarrow> string" where
  "trim_slashes s = dropWhile (\<lambda>c. c \<in> {CHR ''/'', CHR 0x5C}) s"

text \<open>
  \<open>os.UserHomeDir\<close> is the variable HOME, an error when it is empty. \<open>filePathValue\<close> anchors a path at the
  directory of its file, which is found from the working directory.
\<close>

definition user_home :: "environ \<Rightarrow> string option" where
  "user_home e = (if getenv e ''HOME'' = [] then None else Some (getenv e ''HOME''))"

definition expand_home :: "string option \<Rightarrow> string \<Rightarrow> string" where
  "expand_home home v =
     (case home of None \<Rightarrow> v | Some h \<Rightarrow> if from_home v then path_join [h, trim_slashes (tl v)] else v)"

definition file_path_value :: "string option \<Rightarrow> string \<Rightarrow> string \<Rightarrow> string \<Rightarrow> string \<Rightarrow> string" where
  "file_path_value home wd src key v =
     (if key \<notin> set path_keys \<or> v = [] then v
      else if is_abs (expand_home home v) then path_clean (expand_home home v)
      else path_clean (path_join [path_dir (path_abs wd src), expand_home home v]))"

definition file_value :: "string \<Rightarrow> string" where
  "file_value v = trim_set [CHR 0x22, CHR 0x27] (trim_space v)"

definition toml_pair :: "string \<Rightarrow> (string \<times> string) option" where
  "toml_pair line0 =
     (let line = trim_space line0 in
      if line = [] \<or> has_prefix line ''#'' \<or> has_prefix line ''['' then None
      else case cut_at (CHR ''='') line of (k, v, found) \<Rightarrow>
        if \<not> found \<or> trim_space k = [] then None else Some (''KEYDRIS_'' @ to_upper (trim_space k), file_value v))"

definition dotenv_pair :: "string \<Rightarrow> (string \<times> string) option" where
  "dotenv_pair line0 =
     (let line = trim_space line0 in
      if line = [] \<or> has_prefix line ''#'' then None
      else case cut_at (CHR ''='') line of (k, v, found) \<Rightarrow>
        if \<not> found \<or> trim_space k = [] then None else Some (trim_space k, file_value v))"

text \<open>The body of either loop: an assignment of the file counts when the variable is empty.\<close>

definition set_pair :: "string \<Rightarrow> string \<Rightarrow> string \<times> string \<Rightarrow> environ \<Rightarrow> environ" where
  "set_pair wd src kv e =
     (if getenv e (fst kv) = [] then setenv (fst kv) (file_path_value (user_home e) wd src (fst kv) (snd kv)) e else e)"

definition file_pairs :: "(string \<Rightarrow> (string \<times> string) option) \<Rightarrow> string option \<Rightarrow> (string \<times> string) list" where
  "file_pairs pair file = (case file of None \<Rightarrow> [] | Some t \<Rightarrow> List.map_filter pair (config_lines t))"

definition load_toml :: "string \<Rightarrow> (string \<Rightarrow> string option) \<Rightarrow> string \<Rightarrow> environ \<Rightarrow> environ" where
  "load_toml wd files src e = fold (set_pair wd src) (file_pairs toml_pair (files src)) e"

definition load_dot_env :: "string \<Rightarrow> (string \<Rightarrow> string option) \<Rightarrow> string \<Rightarrow> environ \<Rightarrow> environ" where
  "load_dot_env wd files src e = fold (set_pair wd src) (file_pairs dotenv_pair (files src)) e"

definition user_file :: "string \<Rightarrow> string" where
  "user_file h = path_join [h, ''.keydris.toml'']"

definition trusts_project :: "environ \<Rightarrow> bool" where
  "trusts_project e \<longleftrightarrow> getenv e ''KEYDRIS_TRUST_PROJECT_CONFIG'' = ''1''"

definition load_layered_files :: "string \<Rightarrow> (string \<Rightarrow> string option) \<Rightarrow> environ \<Rightarrow> environ" where
  "load_layered_files wd files e =
     (let e1 = (case user_home e of None \<Rightarrow> e | Some h \<Rightarrow> load_toml wd files (user_file h) e)
      in if trusts_project e then load_toml wd files ''.keydris.toml'' (load_dot_env wd files ''.env'' e1) else e1)"

section \<open>The managed scope\<close>

record managed_scope_state =
  ms_mode :: string
  ms_source :: string
  ms_destinations :: "string list"

definition managed_scope_source_policy :: string where "managed_scope_source_policy = ''policy''"

text \<open>
  \<open>ReadManagedScope\<close>: the file is absent, unreadable or undecodable, or holds a document, whose absent fields
  leave the initial state as it is.
\<close>

datatype scope_file = No_Scope | Bad_Scope string | Scope_Doc "string option" "string option" "string list option"

definition field_or :: "'a \<Rightarrow> 'a option \<Rightarrow> 'a" where
  "field_or d x = (case x of None \<Rightarrow> d | Some v \<Rightarrow> v)"

definition read_managed_scope :: "scope_file \<Rightarrow> managed_scope_state result" where
  "read_managed_scope file =
     (case file of
        No_Scope \<Rightarrow> Inr \<lparr>ms_mode = mode_all, ms_source = [], ms_destinations = []\<rparr>
      | Bad_Scope e \<Rightarrow> Inl e
      | Scope_Doc m src ds \<Rightarrow> bind_result (new_scope (field_or mode_all m) (field_or [] ds)) (\<lambda>sc.
          Inr \<lparr>ms_mode = sc_mode sc, ms_source = field_or [] src, ms_destinations = sc_destinations sc\<rparr>))"

definition load_managed_scope :: "scope_file \<Rightarrow> managed_scope_state \<times> string option" where
  "load_managed_scope file =
     (case read_managed_scope file of
        Inl e \<Rightarrow> (\<lparr>ms_mode = mode_selected, ms_source = [], ms_destinations = []\<rparr>, Some e)
      | Inr st \<Rightarrow> (st, None))"

text \<open>\<open>saveManagedScope\<close> stages and renames: a fault comes before the rename, or at the mode change after it.\<close>

datatype scope_fault = Before_Rename string | After_Rename string

definition save_managed_scope :: "scope_fault option \<Rightarrow> string \<Rightarrow> string \<Rightarrow> string list \<Rightarrow> scope_file \<Rightarrow> unit result \<times> scope_file" where
  "save_managed_scope fault mode src destinations file =
     (case new_scope mode destinations of
        Inl e \<Rightarrow> (Inl e, file)
      | Inr sc \<Rightarrow>
          let new = Scope_Doc (Some (sc_mode sc)) (if src = [] then None else Some src) (Some (sc_destinations sc)) in
          (case fault of
             Some (Before_Rename e) \<Rightarrow> (Inl e, file)
           | Some (After_Rename e) \<Rightarrow> (Inl e, new)
           | None \<Rightarrow> (Inr (), new)))"

definition save_derived_managed_scope :: "scope_fault option \<Rightarrow> string list \<Rightarrow> scope_file \<Rightarrow> unit result \<times> scope_file" where
  "save_derived_managed_scope fault destinations file =
     save_managed_scope fault mode_selected managed_scope_source_policy destinations file"

definition remove_managed_scope :: "string option \<Rightarrow> scope_file \<Rightarrow> unit result \<times> scope_file" where
  "remove_managed_scope fault file =
     (if file = No_Scope then (Inr (), file)
      else case fault of Some e \<Rightarrow> (Inl e, file) | None \<Rightarrow> (Inr (), No_Scope))"

section \<open>The settings\<close>

record config =
  cf_control_addr :: string
  cf_control_url :: string
  cf_control_mtls_addr :: string
  cf_control_mtls_url :: string
  cf_mtls_server_ca :: string
  cf_proxy_port :: int
  cf_data_plane :: string
  cf_backend_addr :: string
  cf_backend_port :: int
  cf_backend_tls :: bool
  cf_proxy_uid :: int
  cf_cred_header :: string
  cf_access_ttl_seconds :: int
  cf_backend_audience :: string
  cf_trust_domain :: string
  cf_data_dir :: string
  cf_signing_key_path :: string
  cf_ledger_path :: string
  cf_grants_seed_path :: string
  cf_svid_ttl_seconds :: int
  cf_blueprint :: string
  cf_session_socket :: string
  cf_session_auth_file :: string
  cf_policy_id :: string
  cf_agent_id :: string
  cf_ca_path :: string
  cf_ca_key_path :: string
  cf_ca_bundle_path :: string
  cf_claude_settings_path :: string
  cf_claude_mcp_config_path :: string
  cf_codex_hooks_path :: string
  cf_codex_config_path :: string
  cf_http_proxy_port :: int
  cf_allowed_domains :: "string list"
  cf_managed_mode :: string
  cf_managed_destinations :: "string list"
  cf_managed_scope_error :: "string option"
  cf_allow_sole_fallback :: bool
  cf_peer_verify :: string
  cf_cost_metering :: bool
  cf_metered_origin_overrides :: "string list"
  cf_client_ca_path :: string
  cf_client_ca_key_path :: string
  cf_identity_dir :: string
  cf_identity_ttl_seconds :: int
  cf_oidc_issuer :: string
  cf_oauth_authorize_url :: string
  cf_oauth_token_url :: string
  cf_oauth_client_id :: string
  cf_oauth_client_secret :: string
  cf_oauth_scopes :: string
  cf_oauth_redirect_url :: string

definition default_data_dir :: "environ \<Rightarrow> string" where
  "default_data_dir e = (case user_home e of None \<Rightarrow> ''.keydris-data'' | Some h \<Rightarrow> path_join [h, ''.keydris-data''])"

definition cognito_endpoints :: "environ \<Rightarrow> string \<times> string" where
  "cognito_endpoints e =
     (let a = getenv e ''KEYDRIS_OAUTH_AUTHORIZE_URL''; t = getenv e ''KEYDRIS_OAUTH_TOKEN_URL''; d = getenv e ''KEYDRIS_COGNITO_DOMAIN'' in
      if d = [] then (a, t)
      else let b0 = (if \<not> has_prefix d ''http://'' \<and> \<not> has_prefix d ''https://'' then ''https://'' @ d else d);
               b = rev (dropWhile (\<lambda>c. c = CHR ''/'') (rev b0))
        in (if a = [] then b @ ''/oauth2/authorize'' else a, if t = [] then b @ ''/oauth2/token'' else t))"

definition default_claude_settings :: "environ \<Rightarrow> string" where
  "default_claude_settings e =
     (let d = trim_space (getenv e ''CLAUDE_CONFIG_DIR'') in
      if d \<noteq> [] then path_join [d, ''settings.json'']
      else case user_home e of None \<Rightarrow> ''.claude/settings.json'' | Some h \<Rightarrow> path_join [h, ''.claude'', ''settings.json''])"

definition default_claude_mcp_config :: "environ \<Rightarrow> string" where
  "default_claude_mcp_config e =
     (let d = trim_space (getenv e ''CLAUDE_CONFIG_DIR'') in
      if d \<noteq> [] then path_join [d, ''.claude.json'']
      else case user_home e of None \<Rightarrow> ''.claude.json'' | Some h \<Rightarrow> path_join [h, ''.claude.json''])"

definition codex_home_file :: "environ \<Rightarrow> string \<Rightarrow> string" where
  "codex_home_file e name =
     (let c = trim_space (getenv e ''CODEX_HOME'') in
      if c \<noteq> [] then path_join [expand_home (user_home e) c, name]
      else case user_home e of None \<Rightarrow> path_join [''.codex'', name] | Some h \<Rightarrow> path_join [h, ''.codex'', name])"

definition id_file :: "(string \<Rightarrow> string option) \<Rightarrow> string \<Rightarrow> string \<Rightarrow> string" where
  "id_file files data name = (case files (path_join [data, name]) of None \<Rightarrow> [] | Some t \<Rightarrow> trim_space t)"

text \<open>
  The files \<^verbatim>\<open>agent-id\<close> and \<^verbatim>\<open>policy-id\<close>. A fault of \<open>SaveAgentID\<close> may leave a partly written file: it is given
  with what it leaves.
\<close>

definition save_agent_id :: "(string \<times> string option) option \<Rightarrow> string \<Rightarrow> unit result \<times> string option" where
  "save_agent_id fault aid =
     (case fault of Some (e, left) \<Rightarrow> (Inl e, left) | None \<Rightarrow> (Inr (), Some (trim_space aid @ [CHR 0x0A])))"

definition remove_id_file :: "string option \<Rightarrow> string option \<Rightarrow> unit result \<times> string option" where
  "remove_id_file fault file =
     (case file of None \<Rightarrow> (Inr (), None)
      | Some t \<Rightarrow> (case fault of Some e \<Rightarrow> (Inl e, Some t) | None \<Rightarrow> (Inr (), None)))"

text \<open>
  \<open>Load\<close>: the working directory, the files, and the scope file of a data directory. \<open>LookupEnv\<close> asks whether a
  variable is present, even if empty.
\<close>

record config_host =
  ho_dir :: string
  ho_files :: "string \<Rightarrow> string option"
  ho_scope :: "string \<Rightarrow> scope_file"

definition effective_scope :: "environ \<Rightarrow> scope_file \<Rightarrow> managed_scope_state \<times> string option" where
  "effective_scope e file =
     (case load_managed_scope file of (st, err) \<Rightarrow>
        (st\<lparr>ms_mode := (case map_of e ''KEYDRIS_MANAGED_MODE'' of None \<Rightarrow> ms_mode st | Some v \<Rightarrow> trim_space v),
            ms_destinations := (if map_of e ''KEYDRIS_MANAGED_DESTINATIONS'' = None then ms_destinations st
              else env_list e ''KEYDRIS_MANAGED_DESTINATIONS'')\<rparr>, err))"

definition load_config :: "config_host \<Rightarrow> environ \<Rightarrow> config" where
  "load_config h e0 =
     (let files = ho_files h; e = load_layered_files (ho_dir h) files e0;
          data = env_or e ''KEYDRIS_DATA_DIR'' (default_data_dir e);
          scope = effective_scope e (ho_scope h data)
      in \<lparr>cf_control_addr = env_or e ''KEYDRIS_CONTROL_ADDR'' ''127.0.0.1:8081'',
        cf_control_url = env_or e ''KEYDRIS_CONTROL_URL'' ''http://127.0.0.1:8081'',
        cf_control_mtls_addr = env_or e ''KEYDRIS_CONTROL_MTLS_ADDR'' ''127.0.0.1:8443'',
        cf_control_mtls_url = env_or e ''KEYDRIS_CONTROL_MTLS_URL'' ''https://127.0.0.1:8443'',
        cf_mtls_server_ca = env_or e ''KEYDRIS_MTLS_SERVER_CA'' [],
        cf_proxy_port = env_int e ''KEYDRIS_PROXY_PORT'' 15001,
        cf_data_plane = env_or e ''KEYDRIS_DATAPLANE'' ''sandbox'',
        cf_backend_addr = env_or e ''KEYDRIS_BACKEND_ADDR'' ''127.0.0.1:8080'',
        cf_backend_port = env_int e ''KEYDRIS_BACKEND_PORT'' 8080,
        cf_backend_tls = getenv e ''KEYDRIS_BACKEND_TLS'' \<noteq> [],
        cf_proxy_uid = env_int e ''KEYDRIS_PROXY_UID'' 0,
        cf_cred_header = env_or e ''KEYDRIS_CRED_HEADER'' ''Authorization'',
        cf_access_ttl_seconds = env_int e ''KEYDRIS_ACCESS_TTL_SECONDS'' 60,
        cf_backend_audience = env_or e ''KEYDRIS_BACKEND_AUDIENCE'' ''mock-backend'',
        cf_trust_domain = env_or e ''KEYDRIS_TRUST_DOMAIN'' ''keydris.local'',
        cf_data_dir = data,
        cf_signing_key_path = env_or e ''KEYDRIS_SIGNING_KEY'' (path_join [data, ''signing.key'']),
        cf_ledger_path = env_or e ''KEYDRIS_LEDGER_PATH'' (path_join [data, ''evidence.jsonl'']),
        cf_grants_seed_path = env_or e ''KEYDRIS_GRANTS_SEED'' ''deploy/seed/grants.seed.json'',
        cf_svid_ttl_seconds = env_int e ''KEYDRIS_SVID_TTL_SECONDS'' 900,
        cf_blueprint = env_or e ''KEYDRIS_BLUEPRINT'' [],
        cf_session_socket = env_or e ''KEYDRIS_SESSION_SOCKET'' (path_join [data, ''registry.sock'']),
        cf_session_auth_file = env_or e ''KEYDRIS_SESSION_AUTH_FILE'' (path_join [data, ''session.auth'']),
        cf_policy_id = env_or e ''KEYDRIS_POLICY_ID'' (id_file files data ''policy-id''),
        cf_agent_id = env_or e ''KEYDRIS_AGENT_ID'' (id_file files data ''agent-id''),
        cf_ca_path = env_or e ''KEYDRIS_CA_PATH'' (path_join [data, ''ca.crt'']),
        cf_ca_key_path = env_or e ''KEYDRIS_CA_KEY_PATH'' (path_join [data, ''ca.key'']),
        cf_ca_bundle_path = env_or e ''KEYDRIS_CA_BUNDLE_PATH'' (path_join [data, ''ca-bundle.crt'']),
        cf_claude_settings_path = env_or e ''KEYDRIS_CLAUDE_SETTINGS'' (default_claude_settings e),
        cf_claude_mcp_config_path = env_or e ''KEYDRIS_CLAUDE_MCP_CONFIG'' (default_claude_mcp_config e),
        cf_codex_hooks_path = env_or e ''KEYDRIS_CODEX_HOOKS'' (codex_home_file e ''hooks.json''),
        cf_codex_config_path = env_or e ''KEYDRIS_CODEX_CONFIG'' (codex_home_file e ''config.toml''),
        cf_http_proxy_port = env_int e ''KEYDRIS_HTTP_PROXY_PORT'' (env_int e ''KEYDRIS_PROXY_PORT'' 15001),
        cf_allowed_domains = env_list e ''KEYDRIS_ALLOWED_DOMAINS'',
        cf_managed_mode = ms_mode (fst scope),
        cf_managed_destinations = ms_destinations (fst scope),
        cf_managed_scope_error = snd scope,
        cf_allow_sole_fallback = getenv e ''KEYDRIS_ALLOW_SOLE_FALLBACK'' \<noteq> [],
        cf_peer_verify = env_or e ''KEYDRIS_PEER_VERIFY'' ''warn'',
        cf_cost_metering = \<not> env_disabled e ''KEYDRIS_COST_METERING'',
        cf_metered_origin_overrides = env_list e ''KEYDRIS_METERED_ORIGINS'',
        cf_client_ca_path = env_or e ''KEYDRIS_CLIENT_CA_PATH'' (path_join [data, ''client-ca.crt'']),
        cf_client_ca_key_path = env_or e ''KEYDRIS_CLIENT_CA_KEY_PATH'' (path_join [data, ''client-ca.key'']),
        cf_identity_dir = env_or e ''KEYDRIS_IDENTITY_DIR'' (path_join [data, ''identity'']),
        cf_identity_ttl_seconds = env_int e ''KEYDRIS_IDENTITY_TTL_SECONDS'' 43200,
        cf_oidc_issuer = env_or e ''KEYDRIS_OIDC_ISSUER'' [],
        cf_oauth_authorize_url = fst (cognito_endpoints e),
        cf_oauth_token_url = snd (cognito_endpoints e),
        cf_oauth_client_id = env_or e ''KEYDRIS_OAUTH_CLIENT_ID'' [],
        cf_oauth_client_secret = env_or e ''KEYDRIS_OAUTH_CLIENT_SECRET'' [],
        cf_oauth_scopes = env_or e ''KEYDRIS_OAUTH_SCOPES'' ''openid email'',
        cf_oauth_redirect_url = env_or e ''KEYDRIS_OAUTH_REDIRECT_URL'' ''http://localhost:3000/callback''\<rparr>)"

definition login_uses_external_idp :: "config \<Rightarrow> bool" where
  "login_uses_external_idp c \<longleftrightarrow> cf_oauth_authorize_url c \<noteq> [] \<and> cf_oauth_token_url c \<noteq> [] \<and> cf_oauth_client_id c \<noteq> []"

section \<open>Validation\<close>

definition checked_paths :: "config \<Rightarrow> (string \<times> string) list" where
  "checked_paths c =
     [(''KEYDRIS_DATA_DIR'', cf_data_dir c), (''KEYDRIS_IDENTITY_DIR'', cf_identity_dir c),
      (''KEYDRIS_CA_PATH'', cf_ca_path c), (''KEYDRIS_CA_KEY_PATH'', cf_ca_key_path c),
      (''KEYDRIS_CA_BUNDLE_PATH'', cf_ca_bundle_path c), (''KEYDRIS_SESSION_SOCKET'', cf_session_socket c),
      (''KEYDRIS_SESSION_AUTH_FILE'', cf_session_auth_file c), (''KEYDRIS_CLAUDE_SETTINGS'', cf_claude_settings_path c),
      (''KEYDRIS_CLAUDE_MCP_CONFIG'', cf_claude_mcp_config_path c), (''KEYDRIS_CODEX_HOOKS'', cf_codex_hooks_path c),
      (''KEYDRIS_SIGNING_KEY'', cf_signing_key_path c), (''KEYDRIS_LEDGER_PATH'', cf_ledger_path c),
      (''KEYDRIS_CLIENT_CA_PATH'', cf_client_ca_path c), (''KEYDRIS_CLIENT_CA_KEY_PATH'', cf_client_ca_key_path c)]"

definition validate_path_item :: "(string \<Rightarrow> string \<Rightarrow> unit result) \<Rightarrow> string \<times> string \<Rightarrow> unit \<Rightarrow> unit result" where
  "validate_path_item host item u =
     (case item of (name, v) \<Rightarrow>
        if \<not> is_abs v \<or> contains_any v [CHR 0x00, CHR 0x0D, CHR 0x0A] then Inl (name @ '' must be an absolute path'')
        else host name v)"

text \<open>\<open>ValidatePaths\<close>; the two checks of the host environment are those of \<^verbatim>\<open>internal/platform\<close>.\<close>

definition validate_paths :: "unit result \<Rightarrow> (string \<Rightarrow> string \<Rightarrow> unit result) \<Rightarrow> config \<Rightarrow> unit result" where
  "validate_paths host_ok host c =
     bind_result host_ok (\<lambda>_. bind_result (for_each (validate_path_item host) (checked_paths c) ()) (\<lambda>_.
       fail_if (cf_mtls_server_ca c \<noteq> [] \<and> \<not> is_abs (cf_mtls_server_ca c)) ''KEYDRIS_MTLS_SERVER_CA must be an absolute path''))"

section \<open>Which source wins\<close>

definition settable :: "string \<Rightarrow> string \<Rightarrow> bool" where
  "settable k v \<longleftrightarrow> k \<noteq> [] \<and> CHR ''='' \<notin> set k \<and> CHR 0x00 \<notin> set k \<and> CHR 0x00 \<notin> set v"

definition first_value :: "string option \<Rightarrow> string \<Rightarrow> string \<Rightarrow> string \<Rightarrow> (string \<times> string) list \<Rightarrow> string" where
  "first_value home wd src k ps =
     (case filter (\<lambda>v. v \<noteq> [] \<and> settable k v) (map (\<lambda>kv. file_path_value home wd src k (snd kv)) (filter (\<lambda>kv. fst kv = k) ps)) of
        [] \<Rightarrow> [] | v # _ \<Rightarrow> v)"

definition first_nonempty :: "string list \<Rightarrow> string" where
  "first_nonempty vs = (case filter (\<lambda>v. v \<noteq> []) vs of [] \<Rightarrow> [] | v # _ \<Rightarrow> v)"

lemma getenv_setenv:
  "getenv (setenv k v e) k' = (if k' = k \<and> settable k v then v else getenv e k')"
  by (auto simp: setenv_def getenv_def settable_def)

lemma getenv_set_pair:
  "getenv (set_pair wd src kv e) k =
     (if getenv e k \<noteq> [] then getenv e k
      else first_value (user_home e) wd src k [kv])"
  by (auto simp: set_pair_def getenv_setenv first_value_def)

lemma home_kept: "getenv e ''HOME'' \<noteq> [] \<or> fst kv \<noteq> ''HOME'' \<Longrightarrow> user_home (set_pair wd src kv e) = user_home e"
  by (auto simp: user_home_def set_pair_def getenv_setenv)

lemma first_value_Cons:
  "first_value home wd src k (kv # ps) =
     (if first_value home wd src k [kv] \<noteq> [] then first_value home wd src k [kv] else first_value home wd src k ps)"
  by (auto simp: first_value_def)

lemma fold_set_pair:
  "getenv e ''HOME'' \<noteq> [] \<or> list_all (\<lambda>kv. fst kv \<noteq> ''HOME'') ps \<Longrightarrow>
     getenv (fold (set_pair wd src) ps e) k =
       (if getenv e k \<noteq> [] then getenv e k else first_value (user_home e) wd src k ps)"
proof (induction ps arbitrary: e)
  case (Cons kv ps)
  have "getenv (set_pair wd src kv e) ''HOME'' \<noteq> [] \<or> list_all (\<lambda>kv. fst kv \<noteq> ''HOME'') ps"
    using Cons.prems by (auto simp: getenv_set_pair)
  from Cons.IH [OF this] Cons.prems home_kept [of e kv wd src]
  show ?case by (auto simp: getenv_set_pair first_value_Cons [of _ _ _ _ kv ps])
qed (simp add: first_value_def)

lemma toml_key: "toml_pair l = Some kv \<Longrightarrow> has_prefix (fst kv) ''KEYDRIS_''"
  by (auto simp: toml_pair_def Let_def split: if_splits prod.splits)

lemma toml_keys: "list_all (\<lambda>kv. has_prefix (fst kv) ''KEYDRIS_'') (file_pairs toml_pair file)"
  using toml_key by (fastforce simp: file_pairs_def list_all_iff map_filter_def split: option.splits)

lemma no_assignment: "list_all (\<lambda>kv. fst kv \<noteq> k) ps \<Longrightarrow> first_value home wd src k ps = []"
  by (simp add: first_value_def list_all_iff filter_empty_conv)

lemma toml_sets_own: "\<not> has_prefix k ''KEYDRIS_'' \<Longrightarrow> first_value home wd src k (file_pairs toml_pair file) = []"
  using toml_keys [of "file"] by (intro no_assignment) (auto simp: list_all_iff)

lemma load_toml_env:
  "getenv (load_toml wd files src e) k =
     (if getenv e k \<noteq> [] then getenv e k else first_value (user_home e) wd src k (file_pairs toml_pair (files src)))"
proof -
  have "list_all (\<lambda>kv. fst kv \<noteq> ''HOME'') (file_pairs toml_pair (files src))"
    using toml_keys [of "files src"] by (auto simp: list_all_iff)
  then show ?thesis unfolding load_toml_def by (intro fold_set_pair) simp
qed

lemma load_toml_home: "user_home (load_toml wd files src e) = user_home e"
  by (simp add: user_home_def load_toml_env toml_sets_own)

lemma load_dot_env_env:
  "getenv e ''HOME'' \<noteq> [] \<Longrightarrow> getenv (load_dot_env wd files src e) k =
     (if getenv e k \<noteq> [] then getenv e k else first_value (user_home e) wd src k (file_pairs dotenv_pair (files src)))"
  unfolding load_dot_env_def by (intro fold_set_pair) simp

section \<open>Properties of the layers\<close>

text \<open>
  The value of a variable after loading is the first non-empty one of: the process, the first usable assignment in
  the user's \<^verbatim>\<open>.keydris.toml\<close>, and, only when the process asked for it, those of the project's \<^verbatim>\<open>.env\<close> and
  \<^verbatim>\<open>.keydris.toml\<close>. A variable that the process sets to the empty string counts as unset.
\<close>

theorem layered_sources:
  assumes "user_home e = Some h"
  shows "getenv (load_layered_files wd files e) k = first_nonempty
    ([getenv e k, first_value (Some h) wd (user_file h) k (file_pairs toml_pair (files (user_file h)))]
     @ (if trusts_project e
        then [first_value (Some h) wd ''.env'' k (file_pairs dotenv_pair (files ''.env'')),
              first_value (Some h) wd ''.keydris.toml'' k (file_pairs toml_pair (files ''.keydris.toml''))]
        else []))"
proof -
  let ?e1 = "load_toml wd files (user_file h) e"
  let ?e2 = "load_dot_env wd files ''.env'' ?e1"
  have h1: "user_home ?e1 = Some h" using assms by (simp add: load_toml_home)
  then have n1: "getenv ?e1 ''HOME'' = h" "h \<noteq> []" by (auto simp: user_home_def split: if_splits)
  then have "getenv ?e2 ''HOME'' = h" using load_dot_env_env [of ?e1 wd files "''.env''" "''HOME''"] by simp
  with n1 have h2: "user_home ?e2 = Some h" by (simp add: user_home_def)
  have "getenv ?e2 k = (if getenv ?e1 k \<noteq> [] then getenv ?e1 k
      else first_value (Some h) wd ''.env'' k (file_pairs dotenv_pair (files ''.env'')))"
    using load_dot_env_env [of ?e1 wd files "''.env''" k] n1 h1 by simp
  then show ?thesis using assms h2
    by (simp add: load_layered_files_def Let_def load_toml_env first_nonempty_def)
qed

lemma untrusted_layers:
  assumes "\<not> trusts_project e"
  shows "load_layered_files wd files e
    = (case user_home e of None \<Rightarrow> e | Some h \<Rightarrow> load_toml wd files (user_file h) e)"
  using assms by (simp add: load_layered_files_def Let_def)

section \<open>Settings do not depend on the project\<close>

lemma expand_abs: "is_abs v \<Longrightarrow> expand_home home v = v"
  by (cases v) (auto simp: expand_home_def from_home_def is_abs_def slash_def split: option.split)

lemma file_path_abs: "is_abs wd \<Longrightarrow> key \<in> set path_keys \<Longrightarrow> v \<noteq> [] \<Longrightarrow> is_abs (file_path_value home wd src key v)"
  by (simp add: file_path_value_def clean_abs join_abs dir_abs path_abs_def)

lemma file_path_dir: "is_abs src \<Longrightarrow> file_path_value home wd src key v = file_path_value home wd' src key v"
  by (simp add: file_path_value_def path_abs_def)

lemma load_toml_dir: "is_abs src \<Longrightarrow> files src = files' src \<Longrightarrow> load_toml wd files src e = load_toml wd' files' src e"
proof -
  assume "is_abs src" "files src = files' src"
  moreover from this(1) have "set_pair wd src = set_pair wd' src"
    by (intro ext) (simp add: set_pair_def file_path_dir [of src _ wd _ _ wd'])
  ultimately show ?thesis by (simp add: load_toml_def)
qed

text \<open>A path variable that the process leaves alone or sets to an absolute path is one or the other after loading.\<close>

definition anchored :: "string \<Rightarrow> bool" where
  "anchored v \<longleftrightarrow> v = [] \<or> is_abs v"

lemma filter_map_hd:
  assumes "filter P (map f (filter Q ps)) = v # vs"
  shows "v \<in> f ` set ps"
proof -
  have "v \<in> set (filter P (map f (filter Q ps)))" unfolding assms by simp
  then show ?thesis by auto
qed

lemma first_value_anchored:
  assumes "is_abs wd" and "k \<in> set path_keys"
  shows "anchored (first_value home wd src k ps)"
proof -
  have "anchored (file_path_value home wd src k v)" for v
    using file_path_abs [OF assms, of v home src] by (cases "v = []") (auto simp: anchored_def file_path_value_def)
  moreover have "first_value home wd src k ps = []
      \<or> first_value home wd src k ps \<in> (\<lambda>kv. file_path_value home wd src k (snd kv)) ` set ps" (is "_ \<or> ?in")
    by (auto simp: first_value_def dest: filter_map_hd split: list.split)
  ultimately show ?thesis by (metis anchored_def imageE)
qed

text \<open>The process gives every path as an absolute one, or not at all.\<close>

definition absolute_process :: "environ \<Rightarrow> bool" where
  "absolute_process e \<longleftrightarrow> list_all (\<lambda>k. anchored (getenv e k)) path_keys \<and> is_abs (getenv e ''HOME'')
     \<and> anchored (trim_space (getenv e ''CLAUDE_CONFIG_DIR'')) \<and> anchored (trim_space (getenv e ''CODEX_HOME''))"

lemma absolute_loaded:
  assumes "absolute_process e" and "is_abs wd"
  shows "absolute_process (load_toml wd files src e)"
proof -
  have "anchored (getenv (load_toml wd files src e) k)" if "k \<in> set path_keys" for k
    using assms that first_value_anchored [OF assms(2) that, of "user_home e" src "file_pairs toml_pair (files src)"]
    by (auto simp: load_toml_env absolute_process_def list_all_iff)
  moreover have "getenv (load_toml wd files src e) k = getenv e k" if "\<not> has_prefix k ''KEYDRIS_''" for k
    using that by (simp add: load_toml_env toml_sets_own)
  ultimately show ?thesis using assms(1) by (simp add: absolute_process_def list_all_iff)
qed

lemma home_absolute: "absolute_process e \<Longrightarrow> \<exists>h. user_home e = Some h \<and> is_abs h"
  by (auto simp: absolute_process_def user_home_def is_abs_def)

lemma env_or_abs: "absolute_process e \<Longrightarrow> k \<in> set path_keys \<Longrightarrow> is_abs d \<Longrightarrow> is_abs (env_or e k d)"
  by (auto simp: env_or_def absolute_process_def list_all_iff anchored_def)

lemma default_paths_abs:
  assumes "absolute_process e"
  shows "is_abs (default_data_dir e)" "is_abs (default_claude_settings e)" "is_abs (default_claude_mcp_config e)"
    "is_abs (codex_home_file e name)"
proof -
  obtain h where h: "user_home e = Some h" "is_abs h" using home_absolute [OF assms] by blast
  have a: "trim_space (getenv e ''CLAUDE_CONFIG_DIR'') \<noteq> [] \<Longrightarrow> is_abs (trim_space (getenv e ''CLAUDE_CONFIG_DIR''))"
    "trim_space (getenv e ''CODEX_HOME'') \<noteq> [] \<Longrightarrow> is_abs (trim_space (getenv e ''CODEX_HOME''))"
    using assms by (auto simp: absolute_process_def anchored_def)
  show "is_abs (default_data_dir e)" using h by (simp add: default_data_dir_def join_abs)
  show "is_abs (default_claude_settings e)" using h a by (simp add: default_claude_settings_def Let_def join_abs)
  show "is_abs (default_claude_mcp_config e)" using h a by (simp add: default_claude_mcp_config_def Let_def join_abs)
  show "is_abs (codex_home_file e name)" using h a by (simp add: codex_home_file_def Let_def join_abs expand_abs)
qed

text \<open>Every checked path of loaded settings is a path variable of the process or a file, or lies in the data directory.\<close>

lemma checked_paths_abs:
  assumes "absolute_process (load_layered_files (ho_dir h) (ho_files h) e)"
  shows "list_all (\<lambda>p. is_abs (snd p)) (checked_paths (load_config h e))"
  using assms default_paths_abs [OF assms]
  by (simp add: checked_paths_def load_config_def Let_def env_or_abs join_abs path_keys_def)



lemma layered_sources_witness:
  "getenv (load_layered_files ''/w'' ((\<lambda>_. None)(''/h/.keydris.toml'' := Some ''control_url = user'',
      ''.keydris.toml'' := Some ''control_url = project'')) [(''HOME'', ''/h'')]) ''KEYDRIS_CONTROL_URL'' = ''user''"
proof -
  let ?e = "[(''HOME'', ''/h'')]"
  have h: "user_home ?e = Some ''/h''" by code_simp
  have f: "user_file ''/h'' = ''/h/.keydris.toml''" "\<not> trusts_project ?e" "getenv ?e ''KEYDRIS_CONTROL_URL'' = []"
    by code_simp+
  have l: "config_lines ''control_url = user'' = [''control_url = user'']" by code_simp
  have pr: "toml_pair ''control_url = user'' = Some (''KEYDRIS_CONTROL_URL'', ''user'')" by code_simp
  have v: "first_value (Some ''/h'') ''/w'' ''/h/.keydris.toml'' ''KEYDRIS_CONTROL_URL'' [(''KEYDRIS_CONTROL_URL'', ''user'')] = ''user''" by code_simp
  show ?thesis by (subst layered_sources [OF h]) (simp add: f first_nonempty_def file_pairs_def l map_filter_simps pr v)
qed

section \<open>Validation\<close>

lemma for_each_checks:
  "is_ok (for_each f xs ()) = list_all (\<lambda>x. is_ok (f x ())) xs"
  by (induction xs) (auto simp: is_ok_iff)

text \<open>
  Validation accepts exactly the settings whose checked paths are absolute, free of line ends and accepted by the
  platform. The path of the Codex configuration is neither checked nor anchored when it comes from a file.
\<close>

theorem codex_config_path_unchecked:
  "is_ok (validate_paths ok host c) =
     (is_ok ok
      \<and> list_all (\<lambda>p. is_abs (snd p) \<and> \<not> contains_any (snd p) [CHR 0x00, CHR 0x0D, CHR 0x0A] \<and> is_ok (host (fst p) (snd p))) (checked_paths c)
      \<and> (cf_mtls_server_ca c = [] \<or> is_abs (cf_mtls_server_ca c)))
   \<and> validate_paths ok host (c\<lparr>cf_codex_config_path := p\<rparr>) = validate_paths ok host c
   \<and> file_path_value home wd src ''KEYDRIS_CODEX_CONFIG'' v = v"
proof -
  have "is_ok (validate_path_item host q ())
      = (is_abs (snd q) \<and> \<not> contains_any (snd q) [CHR 0x00, CHR 0x0D, CHR 0x0A] \<and> is_ok (host (fst q) (snd q)))" for q
    by (cases q) (simp add: validate_path_item_def)
  then have items: "is_ok (for_each (validate_path_item host) (checked_paths c) ())
      = list_all (\<lambda>p. is_abs (snd p) \<and> \<not> contains_any (snd p) [CHR 0x00, CHR 0x0D, CHR 0x0A] \<and> is_ok (host (fst p) (snd p))) (checked_paths c)"
    by (simp add: for_each_checks)
  have "is_ok (validate_paths ok host c) = (is_ok ok \<and> is_ok (for_each (validate_path_item host) (checked_paths c) ())
      \<and> (cf_mtls_server_ca c = [] \<or> is_abs (cf_mtls_server_ca c)))"
    by (auto simp: validate_paths_def is_ok_iff)
  moreover have "checked_paths (c\<lparr>cf_codex_config_path := p\<rparr>) = checked_paths c" by (simp add: checked_paths_def)
  moreover have "''KEYDRIS_CODEX_CONFIG'' \<notin> set path_keys" by code_simp
  ultimately show ?thesis by (simp add: items validate_paths_def file_path_value_def)
qed

section \<open>The derived scope\<close>

lemma add_canonical:
  "list_all (\<lambda>d. normalize_destination d = Inr d) ds \<Longrightarrow> distinct (acc @ ds) \<Longrightarrow>
     for_each add_destination ds \<lparr>sc_mode = m, sc_destinations = acc\<rparr> = Inr \<lparr>sc_mode = m, sc_destinations = acc @ ds\<rparr>"
proof (induction ds arbitrary: acc)
  case (Cons d ds)
  from Cons.IH [of "acc @ [d]"] Cons.prems show ?case by (simp add: add_destination_def)
qed simp

lemma canonical_scope:
  "list_all (\<lambda>d. normalize_destination d = Inr d) ds \<Longrightarrow> distinct ds \<Longrightarrow>
     new_scope mode_selected ds = Inr \<lparr>sc_mode = mode_selected, sc_destinations = ds\<rparr>"
  using add_canonical [of ds "[]" mode_selected] by (simp add: new_scope_def mode_selected_def mode_all_def)

text \<open>
  Saving the scope derived from a policy: whatever fails, the file is the old one or reads back as exactly that
  scope, which it does after a success. A file that cannot be read manages nothing, rather than everything.
\<close>

theorem derived_scope_kept:
  assumes "list_all (\<lambda>d. normalize_destination d = Inr d) ds" and "distinct ds"
    and "save_derived_managed_scope fault ds file = (r, file')"
  shows "(case r of Inl _ \<Rightarrow> file' = file \<or> load_managed_scope file' = (\<lparr>ms_mode = mode_selected, ms_source = managed_scope_source_policy, ms_destinations = ds\<rparr>, None)
      | Inr _ \<Rightarrow> load_managed_scope file' = (\<lparr>ms_mode = mode_selected, ms_source = managed_scope_source_policy, ms_destinations = ds\<rparr>, None))
    \<and> load_managed_scope (Bad_Scope err) = (\<lparr>ms_mode = mode_selected, ms_source = [], ms_destinations = []\<rparr>, Some err)"
proof -
  have "managed_scope_source_policy \<noteq> []" by (simp add: managed_scope_source_policy_def)
  with assms(3) show ?thesis
    by (auto simp: save_derived_managed_scope_def save_managed_scope_def load_managed_scope_def read_managed_scope_def
        canonical_scope [OF assms(1,2)] field_or_def Let_def split: option.splits scope_fault.splits)
qed

lemma derived_scope_kept_witness:
  "load_managed_scope (snd (save_derived_managed_scope None [''a.io:443''] No_Scope))
     = (\<lparr>ms_mode = mode_selected, ms_source = managed_scope_source_policy, ms_destinations = [''a.io:443'']\<rparr>, None)"
proof -
  have "list_all (\<lambda>d. normalize_destination d = Inr d) [''a.io:443'']" by code_simp
  note c = this
  obtain r file' where sv: "save_derived_managed_scope None [''a.io:443''] No_Scope = (r, file')" by (metis surj_pair)
  moreover have "is_ok r" using sv canonical_scope [OF c]
    by (auto simp: save_derived_managed_scope_def save_managed_scope_def Let_def)
  ultimately show ?thesis using derived_scope_kept [OF c _ sv] by (auto simp: is_ok_iff)
qed

end
