(* ===== verification/Claude_Mcp.thy ===== *)
theory Claude_Mcp
  imports Claude_Settings Codex_Config
begin

text \<open>
  \<^verbatim>\<open>internal/node/sandbox/claudemcp.go\<close>: the MCP servers of a policy in Claude Code's user configuration. The
  file is the object it decodes to, written beside and renamed. Lemmas: only entries of governed names change,
  configuring is idempotent, and removing gives back the configuration of before, unless the user had an entry of
  a governed name.
\<close>

section \<open>The file\<close>

text \<open>\<open>readJSONObject\<close>: an absent or empty file is an empty object, \<open>null\<close> a nil map.\<close>

definition read_json_object :: "string option \<Rightarrow> string option \<Rightarrow> object option result" where
  "read_json_object fault file =
     (case fault of Some e \<Rightarrow> Inl (''read '' @ e)
      | None \<Rightarrow>
          (case file of
             None \<Rightarrow> Inr (Some [])
           | Some t \<Rightarrow> if t = [] then Inr (Some [])
               else case parse_json t of None \<Rightarrow> Inl ''parse'' | Some j \<Rightarrow> wrap_error ''parse'' (decode_object j)))"

text \<open>\<open>writeJSONObject\<close>: staged and renamed, so any fault leaves the old file.\<close>

definition write_json_object :: "(object option \<Rightarrow> string) \<Rightarrow> string option \<Rightarrow> object option \<Rightarrow> string option
    \<Rightarrow> unit result \<times> string option" where
  "write_json_object enc fault doc file = write_text_file fault (enc doc @ [newline]) file"

section \<open>Editing\<close>

definition servers_key :: string where "servers_key = ''mcpServers''"
definition managed_key :: string where "managed_key = ''keydrisManagedMcpServers''"

definition managed_names :: "object \<Rightarrow> string list" where
  "managed_names doc = (case map_of doc managed_key of Some v \<Rightarrow> strings_from_json v | None \<Rightarrow> [])"

definition user_servers :: "object \<Rightarrow> object" where
  "user_servers doc = list_or (object_at doc servers_key)"

definition governed_entry :: "mcp_server_endpoint \<Rightarrow> any" where
  "governed_entry s = AObj [(''type'', AStr ''http''), (''url'', AStr (endpoint_url s))]"

definition put_server :: "mcp_server_endpoint \<Rightarrow> object \<Rightarrow> object" where
  "put_server s m = assoc_set (endpoint_name s) (governed_entry s) m"

definition drop_names :: "string list \<Rightarrow> object \<Rightarrow> object" where
  "drop_names names m = fold delete_key names m"

definition governed_servers :: "mcp_server_endpoint list \<Rightarrow> object \<Rightarrow> object" where
  "governed_servers servers doc =
     drop_names (filter (\<lambda>n. n \<notin> set (map endpoint_name servers)) (managed_names doc))
       (fold put_server servers (user_servers doc))"

definition configure_mcp :: "mcp_server_endpoint list \<Rightarrow> object \<Rightarrow> object" where
  "configure_mcp servers doc =
     assoc_set managed_key (AArr (map AStr (sorted_names (map endpoint_name servers))))
       (assoc_set servers_key (AObj (governed_servers servers doc)) doc)"

definition remove_mcp :: "object \<Rightarrow> object" where
  "remove_mcp doc =
     (let kept = drop_names (managed_names doc) (user_servers doc) in
      delete_key managed_key
        (if kept = [] then delete_key servers_key doc else assoc_set servers_key (AObj kept) doc))"

text \<open>Assigning into the nil map of a file that holds \<open>null\<close> panics; deleting from it does nothing.\<close>

definition configure_mcp_servers ::
  "(object option \<Rightarrow> string) \<Rightarrow> string option \<Rightarrow> string option \<Rightarrow> mcp_server_endpoint list \<Rightarrow> string option
    \<Rightarrow> unit result \<times> string option" where
  "configure_mcp_servers enc read_fault write_fault servers file =
     (case read_json_object read_fault file of
        Inl e \<Rightarrow> (Inl e, file)
      | Inr None \<Rightarrow> (Inl ''assignment to entry in nil map'', file)
      | Inr (Some doc) \<Rightarrow> write_json_object enc write_fault (Some (configure_mcp servers doc)) file)"

definition remove_managed_mcp_servers ::
  "(object option \<Rightarrow> string) \<Rightarrow> string option \<Rightarrow> string option \<Rightarrow> string option \<Rightarrow> unit result \<times> string option" where
  "remove_managed_mcp_servers enc read_fault write_fault file =
     (case read_json_object read_fault file of
        Inl e \<Rightarrow> (Inl e, file)
      | Inr doc \<Rightarrow> write_json_object enc write_fault (map_option remove_mcp doc) file)"

section \<open>Entries\<close>

lemma keys_differ: "servers_key \<noteq> managed_key" "managed_key \<noteq> servers_key"
  by (simp_all add: servers_key_def managed_key_def)

lemma drop_names_filter: "drop_names ns m = filter (\<lambda>(k, _). k \<notin> set ns) m"
proof (induction ns arbitrary: m)
  case (Cons n ns)
  have "filter (\<lambda>(k, _). k \<notin> set ns) (delete_key n m) = filter (\<lambda>(k, _). k \<notin> set (n # ns)) m"
    by (induction m) (auto simp: delete_key_def)
  with Cons show ?case by (simp add: drop_names_def)
qed (simp add: drop_names_def)

lemma map_of_filter_keys: "map_of (filter (\<lambda>(k, _). P k) m) n = (if P n then map_of m n else None)"
  by (induction m) auto

lemma drop_names_lookup [simp]: "map_of (drop_names ns m) k = (if k \<in> set ns then None else map_of m k)"
  by (simp add: drop_names_filter map_of_filter_keys)

lemma filter_set_outside: "\<not> P k \<Longrightarrow> filter (\<lambda>(k, _). P k) (assoc_set k v m) = filter (\<lambda>(k, _). P k) m"
  by (induction k v m rule: assoc_set.induct) auto

lemma filter_set_inside: "P k \<Longrightarrow> filter (\<lambda>(k, _). P k) (assoc_set k v m) = assoc_set k v (filter (\<lambda>(k, _). P k) m)"
  by (induction k v m rule: assoc_set.induct) auto

lemma delete_set_same: "delete_key k (assoc_set k v m) = delete_key k m"
  using filter_set_outside [of "\<lambda>k'. k' \<noteq> k" k v m] by (simp add: delete_key_def)

lemma delete_set_other: "k \<noteq> k' \<Longrightarrow> delete_key k (assoc_set k' v m) = assoc_set k' v (delete_key k m)"
  using filter_set_inside [of "\<lambda>x. x \<noteq> k" k' v m] by (simp add: delete_key_def)

lemma set_set_same: "assoc_set k v (assoc_set k w m) = assoc_set k v m"
  by (induction k w m rule: assoc_set.induct) auto

lemma delete_delete: "delete_key k (delete_key k' m) = delete_key k' (delete_key k m)"
  by (simp add: delete_key_def conj_commute filter_filter case_prod_beta)

lemma put_servers_lookup:
  "map_of (fold put_server servers m) k =
     (case find (\<lambda>s. endpoint_name s = k) (rev servers) of Some s \<Rightarrow> Some (governed_entry s) | None \<Rightarrow> map_of m k)"
  by (induction servers rule: rev_induct) (auto simp: put_server_def)

lemma put_servers_outside:
  "list_all (\<lambda>s. \<not> P (endpoint_name s)) servers \<Longrightarrow>
     filter (\<lambda>(k, _). P k) (fold put_server servers m) = filter (\<lambda>(k, _). P k) m"
  by (induction servers arbitrary: m) (simp_all add: put_server_def filter_set_outside)

lemma strings_array: "strings_from_json (AArr (map AStr xs)) = xs"
  by (induction xs) (simp_all add: map_filter_simps)

lemma mcp_configured_parts [simp]:
  "managed_names (configure_mcp servers doc) = sorted_names (map endpoint_name servers)"
  "user_servers (configure_mcp servers doc) = governed_servers servers doc"
  using strings_array by (simp_all add: configure_mcp_def managed_names_def user_servers_def object_at_def list_or_def keys_differ
      del: strings_from_json.simps)

lemma set_sorted_names [simp]: "set (sorted_names ns) = set ns"
  by (simp add: sorted_names_def)

section \<open>Properties\<close>

text \<open>
  Configuring changes only entries of governed names, set to the last server of that name, and of names governed
  before, which go; every other entry and every other part of the file stays. A fault leaves the file as it was.
\<close>

theorem claude_servers_merged:
  "map_of (user_servers (configure_mcp servers doc)) n =
     (case find (\<lambda>s. endpoint_name s = n) (rev servers) of
        Some s \<Rightarrow> Some (governed_entry s)
      | None \<Rightarrow> if n \<in> set (managed_names doc) then None else map_of (user_servers doc) n)
   \<and> map_of (delete_key servers_key (delete_key managed_key (configure_mcp servers doc))) k
      = map_of (delete_key servers_key (delete_key managed_key doc)) k
   \<and> (case configure_mcp_servers enc read_fault write_fault servers file of
        (Inl _, file') \<Rightarrow> file' = file
      | (Inr _, file') \<Rightarrow> (case read_json_object read_fault file of
            Inr (Some d) \<Rightarrow> file' = Some (enc (Some (configure_mcp servers d)) @ [newline]) | _ \<Rightarrow> False))"
proof -
  have "find (\<lambda>s. endpoint_name s = n) (rev servers) \<noteq> None \<longleftrightarrow> n \<in> set (map endpoint_name servers)"
    by (auto simp: find_None_iff)
  then have "map_of (governed_servers servers doc) n =
     (case find (\<lambda>s. endpoint_name s = n) (rev servers) of
        Some s \<Rightarrow> Some (governed_entry s)
      | None \<Rightarrow> if n \<in> set (managed_names doc) then None else map_of (user_servers doc) n)"
    by (auto simp: governed_servers_def put_servers_lookup split: option.splits)
  moreover have "map_of (delete_key servers_key (delete_key managed_key (configure_mcp servers doc))) k
      = map_of (delete_key servers_key (delete_key managed_key doc)) k"
    by (simp add: configure_mcp_def)
  moreover have "case configure_mcp_servers enc read_fault write_fault servers file of
        (Inl _, file') \<Rightarrow> file' = file
      | (Inr _, file') \<Rightarrow> (case read_json_object read_fault file of
            Inr (Some d) \<Rightarrow> file' = Some (enc (Some (configure_mcp servers d)) @ [newline]) | _ \<Rightarrow> False)"
    by (auto simp: configure_mcp_servers_def write_json_object_def write_text_file_def split: sum.splits option.splits)
  ultimately show ?thesis by simp
qed

text \<open>
  Removing after configuring gives back the configuration of before, less the names it listed as managed and less
  the user's own entries of governed names: those are overwritten by the one and deleted by the other.
\<close>

theorem claude_servers_removed:
  "remove_mcp (configure_mcp servers doc) =
     (let kept = filter (\<lambda>(n, _). n \<notin> set (map endpoint_name servers) \<and> n \<notin> set (managed_names doc)) (user_servers doc) in
      delete_key managed_key (if kept = [] then delete_key servers_key doc else assoc_set servers_key (AObj kept) doc))"
proof -
  let ?P = "\<lambda>n. n \<notin> set (map endpoint_name servers) \<and> n \<notin> set (managed_names doc)"
  let ?kept = "filter (\<lambda>(n, _). ?P n) (user_servers doc)"
  have "drop_names (sorted_names (map endpoint_name servers)) (governed_servers servers doc)
      = filter (\<lambda>(n, _). ?P n) (fold put_server servers (user_servers doc))"
    unfolding drop_names_filter governed_servers_def filter_filter by (rule filter_cong) auto
  also have "\<dots> = ?kept" by (rule put_servers_outside) (simp add: list_all_iff)
  finally have kept: "drop_names (sorted_names (map endpoint_name servers)) (governed_servers servers doc) = ?kept" .
  show ?thesis
    unfolding remove_mcp_def mcp_configured_parts kept Let_def
    by (simp add: configure_mcp_def delete_set_same delete_set_other set_set_same keys_differ delete_delete [of managed_key servers_key])
qed

text \<open>
  Configuring the same servers again changes nothing.
\<close>

theorem claude_configured_twice:
  assumes "distinct (map endpoint_name servers)"
  shows "configure_mcp servers (configure_mcp servers doc) = configure_mcp servers doc"
proof -
  have "set (sorted_names (map endpoint_name servers)) = set (map endpoint_name servers)" by simp
  then have none: "filter (\<lambda>n. n \<notin> set (map endpoint_name servers)) (sorted_names (map endpoint_name servers)) = []"
    by (simp add: filter_empty_conv)
  have own: "map_of (governed_servers servers doc) (endpoint_name s) = Some (governed_entry s)" if "s \<in> set servers" for s
  proof -
    have "find (\<lambda>t. endpoint_name t = endpoint_name s) (rev servers) = Some s"
      using assms that by (induction servers rule: rev_induct) auto
    then show ?thesis using that by (auto simp: governed_servers_def put_servers_lookup)
  qed
  have "fold put_server ss g = g" if "list_all (\<lambda>s. map_of g (endpoint_name s) = Some (governed_entry s)) ss" for ss g
    using that by (induction ss) (simp_all add: put_server_def assoc_set_same)
  then have "governed_servers servers (configure_mcp servers doc) = governed_servers servers doc"
    using none own by (simp add: governed_servers_def [of servers "configure_mcp servers doc"] drop_names_def list_all_iff)
  then show ?thesis
    by (simp add: configure_mcp_def [of servers "configure_mcp servers doc"])
       (simp add: configure_mcp_def assoc_set_same keys_differ)
qed

section \<open>A history of policies\<close>

text \<open>What a configuration writer promises of the entries it governs, and what follows for any series of policies.\<close>

locale managed_servers =
  fixes entry :: "'doc \<Rightarrow> string \<Rightarrow> any option"
    and managed :: "'doc \<Rightarrow> string list"
    and configure :: "mcp_server_endpoint list \<Rightarrow> 'doc \<Rightarrow> 'doc"
    and remove :: "'doc \<Rightarrow> 'doc"
  assumes managed_configure: "set (managed (configure ss d)) = endpoint_name ` set ss"
    and entry_configure: "n \<notin> endpoint_name ` set ss \<Longrightarrow> entry (configure ss d) n = (if n \<in> set (managed d) then None else entry d n)"
    and entry_remove: "entry (remove d) n = (if n \<in> set (managed d) then None else entry d n)"
begin

lemma narrowed_policy:
  "n \<notin> endpoint_name ` set ss \<Longrightarrow> n \<in> endpoint_name ` set ss1 \<Longrightarrow> entry (configure ss (configure ss1 d)) n = None"
  by (simp add: entry_configure managed_configure)

lemma history_removed:
  "entry (remove (fold configure policies d)) n =
     (if n \<in> set (managed d) \<or> list_ex (\<lambda>ss. n \<in> endpoint_name ` set ss) policies then None else entry d n)"
proof (induction policies arbitrary: d)
  case (Cons ss policies)
  then show ?case by (cases "n \<in> endpoint_name ` set ss") (simp_all add: managed_configure entry_configure)
qed (simp add: entry_remove)

end

lemma removed_lookup: "map_of (user_servers (remove_mcp doc)) n = (if n \<in> set (managed_names doc) then None else map_of (user_servers doc) n)"
proof -
  have "user_servers (remove_mcp doc) = drop_names (managed_names doc) (user_servers doc)"
    by (simp add: remove_mcp_def Let_def user_servers_def list_or_def keys_differ object_at_def)
  then show ?thesis by simp
qed

interpretation claude_mcp: managed_servers "\<lambda>doc. map_of (user_servers doc)" managed_names configure_mcp remove_mcp
proof
  fix n doc and ss :: "mcp_server_endpoint list"
  assume n: "n \<notin> endpoint_name ` set ss"
  then have "find (\<lambda>s. endpoint_name s = n) (rev ss) = None" by (auto simp: find_None_iff)
  with n show "map_of (user_servers (configure_mcp ss doc)) n = (if n \<in> set (managed_names doc) then None else map_of (user_servers doc) n)"
    by (simp add: governed_servers_def put_servers_lookup)
qed (simp_all add: removed_lookup)

text \<open>
  C30. Whatever policies are configured one after the other, removing then leaves of the servers exactly those whose
  name no policy, and no earlier installation, ever governed, as the user had them.
\<close>

theorem policies_configured_and_removed:
  "map_of (user_servers (remove_mcp (fold configure_mcp policies doc))) n =
     (if n \<in> set (managed_names doc) \<or> list_ex (\<lambda>ss. n \<in> endpoint_name ` set ss) policies then None
      else map_of (user_servers doc) n)"
  by (rule claude_mcp.history_removed)

end
