(* ===== verification/Mcp_Inventory.thy ===== *)
theory Mcp_Inventory
  imports Claude_Mcp Go_Path Go_Http Runtime_Client
begin

text \<open>
  \<^verbatim>\<open>internal/node/sandbox/mcpinventory.go\<close> and \<^verbatim>\<open>internal/cli/mcp_inventory.go\<close>: which MCP
  servers the agents of this machine are configured with, as reported to the control plane. The configurations hold
  credentials (headers, environment, user information and query strings of endpoints); the report must not. Lemmas:
  what an entry can say, which files of a plugin directory are read, and what is sent when some file is broken.
\<close>

section \<open>Entries\<close>

definition new_inventory_entry :: "string \<Rightarrow> bool \<Rightarrow> mcp_inventory_entry" where
  "new_inventory_entry name managed =
     \<lparr>ie_name = name, ie_transport = ''unknown'', ie_endpoint = None, ie_endpoint_redacted = False,
      ie_managed = managed, ie_enabled = True\<rparr>"

text \<open>\<open>URL.String\<close> of a URL with a host and without user information, query and fragment.\<close>

definition escape_host :: "string \<Rightarrow> string" where
  "escape_host h = concat (map (\<lambda>c. if host_char c \<and> byte c < 128 then [c]
     else [CHR ''%'', hex_upper (byte c div 16), hex_upper (byte c mod 16)]) h)"

definition bare_url_text :: "url \<Rightarrow> string" where
  "bare_url_text u = u_scheme u @ ''://'' @ escape_host (u_host u) @ escaped_path u"

definition max_endpoint :: int where "max_endpoint = 2048"

text \<open>A query, even an empty one, starts at a question mark before the fragment.\<close>

definition set_inventory_endpoint :: "string \<Rightarrow> mcp_inventory_entry \<Rightarrow> mcp_inventory_entry" where
  "set_inventory_endpoint raw entry =
     (let e = entry\<lparr>ie_transport := ''http''\<rparr>; redacted = e\<lparr>ie_endpoint_redacted := True\<rparr> in
      case parse_url raw of
        None \<Rightarrow> redacted
      | Some u \<Rightarrow>
          if u_host u = [] \<or> (u_scheme u \<noteq> ''http'' \<and> u_scheme u \<noteq> ''https'') then redacted
          else if max_endpoint < int (length (bare_url_text u)) then redacted
          else e\<lparr>ie_endpoint_redacted := u_user u \<or> CHR ''?'' \<in> set (fst (cut_at (CHR ''#'') raw)) \<or> u_fragment u \<noteq> [],
                 ie_endpoint := Some (bare_url_text u)\<rparr>)"

text \<open>\<open>unicode.IsControl\<close>, on the bytes of a rune\<close>

definition is_control :: "string \<Rightarrow> bool" where
  "is_control r \<longleftrightarrow> (\<exists>c\<in>set r. is_ctl c) \<or> (length r = 2 \<and> hd r = CHR 0xC2 \<and> byte (last r) \<le> 159)"

definition valid_entry_name :: "string \<Rightarrow> bool" where
  "valid_entry_name n \<longleftrightarrow> trim_space n \<noteq> [] \<and> int (length n) \<le> 256 \<and> \<not> list_ex is_control (runes n)"

definition validate_inventory :: "mcp_inventory_entry list \<Rightarrow> mcp_inventory_entry list result" where
  "validate_inventory entries =
     (if 256 < int (length entries) then Inl ''MCP inventory exceeds 256 entries''
      else if \<not> list_all (\<lambda>e. valid_entry_name (ie_name e)) entries then Inl ''invalid MCP entry name''
      else Inr (sort_on ie_name entries))"

section \<open>Claude Code and Claude Desktop\<close>

definition inventory_transport :: "object \<Rightarrow> mcp_inventory_entry \<Rightarrow> mcp_inventory_entry" where
  "inventory_transport config e =
     (case map_of config ''type'' of
        Some (AStr t) \<Rightarrow> if t \<in> {''sse'', ''stdio'', ''http''} then e\<lparr>ie_transport := t\<rparr> else e
      | _ \<Rightarrow> (case map_of config ''command'' of Some (AStr _) \<Rightarrow> e\<lparr>ie_transport := ''stdio''\<rparr> | _ \<Rightarrow> e))"

definition inventory_enabled :: "object \<Rightarrow> mcp_inventory_entry \<Rightarrow> mcp_inventory_entry" where
  "inventory_enabled config e =
     (case bool_at config ''disabled'' of Some d \<Rightarrow> e\<lparr>ie_enabled := \<not> d\<rparr> | None \<Rightarrow> e)"

definition inventory_entry :: "bool \<Rightarrow> string \<Rightarrow> any \<Rightarrow> mcp_inventory_entry result" where
  "inventory_entry managed name raw =
     (case raw of
        AObj config \<Rightarrow>
          bind_result
            (case map_of config ''url'' of
               None \<Rightarrow> Inr (new_inventory_entry name managed)
             | Some (AStr v) \<Rightarrow> Inr (set_inventory_endpoint v (new_inventory_entry name managed))
             | Some _ \<Rightarrow> Inl ''invalid Claude MCP endpoint'')
            (\<lambda>e. Inr (inventory_enabled config (inventory_transport config e)))
      | _ \<Rightarrow> Inl ''invalid Claude MCP entry'')"

definition add_inventory_entry :: "string list \<Rightarrow> string \<times> any \<Rightarrow> mcp_inventory_entry list \<Rightarrow> mcp_inventory_entry list result" where
  "add_inventory_entry managed item entries =
     (case item of (name, raw) \<Rightarrow>
        bind_result (inventory_entry (name \<in> set managed) name raw) (\<lambda>e. Inr (entries @ [e])))"

definition inventory_entries_from_servers :: "object \<Rightarrow> string list \<Rightarrow> mcp_inventory_entry list result" where
  "inventory_entries_from_servers servers managed = for_each (add_inventory_entry managed) servers []"

text \<open>The server table of a document: absent or null is none, anything but an object is an error.\<close>

definition server_table :: "object option \<Rightarrow> object option" where
  "server_table doc =
     (case doc of None \<Rightarrow> Some []
      | Some d \<Rightarrow> (case map_of d servers_key of None \<Rightarrow> Some [] | Some ANull \<Rightarrow> Some [] | Some (AObj m) \<Rightarrow> Some m | Some _ \<Rightarrow> None))"

type_synonym config_file = "string option \<times> string option"

definition read_claude_mcp_inventory :: "config_file \<Rightarrow> mcp_inventory_entry list result" where
  "read_claude_mcp_inventory f =
     (case read_json_object (fst f) (snd f) of
        Inl _ \<Rightarrow> Inl ''could not read Claude MCP configuration''
      | Inr doc \<Rightarrow>
          (case server_table doc of
             None \<Rightarrow> Inl ''invalid Claude MCP configuration''
           | Some servers \<Rightarrow>
               bind_result (inventory_entries_from_servers servers (case doc of None \<Rightarrow> [] | Some d \<Rightarrow> managed_names d))
                 validate_inventory))"

text \<open>
  What \<open>filepath.WalkDir\<close> meets under a plugin root, in its order: a fault, or an entry with its path, whether it
  is a directory, for a link where it leads if that can be told, and what reading it gives.
\<close>

record walk_item =
  wi_path :: string
  wi_dir :: bool
  wi_link :: "string option option"
  wi_file :: config_file

datatype plugin_root = Root_Missing | Root_Fault | Root_File | Root_Dir string "walk_item result list"

definition path_within_root :: "string \<Rightarrow> string \<Rightarrow> bool" where
  "path_within_root root p =
     (case path_rel (path_clean root) (path_clean p) of
        Inl _ \<Rightarrow> False
      | Inr rel \<Rightarrow> rel \<noteq> ''..'' \<and> \<not> has_prefix rel ''../'')"

definition item_name :: "string \<Rightarrow> string" where
  "item_name p = last (split_on slash p)"

definition plugin_file_read :: "string \<Rightarrow> walk_item \<Rightarrow> bool" where
  "plugin_file_read root i \<longleftrightarrow> item_name (wi_path i) = ''.mcp.json'' \<and> \<not> wi_dir i
     \<and> (case wi_link i of
          Some target \<Rightarrow> (case target of None \<Rightarrow> False | Some t \<Rightarrow> path_within_root root t)
        | None \<Rightarrow> path_within_root root (wi_path i))"

definition read_plugin_file :: "walk_item \<Rightarrow> mcp_inventory_entry list result" where
  "read_plugin_file i =
     (case read_json_object (fst (wi_file i)) (snd (wi_file i)) of
        Inl _ \<Rightarrow> Inl ''could not read plugin MCP configuration''
      | Inr doc \<Rightarrow>
          (case server_table doc of
             None \<Rightarrow> Inl ''invalid plugin MCP configuration''
           | Some servers \<Rightarrow> inventory_entries_from_servers servers (map fst servers)))"

definition walk_plugin_item :: "string \<Rightarrow> walk_item result \<Rightarrow> mcp_inventory_entry list \<Rightarrow> mcp_inventory_entry list result" where
  "walk_plugin_item root item entries =
     bind_result item (\<lambda>i. if \<not> plugin_file_read root i then Inr entries
       else bind_result (read_plugin_file i) (\<lambda>es. Inr (entries @ es)))"

definition read_plugin_root :: "plugin_root \<Rightarrow> mcp_inventory_entry list result" where
  "read_plugin_root r =
     (case r of
        Root_Missing \<Rightarrow> Inr []
      | Root_Fault \<Rightarrow> Inl ''could not read plugin MCP configuration''
      | Root_File \<Rightarrow> Inr []
      | Root_Dir root items \<Rightarrow> for_each (walk_plugin_item (path_clean root)) items [])"

definition add_plugin_root :: "plugin_root \<Rightarrow> mcp_inventory_entry list \<Rightarrow> mcp_inventory_entry list result" where
  "add_plugin_root r entries = bind_result (read_plugin_root r) (\<lambda>es. Inr (entries @ es))"

definition read_desktop_mcp_inventory :: "config_file option \<Rightarrow> plugin_root list \<Rightarrow> mcp_inventory_entry list result" where
  "read_desktop_mcp_inventory config roots =
     (if config = None \<and> roots = [] then Inr []
      else bind_result (case config of None \<Rightarrow> Inr [] | Some f \<Rightarrow> read_claude_mcp_inventory f) (\<lambda>es.
        bind_result (for_each add_plugin_root roots es) validate_inventory))"

section \<open>Codex\<close>

text \<open>\<open>strconv.Unquote\<close> of a double-quoted literal, after its opening quote.\<close>

definition hex_number :: "string \<Rightarrow> nat" where
  "hex_number ds = foldl (\<lambda>n d. n * 16 + hex_val d) 0 ds"

definition octal_number :: "string \<Rightarrow> nat" where
  "octal_number ds = foldl (\<lambda>n d. n * 8 + (byte d - 48)) 0 ds"

definition is_octal :: "char \<Rightarrow> bool" where
  "is_octal c \<longleftrightarrow> 48 \<le> byte c \<and> byte c \<le> 55"

definition valid_rune :: "nat \<Rightarrow> bool" where
  "valid_rune r \<longleftrightarrow> r < 55296 \<or> (57343 < r \<and> r \<le> 1114111)"

definition simple_escapes :: "(char \<times> char) list" where
  "simple_escapes = [(CHR ''a'', CHR 0x07), (CHR ''b'', CHR 0x08), (CHR ''f'', CHR 0x0C), (CHR ''n'', CHR 0x0A),
     (CHR ''r'', CHR 0x0D), (CHR ''t'', CHR 0x09), (CHR ''v'', CHR 0x0B), (CHR 0x5C, CHR 0x5C), (CHR 0x22, CHR 0x22)]"

text \<open>An escape after its backslash: what it stands for and how many characters it has.\<close>

definition unquote_escape :: "string \<Rightarrow> (string \<times> nat) option" where
  "unquote_escape s =
     (case s of [] \<Rightarrow> None
      | c # r \<Rightarrow>
          (case map_of simple_escapes c of
             Some e \<Rightarrow> Some ([e], 1)
           | None \<Rightarrow>
               let digits = (\<lambda>n. length (take n r) = n \<and> list_all is_hex (take n r)); v = (\<lambda>n. hex_number (take n r)) in
               if c = CHR ''x'' then (if digits 2 then Some ([char_of (v 2)], 3) else None)
               else if c = CHR ''u'' then (if digits 4 \<and> valid_rune (v 4) then Some (encode_rune (v 4), 5) else None)
               else if c = CHR ''U'' then (if digits 8 \<and> valid_rune (v 8) then Some (encode_rune (v 8), 9) else None)
               else if is_octal c then
                 (if length (take 3 s) = 3 \<and> list_all is_octal (take 3 s) \<and> octal_number (take 3 s) \<le> 255
                  then Some ([char_of (octal_number (take 3 s))], 3) else None)
               else None))"

function unquote_text :: "string \<Rightarrow> string option" where
  "unquote_text [] = None"
| "unquote_text (c # s) =
     (if c = CHR 0x22 then if s = [] then Some [] else None
      else if c = newline then None
      else if c = CHR 0x5C then
        (case unquote_escape s of None \<Rightarrow> None | Some (e, n) \<Rightarrow> map_option (\<lambda>t. e @ t) (unquote_text (drop n s)))
      else map_option (\<lambda>t. rune_text (hd (runes (c # s))) @ t) (unquote_text (drop (utf8_size (c # s) - 1) s)))"
  by pat_completeness auto
termination
  by (relation "measure length") auto

definition inventory_toml_string :: "string \<Rightarrow> string result" where
  "inventory_toml_string raw =
     (let inner = butlast (tl raw) in
      if 2 \<le> length raw \<and> hd raw = CHR 0x27 \<and> last raw = CHR 0x27 \<and> CHR 0x27 \<notin> set inner then Inr inner
      else case raw of
          [] \<Rightarrow> Inl ''unsupported Codex MCP metadata syntax''
        | c # r \<Rightarrow>
            (case (if c = CHR 0x22 then unquote_text r else None) of
               None \<Rightarrow> Inl ''unsupported Codex MCP metadata syntax''
             | Some v \<Rightarrow> Inr v))"

text \<open>A line of a server's table.\<close>

definition read_inventory_line :: "string \<Rightarrow> mcp_inventory_entry \<Rightarrow> mcp_inventory_entry result" where
  "read_inventory_line line e =
     (let key = bare_key_of line; raw = (case cut_at (CHR ''='') (strip_line_comment line) of (_, r, _) \<Rightarrow> trim_space r) in
      if key = ''enabled'' then
        if raw \<noteq> ''true'' \<and> raw \<noteq> ''false'' then Inl ''invalid Codex MCP enabled flag''
        else Inr (e\<lparr>ie_enabled := (raw = ''true'')\<rparr>)
      else if key = ''url'' \<or> key = ''command'' then
        bind_result (inventory_toml_string raw) (\<lambda>v.
          Inr (if key = ''url'' then set_inventory_endpoint v e
               else if ie_endpoint e = None then e\<lparr>ie_transport := ''stdio''\<rparr> else e))
      else Inr e)"

definition nested_suffixes :: "string list" where
  "nested_suffixes = [''.env'', ''.http_headers'', ''.env_http_headers'']"

text \<open>A section; the state is the names seen and the entries so far.\<close>

definition read_inventory_section ::
  "string list \<Rightarrow> toml_section \<Rightarrow> string list \<times> mcp_inventory_entry list \<Rightarrow> (string list \<times> mcp_inventory_entry list) result" where
  "read_inventory_section managed s st =
     (case server_name s of
        None \<Rightarrow> if ts_key s = ''mcp_servers'' then Inl ''inline MCP tables are not supported for inventory'' else Inr st
      | Some name \<Rightarrow>
          if list_ex (has_suffix name) nested_suffixes then Inr st
          else if name \<in> set (fst st) then Inl ''duplicate Codex MCP table''
          else bind_result (for_each read_inventory_line (ts_body s) (new_inventory_entry name (name \<in> set managed))) (\<lambda>e.
            Inr (name # fst st, snd st @ [e])))"

definition read_codex_mcp_inventory :: "config_file \<Rightarrow> mcp_inventory_entry list result" where
  "read_codex_mcp_inventory f =
     (case read_toml_document (fst f) (snd f) of
        Inl _ \<Rightarrow> Inl ''could not read Codex MCP configuration''
      | Inr doc \<Rightarrow>
          bind_result (for_each (read_inventory_section (codex_managed_names doc)) doc ([], [])) (\<lambda>st.
            validate_inventory (snd st)))"

section \<open>Reporting\<close>

text \<open>
  The files of this machine: the Claude Code and Codex configurations, whether the Codex app is set up, and the
  Desktop configuration with its plugin roots. The report of a runtime whose configuration cannot be read is left
  out, so the control plane keeps the last one. The client is absent when the device has no identity.
\<close>

record inventory_host =
  iv_claude :: config_file
  iv_codex :: config_file
  iv_codex_desktop :: bool
  iv_desktop :: "(config_file option \<times> plugin_root list)"
  iv_observed :: "int \<Rightarrow> string"

definition inventory_sources :: "inventory_host \<Rightarrow> (string \<times> mcp_inventory_entry list result) list" where
  "inventory_sources h =
     [(''claude_code'', read_claude_mcp_inventory (iv_claude h)), (''codex'', read_codex_mcp_inventory (iv_codex h))]
     @ (if iv_codex_desktop h then [(''codex_desktop'', read_codex_mcp_inventory (iv_codex h))] else [])
     @ (if fst (iv_desktop h) = None \<and> snd (iv_desktop h) = [] then []
        else [(''claude_desktop'', read_desktop_mcp_inventory (fst (iv_desktop h)) (snd (iv_desktop h)))])"

definition inventory_report :: "inventory_host \<Rightarrow> string \<Rightarrow> int \<Rightarrow> mcp_inventory_entry list \<Rightarrow> mcp_inventory_report" where
  "inventory_report h runtime now entries =
     \<lparr>ir_schema_version = schema_version, ir_runtime = runtime, ir_observed_at = iv_observed h now, ir_entries = entries\<rparr>"

definition report_source :: "inventory_host \<Rightarrow> string \<Rightarrow> string \<times> mcp_inventory_entry list result \<Rightarrow> world \<Rightarrow> world" where
  "report_source h base src w =
     (case snd src of
        Inl _ \<Rightarrow> w
      | Inr entries \<Rightarrow>
          snd (report_mcp_inventory (with_timeout None (2 * second) w) base (inventory_report h (fst src) (wd_now w) entries) w))"

definition report_mcp_inventories :: "inventory_host \<Rightarrow> bool \<Rightarrow> string \<Rightarrow> world \<Rightarrow> world" where
  "report_mcp_inventories h client base w =
     (if \<not> client then w else fold (report_source h base) (inventory_sources h) w)"

definition desktop_mcp_inventory_paths :: "bool \<Rightarrow> string option \<Rightarrow> string \<Rightarrow> string \<Rightarrow> string \<times> string list" where
  "desktop_mcp_inventory_paths darwin home config extra =
     (let roots = (if extra = [] then [] else split_on (CHR '':'') extra) in
      if \<not> darwin \<or> (config \<noteq> [] \<and> roots \<noteq> []) then (config, roots)
      else case home of None \<Rightarrow> (config, roots)
        | Some h \<Rightarrow>
            (if config = [] then path_join [h, ''Library'', ''Application Support'', ''Claude'', ''claude_desktop_config.json''] else config,
             if roots = [] then [''/Library/Application Support/Claude/org-plugins'',
                path_join [h, ''Library'', ''Application Support'', ''Claude'', ''Claude Extensions'']] else roots))"

section \<open>What an entry can say\<close>

definition bare_char :: "char \<Rightarrow> bool" where
  "bare_char c \<longleftrightarrow> c \<noteq> CHR ''?'' \<and> c \<noteq> CHR ''#''"

definition clean_endpoint :: "string \<Rightarrow> bool" where
  "clean_endpoint v \<longleftrightarrow> (\<exists>scheme authority path. v = scheme @ ''://'' @ authority @ path
     \<and> (scheme = ''http'' \<or> scheme = ''https'') \<and> list_all (\<lambda>c. bare_char c \<and> c \<noteq> CHR ''@'' \<and> c \<noteq> slash) authority
     \<and> (path = [] \<or> hd path = slash) \<and> list_all bare_char path \<and> int (length v) \<le> max_endpoint)"

definition clean_entry :: "mcp_inventory_entry \<Rightarrow> bool" where
  "clean_entry e \<longleftrightarrow> (case ie_endpoint e of None \<Rightarrow> True | Some v \<Rightarrow> clean_endpoint v)
     \<and> ie_transport e \<in> {''unknown'', ''http'', ''sse'', ''stdio''}"

lemma hex_upper_plain: "n < 16 \<Longrightarrow> is_alnum (hex_upper n)"
  by (auto simp: hex_upper_def is_alnum_def is_digit_def is_upper_def byte_def)

lemma byte_hex: "is_alnum (hex_upper (byte c div 16))" "is_alnum (hex_upper (byte c mod 16))"
proof -
  have "byte c < 256" by (simp add: byte_def)
  then have "byte c div 16 < 16" by linarith
  then show "is_alnum (hex_upper (byte c div 16))" by (rule hex_upper_plain)
  show "is_alnum (hex_upper (byte c mod 16))" by (rule hex_upper_plain) simp
qed

lemma plain_bare: "path_valid_char c \<Longrightarrow> bare_char c" "is_alnum c \<Longrightarrow> path_valid_char c"
  by (auto simp: path_valid_char_def path_plain_def bare_char_def is_alnum_def is_digit_def is_lower_def is_upper_def byte_def)

lemma host_chars: "host_char c \<Longrightarrow> byte c < 128 \<Longrightarrow> bare_char c \<and> c \<noteq> CHR ''@'' \<and> c \<noteq> slash"
  by (auto simp: host_char_def bare_char_def slash_def byte_def is_alnum_def is_digit_def is_lower_def is_upper_def)

lemma alnum_host: "is_alnum c \<Longrightarrow> host_char c \<and> byte c < 128"
  by (auto simp: host_char_def is_alnum_def is_digit_def is_lower_def is_upper_def)

lemma escape_host_clean: "list_all (\<lambda>c. bare_char c \<and> c \<noteq> CHR ''@'' \<and> c \<noteq> slash) (escape_host h)"
proof (induction h)
  case (Cons c h)
  have "bare_char d \<and> d \<noteq> CHR ''@'' \<and> d \<noteq> slash" if "is_alnum d" for d
    using alnum_host [OF that] host_chars by blast
  moreover have "bare_char (CHR ''%'') \<and> CHR ''%'' \<noteq> slash" by (simp add: bare_char_def slash_def)
  ultimately show ?case using Cons host_chars [of c] byte_hex [of c] by (simp add: escape_host_def)
qed (simp add: escape_host_def)

lemma escape_path_clean: "list_all bare_char (escape_path p)"
proof (induction p)
  case (Cons c p)
  have "bare_char d" if "is_alnum d" for d using plain_bare that by blast
  moreover have "bare_char (CHR ''%'')" by (simp add: bare_char_def)
  moreover have "path_plain c \<Longrightarrow> bare_char c" using plain_bare(1) by (simp add: path_valid_char_def)
  ultimately show ?case using Cons byte_hex [of c] by (simp add: escape_path_def)
qed (simp add: escape_path_def)

lemma escaped_path_clean: "list_all bare_char (escaped_path u)"
  using plain_bare(1) escape_path_clean [of "u_path u"]
  by (auto simp: escaped_path_def list_all_iff bare_char_def)

lemma unescape_slash: "unescape (CHR ''/'' # s) = Some p \<Longrightarrow> \<exists>t. p = CHR ''/'' # t"
  by (cases s rule: unescape.cases) (auto split: if_splits)

lemma path_rooted:
  assumes "parse_url raw = Some u" and "u_host u \<noteq> []"
  shows "escaped_path u = [] \<or> hd (escaped_path u) = slash"
proof -
  from assms(1) obtain v where v: "parse_url_nofrag False (fst (cut_at (CHR ''#'') raw)) = Some v"
    and u: "u_host u = u_host v" "u_path u = u_path v" "u_raw_path u = u_raw_path v"
    by (auto simp: parse_url_def split: prod.splits option.splits)
  from v obtain scheme rest where r: "parse_url_rest False scheme rest = Some v"
    by (auto simp: parse_url_nofrag_def split: if_splits option.splits)
  have raw: "u_raw_path v = [] \<or> hd (u_raw_path v) = slash" and up: "unescape (u_raw_path v) = Some (u_path v)"
    using r assms(2) u(1) hd_dropWhile [of "\<lambda>c. c \<noteq> CHR ''/''" "drop 2 (fst (cut_at (CHR ''?'') rest))"]
    by (auto simp: parse_url_rest_def Let_def slash_def split: prod.splits if_splits option.splits)
  show ?thesis
  proof (cases "u_raw_path v")
    case Nil
    with up u show ?thesis by (auto simp: escaped_path_def escape_path_def)
  next
    case (Cons c s)
    with raw have "u_raw_path v = CHR ''/'' # s" by (simp add: slash_def)
    with up unescape_slash [of s "u_path v"] u show ?thesis
      by (auto simp: escaped_path_def escape_path_def slash_def path_plain_def)
  qed
qed

lemma clean_new [simp]: "clean_entry (new_inventory_entry n m)"
  by (simp add: clean_entry_def new_inventory_entry_def)

lemma bare_url_clean:
  assumes "parse_url raw = Some u" and "u_host u \<noteq> []" and "u_scheme u = ''http'' \<or> u_scheme u = ''https''"
    and "int (length (bare_url_text u)) \<le> max_endpoint"
  shows "clean_endpoint (bare_url_text u)"
  unfolding clean_endpoint_def
  using assms path_rooted [OF assms(1,2)] escape_host_clean [of "u_host u"] escaped_path_clean [of u]
  by (intro exI [of _ "u_scheme u"] exI [of _ "escape_host (u_host u)"] exI [of _ "escaped_path u"])
    (simp add: bare_url_text_def)

lemma clean_set_endpoint: "clean_entry e \<Longrightarrow> clean_entry (set_inventory_endpoint raw e)"
  using bare_url_clean [of raw]
  by (auto simp: set_inventory_endpoint_def clean_entry_def Let_def split: option.split)

lemma clean_transport: "clean_entry e \<Longrightarrow> clean_entry (inventory_transport c e)"
  by (auto simp: clean_entry_def inventory_transport_def split: option.splits any.splits)

lemma clean_enabled: "clean_entry e \<Longrightarrow> clean_entry (inventory_enabled c e)"
  by (auto simp: clean_entry_def inventory_enabled_def split: option.splits)

lemma inventory_entry_clean: "inventory_entry m n raw = Inr e \<Longrightarrow> clean_entry e"
  by (auto simp: inventory_entry_def split: any.splits option.splits intro!: clean_enabled clean_transport clean_set_endpoint)

abbreviation all_clean :: "mcp_inventory_entry list \<Rightarrow> bool" where
  "all_clean \<equiv> list_all clean_entry"

lemma servers_clean: "inventory_entries_from_servers servers managed = Inr es \<Longrightarrow> all_clean es"
  unfolding inventory_entries_from_servers_def
  by (erule for_each_invariant [where P = all_clean]) (auto simp: add_inventory_entry_def inventory_entry_clean)

lemma validated_inventory:
  "validate_inventory es = Inr es' \<Longrightarrow> set es' = set es \<and> int (length es') \<le> 256
     \<and> list_all (\<lambda>e. valid_entry_name (ie_name e)) es' \<and> sorted (map ie_name es')"
  by (auto simp: validate_inventory_def list_all_iff sort_on_eq split: if_splits)

text \<open>What every report holds.\<close>

definition reportable :: "mcp_inventory_entry list \<Rightarrow> bool" where
  "reportable es \<longleftrightarrow> all_clean es \<and> int (length es) \<le> 256
     \<and> list_all (\<lambda>e. valid_entry_name (ie_name e)) es \<and> sorted (map ie_name es)"

lemma reportable_validated: "validate_inventory es = Inr es' \<Longrightarrow> all_clean es \<Longrightarrow> reportable es'"
  using validated_inventory [of es es'] by (auto simp: reportable_def list_all_iff)

lemma claude_reportable: "read_claude_mcp_inventory f = Inr es \<Longrightarrow> reportable es"
  by (auto simp: read_claude_mcp_inventory_def split: sum.splits option.splits dest!: servers_clean intro: reportable_validated)

lemma plugin_file_clean: "read_plugin_file i = Inr es \<Longrightarrow> all_clean es"
  by (auto simp: read_plugin_file_def split: sum.splits option.splits dest: servers_clean)

lemma plugin_root_clean: "read_plugin_root r = Inr es \<Longrightarrow> all_clean es"
proof -
  have "for_each (walk_plugin_item root) items [] = Inr es \<Longrightarrow> all_clean es" for root items
    by (erule for_each_invariant [where P = all_clean]) (auto simp: walk_plugin_item_def split: if_splits dest: plugin_file_clean)
  then show "read_plugin_root r = Inr es \<Longrightarrow> all_clean es"
    by (auto simp: read_plugin_root_def split: plugin_root.splits)
qed

lemma desktop_reportable: "read_desktop_mcp_inventory c roots = Inr es \<Longrightarrow> reportable es"
proof -
  assume r: "read_desktop_mcp_inventory c roots = Inr es"
  have more: "for_each add_plugin_root roots es1 = Inr es2 \<Longrightarrow> all_clean es1 \<Longrightarrow> all_clean es2" for es1 es2
    by (erule for_each_invariant [where P = all_clean]) (auto simp: add_plugin_root_def dest: plugin_root_clean)
  have "all_clean es1" if "(case c of None \<Rightarrow> Inr [] | Some f \<Rightarrow> read_claude_mcp_inventory f) = Inr es1" for es1
    using that claude_reportable by (auto simp: reportable_def split: option.splits)
  then have "bind_result (case c of None \<Rightarrow> Inr [] | Some f \<Rightarrow> read_claude_mcp_inventory f)
      (\<lambda>es. bind_result (for_each add_plugin_root roots es) validate_inventory) = Inr es \<Longrightarrow> reportable es"
    using more reportable_validated unfolding bind_result_Inr by blast
  with r show ?thesis
    by (cases "c = None \<and> roots = []") (auto simp: read_desktop_mcp_inventory_def reportable_def simp del: bind_result_Inr)
qed

lemma inventory_line_clean: "read_inventory_line l e = Inr e' \<Longrightarrow> clean_entry e \<Longrightarrow> clean_entry e'"
  by (auto simp: read_inventory_line_def Let_def split: if_splits prod.splits intro: clean_set_endpoint)
     (auto simp: clean_entry_def)

lemma codex_reportable: "read_codex_mcp_inventory f = Inr es \<Longrightarrow> reportable es"
proof -
  assume r: "read_codex_mcp_inventory f = Inr es"
  have lines: "for_each read_inventory_line ls e = Inr e' \<Longrightarrow> clean_entry e \<Longrightarrow> clean_entry e'" for ls e e'
    by (erule for_each_invariant [where P = clean_entry]) (auto intro: inventory_line_clean)
  have "all_clean (snd st)" if "for_each (read_inventory_section m) d ([], []) = Inr st" for m d st
    using that
    by (rule for_each_invariant [where P = "\<lambda>st. all_clean (snd st)"])
      (auto simp: read_inventory_section_def split: option.splits if_splits intro: lines [OF _ clean_new])
  with r show ?thesis
    by (auto simp: read_codex_mcp_inventory_def split: sum.splits intro: reportable_validated)
qed

section \<open>Properties\<close>

lemma sources_reportable: "src \<in> set (inventory_sources h) \<Longrightarrow> snd src = Inr es \<Longrightarrow> reportable es"
  using claude_reportable [of "iv_claude h" es] codex_reportable [of "iv_codex h" es]
    desktop_reportable [of "fst (iv_desktop h)" "snd (iv_desktop h)" es]
  by (auto simp: inventory_sources_def split: if_splits)

text \<open>A request that reports the entries read for one runtime.\<close>

definition faithful_report :: "inventory_host \<Rightarrow> http_request \<Rightarrow> bool" where
  "faithful_report h rq \<longleftrightarrow> (\<exists>runtime es now. (runtime, Inr es) \<in> set (inventory_sources h) \<and> reportable es
     \<and> hq_body rq = marshal_inventory (inventory_report h runtime now es))"

lemma evolves_mono: "evolves P w w' \<Longrightarrow> (\<And>rq. P rq \<Longrightarrow> Q rq) \<Longrightarrow> evolves Q w w'"
  by (fastforce simp: evolves_def list_all_iff)

lemma evolves_report:
  assumes "\<And>u. runtime_session_url (wd_allow_insecure w) base ''/runtime/devices/mcp-inventory'' = Inr u \<Longrightarrow>
     P \<lparr>hq_method = ''POST'', hq_url = u, hq_headers = [(''Content-Type'', ''application/json'')], hq_body = marshal_inventory report\<rparr>"
  shows "evolves P w (snd (report_mcp_inventory c base report w))"
  using assms evolves_client_do [of P _ w c]
  by (auto simp: report_mcp_inventory_def io_bind_def io_lift_def split: sum.splits prod.splits)
     (metis snd_conv)+

lemma evolves_source:
  assumes "src \<in> set (inventory_sources h)"
  shows "evolves (\<lambda>rq. trusted_request (wd_allow_insecure w) base ''/runtime/'' rq \<and> faithful_report h rq) w (report_source h base src w)"
proof (cases "snd src")
  case (Inr es)
  have "has_prefix ''/runtime/devices/mcp-inventory'' ''/runtime/''" by code_simp
  moreover have "faithful_report h \<lparr>hq_method = ''POST'', hq_url = u, hq_headers = [(''Content-Type'', ''application/json'')],
      hq_body = marshal_inventory (inventory_report h (fst src) (wd_now w) es)\<rparr>" for u
    unfolding faithful_report_def using assms Inr sources_reportable [OF assms Inr]
    by (intro exI [of _ "fst src"] exI [of _ es] exI [of _ "wd_now w"]) (metis http_request.select_convs(4) prod.collapse)
  ultimately show ?thesis
    by (simp add: report_source_def Inr) (intro evolves_report conjI; simp add: runtime_session_url_ok)
qed (simp add: report_source_def)

text \<open>
  C29. What leaves the machine: requests to the configured control plane only, each the report of one runtime whose
  configuration could be read. An entry says a name, one of four transports and at most a scheme, a host and a path:
  no user information, no query, no fragment, nothing of headers, environment or commands.
\<close>

theorem inventory_reports_no_secrets:
  "evolves (\<lambda>rq. trusted_request (wd_allow_insecure w) base ''/runtime/'' rq \<and> faithful_report h rq) w
     (report_mcp_inventories h client base w)"
proof -
  have "evolves (\<lambda>rq. trusted_request (wd_allow_insecure w) base ''/runtime/'' rq \<and> faithful_report h rq) w (fold (report_source h base) srcs w)"
    if "set srcs \<subseteq> set (inventory_sources h)" for srcs
    using that
  proof (induction srcs arbitrary: w)
    case (Cons src srcs)
    let ?w1 = "report_source h base src w"
    have one: "evolves (\<lambda>rq. trusted_request (wd_allow_insecure w) base ''/runtime/'' rq \<and> faithful_report h rq) w ?w1"
      using Cons.prems by (intro evolves_source) simp
    from evolves_env [OF this] Cons.IH [of ?w1] Cons.prems have
      "evolves (\<lambda>rq. trusted_request (wd_allow_insecure w) base ''/runtime/'' rq \<and> faithful_report h rq) ?w1 (fold (report_source h base) srcs ?w1)"
      by simp
    with one show ?case by (simp add: evolves_trans)
  qed simp
  then show ?thesis by (simp add: report_mcp_inventories_def)
qed

text \<open>A configuration that cannot be read is left out, and does not keep the others from being reported.\<close>

lemma one_report:
  assumes "runtime_session_url (wd_allow_insecure w) base ''/runtime/devices/mcp-inventory'' = Inr u"
  shows "wd_calls (report_source h base src w) = wd_calls w + (if is_ok (snd src) then 1 else 0)"
proof (cases "snd src")
  case (Inr es)
  have "\<not> ctx_done (with_timeout None (2 * second) w) (wd_now w)" by (simp add: with_timeout_def ctx_done_def second_def)
  then have "wd_calls (snd (client_do (with_timeout None (2 * second) w) rq w)) = Suc (wd_calls w)" for rq
    by (simp add: client_do_def Let_def split: reply.split)
  then show ?thesis using assms
    by (simp add: report_source_def Inr report_mcp_inventory_def io_bind_def io_lift_def split: sum.split prod.split)
      (metis snd_conv)
qed (simp add: report_source_def)

theorem inventories_reported_independently:
  assumes "runtime_session_url (wd_allow_insecure w) base ''/runtime/devices/mcp-inventory'' = Inr u"
  shows "wd_calls (report_mcp_inventories h True base w)
    = wd_calls w + length (filter (\<lambda>src. is_ok (snd src)) (inventory_sources h))"
proof -
  have "wd_calls (fold (report_source h base) srcs w1) = wd_calls w1 + length (filter (\<lambda>src. is_ok (snd src)) srcs)"
    if "set srcs \<subseteq> set (inventory_sources h)" and "wd_allow_insecure w1 = wd_allow_insecure w" for srcs w1
    using that
  proof (induction srcs arbitrary: w1)
    case (Cons src srcs)
    have "evolves (\<lambda>rq. trusted_request (wd_allow_insecure w1) base ''/runtime/'' rq \<and> faithful_report h rq) w1 (report_source h base src w1)"
      using Cons.prems(1) by (intro evolves_source) simp
    then have "wd_allow_insecure (report_source h base src w1) = wd_allow_insecure w" using Cons.prems(2) by (simp add: evolves_def)
    with Cons one_report [of w1 base u h src] assms show ?case by simp
  qed simp
  then show ?thesis by (simp add: report_mcp_inventories_def)
qed

text \<open>
  Under a plugin root only regular files of the one name are read, in the root, or links of that name that lead into
  the root: an absolute link target that does not lie below the root contributes nothing.
\<close>

theorem plugin_files_confined:
  assumes "is_abs root"
  shows "read_plugin_root (Root_Dir root items)
     = read_plugin_root (Root_Dir root (filter (\<lambda>i. case i of Inl _ \<Rightarrow> True | Inr i \<Rightarrow> plugin_file_read (path_clean root) i) items))
   \<and> (is_abs t \<longrightarrow> wi_link i = Some (Some t) \<longrightarrow> plugin_file_read (path_clean root) i \<longrightarrow> prefix (path_parts root) (path_parts t))"
proof -
  have skipped: "for_each (walk_plugin_item r) items es
      = for_each (walk_plugin_item r) (filter (\<lambda>i. case i of Inl _ \<Rightarrow> True | Inr i \<Rightarrow> plugin_file_read r i) items) es" for r es
  proof (induction items arbitrary: es)
    case (Cons i items)
    let ?P = "\<lambda>i. case i of Inl _ \<Rightarrow> True | Inr i \<Rightarrow> plugin_file_read r i"
    have rest: "for_each (walk_plugin_item r) items = for_each (walk_plugin_item r) (filter ?P items)"
      using Cons.IH by (intro ext)
    have skip: "\<not> ?P i \<Longrightarrow> walk_plugin_item r i es = Inr es" by (cases i) (auto simp: walk_plugin_item_def)
    show ?case
    proof (cases "?P i")
      case True
      have "for_each (walk_plugin_item r) (i # items) es = bind_result (walk_plugin_item r i es) (for_each (walk_plugin_item r) (filter ?P items))"
        by (simp only: for_each.simps rest [symmetric])
      with True show ?thesis by simp
    next
      case False
      with skip [OF False] Cons.IH [of es] show ?thesis by simp
    qed
  qed simp
  have confined: "prefix (path_parts root) (path_parts t)" if t: "is_abs t" "path_within_root (path_clean root) t"
  proof -
    let ?r = "path_clean (path_clean root)" and ?t = "path_clean t"
    have abs: "is_abs ?r" "is_abs ?t" using assms t(1) by (simp_all add: clean_abs)
    from t(2) obtain rel where rel: "path_rel ?r ?t = Inr rel" "rel \<noteq> ''..''" "\<not> has_prefix rel ''../''"
      by (auto simp: path_within_root_def split: sum.splits)
    then have "within_path ?r ?t" using rel_not_abs [OF abs rel(1)] by (simp add: within_path_def)
    with within_abs [OF abs] show ?thesis using assms t(1) by (simp add: parts_clean clean_abs)
  qed
  have "read_plugin_root (Root_Dir root items)
     = read_plugin_root (Root_Dir root (filter (\<lambda>i. case i of Inl _ \<Rightarrow> True | Inr i \<Rightarrow> plugin_file_read (path_clean root) i) items))"
    unfolding read_plugin_root_def plugin_root.case by (rule skipped)
  moreover have "path_within_root (path_clean root) t" if "wi_link i = Some (Some t)" "plugin_file_read (path_clean root) i"
    using that by (simp add: plugin_file_read_def)
  ultimately show ?thesis using confined by blast
qed

text \<open>A nested table that is none of the three listed is reported as a server of its own.\<close>

lemma nested_table_reported:
  "read_inventory_section [] \<lparr>ts_key = ''mcp_servers.x.tools'', ts_header = ''[mcp_servers.x.tools]'', ts_body = []\<rparr> ([], [])
     = Inr ([''x.tools''], [new_inventory_entry ''x.tools'' False])"
  by code_simp

end
