(* ===== verification/Reset.thy ===== *)
theory Reset
  imports Config Claude_Mcp Session_Renew
begin

text \<open>
  \<^verbatim>\<open>internal/cli/reset.go\<close> and \<^verbatim>\<open>path_safety.go\<close>: deleting the local state. A plan is made and shown;
  then the daemon is stopped, the saved sessions are revoked, the settings are edited and what was planned is
  deleted, entry by entry. Other processes may change the disk in between. Lemmas: no link is followed, nothing is
  deleted that was not shown, the user's settings are never deleted, and nothing is deleted before every live
  session is revoked.
\<close>

section \<open>The disk\<close>

text \<open>Entries by the parts of their absolute path, and which system calls fail.\<close>

datatype disk_node = File string | Dir | Link | Special

record disk =
  dk_nodes :: "(string list \<times> disk_node) list"
  dk_lstat_fault :: "string list \<Rightarrow> string option"
  dk_remove_fault :: "string list \<Rightarrow> string option"

definition lookup_node :: "disk \<Rightarrow> string list \<Rightarrow> disk_node option" where
  "lookup_node dk ps = map_of (dk_nodes dk) ps"

definition lstat :: "disk \<Rightarrow> string list \<Rightarrow> disk_node option result" where
  "lstat dk ps = (case dk_lstat_fault dk ps of Some e \<Rightarrow> Inl e | None \<Rightarrow> Inr (lookup_node dk ps))"

definition parts_path :: "string list \<Rightarrow> string" where
  "parts_path ps = slash # join_with [slash] ps"

text \<open>\<open>filepath.WalkDir\<close> goes through a tree in the order of the parts.\<close>

definition subtree :: "disk \<Rightarrow> string list \<Rightarrow> string list list" where
  "subtree dk ps = sort_on id (remdups (filter (prefix ps) (map fst (dk_nodes dk))))"

datatype removal = Removed disk | Missing | Refused string

definition delete_node :: "string list \<Rightarrow> disk \<Rightarrow> disk" where
  "delete_node ps dk = dk\<lparr>dk_nodes := filter (\<lambda>(qs, _). qs \<noteq> ps) (dk_nodes dk)\<rparr>"

definition put_node :: "string list \<Rightarrow> disk_node \<Rightarrow> disk \<Rightarrow> disk" where
  "put_node ps n dk = dk\<lparr>dk_nodes := (ps, n) # dk_nodes dk\<rparr>"

text \<open>\<open>os.Remove\<close> refuses a directory that is not empty.\<close>

definition remove_at :: "disk \<Rightarrow> string list \<Rightarrow> removal" where
  "remove_at dk ps =
     (case dk_remove_fault dk ps of
        Some e \<Rightarrow> Refused e
      | None \<Rightarrow>
          (case lookup_node dk ps of
             None \<Rightarrow> Missing
           | Some n \<Rightarrow>
               if n = Dir \<and> list_ex (\<lambda>qs. prefix ps qs \<and> qs \<noteq> ps) (map fst (dk_nodes dk)) then Refused ''directory not empty''
               else Removed (delete_node ps dk)))"

section \<open>Path safety\<close>

definition path_equal :: "string \<Rightarrow> string \<Rightarrow> bool" where
  "path_equal a b \<longleftrightarrow> path_clean a = path_clean b"

definition not_linked :: "disk \<Rightarrow> string list \<Rightarrow> unit \<Rightarrow> unit result" where
  "not_linked dk ps u = bind_result (lstat dk ps) (\<lambda>n. fail_if (n = Some Link) ''refusing symlink or junction'')"

definition ancestors :: "string list \<Rightarrow> string list list" where
  "ancestors ps = map (\<lambda>n. take n ps) (rev [0..<Suc (length ps)])"

definition no_linked_path :: "disk \<Rightarrow> string \<Rightarrow> unit result" where
  "no_linked_path dk p =
     (if \<not> is_abs p then Inl ''path must be absolute'' else for_each (not_linked dk) (ancestors (path_parts p)) ())"

text \<open>The home and working directories and the executable, each as the operating system tells it.\<close>

definition spared_by :: "string \<Rightarrow> string result \<Rightarrow> unit \<Rightarrow> unit result" where
  "spared_by root place u =
     bind_result place (\<lambda>p. fail_if (within_path root p) ''refusing to reset a home, working directory, executable, or its ancestor'')"

definition validate_reset_root :: "disk \<Rightarrow> string result list \<Rightarrow> string \<Rightarrow> unit result" where
  "validate_reset_root dk places root0 =
     (if \<not> is_abs root0 then Inl ''reset data directory must be absolute''
      else let root = path_clean root0 in
        if path_dir root = root then Inl ''refusing to reset a filesystem root''
        else bind_result (for_each (spared_by root) places ()) (\<lambda>_. no_linked_path dk root))"

definition tree_member_ok :: "disk \<Rightarrow> string \<Rightarrow> string list \<Rightarrow> unit \<Rightarrow> unit result" where
  "tree_member_ok dk p ps u =
     (if \<not> within_path p (parts_path ps) then Inl ''reset path escaped its planned root'' else not_linked dk ps u)"

definition validate_reset_tree :: "disk \<Rightarrow> string \<Rightarrow> unit result" where
  "validate_reset_tree dk p =
     bind_result (no_linked_path dk p) (\<lambda>_. bind_result (lstat dk (path_parts p)) (\<lambda>n.
       case n of None \<Rightarrow> Inr () | Some _ \<Rightarrow> for_each (tree_member_ok dk p) (subtree dk (path_parts p)) ()))"

section \<open>Planning\<close>

record reset_target =
  rt_path :: string
  rt_tree :: bool
  rt_members :: "string list"
  rt_skill :: "string option"

definition file_target :: "string \<Rightarrow> reset_target" where
  "file_target p = \<lparr>rt_path = p, rt_tree = False, rt_members = [], rt_skill = None\<rparr>"

text \<open>\<open>readAgentSkill\<close>: absent, or the text of a regular file of at most 1 MiB.\<close>

definition read_agent_skill :: "disk \<Rightarrow> string \<Rightarrow> string option result" where
  "read_agent_skill dk p =
     bind_result (no_linked_path dk p) (\<lambda>_. bind_result (lstat dk (path_parts p)) (\<lambda>n.
       case n of None \<Rightarrow> Inr None
       | Some (File t) \<Rightarrow> if 1048576 < int (length t) then Inl ''expected a regular skill file under 1 MiB'' else Inr (Some t)
       | Some _ \<Rightarrow> Inl ''expected a regular skill file under 1 MiB''))"

record reset_host =
  rh_platform :: "unit result"
  rh_platform_path :: "string \<Rightarrow> string \<Rightarrow> unit result"
  rh_home :: "string result"
  rh_dir :: "string result"
  rh_executable :: "string result"
  rh_managed_skill :: "string \<Rightarrow> bool"

definition agent_skill_path :: "reset_host \<Rightarrow> config \<Rightarrow> bool \<Rightarrow> string result" where
  "agent_skill_path h cfg codex =
     bind_result (if codex then bind_result (rh_home h) (\<lambda>home. Inr (path_join [home, ''.agents'', ''skills'']))
        else Inr (path_join [path_dir (cf_claude_settings_path cfg), ''skills''])) (\<lambda>root.
       let p = path_join [root, ''keydris-authority'', ''SKILL.md''] in
       if \<not> is_abs p \<or> contains_any p [CHR 0x00, CHR 0x0D, CHR 0x0A] then Inl ''skill location must be an absolute path''
       else bind_result (rh_platform_path h ''Agent skill'' p) (\<lambda>_. Inr p))"

definition skill_paths :: "reset_host \<Rightarrow> config \<Rightarrow> string list" where
  "skill_paths h cfg =
     List.map_filter (\<lambda>c. case agent_skill_path h cfg c of Inl _ \<Rightarrow> None | Inr p \<Rightarrow> Some p) [False, True]"

definition skill_target :: "reset_host \<Rightarrow> disk \<Rightarrow> string \<Rightarrow> reset_target option" where
  "skill_target h dk p =
     (case read_agent_skill dk p of
        Inr (Some raw) \<Rightarrow> if rh_managed_skill h raw then Some ((file_target p)\<lparr>rt_skill := Some raw\<rparr>) else None
      | _ \<Rightarrow> None)"

definition covers :: "reset_target \<Rightarrow> string \<Rightarrow> bool" where
  "covers t p \<longleftrightarrow> path_equal (rt_path t) p \<or> (rt_tree t \<and> within_path (rt_path t) p)"

definition add_target :: "disk \<Rightarrow> string \<Rightarrow> string \<times> bool \<Rightarrow> reset_target list \<Rightarrow> reset_target list result" where
  "add_target dk data item targets =
     (case item of (p0, tree) \<Rightarrow>
        let p = path_clean p0 in
        if path_equal p data then Inl ''a runtime file points at the data directory itself''
        else bind_result (no_linked_path dk p) (\<lambda>_. bind_result (lstat dk (path_parts p)) (\<lambda>n.
          case n of
            None \<Rightarrow> Inr (if path_equal p (path_join [data, ''proxy.lock'']) then targets @ [file_target p] else targets)
          | Some nd \<Rightarrow>
              if \<not> tree \<and> nd = Dir then Inl ''expected a file, got directory''
              else bind_result (if tree then validate_reset_tree dk p else Inr ()) (\<lambda>_.
                if list_ex (\<lambda>t. covers t p) targets then Inr targets
                else Inr (targets @ [\<lparr>rt_path = p, rt_tree = tree,
                  rt_members = (if tree then map parts_path (subtree dk (path_parts p)) else []), rt_skill = None\<rparr>])))))"

text \<open>The entries of the data directory but for the user's privacy choice and the guard.\<close>

definition data_entries :: "disk \<Rightarrow> string \<Rightarrow> (string \<times> bool) list result" where
  "data_entries dk data =
     bind_result (lstat dk (path_parts data)) (\<lambda>n.
       case n of
         None \<Rightarrow> Inr []
       | Some Dir \<Rightarrow>
           let ps = path_parts data;
               children = filter (\<lambda>qs. butlast qs = ps \<and> qs \<noteq> []) (subtree dk ps);
               kept = filter (\<lambda>qs. last qs \<notin> {''telemetry.json'', ''.reset-in-progress''}) children
           in Inr (map (\<lambda>qs. (path_join [data, last qs], lookup_node dk qs = Some Dir)) kept)
       | Some _ \<Rightarrow> Inl ''not a directory'')"

definition fixed_items :: "config \<Rightarrow> (string \<times> bool) list" where
  "fixed_items cfg =
     (let d = cf_data_dir cfg; i = cf_identity_dir cfg in
      map (\<lambda>p. (p, False))
        [cf_ca_path cfg, cf_ca_key_path cfg, cf_ca_bundle_path cfg, cf_client_ca_path cfg, cf_client_ca_key_path cfg,
         cf_signing_key_path cfg, cf_session_auth_file cfg, cf_session_socket cfg,
         path_join [d, ''proxy.pid''], path_join [d, ''agent-id''], path_join [d, ''proxy.lock''], path_join [d, ''policy-id''],
         path_join [d, ''managed-destinations.json''], path_join [i, ''client.key''], path_join [i, ''client.crt''],
         path_join [i, ''ca.crt''], path_join [i, ''whoami.json''], path_join [i, ''device-id'']]
      @ [(path_join [d, ''sessions''], True), (path_join [d, ''claude-desktop''], True),
         (path_join [d, ''claude-desktop-launch.json''], False), (path_join [d, ''codex-desktop''], True),
         (path_join [d, ''codex''], True)])"

definition ledger_item :: "config \<Rightarrow> bool \<Rightarrow> (string \<times> bool) list" where
  "ledger_item cfg all =
     (if all \<and> \<not> within_path (cf_data_dir cfg) (cf_ledger_path cfg) then [(cf_ledger_path cfg, False)] else [])"

definition settings_paths :: "config \<Rightarrow> string list" where
  "settings_paths cfg = [cf_claude_settings_path cfg, cf_codex_hooks_path cfg, cf_claude_mcp_config_path cfg]"

definition settings_file_ok :: "disk \<Rightarrow> string \<Rightarrow> unit \<Rightarrow> unit result" where
  "settings_file_ok dk p u =
     bind_result (no_linked_path dk p) (\<lambda>_. bind_result (lstat dk (path_parts p)) (\<lambda>n.
       case n of None \<Rightarrow> Inr () | Some (File _) \<Rightarrow> Inr () | Some _ \<Rightarrow> Inl ''not a settings file''))"

definition home_config :: "reset_host \<Rightarrow> string list" where
  "home_config h = (case rh_home h of Inl _ \<Rightarrow> [] | Inr home \<Rightarrow> [path_join [home, ''.keydris.toml'']])"

definition protected_paths :: "reset_host \<Rightarrow> config \<Rightarrow> string list" where
  "protected_paths h cfg = settings_paths cfg @ skill_paths h cfg @ home_config h"

definition target_allowed :: "reset_host \<Rightarrow> config \<Rightarrow> reset_target \<Rightarrow> unit \<Rightarrow> unit result" where
  "target_allowed h cfg t u =
     (if list_ex (covers t) (settings_paths cfg @ skill_paths h cfg) then Inl ''reset target overlaps integration settings''
      else fail_if (list_ex (covers t) (home_config h)) ''reset target overlaps user configuration'')"

definition plan_reset :: "reset_host \<Rightarrow> config \<Rightarrow> bool \<Rightarrow> disk \<Rightarrow> reset_target list result" where
  "plan_reset h cfg all dk =
     bind_result (validate_paths (rh_platform h) (rh_platform_path h) cfg) (\<lambda>_.
     bind_result (validate_reset_root dk [rh_home h, rh_dir h, rh_executable h] (cf_data_dir cfg)) (\<lambda>_.
     bind_result (for_each (settings_file_ok dk) (settings_paths cfg) ()) (\<lambda>_.
     bind_result (if all then data_entries dk (cf_data_dir cfg) else Inr []) (\<lambda>entries.
     bind_result (for_each (add_target dk (cf_data_dir cfg)) (entries @ fixed_items cfg @ ledger_item cfg all) []) (\<lambda>targets.
     bind_result (for_each (target_allowed h cfg) targets ()) (\<lambda>_.
       Inr (sort_on rt_path (targets @ List.map_filter (skill_target h dk) (skill_paths h cfg)))))))))"

section \<open>Sessions\<close>

text \<open>The session files as the state directory holds them, and what the process table says of an owner.\<close>

datatype pid_identity = Not_Running | Unknown_Process | Running string

definition owner_gone :: "(int \<Rightarrow> pid_identity) \<Rightarrow> session_state \<Rightarrow> unit result" where
  "owner_gone identify st =
     (if st_owner_pid st \<le> 0 then Inr ()
      else case identify (st_owner_pid st) of
          Not_Running \<Rightarrow> Inr ()
        | Unknown_Process \<Rightarrow> Inl ''cannot verify session owner''
        | Running current \<Rightarrow>
            fail_if (st_owner_identity st = [] \<or> current = st_owner_identity st) ''close the agent session before resetting'')"

definition check_session :: "(int \<Rightarrow> pid_identity) \<Rightarrow> durable \<Rightarrow> string \<Rightarrow> session_state list \<Rightarrow> session_state list result" where
  "check_session identify d name sts =
     bind_result (load_state (trim_suffix name ''.json'') d) (\<lambda>st.
       bind_result (owner_gone identify st) (\<lambda>_. Inr (sts @ [st])))"

definition reset_sessions :: "(int \<Rightarrow> pid_identity) \<Rightarrow> durable result \<Rightarrow> session_state list result" where
  "reset_sessions identify files =
     bind_result files (\<lambda>d.
       for_each (check_session identify d) (filter (\<lambda>n. has_suffix n ''.json'') (sort_on id (remdups (map fst d)))) [])"

text \<open>Revocation of one session under the budget of the whole operation; the client may be unusable.\<close>

definition session_expired :: "int \<Rightarrow> session_state \<Rightarrow> bool" where
  "session_expired now st = (case parse_rfc3339 (st_expires_at st) of None \<Rightarrow> False | Some t \<Rightarrow> t \<le> now)"

fun revoke_reset_sessions :: "unit result \<Rightarrow> ctx \<Rightarrow> string \<Rightarrow> session_state list \<Rightarrow> unit io" where
  "revoke_reset_sessions client c base [] w = (Inr (), w)"
| "revoke_reset_sessions client c base (st # sts) w =
     (if session_expired (wd_now w) st then revoke_reset_sessions client c base sts w
      else case client of
          Inl e \<Rightarrow> (Inl e, w)
        | Inr _ \<Rightarrow>
            (case revoke_kit_session (with_timeout c (5 * second) w) base (st_ulid st) w of
               (Inl e, w1) \<Rightarrow> (Inl (''could not revoke a saved session; credentials retained: '' @ e), w1)
             | (Inr _, w1) \<Rightarrow> revoke_reset_sessions client c base sts w1))"

section \<open>Deletion\<close>

text \<open>What a deletion ends with: done, already gone (which the caller ignores), or a fault.\<close>

datatype outcome = Deleted | Gone | Failed string

definition skill_unchanged :: "disk \<Rightarrow> reset_target \<Rightarrow> outcome" where
  "skill_unchanged dk t =
     (case rt_skill t of
        None \<Rightarrow> Deleted
      | Some raw \<Rightarrow>
          (case read_agent_skill dk (rt_path t) of
             Inl e \<Rightarrow> Failed e
           | Inr None \<Rightarrow> Gone
           | Inr (Some now) \<Rightarrow> if now \<noteq> raw then Failed ''skill changed since the reset preview'' else Deleted))"

fun remove_members :: "string \<Rightarrow> string list \<Rightarrow> disk \<Rightarrow> outcome \<times> disk" where
  "remove_members root [] dk = (Deleted, dk)"
| "remove_members root (m # ms) dk =
     (if \<not> within_path root m then (Failed ''reset path escaped its planned directory'', dk)
      else case no_linked_path dk m of
          Inl e \<Rightarrow> (Failed e, dk)
        | Inr _ \<Rightarrow>
            (case remove_at dk (path_parts m) of
               Removed dk' \<Rightarrow> remove_members root ms dk'
             | Missing \<Rightarrow> remove_members root ms dk
             | Refused e \<Rightarrow> (Failed e, dk)))"

definition remove_reset_target :: "reset_target \<Rightarrow> disk \<Rightarrow> outcome \<times> disk" where
  "remove_reset_target t dk =
     (case no_linked_path dk (rt_path t) of
        Inl e \<Rightarrow> (Failed e, dk)
      | Inr _ \<Rightarrow>
          if \<not> rt_tree t then
            (case skill_unchanged dk t of
               Deleted \<Rightarrow>
                 (case remove_at dk (path_parts (rt_path t)) of
                    Removed dk' \<Rightarrow> (Deleted, dk') | Missing \<Rightarrow> (Gone, dk) | Refused e \<Rightarrow> (Failed e, dk))
             | other \<Rightarrow> (other, dk))
          else
            (case validate_reset_tree dk (rt_path t) of
               Inl e \<Rightarrow> (Failed e, dk)
             | Inr _ \<Rightarrow>
                 if list_ex (\<lambda>ps. parts_path ps \<notin> set (rt_members t)) (subtree dk (path_parts (rt_path t)))
                 then (Failed ''new file appeared during reset'', dk)
                 else remove_members (rt_path t) (rev (rt_members t)) dk))"

definition remove_targets_step :: "string result list \<Rightarrow> string \<Rightarrow> reset_target \<Rightarrow> outcome \<times> disk \<Rightarrow> outcome \<times> disk" where
  "remove_targets_step places data t st =
     (case st of
        (Failed e, dk) \<Rightarrow> (Failed e, dk)
      | (_, dk) \<Rightarrow>
          (case validate_reset_root dk places data of
             Inl e \<Rightarrow> (Failed e, dk)
           | Inr _ \<Rightarrow> (case no_linked_path dk (rt_path t) of Inl e \<Rightarrow> (Failed e, dk) | Inr _ \<Rightarrow> remove_reset_target t dk)))"

definition remove_targets :: "string result list \<Rightarrow> string \<Rightarrow> reset_target list \<Rightarrow> disk \<Rightarrow> outcome \<times> disk" where
  "remove_targets places data ts dk = fold (remove_targets_step places data) ts (Deleted, dk)"

section \<open>The command\<close>

record reset_options =
  ro_all :: bool
  ro_dry :: bool
  ro_confirmed :: bool
  ro_keep_trust :: bool

text \<open>
  What the command finds outside the disk: the session files, the process table, whether the daemon can be
  inspected and its stopping's exit code, what others do to the disk meanwhile, the client for revocations, the
  trust store, the three edits of settings by path, and the base URL.
\<close>

record reset_run =
  rr_files :: "durable result"
  rr_files_later :: "durable result"
  rr_identify :: "int \<Rightarrow> pid_identity"
  rr_proxy_ok :: bool
  rr_proxy_down :: int
  rr_meanwhile :: "disk \<Rightarrow> disk"
  rr_client :: "unit result"
  rr_base :: string
  rr_trust :: "unit result"
  rr_edit :: "string \<Rightarrow> string option \<Rightarrow> unit result \<times> string option"

definition file_text :: "disk \<Rightarrow> string list \<Rightarrow> string option" where
  "file_text dk ps = (case lookup_node dk ps of Some (File t) \<Rightarrow> Some t | _ \<Rightarrow> None)"

definition edit_settings :: "reset_run \<Rightarrow> string \<Rightarrow> disk \<Rightarrow> disk result" where
  "edit_settings r p dk =
     (case rr_edit r p (file_text dk (path_parts p)) of
        (Inl e, _) \<Rightarrow> Inl e
      | (Inr _, None) \<Rightarrow> Inr dk
      | (Inr _, Some t) \<Rightarrow> Inr (put_node (path_parts p) (File t) dk))"

text \<open>The settings edited before a fault stay edited.\<close>

fun edit_all :: "reset_run \<Rightarrow> string list \<Rightarrow> disk \<Rightarrow> bool \<times> disk" where
  "edit_all r [] dk = (True, dk)"
| "edit_all r (p # ps) dk = (case edit_settings r p dk of Inl _ \<Rightarrow> (False, dk) | Inr dk' \<Rightarrow> edit_all r ps dk')"

definition guard_parts :: "config \<Rightarrow> string list" where
  "guard_parts cfg = path_parts (path_join [cf_data_dir cfg, ''.reset-in-progress''])"

definition check_reset_in_progress :: "config \<Rightarrow> disk \<Rightarrow> unit result" where
  "check_reset_in_progress cfg dk =
     bind_result (lstat dk (guard_parts cfg)) (\<lambda>n. fail_if (n \<noteq> None) ''Keydris reset is in progress'')"

definition make_dirs :: "string list \<Rightarrow> disk \<Rightarrow> disk" where
  "make_dirs ps dk = fold (\<lambda>qs d. if lookup_node d qs = None then put_node qs Dir d else d) (rev (ancestors ps)) dk"

text \<open>After the guard is up: the daemon, the sessions, trust, settings, and then the deletions.\<close>

definition reset_guarded :: "reset_host \<Rightarrow> reset_run \<Rightarrow> reset_options \<Rightarrow> config \<Rightarrow> reset_target list \<Rightarrow> disk \<times> world \<Rightarrow> int \<times> disk \<times> world" where
  "reset_guarded h r opt cfg ts st =
     (case st of (dk, w) \<Rightarrow>
      case reset_sessions (rr_identify r) (rr_files r) of Inl _ \<Rightarrow> (1, dk, w)
      | Inr _ \<Rightarrow>
        if \<not> rr_proxy_ok r then (1, dk, w)
        else let dk1 = rr_meanwhile r dk in
          if rr_proxy_down r \<noteq> 0 then (rr_proxy_down r, dk1, w)
          else case plan_reset h cfg (ro_all opt) dk1 of Inl _ \<Rightarrow> (1, dk1, w)
          | Inr _ \<Rightarrow>
            (case reset_sessions (rr_identify r) (rr_files_later r) of Inl _ \<Rightarrow> (1, dk1, w)
             | Inr sts \<Rightarrow>
               (case revoke_reset_sessions (rr_client r) (with_timeout None (30 * second) w) (rr_base r) sts w of
                  (Inl _, w1) \<Rightarrow> (1, dk1, w1)
                | (Inr _, w1) \<Rightarrow>
                  if \<not> ro_keep_trust opt \<and> \<not> is_ok (rr_trust r) then (1, dk1, w1)
                  else case edit_all r (settings_paths cfg) dk1 of
                    (False, dk2) \<Rightarrow> (1, dk2, w1)
                  | (True, dk2) \<Rightarrow>
                    (case remove_targets [rh_home h, rh_dir h, rh_executable h] (cf_data_dir cfg) ts dk2 of
                       (Failed _, dk3) \<Rightarrow> (1, dk3, w1)
                     | (_, dk3) \<Rightarrow>
                         (0, (if within_path (cf_data_dir cfg) (cf_identity_dir cfg)
                              then case remove_at dk3 (path_parts (cf_identity_dir cfg)) of Removed dk4 \<Rightarrow> dk4 | _ \<Rightarrow> dk3
                              else dk3), w1)))))"

definition run_reset :: "reset_host \<Rightarrow> reset_run \<Rightarrow> reset_options \<Rightarrow> config \<Rightarrow> disk \<Rightarrow> world \<Rightarrow> int \<times> disk \<times> world" where
  "run_reset h r opt cfg dk w =
     (case plan_reset h cfg (ro_all opt) dk of
        Inl _ \<Rightarrow> (1, dk, w)
      | Inr ts \<Rightarrow>
          if ro_dry opt then (0, dk, w)
          else if \<not> ro_confirmed opt then (1, dk, w)
          else let dk1 = make_dirs (path_parts (cf_data_dir cfg)) dk in
            if lookup_node dk1 (guard_parts cfg) \<noteq> None then (1, dk1, w)
            else case reset_guarded h r opt cfg ts (put_node (guard_parts cfg) (File ''PID'') dk1, w) of
              (code, dk2, w2) \<Rightarrow> (code, delete_node (guard_parts cfg) dk2, w2))"

section \<open>What a deletion can touch\<close>

definition planned_parts :: "reset_target \<Rightarrow> string list list" where
  "planned_parts t = path_parts (rt_path t) # map path_parts (rt_members t)"

definition shown :: "reset_target list \<Rightarrow> string list \<Rightarrow> bool" where
  "shown ts q \<longleftrightarrow> list_ex (\<lambda>t. q \<in> set (planned_parts t)) ts"

lemma lookup_delete [simp]: "lookup_node (delete_node ps dk) q = (if q = ps then None else lookup_node dk q)"
proof -
  have "map_of (filter (\<lambda>(qs, _). qs \<noteq> ps) xs) q = (if q = ps then None else map_of xs q)" for xs :: "(string list \<times> disk_node) list"
    by (induction xs) auto
  then show ?thesis by (simp add: lookup_node_def delete_node_def)
qed

lemma lookup_put [simp]: "lookup_node (put_node ps n dk) q = (if q = ps then Some n else lookup_node dk q)"
  by (simp add: lookup_node_def put_node_def)

lemma remove_at_lookup: "remove_at dk ps = Removed dk' \<Longrightarrow> q \<noteq> ps \<Longrightarrow> lookup_node dk' q = lookup_node dk q"
  by (auto simp: remove_at_def split: option.splits if_splits)

lemma remove_members_lookup:
  "q \<notin> path_parts ` set ms \<Longrightarrow> lookup_node (snd (remove_members root ms dk)) q = lookup_node dk q"
  by (induction root ms dk rule: remove_members.induct) (auto split: sum.splits removal.splits dest: remove_at_lookup)

lemma remove_target_lookup:
  "q \<notin> set (planned_parts t) \<Longrightarrow> lookup_node (snd (remove_reset_target t dk)) q = lookup_node dk q"
  using remove_members_lookup [of q "rev (rt_members t)"]
  by (auto simp: remove_reset_target_def planned_parts_def split: sum.splits outcome.splits removal.splits dest: remove_at_lookup)

lemma remove_step_lookup:
  "q \<notin> set (planned_parts t) \<Longrightarrow> lookup_node (snd (remove_targets_step places data t st)) q = lookup_node (snd st) q"
  using remove_target_lookup [of q t] by (auto simp: remove_targets_step_def split: prod.splits outcome.splits sum.splits)

lemma remove_targets_lookup:
  "\<not> shown ts q \<Longrightarrow> lookup_node (snd (remove_targets places data ts dk)) q = lookup_node dk q"
proof -
  have "\<not> shown ts q \<Longrightarrow> lookup_node (snd (fold (remove_targets_step places data) ts st)) q = lookup_node (snd st) q" for st
    by (induction ts arbitrary: st) (auto simp: shown_def remove_step_lookup)
  then show "\<not> shown ts q \<Longrightarrow> ?thesis" by (simp add: remove_targets_def)
qed

section \<open>What a plan can hold\<close>

definition sound_target :: "reset_target \<Rightarrow> bool" where
  "sound_target t \<longleftrightarrow> is_abs (rt_path t) \<and> rt_skill t = None
     \<and> list_all (\<lambda>m. rt_tree t \<and> is_abs m \<and> within_path (rt_path t) m) (rt_members t)"

lemma linked_abs: "no_linked_path dk p = Inr u \<Longrightarrow> is_abs p"
  by (auto simp: no_linked_path_def split: if_splits)

lemma parts_path_abs: "is_abs (parts_path ps)"
  by (simp add: parts_path_def is_abs_def)

lemma tree_members_within:
  assumes "validate_reset_tree dk p = Inr u" and "lstat dk (path_parts p) = Inr (Some n)"
  shows "list_all (\<lambda>m. is_abs m \<and> within_path p m) (map parts_path (subtree dk (path_parts p)))"
proof -
  from assms have "is_ok (for_each (tree_member_ok dk p) (subtree dk (path_parts p)) ())"
    by (auto simp: validate_reset_tree_def is_ok_iff)
  then show ?thesis
    by (auto simp: for_each_checks list_all_iff tree_member_ok_def parts_path_abs split: if_splits)
qed

lemma add_target_sound:
  assumes "add_target dk data item ts = Inr ts'" and "list_all sound_target ts"
  shows "list_all sound_target ts'"
proof -
  obtain p0 tree where item: "item = (p0, tree)" by (cases item)
  have single: "is_abs q \<Longrightarrow> sound_target (file_target q)" for q by (simp add: sound_target_def file_target_def)
  let ?p = "path_clean p0"
  from assms(1) obtain u n where lin: "no_linked_path dk ?p = Inr u" and n: "lstat dk (path_parts ?p) = Inr n"
    and rest: "(case n of
            None \<Rightarrow> Inr (if path_equal ?p (path_join [data, ''proxy.lock'']) then ts @ [file_target ?p] else ts)
          | Some nd \<Rightarrow>
              if \<not> tree \<and> nd = Dir then Inl ''expected a file, got directory''
              else bind_result (if tree then validate_reset_tree dk ?p else Inr ()) (\<lambda>_.
                if list_ex (\<lambda>t. covers t ?p) ts then Inr ts
                else Inr (ts @ [\<lparr>rt_path = ?p, rt_tree = tree,
                  rt_members = (if tree then map parts_path (subtree dk (path_parts ?p)) else []), rt_skill = None\<rparr>]))) = Inr ts'"
    unfolding add_target_def item by (auto simp: Let_def split: if_splits)
  have abs: "is_abs ?p" using lin by (rule linked_abs)
  show ?thesis
  proof (cases n)
    case None
    with rest assms(2) single [OF abs] show ?thesis by (auto split: if_splits)
  next
    case (Some nd)
    with rest have new: "ts' = ts \<or> ts' = ts @ [\<lparr>rt_path = ?p, rt_tree = tree,
        rt_members = (if tree then map parts_path (subtree dk (path_parts ?p)) else []), rt_skill = None\<rparr>]"
      and tr: "tree \<Longrightarrow> \<exists>u. validate_reset_tree dk ?p = Inr u"
      by (auto split: if_splits)
    have "tree \<Longrightarrow> list_all (\<lambda>m. is_abs m \<and> within_path ?p m) (map parts_path (subtree dk (path_parts ?p)))"
      using tr tree_members_within [of dk ?p] n Some by blast
    with new assms(2) abs show ?thesis by (auto simp: sound_target_def list_all_iff)
  qed
qed

lemma covers_planned:
  assumes "sound_target t" and "is_abs p" and "path_parts p \<in> set (planned_parts t)"
  shows "covers t p"
proof -
  from assms(1) have t: "is_abs (rt_path t)" by (simp add: sound_target_def)
  show ?thesis
  proof (cases "path_parts p = path_parts (rt_path t)")
    case True
    then show ?thesis using clean_eq_parts [OF t assms(2)] by (simp add: covers_def path_equal_def)
  next
    case False
    with assms(3) obtain m where m: "m \<in> set (rt_members t)" "path_parts m = path_parts p" by (auto simp: planned_parts_def)
    with assms(1) have w: "rt_tree t" "is_abs m" "within_path (rt_path t) m" by (auto simp: sound_target_def list_all_iff)
    with m(2) within_abs [OF t w(2)] within_abs [OF t assms(2)] show ?thesis by (simp add: covers_def)
  qed
qed

lemma plan_targets:
  assumes "plan_reset h cfg all dk = Inr ts" and "t \<in> set ts"
  shows "(sound_target t \<and> list_all (\<lambda>p. \<not> covers t p) (protected_paths h cfg))
     \<or> (rt_path t \<in> set (skill_paths h cfg) \<and> rt_members t = [])"
proof -
  from assms(1) obtain items targets where
    targets: "for_each (add_target dk (cf_data_dir cfg)) items [] = Inr targets"
    and allowed: "is_ok (for_each (target_allowed h cfg) targets ())"
    and ts: "ts = sort_on rt_path (targets @ List.map_filter (skill_target h dk) (skill_paths h cfg))"
    by (auto simp: plan_reset_def is_ok_iff)
  have sound: "list_all sound_target targets"
    by (rule for_each_invariant [OF targets, where P = "list_all sound_target"]) (auto intro: add_target_sound)
  show ?thesis
  proof (cases "t \<in> set targets")
    case True
    with allowed have "is_ok (target_allowed h cfg t ())" by (simp add: for_each_checks list_all_iff)
    then have "\<not> list_ex (covers t) (protected_paths h cfg)"
      by (auto simp: target_allowed_def protected_paths_def is_ok_iff split: if_splits)
    with True sound show ?thesis by (auto simp: list_all_iff list_ex_iff)
  next
    case False
    with assms(2) ts obtain p where "p \<in> set (skill_paths h cfg)" "skill_target h dk p = Some t"
      by (auto simp: map_filter_def)
    then show ?thesis by (auto simp: skill_target_def file_target_def split: sum.splits option.splits if_splits)
  qed
qed

lemma protected_not_shown:
  assumes "plan_reset h cfg all dk = Inr ts" and "p \<in> set (protected_paths h cfg)" and "is_abs p"
    and "path_parts p \<notin> path_parts ` set (skill_paths h cfg)"
  shows "\<not> shown ts (path_parts p)"
proof
  assume "shown ts (path_parts p)"
  then obtain t where t: "t \<in> set ts" "path_parts p \<in> set (planned_parts t)" by (auto simp: shown_def list_ex_iff)
  from plan_targets [OF assms(1) t(1)] show False
  proof
    assume "sound_target t \<and> list_all (\<lambda>p. \<not> covers t p) (protected_paths h cfg)"
    with covers_planned [of t p] assms(2,3) t(2) show False by (auto simp: list_all_iff)
  next
    assume "rt_path t \<in> set (skill_paths h cfg) \<and> rt_members t = []"
    with t(2) assms(4) show False by (auto simp: planned_parts_def)
  qed
qed

section \<open>The whole command\<close>

lemma edit_one_lookup: "edit_settings r p dk = Inr dk' \<Longrightarrow> q \<noteq> path_parts p \<Longrightarrow> lookup_node dk' q = lookup_node dk q"
  "edit_settings r p dk = Inr dk' \<Longrightarrow> lookup_node dk q \<noteq> None \<Longrightarrow> lookup_node dk' q \<noteq> None"
  by (auto simp: edit_settings_def split: prod.splits sum.splits option.splits)

lemma edit_all_lookup: "q \<notin> path_parts ` set ps \<Longrightarrow> lookup_node (snd (edit_all r ps dk)) q = lookup_node dk q"
  by (induction r ps dk rule: edit_all.induct) (auto split: sum.splits simp: edit_one_lookup(1))

lemma edit_all_keeps: "lookup_node dk q \<noteq> None \<Longrightarrow> lookup_node (snd (edit_all r ps dk)) q \<noteq> None"
proof (induction r ps dk rule: edit_all.induct)
  case (2 r p ps dk)
  then show ?case using edit_one_lookup(2) [of r p dk _ q] by (simp split: sum.split)
qed simp

lemma make_dirs_lookup:
  "lookup_node (make_dirs ps dk) q =
     (if lookup_node dk q = None \<and> q \<in> set (ancestors ps) then Some Dir else lookup_node dk q)"
proof -
  have "lookup_node (fold (\<lambda>qs d. if lookup_node d qs = None then put_node qs Dir d else d) qss dk) q
      = (if lookup_node dk q = None \<and> q \<in> set qss then Some Dir else lookup_node dk q)" for qss
    by (induction qss arbitrary: dk) auto
  then show ?thesis by (simp add: make_dirs_def)
qed

text \<open>A session is settled when it has expired or its revocation was confirmed during the run.\<close>

definition revoked_or_expired :: "string \<Rightarrow> world \<Rightarrow> world \<Rightarrow> session_state \<Rightarrow> bool" where
  "revoked_or_expired base w w1 st \<longleftrightarrow> session_expired (wd_now w1) st
     \<or> (\<exists>c wa wb. revoke_kit_session c base (st_ulid st) wa = (Inr (), wb) \<and> wd_calls w \<le> wd_calls wa \<and> wd_calls wb \<le> wd_calls w1)"

definition sessions_settled :: "reset_run \<Rightarrow> world \<Rightarrow> world \<Rightarrow> bool" where
  "sessions_settled r w w1 \<longleftrightarrow> (\<exists>sts. reset_sessions (rr_identify r) (rr_files_later r) = Inr sts
     \<and> list_all (revoked_or_expired (rr_base r) w w1) sts)"

lemma revoke_grows:
  assumes "revoke_kit_session c base ulid w = (x, w1)"
  shows "wd_calls w \<le> wd_calls w1 \<and> wd_now w \<le> wd_now w1"
  using safe_revoke_session [of w base c ulid] assms by (auto simp: safe_io_def evolves_def)

lemma revoked_later:
  "revoked_or_expired base wa wb st \<Longrightarrow> wd_calls w \<le> wd_calls wa \<Longrightarrow> wd_calls wb \<le> wd_calls w1 \<Longrightarrow> wd_now wb \<le> wd_now w1
     \<Longrightarrow> revoked_or_expired base w w1 st"
  by (auto simp: revoked_or_expired_def session_expired_def split: option.splits) (meson order_trans)+

lemma revoke_all:
  "revoke_reset_sessions client c base sts w = (Inr u, w1) \<Longrightarrow>
     list_all (revoked_or_expired base w w1) sts \<and> wd_calls w \<le> wd_calls w1 \<and> wd_now w \<le> wd_now w1"
proof (induction client c base sts w rule: revoke_reset_sessions.induct)
  case (2 client c base st sts w)
  show ?case
  proof (cases "session_expired (wd_now w) st")
    case True
    with 2 have ih: "list_all (revoked_or_expired base w w1) sts" "wd_calls w \<le> wd_calls w1" "wd_now w \<le> wd_now w1" by simp_all
    moreover have "revoked_or_expired base w w st" using True by (simp add: revoked_or_expired_def)
    ultimately show ?thesis using revoked_later [of base w w st w w1] by simp
  next
    case False
    with 2(3) obtain x w2 where client: "client = Inr x"
      and rv: "revoke_kit_session (with_timeout c (5 * second) w) base (st_ulid st) w = (Inr (), w2)"
      and rest: "revoke_reset_sessions client c base sts w2 = (Inr u, w1)"
      by (auto split: sum.splits prod.splits)
    from 2(2) [OF False client rv [symmetric] refl rest]
    have ih: "list_all (revoked_or_expired base w2 w1) sts" "wd_calls w2 \<le> wd_calls w1" "wd_now w2 \<le> wd_now w1" by simp_all
    note grow = revoke_grows [OF rv]
    have "list_all (revoked_or_expired base w w1) sts"
      using ih grow by (auto simp: list_all_iff intro: revoked_later)
    moreover have "revoked_or_expired base w w1 st" using rv ih(2) by (auto simp: revoked_or_expired_def)
    ultimately show ?thesis using ih grow by simp
  qed
qed simp

lemma guarded_cases:
  assumes "reset_guarded h r opt cfg ts (dk, w) = (code, dk', w')"
  defines "dk2 \<equiv> snd (edit_all r (settings_paths cfg) (rr_meanwhile r dk))"
  defines "dk3 \<equiv> snd (remove_targets [rh_home h, rh_dir h, rh_executable h] (cf_data_dir cfg) ts dk2)"
  shows "dk' = dk \<or> dk' = rr_meanwhile r dk
    \<or> sessions_settled r w w' \<and> (dk' = dk2 \<or> dk' = dk3 \<or> remove_at dk3 (path_parts (cf_identity_dir cfg)) = Removed dk')"
proof (cases "is_ok (reset_sessions (rr_identify r) (rr_files r)) \<and> rr_proxy_ok r \<and> rr_proxy_down r = 0
      \<and> is_ok (plan_reset h cfg (ro_all opt) (rr_meanwhile r dk)) \<and> is_ok (reset_sessions (rr_identify r) (rr_files_later r))")
  case False
  with assms(1) show ?thesis by (auto simp: reset_guarded_def Let_def split: sum.splits if_splits)
next
  case True
  let ?mid = "rr_meanwhile r dk"
  from True obtain sts sts0 ts1 where ok: "reset_sessions (rr_identify r) (rr_files r) = Inr sts0"
      "plan_reset h cfg (ro_all opt) ?mid = Inr ts1" "reset_sessions (rr_identify r) (rr_files_later r) = Inr sts"
      "rr_proxy_ok r" "rr_proxy_down r = 0"
    by (auto simp: is_ok_iff)
  obtain x w1 where rv: "revoke_reset_sessions (rr_client r) (with_timeout None (30 * second) w) (rr_base r) sts w = (x, w1)"
    by (metis surj_pair)
  show ?thesis
  proof (cases x)
    case (Inl e)
    with assms(1) ok rv show ?thesis by (auto simp: reset_guarded_def Let_def)
  next
    case (Inr u)
    from revoke_all [of "rr_client r" "with_timeout None (30 * second) w" "rr_base r" sts w u w1] rv Inr ok(3)
    have settled: "sessions_settled r w w1" by (auto simp: sessions_settled_def)
    obtain done2 dk2' where ed: "edit_all r (settings_paths cfg) ?mid = (done2, dk2')" by (metis surj_pair)
    obtain out dk3' where rm: "remove_targets [rh_home h, rh_dir h, rh_executable h] (cf_data_dir cfg) ts dk2' = (out, dk3')"
      by (metis surj_pair)
    have eqs: "dk2 = dk2'" "dk3 = dk3'" by (simp_all add: dk2_def dk3_def ed rm)
    from assms(1) ok rv Inr ed rm settled show ?thesis unfolding eqs
      by (cases done2; cases out)
        (auto simp: reset_guarded_def Let_def split: if_splits removal.splits)
  qed
qed

section \<open>A run\<close>

definition sample_config :: config where
  "sample_config = \<lparr>
      cf_control_addr = [], cf_control_url = [], cf_control_mtls_addr = [], cf_control_mtls_url = [],
      cf_mtls_server_ca = [], cf_proxy_port = 0, cf_data_plane = [], cf_backend_addr = [], cf_backend_port = 0,
      cf_backend_tls = False, cf_proxy_uid = 0, cf_cred_header = [], cf_access_ttl_seconds = 0,
      cf_backend_audience = [], cf_trust_domain = [], cf_data_dir = ''/d'', cf_signing_key_path = ''/d/g'',
      cf_ledger_path = ''/d/l'', cf_grants_seed_path = [], cf_svid_ttl_seconds = 0, cf_blueprint = [],
      cf_session_socket = ''/d/s'', cf_session_auth_file = ''/d/a'', cf_policy_id = [], cf_agent_id = [],
      cf_ca_path = ''/d/c'', cf_ca_key_path = ''/d/k'', cf_ca_bundle_path = ''/d/b'',
      cf_claude_settings_path = ''/h/s'', cf_claude_mcp_config_path = ''/h/m'', cf_codex_hooks_path = ''/h/k'',
      cf_codex_config_path = [], cf_http_proxy_port = 0, cf_allowed_domains = [], cf_managed_mode = [],
      cf_managed_destinations = [], cf_managed_scope_error = None, cf_allow_sole_fallback = False,
      cf_peer_verify = [], cf_cost_metering = False, cf_metered_origin_overrides = [], cf_client_ca_path = ''/d/e'',
      cf_client_ca_key_path = ''/d/f'', cf_identity_dir = ''/d/i'', cf_identity_ttl_seconds = 0, cf_oidc_issuer = [],
      cf_oauth_authorize_url = [], cf_oauth_token_url = [], cf_oauth_client_id = [], cf_oauth_client_secret = [],
      cf_oauth_scopes = [], cf_oauth_redirect_url = []\<rparr>"

definition sample_host :: reset_host where
  "sample_host = \<lparr>rh_platform = Inr (), rh_platform_path = \<lambda>_ _. Inr (), rh_home = Inr ''/h'', rh_dir = Inr ''/w'',
     rh_executable = Inr ''/x'', rh_managed_skill = \<lambda>_. False\<rparr>"

definition sample_run :: reset_run where
  "sample_run = \<lparr>rr_files = Inr [], rr_files_later = Inr [], rr_identify = \<lambda>_. Not_Running, rr_proxy_ok = True,
     rr_proxy_down = 0, rr_meanwhile = id, rr_client = Inr (), rr_base = [], rr_trust = Inr (), rr_edit = \<lambda>_ _. (Inr (), None)\<rparr>"

definition sample_options :: reset_options where
  "sample_options = \<lparr>ro_all = False, ro_dry = False, ro_confirmed = True, ro_keep_trust = True\<rparr>"

definition sample_disk :: disk where
  "sample_disk = \<lparr>dk_nodes = [([], Dir), ([''d''], Dir), ([''d'', ''c''], File ''ca''), ([''h''], Dir), ([''h'', ''s''], File ''{}'')],
     dk_lstat_fault = \<lambda>_. None, dk_remove_fault = \<lambda>_. None\<rparr>"

section \<open>Properties\<close>

text \<open>The disk when the guard is up, and when the daemon has stopped.\<close>

definition guarded_disk :: "config \<Rightarrow> disk \<Rightarrow> disk" where
  "guarded_disk cfg dk = put_node (guard_parts cfg) (File ''PID'') (make_dirs (path_parts (cf_data_dir cfg)) dk)"

lemma run_cases:
  assumes "run_reset h r opt cfg dk w = (code, dk', w')"
    and "q \<notin> set (ancestors (path_parts (cf_data_dir cfg)))" and "q \<noteq> guard_parts cfg"
  shows "lookup_node dk' q = lookup_node dk q
    \<or> (\<not> ro_dry opt \<and> ro_confirmed opt
       \<and> (lookup_node dk' q = lookup_node (rr_meanwhile r (guarded_disk cfg dk)) q
          \<or> (sessions_settled r w w'
             \<and> (\<exists>ts. plan_reset h cfg (ro_all opt) dk = Inr ts
                \<and> (let dk2 = snd (edit_all r (settings_paths cfg) (rr_meanwhile r (guarded_disk cfg dk)));
                       dk3 = snd (remove_targets [rh_home h, rh_dir h, rh_executable h] (cf_data_dir cfg) ts dk2)
                   in lookup_node dk' q = lookup_node dk2 q \<or> lookup_node dk' q = lookup_node dk3 q
                      \<or> q = path_parts (cf_identity_dir cfg))))))"
proof (cases "plan_reset h cfg (ro_all opt) dk")
  case (Inl e)
  with assms(1) show ?thesis by (simp add: run_reset_def)
next
  case (Inr ts)
  let ?d1 = "make_dirs (path_parts (cf_data_dir cfg)) dk" and ?g = "guarded_disk cfg dk"
  have d1: "lookup_node ?d1 q = lookup_node dk q" "lookup_node ?g q = lookup_node dk q"
    using assms(2,3) by (auto simp: guarded_disk_def make_dirs_lookup)
  show ?thesis
  proof (cases "ro_dry opt \<or> \<not> ro_confirmed opt \<or> lookup_node ?d1 (guard_parts cfg) \<noteq> None")
    case True
    with assms(1) Inr d1 show ?thesis by (auto simp: run_reset_def Let_def split: if_splits)
  next
    case False
    obtain c dk2 w2 where g: "reset_guarded h r opt cfg ts (?g, w) = (c, dk2, w2)" by (metis surj_pair)
    with assms(1) Inr False have res: "dk' = delete_node (guard_parts cfg) dk2" "w' = w2"
      by (auto simp: run_reset_def Let_def guarded_disk_def)
    have q: "lookup_node dk' q = lookup_node dk2 q" using res(1) assms(3) by simp
    let ?e = "snd (edit_all r (settings_paths cfg) (rr_meanwhile r ?g))"
    let ?f = "snd (remove_targets [rh_home h, rh_dir h, rh_executable h] (cf_data_dir cfg) ts ?e)"
    from guarded_cases [OF g]
    consider "dk2 = ?g" | "dk2 = rr_meanwhile r ?g"
      | "sessions_settled r w w2" "dk2 = ?e \<or> dk2 = ?f \<or> remove_at ?f (path_parts (cf_identity_dir cfg)) = Removed dk2" by blast
    then show ?thesis
    proof cases
      case 3
      have "remove_at ?f (path_parts (cf_identity_dir cfg)) = Removed dk2 \<Longrightarrow> q \<noteq> path_parts (cf_identity_dir cfg) \<Longrightarrow>
          lookup_node dk2 q = lookup_node ?f q" by (rule remove_at_lookup)
      with 3(2) have "lookup_node dk2 q = lookup_node ?e q \<or> lookup_node dk2 q = lookup_node ?f q \<or> q = path_parts (cf_identity_dir cfg)"
        by blast
      with q have "lookup_node dk' q = lookup_node ?e q \<or> lookup_node dk' q = lookup_node ?f q \<or> q = path_parts (cf_identity_dir cfg)"
        by simp
      with 3(1) Inr False res(2) show ?thesis by (simp add: Let_def)
    qed (use q d1 False in simp_all)
  qed
qed

text \<open>
  C26. Reset deletes nothing that it has not shown. Whatever other processes do to the disk while the daemon stops,
  an entry that differs afterwards (the guard and missing ancestors of the data directory apart) was changed by
  them, or: the reset was confirmed and no dry run, every saved session had expired or its revocation was confirmed
  in this run, and the entry is one of the edited settings, the identity directory, or was in the plan as shown.
\<close>

theorem reset_deletes_only_shown:
  assumes "run_reset h r opt cfg dk w = (code, dk', w')" and "lookup_node dk' q \<noteq> lookup_node dk q"
    and "q \<notin> set (ancestors (path_parts (cf_data_dir cfg)))" and "q \<noteq> guard_parts cfg"
  shows "\<not> ro_dry opt \<and> ro_confirmed opt
    \<and> (lookup_node dk' q = lookup_node (rr_meanwhile r (guarded_disk cfg dk)) q
       \<or> sessions_settled r w w'
         \<and> (q \<in> path_parts ` set (settings_paths cfg) \<or> q = path_parts (cf_identity_dir cfg)
            \<or> (\<exists>ts. plan_reset h cfg (ro_all opt) dk = Inr ts \<and> shown ts q)))"
proof -
  let ?m = "rr_meanwhile r (guarded_disk cfg dk)"
  have e: "q \<notin> path_parts ` set (settings_paths cfg) \<Longrightarrow> lookup_node (snd (edit_all r (settings_paths cfg) ?m)) q = lookup_node ?m q"
    by (rule edit_all_lookup)
  from run_cases [OF assms(1,3,4)] assms(2) e remove_targets_lookup [of _ q] show ?thesis
    by (auto simp: Let_def)
qed

lemma reset_deletes_only_shown_witness:
  "\<exists>ts. plan_reset sample_host sample_config False sample_disk = Inr ts \<and> shown ts [''d'', ''c'']"
proof -
  obtain code dk' w' where run: "run_reset sample_host sample_run sample_options sample_config sample_disk approving_world = (code, dk', w')"
    by (metis surj_pair)
  have "lookup_node (fst (snd (run_reset sample_host sample_run sample_options sample_config sample_disk approving_world))) [''d'', ''c''] = None"
    by code_simp
  then have gone: "lookup_node dk' [''d'', ''c''] = None" by (simp add: run)
  have f: "lookup_node sample_disk [''d'', ''c''] = Some (File ''ca'')" "[''d'', ''c''] \<notin> set (ancestors (path_parts (cf_data_dir sample_config)))"
    "[''d'', ''c''] \<noteq> guard_parts sample_config" "[''d'', ''c''] \<notin> set (map path_parts (settings_paths sample_config))"
    "[''d'', ''c''] \<noteq> path_parts (cf_identity_dir sample_config)" "\<not> ro_all sample_options"
    "lookup_node (rr_meanwhile sample_run (guarded_disk sample_config sample_disk)) [''d'', ''c''] = Some (File ''ca'')" by code_simp+
  from reset_deletes_only_shown [OF run _ f(2,3)] gone f show ?thesis by auto
qed

text \<open>
  C27. Reset never deletes the settings it edits, nor the user's \<^verbatim>\<open>.keydris.toml\<close>: they are there afterwards
  if they were there before and others have not removed them.
\<close>

theorem reset_keeps_settings:
  assumes "run_reset h r opt cfg dk w = (code, dk', w')"
    and "p \<in> set (protected_paths h cfg)" and "is_abs p" and "path_parts p \<notin> path_parts ` set (skill_paths h cfg)"
    and "path_parts p \<notin> set (ancestors (path_parts (cf_data_dir cfg)))" and "path_parts p \<noteq> guard_parts cfg"
    and "path_parts p \<noteq> path_parts (cf_identity_dir cfg)"
    and "lookup_node dk (path_parts p) \<noteq> None" and "lookup_node (rr_meanwhile r (guarded_disk cfg dk)) (path_parts p) \<noteq> None"
  shows "lookup_node dk' (path_parts p) \<noteq> None"
proof -
  let ?q = "path_parts p" and ?m = "rr_meanwhile r (guarded_disk cfg dk)"
  have e: "lookup_node (snd (edit_all r (settings_paths cfg) ?m)) ?q \<noteq> None" using assms(9) by (rule edit_all_keeps)
  have "lookup_node (snd (remove_targets places data ts d)) ?q = lookup_node d ?q"
    if "plan_reset h cfg (ro_all opt) dk = Inr ts" for places data ts d
    using protected_not_shown [OF that assms(2-4)] by (rule remove_targets_lookup)
  with run_cases [OF assms(1,5,6)] e assms(7-9) show ?thesis by (auto simp: Let_def)
qed

lemma reset_keeps_settings_witness:
  "lookup_node (fst (snd (run_reset sample_host sample_run sample_options sample_config sample_disk approving_world))) [''h'', ''s''] \<noteq> None"
proof -
  obtain code dk' w' where run: "run_reset sample_host sample_run sample_options sample_config sample_disk approving_world = (code, dk', w')"
    by (metis surj_pair)
  have parts: "path_parts ''/h/s'' = [''h'', ''s'']" by code_simp
  have f: "''/h/s'' \<in> set (protected_paths sample_host sample_config)" "is_abs ''/h/s''"
    "path_parts ''/h/s'' \<notin> set (map path_parts (skill_paths sample_host sample_config))"
    "path_parts ''/h/s'' \<notin> set (ancestors (path_parts (cf_data_dir sample_config)))" "path_parts ''/h/s'' \<noteq> guard_parts sample_config"
    "path_parts ''/h/s'' \<noteq> path_parts (cf_identity_dir sample_config)" "lookup_node sample_disk (path_parts ''/h/s'') \<noteq> None"
    "lookup_node (rr_meanwhile sample_run (guarded_disk sample_config sample_disk)) (path_parts ''/h/s'') \<noteq> None" by code_simp+
  from reset_keeps_settings [OF run f(1,2) _ f(4-8)] f(3) show ?thesis by (simp add: run parts)
qed

end
