(* ===== verification/Spec2Isabelle.thy ===== *)
theory Spec2Isabelle
  imports Keydris_Prelude Strconv Go_Json Wire_Json Go_Net Runtime_Routes Go_Time Responses
    Runtime_Client Go_Http Flow Router Registry Proxy_Scope
    Meter_Origins Sandbox_Proxy Authz Evidence Decision_Audit Daemon
    Meter_Json Meter_Extract Usage_Meter Meter_Connect Session_Sock Session_Renew Session_Life
    Session_Hook Pre_Tool Codex_Config Codex_Twice Hook_Command Claude_Settings Codex_Launch Session_Entry Claude_Desktop
    Go_Path Config Claude_Mcp Mcp_Inventory Reset
begin

text \<open>
  A verification development of the Keydris CLI, the program that puts coding agents under the policy of a
  control plane.

  \<^bold>\<open>The program.\<close> Three processes work together. The command line (\<^verbatim>\<open>src/internal/cli\<close>) configures an agent
  (Claude Code, Codex, Claude Desktop), starts it in a session, and runs as its hook. The daemon
  (\<^verbatim>\<open>src/internal/node\<close>) is a forward proxy: it terminates the TLS of governed origins, turns each request
  into a flow, asks for a decision, and forwards, relays or rejects. The control plane is a service; its
  protocol is \<^verbatim>\<open>src/internal/runtimecontract\<close>. A session enters through the hook (\<open>Session_Entry\<close>,
  \<open>Session_Hook\<close>), is registered on the daemon's socket (\<open>Session_Sock\<close>, \<open>Registry\<close>), kept alive by the renewal
  loop (\<open>Session_Renew\<close>), found again by the proxy from the handle on each connection (\<open>Sandbox_Proxy\<close>), and
  then carries the routes that \<open>Daemon\<close> and \<open>Router\<close> decide by.

  \<^bold>\<open>Conventions.\<close> A Go string is its bytes, a \<open>string\<close>. A function that may fail returns \<open>'a result\<close>, an error
  text or a value; \<open>None\<close> stands for an absent value, a panic (\<open>Meter_Json\<close>, where it is excluded by a theorem) or
  a loop that never ends (\<open>Runtime_Client\<close>, \<open>Router\<close>, where it is excluded too). Times are integers, in nanoseconds unless a name says
  otherwise. Integers are unbounded where the source bounds them before use; the counters of \<open>Meter_Json\<close>
  and \<open>Meter_Extract\<close> keep their bounds. What the program asks of the outside is an argument: what the control plane
  answers to the n-th request (a \<open>world\<close> with a clock and the trace of what was sent), hash functions, the
  random bytes, the codex binary, the operating system's process table, faults of the file system.
  A critical section of the source is one function; concurrency is a step relation over those.

  \<^bold>\<open>Standard library.\<close> \<open>Keydris_Prelude\<close> and \<open>Strconv\<close> (strings, bytes, strconv, hex, result plumbing),
  \<open>Go_Text\<close> (runes, counting, lines, quoting), \<open>Go_Json\<close> (encoding/json: scanner, parser, decoder tokens, struct decoding, printing), \<open>Go_Net\<close>
  (addresses and URLs), \<open>Go_Time\<close> (RFC 3339), \<open>Go_Http\<close> (headers, media types, base64, query strings).

  \<^bold>\<open>Control-plane protocol\<close>, \<^verbatim>\<open>internal/runtimecontract\<close>. \<open>Wire_Json\<close>: the strict decoding of
  \<^verbatim>\<open>wire.go\<close> and \<^verbatim>\<open>session.go\<close>; the duplicate-key walk is equivalent to a predicate on the
  parsed value. \<open>Runtime_Routes\<close>: \<^verbatim>\<open>routes.go\<close>. \<open>Responses\<close>: every other response with its validation.
  \<open>Runtime_Client\<close>: each call that sends a request, with \<^verbatim>\<open>internal/secureurl\<close>; requests go only to trusted
  URLs, and \<open>wait_for_approval\<close>, a \<open>partial_function\<close>, is shown to return by its deadline.

  \<^bold>\<open>Data plane\<close>, \<^verbatim>\<open>internal/node/dataplane\<close>, \<^verbatim>\<open>proxy\<close>, \<^verbatim>\<open>daemon\<close>. \<open>Flow\<close>: the request and
  its metadata, token injection, what is forwarded and written back. \<open>Sandbox_Proxy\<close>: from a connection to a
  flow. \<open>Router\<close>: \<^verbatim>\<open>runtime_router.go\<close>, handler by handler; its execute-then-relay handlers
  share the contract of the locale \<open>governed\<close>, interpreted on the provider and the gateway call. \<open>Daemon\<close>:
  \<open>handleFlow\<close> with the broker of \<open>Authz\<close>, the audit of \<open>Decision_Audit\<close> and the hash chain of \<open>Evidence\<close>.
  \<open>Proxy_Scope\<close>: which destinations are managed. The lemmas show that each flow gets exactly one action in
  bounded time, and that nothing governed is relayed, injected or passed through without its decision.

  \<^bold>\<open>Metering\<close>, \<^verbatim>\<open>internal/node/meter\<close>. \<open>Meter_Origins\<close>, \<open>Meter_Json\<close> (the streaming parser: total,
  bounded, insensitive to chunking), \<open>Meter_Extract\<close> (sinks and events), \<open>Usage_Meter\<close> (buffers and shipping
  under interleaving), \<open>Meter_Connect\<close> (a metered call passes unchanged).

  \<^bold>\<open>Sessions.\<close> \<open>Registry\<close>: \<^verbatim>\<open>internal/node/attest\<close>, refining a finite map (locale \<open>session_store\<close>,
  interpreted on the registry). \<open>Session_Sock\<close>, \<open>Session_Renew\<close> and their interleaving \<open>Session_Life\<close>:
  \<^verbatim>\<open>sessionsock.go\<close>, \<^verbatim>\<open>session_renew.go\<close>, \<^verbatim>\<open>sessionstate/state.go\<close>. \<open>Session_Hook\<close>,
  \<open>Session_Entry\<close>: \<^verbatim>\<open>cli/hook.go\<close>, \<^verbatim>\<open>cli/session_hook.go\<close>, \<^verbatim>\<open>cli/run.go\<close>. The lemmas
  follow a credential: a minted one is registered and stored or revoked, an ended session stays ended.

  \<^bold>\<open>Agents.\<close> \<open>Pre_Tool\<close>: the command hook of \<^verbatim>\<open>cli/pretool.go\<close>, which fails closed. \<open>Codex_Config\<close> and
  \<open>Codex_Twice\<close>: the text edit of Codex's \<^verbatim>\<open>config.toml\<close> (\<^verbatim>\<open>node/sandbox/codexmcp.go\<close>), with its
  idempotence. \<open>Hook_Command\<close>, \<open>Claude_Settings\<close>: hook commands and the settings of Claude Code
  (\<^verbatim>\<open>claudecode.go\<close>, \<^verbatim>\<open>verify.go\<close>, \<^verbatim>\<open>deconfigure.go\<close>). \<open>Claude_Mcp\<close>: its MCP servers
  (\<^verbatim>\<open>claudemcp.go\<close>), with the locale \<open>managed_servers\<close> for any series of policies. \<open>Mcp_Inventory\<close>: what is
  reported of the configured servers, none of it a credential. \<open>Codex_Launch\<close>,
  \<open>Claude_Desktop\<close>: the launches of \<^verbatim>\<open>cli/codex_hooks.go\<close>, \<^verbatim>\<open>codex_probe.go\<close>,
  \<^verbatim>\<open>claude_desktop.go\<close>.

  \<^bold>\<open>Configuration.\<close> \<open>Go_Path\<close> (path/filepath on slash-separated paths) and \<open>Config\<close>: the layered files and settings
  of \<^verbatim>\<open>internal/config\<close>, on an environment given as a list. The lemmas show which source of a setting
  wins and that a project has no say in it unless asked.

  \<open>Reset\<close> models \<^verbatim>\<open>cli/reset.go\<close> and \<^verbatim>\<open>cli/path_safety.go\<close> on a disk that others may change: what
  is deleted was shown before, never the settings, and only after the saved sessions are revoked.

  \<^bold>\<open>Bounds and fuel.\<close> No recursion is cut short by fuel without a lemma that the fuel is enough: recursions that
  are not structural have a \<open>termination\<close> proof on the length of the unread input, the parser of \<open>Go_Json\<close> gets
  more than twice the number of its tokens (\<open>parse_fuel_enough\<close>), media type parameters one unit per byte, the walk up the process tree has the
  64 steps of the source, the session secret its twenty attempts. The command hook answers within 610 seconds
  and a flow within 630 seconds of control-plane time; both add up the timeouts of the calls made, of which
  the approval wait of at most 600 seconds is the largest.

  \<^bold>\<open>Not modelled.\<close> Sockets, TLS and X.509 (what a handshake yields is a record), OAuth login, the kernel data
  plane, the trust stores, process management, self upgrade, telemetry and terminal output. Case mapping is
  that of ASCII and the two letters that fold into it. JSON numbers keep their text where the source decodes
  them to floating point.
\<close>

end
